(* ===== verification/Prelude.thy ===== *)
theory Prelude
  imports Main "HOL-Library.Word"
begin

text \<open>
  Shared foundation of the development: the machine types of the 32-bit ARM target, the
  flat RAM, the numeral printers behind the \<^verbatim>\<open>%x\<close> and \<^verbatim>\<open>%d\<close> conversions,
  the lemma collections of the component theories and the generic contract of a state
  machine that keeps an invariant.

  Conventions used by every theory. A C \<open>char\<close> (unsigned on ARM) and a byte of RAM is
  an HOL \<open>char\<close>; \<open>u8\<close>, \<open>u16\<close>, \<open>u32\<close>, \<open>u64\<close> are words that wrap;
  \<open>ulong\<close> and \<open>size_t\<close> have 32 bits. Console output (\<^verbatim>\<open>printf\<close>,
  \<^verbatim>\<open>puts\<close>) and delays have no counterpart in the model.
\<close>

unbundle bit_operations_syntax

type_synonym u8 = "8 word"
type_synonym u16 = "16 word"
type_synonym u32 = "32 word"
type_synonym u64 = "64 word"

named_theorems httpd_defs \<open>definitions of the HTTP server that its proofs unfold\<close>
named_theorems dhcp_frame \<open>what an operation of the DHCP server leaves unchanged\<close>
named_theorems upgrade_defs \<open>definitions of the upgrade handlers that their proofs unfold\<close>

section \<open>RAM\<close>

type_synonym ram = "u32 \<Rightarrow> char"

text \<open>The \<open>n\<close> bytes at address \<open>a\<close>, and the effect of storing bytes there. Addresses wrap.\<close>

definition ram_bytes :: "ram \<Rightarrow> u32 \<Rightarrow> nat \<Rightarrow> string" where
  "ram_bytes m a n = map (\<lambda>i. m (a + of_nat i)) [0..<n]"

definition ram_write :: "ram \<Rightarrow> u32 \<Rightarrow> string \<Rightarrow> ram" where
  "ram_write m a bs = (\<lambda>x. let i = unat (x - a) in if i < length bs then bs ! i else m x)"

text \<open>Little-endian reads, as a cast of the pointer to \<open>u16 *\<close> or \<open>u32 *\<close> does.\<close>

definition ram_le16 :: "ram \<Rightarrow> u32 \<Rightarrow> u16" where
  "ram_le16 m a = of_char (m a) + 256 * of_char (m (a + 1))"

definition ram_le32 :: "ram \<Rightarrow> u32 \<Rightarrow> u32" where
  "ram_le32 m a = of_char (m a) + 2 ^ 8 * of_char (m (a + 1))
     + 2 ^ 16 * of_char (m (a + 2)) + 2 ^ 24 * of_char (m (a + 3))"

lemma length_ram_bytes [simp]: "length (ram_bytes m a n) = n"
  by (simp add: ram_bytes_def)

lemma nth_ram_bytes [simp]: "i < n \<Longrightarrow> ram_bytes m a n ! i = m (a + of_nat i)"
  by (simp add: ram_bytes_def)

lemma ram_write_Nil [simp]: "ram_write m a [] = m"
  by (simp add: ram_write_def)

lemma unat_of_nat_u32: "n < 2 ^ 32 \<Longrightarrow> unat (of_nat n :: u32) = n"
  by (simp add: unat_of_nat take_bit_eq_mod)

lemma unat_u32_less [simp]: "unat (x :: u32) < 4294967296"
proof -
  have "unat x < 2 ^ LENGTH(32)" by (rule unsigned_less)
  then show ?thesis by simp
qed

lemma unat_ucast_64: "unat (ucast (x :: u32) :: u64) = unat x"
proof -
  have "unat x < 2 ^ 64" by (rule order_less_trans [OF unat_u32_less]) simp
  then show ?thesis by (simp add: unsigned_ucast_eq take_bit_eq_mod)
qed

lemma unat_plus_small: "unat x + n < 2 ^ 32 \<Longrightarrow> unat (x + of_nat n :: u32) = unat x + n"
  by (simp add: unat_word_ariths unat_of_nat_u32)

lemma unat_of_nat_diff_wrap:
  assumes "i < n" and "n - i < 2 ^ 32"
  shows "unat (of_nat i - of_nat n :: u32) = 2 ^ 32 - (n - i)"
proof -
  define k where "k = 2 ^ 32 - (n - i)"
  have "(of_nat (k + (n - i)) :: u32) = of_nat (2 ^ 32)"
    using assms by (simp add: k_def)
  also have "(of_nat (2 ^ 32) :: u32) = 0" by simp
  finally have "(of_nat k :: u32) = - of_nat (n - i)"
    by (metis add_eq_0_iff2 of_nat_add)
  then have "(of_nat i - of_nat n :: u32) = of_nat k"
    using assms by (simp add: of_nat_diff)
  moreover have "unat (of_nat k :: u32) = k"
    using assms by (intro unat_of_nat_u32) (simp add: k_def)
  ultimately show ?thesis by (simp add: k_def)
qed

lemma ram_write_hit:
  assumes "i < length bs" and "length bs \<le> 2 ^ 32"
  shows "ram_write m a bs (a + of_nat i) = bs ! i"
proof -
  have "unat (of_nat i :: u32) = i"
    using assms by (intro unat_of_nat_u32) simp
  then show ?thesis using assms by (simp add: ram_write_def)
qed

lemma ram_write_miss: "length bs \<le> unat (x - a) \<Longrightarrow> ram_write m a bs x = m x"
  by (simp add: ram_write_def)

lemma ram_slice: "j + k \<le> n \<Longrightarrow> take k (drop j (ram_bytes m a n)) = ram_bytes m (a + of_nat j) k"
  by (rule nth_equalityI) (simp_all add: ram_bytes_def add.assoc)

text \<open>Reading back what was written, and reading around it.\<close>

lemma ram_bytes_write:
  assumes "length bs \<le> 2 ^ 32"
  shows "ram_bytes (ram_write m a bs) a (length bs) = bs"
  by (rule nth_equalityI) (use assms in \<open>simp_all add: ram_write_hit\<close>)

lemma ram_bytes_write_after:
  assumes "n + length bs \<le> 2 ^ 32"
  shows "ram_bytes (ram_write m (a + of_nat n) bs) a (n + length bs) = ram_bytes m a n @ bs"
proof (rule nth_equalityI)
  show "length (ram_bytes (ram_write m (a + of_nat n) bs) a (n + length bs))
      = length (ram_bytes m a n @ bs)" by simp
next
  fix i assume "i < length (ram_bytes (ram_write m (a + of_nat n) bs) a (n + length bs))"
  then have i: "i < n + length bs" by simp
  show "ram_bytes (ram_write m (a + of_nat n) bs) a (n + length bs) ! i
      = (ram_bytes m a n @ bs) ! i"
  proof (cases "i < n")
    case True
    have "length bs \<le> unat (a + of_nat i - (a + of_nat n))"
    proof (cases "bs = []")
      case False
      then have "n - i < 2 ^ 32"
        using assms by (cases bs) auto
      with True have "unat (of_nat i - of_nat n :: u32) = 2 ^ 32 - (n - i)"
        by (rule unat_of_nat_diff_wrap)
      then show ?thesis using assms True by simp
    qed simp
    then show ?thesis using True i by (simp add: ram_write_miss nth_append)
  next
    case False
    have "a + of_nat i = a + of_nat n + of_nat (i - n)"
      using False by (simp add: of_nat_diff)
    then show ?thesis
      using False i assms ram_write_hit [of "i - n" bs m "a + of_nat n"]
      by (simp add: nth_append)
  qed
qed

section \<open>Printing numbers\<close>

text \<open>Digits in base \<open>b\<close>, most significant first, as \<^verbatim>\<open>vsprintf\<close> emits them.\<close>

definition digit_char :: "nat \<Rightarrow> char" where
  "digit_char d = (if d < 16 then ''0123456789abcdef'' ! d else CHR ''?'')"

function digits_base :: "nat \<Rightarrow> nat \<Rightarrow> string" where
  "digits_base b n =
     (if b < 2 \<or> n < b then [digit_char n] else digits_base b (n div b) @ [digit_char (n mod b)])"
  by pat_completeness auto
termination
  by (relation "measure snd") (auto intro: div_less_dividend)

declare digits_base.simps [simp del]

definition fmt_dec :: "nat \<Rightarrow> string" where
  "fmt_dec n = digits_base 10 n"

definition fmt_hex :: "nat \<Rightarrow> string" where
  "fmt_hex n = digits_base 16 n"

definition fmt_0x :: "nat \<Rightarrow> string" where
  "fmt_0x n = ''0x'' @ fmt_hex n"

lemma digits_base_ne [simp]: "digits_base b n \<noteq> []"
  by (subst digits_base.simps) simp

section \<open>Bytes of a device and of a buffer\<close>

text \<open>A device is a function from offsets to bytes; \<open>put\<close> is \<^verbatim>\<open>memcpy\<close> into a buffer at an offset.\<close>

definition cells_read :: "(nat \<Rightarrow> 'a) \<Rightarrow> nat \<Rightarrow> nat \<Rightarrow> 'a list" where
  "cells_read m a n = map (\<lambda>i. m (a + i)) [0..<n]"

definition cells_write :: "(nat \<Rightarrow> 'a) \<Rightarrow> nat \<Rightarrow> 'a list \<Rightarrow> nat \<Rightarrow> 'a" where
  "cells_write m a bs = (\<lambda>x. if a \<le> x \<and> x < a + length bs then bs ! (x - a) else m x)"

definition put :: "'a list \<Rightarrow> nat \<Rightarrow> 'a list \<Rightarrow> 'a list" where
  "put buf off xs = take off buf @ xs @ drop (off + length xs) buf"

lemma length_put: "off + length xs \<le> length buf \<Longrightarrow> length (put buf off xs) = length buf"
  by (simp add: put_def)

lemma nth_put:
  assumes "off + length xs \<le> length buf \<or> xs = []" and "j < length buf"
  shows "put buf off xs ! j = (if off \<le> j \<and> j < off + length xs then xs ! (j - off) else buf ! j)"
  using assms by (auto simp: put_def nth_append)

lemma length_cells_read [simp]: "length (cells_read m a n) = n"
  by (simp add: cells_read_def)

lemma nth_cells_read [simp]: "i < n \<Longrightarrow> cells_read m a n ! i = m (a + i)"
  by (simp add: cells_read_def)

lemma cells_read_cong: "(\<And>i. i < n \<Longrightarrow> m (a + i) = m' (b + i)) \<Longrightarrow> cells_read m a n = cells_read m' b n"
  by (simp add: cells_read_def)

lemma take_drop_cells_read: "k + n \<le> sz \<Longrightarrow> take n (drop k (cells_read m a sz)) = cells_read m (a + k) n"
  by (rule nth_equalityI) (auto simp: add.assoc)

lemma cells_read_write: "cells_read (cells_write m a bs) a (length bs) = bs"
  by (rule nth_equalityI) (simp_all add: cells_write_def)

lemma cells_read_write_other: "a + n \<le> b \<or> b + length bs \<le> a \<Longrightarrow> cells_read (cells_write m b bs) a n = cells_read m a n"
  by (intro cells_read_cong) (auto simp: cells_write_def)

section \<open>State machines that keep an invariant\<close>

text \<open>
  The contract of a component whose handlers are driven by events: the start state
  satisfies the invariant and every event handled from a good state leads to a good state.
  What follows for whole runs is proved once here.
\<close>

locale invariant_machine =
  fixes step :: "'e \<Rightarrow> 's \<Rightarrow> 's"
    and inv :: "'s \<Rightarrow> bool"
  assumes step_inv: "inv s \<Longrightarrow> inv (step e s)"
begin

lemma run_inv: "inv s \<Longrightarrow> inv (fold step es s)"
  by (induction es arbitrary: s) (simp_all add: step_inv)

lemma run_append_inv: "inv s \<Longrightarrow> inv (fold step (es @ fs) s)"
  by (rule run_inv)

lemma run_prefix_inv: "inv s \<Longrightarrow> inv (fold step (take n es) s)"
  by (rule run_inv)

end

section \<open>Lists\<close>

lemma takeWhile_idem_not_in: "x \<notin> set xs \<Longrightarrow> takeWhile (\<lambda>c. c \<noteq> x) xs = xs"
  by (metis (mono_tags, lifting) takeWhile_eq_all_conv)

lemma nth_list_update_cases: "i < length xs \<Longrightarrow> xs[i := v] ! j = (if i = j then v else xs ! j)"
  by (simp add: nth_list_update)

end
