(* ===== verification/CString.thy ===== *)
theory CString
  imports Prelude "HOL-Library.Sublist"
begin

text \<open>
  C strings and the string library of the boot loader: \<^verbatim>\<open>lib/string.c\<close>,
  \<^verbatim>\<open>lib/strto.c\<close>, \<^verbatim>\<open>lib/ctype.c\<close>.

  A \<open>const char *\<close> into a buffer is the list of the characters from there to the end of
  the buffer, followed by an implicit NUL; a NUL inside the list ends the string early, as
  in C. Incrementing the pointer is \<open>tl\<close> or \<open>drop\<close>, a pointer found in the buffer
  is a suffix of it, and the difference of two pointers is the difference of the lengths.
\<close>

abbreviation NUL :: char where "NUL \<equiv> CHR 0x00"
abbreviation CR :: char where "CR \<equiv> CHR 0x0D"
abbreviation LF :: char where "LF \<equiv> CHR 0x0A"
abbreviation crlf2 :: string where "crlf2 \<equiv> [CR, LF, CR, LF]"
abbreviation crlf :: string where "crlf \<equiv> [CR, LF]"

fun deref :: "string \<Rightarrow> char" where
  "deref [] = NUL"
| "deref (c # cs) = c"

definition at :: "string \<Rightarrow> nat \<Rightarrow> char" where
  "at s i = deref (drop i s)"

section \<open>lib/string.c\<close>

fun strlen :: "string \<Rightarrow> nat" where
  "strlen [] = 0"
| "strlen (c # cs) = (if c = NUL then 0 else Suc (strlen cs))"

fun strchr :: "string \<Rightarrow> char \<Rightarrow> string option" where
  "strchr [] c = (if c = NUL then Some [] else None)"
| "strchr (x # xs) c = (if x = c then Some (x # xs) else if x = NUL then None else strchr xs c)"

text \<open>The comparison result is kept in a \<open>signed char\<close>.\<close>

definition char_diff :: "char \<Rightarrow> char \<Rightarrow> int" where
  "char_diff a b = sint (of_char a - of_char b :: 8 word)"

fun strcmp :: "string \<Rightarrow> string \<Rightarrow> int" where
  "strcmp [] ct = char_diff NUL (deref ct)"
| "strcmp (c # cs) ct =
     (let res = char_diff c (deref ct)
      in if res \<noteq> 0 \<or> c = NUL then res else strcmp cs (tl ct))"

fun strncmp :: "string \<Rightarrow> string \<Rightarrow> nat \<Rightarrow> int" where
  "strncmp cs ct 0 = 0"
| "strncmp cs ct (Suc count) =
     (let res = char_diff (deref cs) (deref ct)
      in if res \<noteq> 0 \<or> deref cs = NUL then res else strncmp (tl cs) (tl ct) count)"

fun memcmp :: "string \<Rightarrow> string \<Rightarrow> nat \<Rightarrow> int" where
  "memcmp su1 su2 0 = 0"
| "memcmp su1 su2 (Suc count) =
     (let res = int (of_char (deref su1)) - int (of_char (deref su2))
      in if res \<noteq> 0 then res else memcmp (tl su1) (tl su2) count)"

text \<open>\<open>l1\<close> counts down while the window of \<open>l2\<close> characters still fits.\<close>

fun strstr_loop :: "string \<Rightarrow> string \<Rightarrow> nat \<Rightarrow> nat \<Rightarrow> string option" where
  "strstr_loop s1 s2 l2 0 = (if 0 < l2 then None else Some s1)"
| "strstr_loop s1 s2 l2 (Suc l1) =
     (if Suc l1 < l2 then None
      else if memcmp s1 s2 l2 = 0 then Some s1
      else strstr_loop (tl s1) s2 l2 l1)"

definition strstr :: "string \<Rightarrow> string \<Rightarrow> string option" where
  "strstr s1 s2 =
     (let l2 = strlen s2 in if l2 = 0 then Some s1 else strstr_loop s1 s2 l2 (strlen s1))"

fun strpbrk :: "string \<Rightarrow> string \<Rightarrow> string option" where
  "strpbrk [] ct = None"
| "strpbrk (c # cs) ct =
     (if c = NUL then None
      else if c \<in> set (takeWhile (\<lambda>x. x \<noteq> NUL) ct) then Some (c # cs)
      else strpbrk cs ct)"

text \<open>The characters the boot loader's \<^verbatim>\<open>strncpy\<close> stores (it stops after a NUL and does not pad).\<close>

fun strncpy :: "string \<Rightarrow> nat \<Rightarrow> string" where
  "strncpy src 0 = []"
| "strncpy src (Suc count) =
     (if deref src = NUL then [NUL] else deref src # strncpy (tl src) count)"

definition cstr :: "string \<Rightarrow> string" where
  "cstr s = takeWhile (\<lambda>c. c \<noteq> NUL) s"

section \<open>lib/ctype.c and lib/strto.c\<close>

definition isdigit :: "char \<Rightarrow> bool" where
  "isdigit c = (let n = of_char c :: nat in 48 \<le> n \<and> n \<le> 57)"

definition isxdigit :: "char \<Rightarrow> bool" where
  "isxdigit c = (let n = of_char c :: nat
     in 48 \<le> n \<and> n \<le> 57 \<or> 65 \<le> n \<and> n \<le> 70 \<or> 97 \<le> n \<and> n \<le> 102)"

definition islower :: "char \<Rightarrow> bool" where
  "islower c = (let n = of_char c :: nat
     in 97 \<le> n \<and> n \<le> 122 \<or> 223 \<le> n \<and> n \<le> 246 \<or> 248 \<le> n \<and> n \<le> 255)"

definition digit_val :: "char \<Rightarrow> nat" where
  "digit_val c = (let n = of_char c :: nat
     in if isdigit c then n - 48 else (if islower c then n - 32 else n) - 65 + 10)"

definition strto_prefix :: "string \<Rightarrow> nat \<Rightarrow> nat \<times> string" where
  "strto_prefix cp base =
     (if deref cp = CHR ''0'' then
        let cp = tl cp in
        if deref cp = CHR ''x'' \<and> isxdigit (at cp 1) then (16, tl cp)
        else (if base = 0 then 8 else base, cp)
      else (if base = 0 then 10 else base, cp))"

fun strto_loop :: "nat \<Rightarrow> 'a::len word \<Rightarrow> string \<Rightarrow> 'a word \<times> string" where
  "strto_loop base result [] = (result, [])"
| "strto_loop base result (c # cp) =
     (if isxdigit c \<and> digit_val c < base
      then strto_loop base (result * of_nat base + of_nat (digit_val c)) cp
      else (result, c # cp))"

definition simple_strtoul :: "string \<Rightarrow> nat \<Rightarrow> u32 \<times> string" where
  "simple_strtoul cp base = (let (base, cp) = strto_prefix cp base in strto_loop base 0 cp)"

definition simple_strtoull :: "string \<Rightarrow> nat \<Rightarrow> u64 \<times> string" where
  "simple_strtoull cp base = (let (base, cp) = strto_prefix cp base in strto_loop base 0 cp)"

text \<open>Negation and the conversion to a signed \<open>long\<close> wrap.\<close>

definition simple_strtol :: "string \<Rightarrow> nat \<Rightarrow> int" where
  "simple_strtol cp base =
     (if deref cp = CHR ''-'' then sint (- fst (simple_strtoul (tl cp) base))
      else sint (fst (simple_strtoul cp base)))"

section \<open>Facts about the string routines\<close>

lemma unat_of_char_u8: "unat (of_char c :: 8 word) = of_char c"
proof -
  have "(of_char c :: 8 word) = of_nat (of_char c)" by (simp add: of_nat_of_char)
  then show ?thesis
    using nat_of_char_less_256 [of c] by (simp add: unat_of_nat take_bit_eq_mod)
qed

lemma char_diff_eq_0 [simp]: "char_diff a b = 0 \<longleftrightarrow> a = b"
proof
  assume "char_diff a b = 0"
  then have "of_char a - of_char b = (0 :: 8 word)"
    unfolding char_diff_def by (metis signed_eq_0_iff)
  then have "unat (of_char a :: 8 word) = unat (of_char b :: 8 word)" by simp
  then show "a = b" by (simp add: unat_of_char_u8)
next
  assume "a = b"
  then show "char_diff a b = 0" by (simp add: char_diff_def)
qed

lemma of_char_eq_0 [simp]: "(of_char c :: nat) = 0 \<longleftrightarrow> c = NUL"
proof -
  have "(of_char NUL :: nat) = 0" by simp
  then show ?thesis by (metis of_char_eq_iff)
qed

lemma strlen_eq_length: "NUL \<notin> set s \<Longrightarrow> strlen s = length s"
  by (induction s) auto

lemma strlen_le_length: "strlen s \<le> length s"
  by (induction s) auto

lemma strlen_cstr: "strlen s = length (cstr s)"
  by (induction s) (auto simp: cstr_def)

lemma cstr_id: "NUL \<notin> set s \<Longrightarrow> cstr s = s"
  unfolding cstr_def by (rule takeWhile_idem_not_in)

lemma cstr_no_NUL [simp]: "NUL \<notin> set (cstr s)"
  unfolding cstr_def by (metis (mono_tags, lifting) set_takeWhileD)

lemma at_Suc: "at s (Suc i) = at (tl s) i"
  by (cases s) (simp_all add: at_def)

lemma at_0 [simp]: "at s 0 = deref s"
  by (simp add: at_def)

lemma at_Cons [simp]: "at (c # cs) (Suc i) = at cs i" "at (c # cs) 1 = deref cs"
    "at (c # cs) (numeral k) = at cs (pred_numeral k)" "at [] i = NUL"
  by (simp_all add: at_def numeral_eq_Suc)

lemma memcmp_eq_0: "memcmp s1 s2 n = 0 \<longleftrightarrow> (\<forall>i<n. at s1 i = at s2 i)"
  by (induction n arbitrary: s1 s2) (simp_all add: Let_def All_less_Suc2 at_Suc)

text \<open>
  Comparing against a constant without NULs is a prefix test, which is how every request
  line of the server is matched.
\<close>

lemma memcmp_eq_prefix:
  assumes "NUL \<notin> set s2"
  shows "memcmp s1 s2 (length s2) = 0 \<longleftrightarrow> prefix s2 s1"
  using assms
proof (induction s2 arbitrary: s1)
  case (Cons c s2)
  then show ?case by (cases s1) (auto simp: Let_def)
qed simp

lemma strncmp_eq_prefix:
  assumes "NUL \<notin> set ct"
  shows "strncmp cs ct (length ct) = 0 \<longleftrightarrow> prefix ct cs"
  using assms
proof (induction ct arbitrary: cs)
  case (Cons c ct)
  then show ?case by (cases cs) (auto simp: Let_def)
qed simp

lemma strncmp_eq_0: "strncmp cs ct n = 0 \<longleftrightarrow> cstr (take n cs) = cstr (take n ct)"
proof (induction cs ct n rule: strncmp.induct)
  case (2 cs ct count)
  show ?case using 2 by (cases cs; cases ct) (auto simp: Let_def cstr_def)
qed simp

lemma strcmp_eq_0: "strcmp cs ct = 0 \<longleftrightarrow> cstr cs = cstr ct"
proof (induction cs ct rule: strcmp.induct)
  case (1 ct)
  then show ?case by (cases ct) (auto simp: cstr_def)
next
  case (2 c cs ct)
  then show ?case by (cases ct) (auto simp: cstr_def Let_def)
qed

lemma strchr_Some:
  assumes "strchr s c = Some r"
  shows "\<exists>p. s = p @ r \<and> c \<notin> set p \<and> NUL \<notin> set p \<and> deref r = c"
  using assms
proof (induction s)
  case (Cons x xs)
  show ?case
  proof (cases "x = c")
    case True
    with Cons.prems show ?thesis by (intro exI [of _ "[]"]) auto
  next
    case False
    with Cons obtain p where "xs = p @ r" "c \<notin> set p" "NUL \<notin> set p" "deref r = c"
      by (auto split: if_splits)
    with False Cons.prems show ?thesis
      by (intro exI [of _ "x # p"]) (auto split: if_splits)
  qed
qed (auto split: if_splits)

lemma strchr_None: "c \<noteq> NUL \<Longrightarrow> strchr s c = None \<longleftrightarrow> c \<notin> set (cstr s)"
  by (induction s) (auto simp: cstr_def)

lemma strchr_suffix: "strchr s c = Some r \<Longrightarrow> suffix r s"
  by (drule strchr_Some) (auto simp: suffix_def)

text \<open>The reference meaning of \<^verbatim>\<open>strstr\<close>: the first suffix that starts with the pattern.\<close>

fun find_sub :: "string \<Rightarrow> string \<Rightarrow> string option" where
  "find_sub [] pat = None"
| "find_sub (c # cs) pat =
     (if c = NUL then None
      else if prefix pat (c # cs) then Some (c # cs)
      else find_sub cs pat)"

lemma prefix_strlen: "prefix pat s \<Longrightarrow> NUL \<notin> set pat \<Longrightarrow> length pat \<le> strlen s"
proof (induction pat arbitrary: s)
  case (Cons c pat)
  then show ?case by (cases s) auto
qed simp

lemma find_sub_None_short:
  "strlen s < length pat \<Longrightarrow> NUL \<notin> set pat \<Longrightarrow> find_sub s pat = None"
proof (induction s)
  case (Cons c cs)
  then show ?case using prefix_strlen [of pat "c # cs"] by auto
qed simp

lemma strstr_loop_find_sub:
  assumes "pat \<noteq> []" and "NUL \<notin> set pat"
  shows "strstr_loop s pat (length pat) (strlen s) = find_sub s pat"
proof (induction s)
  case Nil
  show ?case using assms by simp
next
  case (Cons c cs)
  show ?case
  proof (cases "c = NUL")
    case True
    with assms show ?thesis by simp
  next
    case False
    with Cons assms show ?thesis
      using find_sub_None_short [of "c # cs" pat] by (auto simp: memcmp_eq_prefix)
  qed
qed

lemma strstr_find_sub:
  assumes "pat \<noteq> []" and "NUL \<notin> set pat"
  shows "strstr s pat = find_sub s pat"
  using assms by (simp add: strstr_def Let_def strlen_eq_length strstr_loop_find_sub)

lemma find_sub_Some:
  assumes "find_sub s pat = Some r"
  shows "\<exists>p. s = p @ r \<and> NUL \<notin> set p \<and> prefix pat r
     \<and> (\<forall>q q'. s = q @ q' \<and> length q < length p \<longrightarrow> \<not> prefix pat q')"
  using assms
proof (induction s)
  case (Cons c cs)
  show ?case
  proof (cases "prefix pat (c # cs)")
    case True
    with Cons.prems show ?thesis by (intro exI [of _ "[]"]) (auto split: if_splits)
  next
    case False
    with Cons.prems have c: "c \<noteq> NUL" and fs: "find_sub cs pat = Some r"
      by (auto split: if_splits)
    from Cons.IH [OF fs] obtain p where p: "cs = p @ r" "NUL \<notin> set p" "prefix pat r"
      and first: "\<And>q q'. cs = q @ q' \<Longrightarrow> length q < length p \<Longrightarrow> \<not> prefix pat q'"
      by blast
    have "\<not> prefix pat q'" if "c # cs = q @ q'" "length q < length (c # p)" for q q'
      using that False first by (cases q) auto
    with p c show ?thesis by (intro exI [of _ "c # p"]) auto
  qed
qed simp

lemma find_sub_suffix: "find_sub s pat = Some r \<Longrightarrow> suffix r s \<and> prefix pat r"
  by (drule find_sub_Some) (auto simp: suffix_def)

lemma find_sub_length:
  "find_sub s pat = Some r \<Longrightarrow> length pat \<le> length r \<and> length r \<le> length s"
  by (drule find_sub_suffix) (auto dest: prefix_length_le suffix_length_le)

lemma cstr_Cons [simp]: "cstr (c # cs) = (if c = NUL then [] else c # cstr cs)"
  by (simp add: cstr_def)

lemma cstr_Nil [simp]: "cstr [] = []"
  by (simp add: cstr_def)

lemma cstr_replicate_NUL [simp]: "cstr (replicate n NUL) = []"
  by (cases n) simp_all

lemma prefix_cstr: "NUL \<notin> set pat \<Longrightarrow> prefix pat (cstr s) \<longleftrightarrow> prefix pat s"
proof (induction pat arbitrary: s)
  case (Cons c pat)
  then show ?case by (cases s) auto
qed simp

lemma find_sub_None_iff:
  assumes "pat \<noteq> []" and "NUL \<notin> set pat"
  shows "find_sub s pat = None \<longleftrightarrow> \<not> sublist pat (cstr s)"
proof (induction s)
  case (Cons c cs)
  then show ?case using assms prefix_cstr [of pat "c # cs"]
    by (auto simp: sublist_Cons_right)
qed (use assms in simp)

subsection \<open>Numbers printed and read back\<close>

lemma digit_char_table:
  assumes "d < 16"
  shows "isxdigit (digit_char d) \<and> digit_val (digit_char d) = d
    \<and> digit_char d \<noteq> NUL \<and> (digit_char d = CHR ''0'' \<longleftrightarrow> d = 0)"
proof -
  have "d = 0 \<or> d = 1 \<or> d = 2 \<or> d = 3 \<or> d = 4 \<or> d = 5 \<or> d = 6 \<or> d = 7 \<or> d = 8
      \<or> d = 9 \<or> d = 10 \<or> d = 11 \<or> d = 12 \<or> d = 13 \<or> d = 14 \<or> d = 15"
    using assms by arith
  then show ?thesis
    by (elim disjE) (simp_all add: digit_char_def isxdigit_def isdigit_def islower_def
        digit_val_def Let_def)
qed

lemma digit_char_facts:
  assumes "d < 16"
  shows "isxdigit (digit_char d)" and "digit_val (digit_char d) = d"
    and "digit_char d \<noteq> NUL" and "digit_char d = CHR ''0'' \<longleftrightarrow> d = 0"
  using digit_char_table [OF assms] by simp_all

lemma strto_loop_digits:
  assumes "2 \<le> b" and "b \<le> 16"
  shows "strto_loop b acc (digits_base b n @ rest)
     = strto_loop b (acc * of_nat b ^ length (digits_base b n) + of_nat n) rest"
  using assms
proof (induction b n arbitrary: acc rest rule: digits_base.induct)
  case (1 b n)
  show ?case
  proof (cases "n < b")
    case True
    with 1 show ?thesis by (simp add: digits_base.simps [of b n] digit_char_facts)
  next
    case False
    have m: "n mod b < b" and "n mod b < 16"
      using "1.prems" mod_less_divisor [of b n] by linarith+
    have d: "digits_base b n = digits_base b (n div b) @ [digit_char (n mod b)]"
      using False "1.prems" by (subst digits_base.simps) simp
    have "(of_nat n :: 'a word) = of_nat (n div b) * of_nat b + of_nat (n mod b)"
      by (metis of_nat_add of_nat_mult div_mult_mod_eq)
    with m "1.prems" "1.IH" False show ?thesis
      by (simp add: d digit_char_facts [OF \<open>n mod b < 16\<close>] algebra_simps)
  qed
qed

lemma deref_digits_base: "2 \<le> b \<Longrightarrow> b \<le> 16 \<Longrightarrow>
    deref (digits_base b n @ r) = CHR ''0'' \<longleftrightarrow> n = 0"
proof (induction b n arbitrary: r rule: digits_base.induct)
  case (1 b n)
  show ?case
  proof (cases "n < b")
    case True
    with 1 show ?thesis by (simp add: digits_base.simps [of b n] digit_char_facts)
  next
    case False
    with 1 have "deref (digits_base b (n div b) @ ([digit_char (n mod b)] @ r)) = CHR ''0''
        \<longleftrightarrow> n div b = 0"
      by simp
    with False "1.prems" show ?thesis
      by (subst digits_base.simps) (auto simp: div_eq_0_iff)
  qed
qed

lemma isxdigit_deref_digits_base:
  "2 \<le> b \<Longrightarrow> b \<le> 16 \<Longrightarrow> isxdigit (deref (digits_base b n @ r))"
proof (induction b n arbitrary: r rule: digits_base.induct)
  case (1 b n)
  show ?case
  proof (cases "n < b")
    case True
    with 1 show ?thesis by (simp add: digits_base.simps [of b n] digit_char_facts)
  next
    case False
    with 1 show ?thesis by (subst digits_base.simps) simp
  qed
qed

lemma strto_prefix_digits:
  assumes "2 \<le> b" and "b \<le> 16"
  shows "strto_prefix (digits_base b n) b = (b, if n = 0 then [] else digits_base b n)"
proof (cases "n = 0")
  case True
  have "digits_base b 0 = ''0''" using assms by (simp add: digits_base.simps [of b 0] digit_char_def)
  with True show ?thesis using assms by (simp add: strto_prefix_def)
next
  case False
  then have "deref (digits_base b n) \<noteq> CHR ''0''" using deref_digits_base [of b n "[]"] assms by simp
  with False show ?thesis using assms by (simp add: strto_prefix_def)
qed

lemma strto_prefix_dec: "strto_prefix (fmt_dec n) 10 = (10, if n = 0 then [] else fmt_dec n)"
  by (simp add: fmt_dec_def strto_prefix_digits)

lemma simple_strtoul_hex: "simple_strtoul (fmt_hex (unat w)) 16 = (w, [])"
  using strto_loop_digits [of 16 "0 :: u32" "unat w" "[]"]
  by (simp add: simple_strtoul_def fmt_hex_def strto_prefix_digits unat_eq_0)

lemma strto_prefix_0x: "strto_prefix (fmt_0x n) b = (16, fmt_hex n)"
  using isxdigit_deref_digits_base [of 16 n "[]"]
  by (simp add: strto_prefix_def fmt_0x_def at_Suc fmt_hex_def flip: One_nat_def at_0)
    (simp add: at_def)

section \<open>Properties\<close>

text \<open>
  the numbers the firmware prints into its command lines are read back unchanged: for
  every 32-bit value, \<^verbatim>\<open>simple_strtoul\<close> applied to its \<^verbatim>\<open>0x%x\<close> form (with
  any base argument) and to its \<^verbatim>\<open>%u\<close> form in base 10 consumes the whole text and
  returns the value.
\<close>

theorem simple_strtoul_roundtrip:
  "simple_strtoul (fmt_0x (unat w)) base = (w, []) \<and> simple_strtoul (fmt_dec (unat w)) 10 = (w, [])"
  using strto_loop_digits [of 16 "0 :: u32" "unat w" "[]", folded fmt_hex_def]
    strto_loop_digits [of 10 "0 :: u32" "unat w" "[]", folded fmt_dec_def]
  by (simp add: simple_strtoul_def strto_prefix_0x strto_prefix_dec unat_eq_0)

text \<open>
  \<^verbatim>\<open>strstr\<close> is correct on every buffer: for a non-empty pattern without NUL it
  returns a pointer exactly when the pattern occurs in the string before its terminator, and
  then the pointer to the first occurrence.
\<close>

theorem strstr_first_occurrence:
  assumes "pat \<noteq> []" and "NUL \<notin> set pat"
  shows "(strstr s pat = Some r \<longrightarrow>
      (\<exists>p. s = p @ r \<and> NUL \<notin> set p \<and> prefix pat r
        \<and> (\<forall>q q'. s = q @ q' \<and> length q < length p \<longrightarrow> \<not> prefix pat q')))
    \<and> (strstr s pat = None \<longleftrightarrow> \<not> sublist pat (cstr s))"
  using assms by (simp add: strstr_find_sub find_sub_Some find_sub_None_iff)

theorem strstr_first_occurrence_witness:
  "strstr ''a-boundary=b'' ''boundary='' = Some ''boundary=b''
   \<and> (\<exists>p. ''a-boundary=b'' = p @ ''boundary=b'' \<and> NUL \<notin> set p \<and> prefix ''boundary='' ''boundary=b'')"
  using strstr_first_occurrence [of "''boundary=''" "''a-boundary=b''" "''boundary=b''"]
  by (auto simp: strstr_find_sub)

end
