(* ===== verification/WebForm.thy ===== *)
theory WebForm
  imports CString
begin

text \<open>
  The request-text helpers of \<^verbatim>\<open>failsafe/failsafe_httpd.c\<close>: percent decoding
  (in place, as the code does it), form fields, MAC address text, JSON escaping, and
  \<^verbatim>\<open>eth_parse_enetaddr\<close> / \<^verbatim>\<open>is_valid_ethaddr\<close> of the network stack that the MAC
  handler relies on.
\<close>

section \<open>Definitions\<close>

definition hexval :: "char \<Rightarrow> nat" where
  "hexval c = (let n = of_char c :: nat in
     if 48 \<le> n \<and> n \<le> 57 then n - 48
     else if 97 \<le> n \<and> n \<le> 102 then n - 97 + 10
     else if 65 \<le> n \<and> n \<le> 70 then n - 65 + 10
     else 0)"

text \<open>\<open>src\<close> and \<open>dst\<close> are the two cursors into the one buffer \<open>s\<close>.\<close>

function url_decode_loop :: "string \<Rightarrow> nat \<Rightarrow> nat \<Rightarrow> string" where
  "url_decode_loop s src dst =
     (if at s src = NUL then s[dst := NUL]
      else if at s src = CHR ''%'' \<and> at s (src + 1) \<noteq> NUL \<and> at s (src + 2) \<noteq> NUL then
        url_decode_loop
          (s[dst := char_of (hexval (at s (src + 1)) * 16 + hexval (at s (src + 2)))]) (src + 3) (dst + 1)
      else if at s src = CHR ''+'' then url_decode_loop (s[dst := CHR '' '']) (src + 1) (dst + 1)
      else url_decode_loop (s[dst := at s src]) (src + 1) (dst + 1))"
  by pat_completeness auto

lemma at_ge_length: "length s \<le> i \<Longrightarrow> at s i = NUL"
  by (simp add: at_def)

lemma at_nth: "i < length s \<Longrightarrow> at s i = s ! i"
  by (simp add: at_def flip: Cons_nth_drop_Suc)

lemma at_not_NUL_less: "at s i \<noteq> NUL \<Longrightarrow> i < length s"
  using at_ge_length not_less by blast

lemma at_progress: "at s i = c \<Longrightarrow> c \<noteq> NUL \<Longrightarrow> 0 < k \<Longrightarrow> length s - (i + k) < length s - i"
  using at_not_NUL_less [of s i] by auto

termination url_decode_loop
  by (relation "measure (\<lambda>(s, src, dst). length s - src)")
    (auto simp del: add_Suc_right intro!: at_progress [of _ _ _ 1, simplified]
      at_progress [of _ _ _ 3, simplified])

declare url_decode_loop.simps [simp del]

definition url_decode :: "string \<Rightarrow> string" where
  "url_decode s = url_decode_loop s 0 0"

definition is_hex_char :: "char \<Rightarrow> bool" where
  "is_hex_char c = (let n = of_char c :: nat in
     48 \<le> n \<and> n \<le> 57 \<or> 97 \<le> n \<and> n \<le> 102 \<or> 65 \<le> n \<and> n \<le> 70)"

fun mac_string_valid_loop :: "string \<Rightarrow> nat \<Rightarrow> nat \<Rightarrow> bool" where
  "mac_string_valid_loop s i 0 = True"
| "mac_string_valid_loop s i (Suc k) =
     ((if i mod 3 = 2 then at s i = CHR '':'' else is_hex_char (at s i))
      \<and> mac_string_valid_loop s (Suc i) k)"

definition mac_string_valid :: "string \<Rightarrow> bool" where
  "mac_string_valid s = (strlen s = 17 \<and> mac_string_valid_loop s 0 17 \<and> at s 17 = NUL)"

text \<open>
  What a form lookup can end in. After the last field the code sets its cursor to
  \<^verbatim>\<open>NULL\<close> and the loop condition reads through it; that outcome is a value of its own.
\<close>

datatype form_result = Found string | Missing | NullDeref

function form_scan :: "string \<Rightarrow> string \<Rightarrow> nat \<Rightarrow> form_result" where
  "form_scan p key out_size =
     (if deref p = NUL then Missing
      else
        let klen = strlen key;
            amp = strchr p (CHR ''&'');
            len = (case amp of Some a \<Rightarrow> length p - length a | None \<Rightarrow> strlen p)
        in if klen < len \<and> strncmp p key klen = 0 \<and> at p klen = CHR ''=''
           then (let vlen = len - klen - 1 in
                 if out_size \<le> vlen then Missing
                 else Found (cstr (url_decode (take vlen (drop (klen + 1) p)))))
           else (case amp of Some a \<Rightarrow> form_scan (drop 1 a) key out_size | None \<Rightarrow> NullDeref))"
  by pat_completeness auto
termination
proof (relation "measure (\<lambda>(p, key, n). length p)")
  fix p key :: string and n x xa xb and a :: string
  assume "deref p \<noteq> NUL" and x: "xa = strchr p (CHR ''&'')" "xa = Some a"
  then have "suffix a p" and "p \<noteq> []"
    using strchr_suffix [of p "CHR ''&''" a] by auto
  then have "length a \<le> length p" and "0 < length p"
    by (auto dest: suffix_length_le)
  then have "length a - 1 < length p" by linarith
  then show "((drop 1 a, key, n), p, key, n) \<in> measure (\<lambda>(p, key, n). length p)"
    by simp
qed simp

declare form_scan.simps [simp del]

definition httpd_form_value :: "string \<Rightarrow> string \<Rightarrow> nat \<Rightarrow> form_result" where
  "httpd_form_value body key out_size =
     (if out_size = 0 then Missing else form_scan body key out_size)"

text \<open>\<^verbatim>\<open>net/eth.c\<close> and \<^verbatim>\<open>include/net.h\<close>\<close>

fun eth_parse_loop :: "nat \<Rightarrow> string \<Rightarrow> u8 list" where
  "eth_parse_loop 0 addr = []"
| "eth_parse_loop (Suc k) addr =
     (let (v, e) = simple_strtoul addr 16
      in ucast v # eth_parse_loop k (if deref e \<noteq> NUL then drop 1 e else e))"

definition eth_parse_enetaddr :: "string \<Rightarrow> u8 list" where
  "eth_parse_enetaddr addr = eth_parse_loop 6 addr"

definition is_zero_ethaddr :: "u8 list \<Rightarrow> bool" where
  "is_zero_ethaddr addr = (\<forall>b \<in> set (take 6 addr). b = 0)"

definition is_multicast_ethaddr :: "u8 list \<Rightarrow> bool" where
  "is_multicast_ethaddr addr = (0x01 AND addr ! 0 \<noteq> 0)"

definition is_valid_ethaddr :: "u8 list \<Rightarrow> bool" where
  "is_valid_ethaddr addr = (\<not> is_multicast_ethaddr addr \<and> \<not> is_zero_ethaddr addr)"

definition str_cut :: "string \<Rightarrow> char \<Rightarrow> string" where
  "str_cut s c = (case strchr s c of None \<Rightarrow> s | Some p \<Rightarrow> s[length s - length p := NUL])"

definition str_trim_crlf :: "string \<Rightarrow> string" where
  "str_trim_crlf s = str_cut (str_cut (str_cut s (CHR '' '')) CR) LF"

definition json_rep :: "char \<Rightarrow> string" where
  "json_rep c =
     (if c = CHR 0x22 \<or> c = CHR 0x5C then [CHR 0x5C, c]
      else if c = LF then [CHR 0x5C, CHR ''n'']
      else if c = CR then [CHR 0x5C, CHR ''r'']
      else if c = CHR 0x09 then [CHR 0x5C, CHR ''t'']
      else if (of_char c :: nat) < 0x20 then
        [CHR 0x5C, CHR ''u'', CHR ''0'', CHR ''0'',
         digit_char (of_char c div 16), digit_char (of_char c mod 16)]
      else [c])"

text \<open>The text left in \<open>dst\<close> and the return value; \<open>o\<close> is the text written so far.\<close>

fun json_escape_loop :: "string \<Rightarrow> nat \<Rightarrow> string \<Rightarrow> nat \<Rightarrow> string \<times> int" where
  "json_escape_loop acc dstsz [] maxlen = (acc, int (length acc))"
| "json_escape_loop acc dstsz (c # src) maxlen =
     (if c = NUL \<or> maxlen = 0 then (acc, int (length acc))
      else if dstsz \<le> length acc + length (json_rep c) then (acc, -1)
      else json_escape_loop (acc @ json_rep c) dstsz src (maxlen - 1))"

definition json_escape :: "nat \<Rightarrow> string \<Rightarrow> nat \<Rightarrow> string \<times> int" where
  "json_escape dstsz src maxlen =
     (if dstsz = 0 then ([], -1) else json_escape_loop [] dstsz src maxlen)"

section \<open>Reference definitions\<close>

text \<open>Percent decoding as a function of the text, without the shared buffer.\<close>

function url_decoded :: "string \<Rightarrow> string" where
  "url_decoded [] = []"
| "url_decoded (c # cs) =
     (if c = NUL then []
      else if c = CHR ''%'' \<and> deref cs \<noteq> NUL \<and> at cs 1 \<noteq> NUL then
        char_of (hexval (deref cs) * 16 + hexval (at cs 1)) # url_decoded (drop 2 cs)
      else if c = CHR ''+'' then CHR '' '' # url_decoded cs
      else c # url_decoded cs)"
  by pat_completeness auto
termination
  by (relation "measure length") auto

text \<open>The encoder of the web page (\<^verbatim>\<open>encodeURIComponent\<close>) may escape any byte.\<close>

definition pct :: "char \<Rightarrow> string" where
  "pct c = [CHR ''%'', digit_char (of_char c div 16), digit_char (of_char c mod 16)]"

text \<open>Undoing JSON escapes, and the absence of a character that would end the JSON string.\<close>

function json_unescape :: "string \<Rightarrow> string" where
  "json_unescape [] = []"
| "json_unescape (c # cs) =
     (if c \<noteq> CHR 0x5C then c # json_unescape cs
      else if deref cs = CHR ''u'' then
        char_of (16 * digit_val (at cs 3) + digit_val (at cs 4)) # json_unescape (drop 5 cs)
      else (if deref cs = CHR ''n'' then LF else if deref cs = CHR ''r'' then CR
            else if deref cs = CHR ''t'' then CHR 0x09 else deref cs) # json_unescape (drop 1 cs))"
  by pat_completeness auto
termination
  by (relation "measure length") auto

fun json_closed :: "string \<Rightarrow> bool" where
  "json_closed [] = True"
| "json_closed [c] = (c \<noteq> CHR 0x22 \<and> c \<noteq> CHR 0x5C)"
| "json_closed (c # d # cs) =
     (if c = CHR 0x5C then json_closed cs else c \<noteq> CHR 0x22 \<and> json_closed (d # cs))"

section \<open>Percent decoding\<close>

lemma at_drop: "at (drop n s) i = at s (n + i)"
  by (simp add: at_def add.commute)

lemma drop_at: "at s n \<noteq> NUL \<Longrightarrow> drop n s = at s n # drop (Suc n) s"
  using at_not_NUL_less at_nth by (metis Cons_nth_drop_Suc)

lemma take_update_snoc: "n < length s \<Longrightarrow> take (Suc n) (s[n := c]) = take n s @ [c]"
  by (simp add: take_Suc_conv_app_nth)

lemma at_update_same: "at (s[n := NUL]) n = NUL"
  by (cases "n < length s") (simp_all add: at_nth at_ge_length)

text \<open>What the loop leaves in the buffer, for any position of the two cursors.\<close>

lemma url_decode_loop_spec:
  assumes "dst \<le> src"
  shows "length (url_decode_loop s src dst) = length s
    \<and> take (dst + length (url_decoded (drop src s))) (url_decode_loop s src dst)
        = take dst s @ url_decoded (drop src s)
    \<and> at (url_decode_loop s src dst) (dst + length (url_decoded (drop src s))) = NUL"
  using assms
proof (induction s src dst rule: url_decode_loop.induct)
  case (1 s src dst)
  show ?case
  proof (cases "at s src = NUL")
    case True
    then have "url_decoded (drop src s) = []"
      by (cases "drop src s") (simp_all add: at_def)
    with True show ?thesis
      by (simp add: url_decode_loop.simps [of s src] at_update_same)
  next
    case False
    then have d: "drop src s = at s src # drop (Suc src) s" by (rule drop_at)
    have len: "dst < length s" using False "1.prems" at_not_NUL_less by fastforce
    have upd: "take (Suc dst) (s[dst := c]) = take dst s @ [c]"
      "n > dst \<Longrightarrow> drop n (s[dst := c]) = drop n s" for c n
      using len by (simp_all add: take_update_snoc)
    consider (pct) "at s src = CHR ''%'' \<and> at s (src + 1) \<noteq> NUL \<and> at s (src + 2) \<noteq> NUL"
      | (plus) "at s src = CHR ''+''"
      | (other) "\<not> (at s src = CHR ''%'' \<and> at s (src + 1) \<noteq> NUL \<and> at s (src + 2) \<noteq> NUL)"
        "at s src \<noteq> CHR ''+''" by blast
    then show ?thesis
    proof cases
      case pct
      let ?c = "char_of (hexval (at s (src + 1)) * 16 + hexval (at s (src + 2)))"
      have "url_decoded (drop src s) = ?c # url_decoded (drop (src + 3) s)"
        using pct at_drop [of "Suc src" s 0] at_drop [of "Suc src" s 1]
        by (subst d) (simp add: eval_nat_numeral)
      with pct False "1.IH"(1) "1.prems" show ?thesis
        by (simp add: url_decode_loop.simps [of s src] upd)
    next
      case plus
      have "url_decoded (drop src s) = CHR '' '' # url_decoded (drop (src + 1) s)"
        by (subst d) (simp add: plus)
      with plus "1.IH"(2) "1.prems" show ?thesis
        by (simp add: url_decode_loop.simps [of s src] upd)
    next
      case other
      have "url_decoded (drop src s) = at s src # url_decoded (drop (src + 1) s)"
        using other False at_drop [of "Suc src" s 0] at_drop [of "Suc src" s 1]
        by (subst d) (auto simp: eval_nat_numeral)
      with other False "1.IH"(3) "1.prems" show ?thesis
        by (auto simp: url_decode_loop.simps [of s src] upd)
    qed
  qed
qed

lemma cstr_take_at: "at r n = NUL \<Longrightarrow> n \<le> length r \<Longrightarrow> cstr r = cstr (take n r)"
proof (induction n arbitrary: r)
  case 0
  then show ?case by (cases r) auto
next
  case (Suc n)
  then show ?case by (cases r) (auto simp: at_Suc)
qed

lemma length_url_decoded: "length (url_decoded s) \<le> length s"
  by (induction s rule: url_decoded.induct) auto

lemma url_decode_eq: "length (url_decode s) = length s \<and> cstr (url_decode s) = cstr (url_decoded s)"
  using url_decode_loop_spec [of 0 0 s] cstr_take_at [of "url_decode s" "length (url_decoded s)"]
    length_url_decoded [of s]
  by (simp add: url_decode_def)

lemma hexval_digit_char: "d < 16 \<Longrightarrow> hexval (digit_char d) = d"
  using digit_char_table [of d]
  by (auto simp: hexval_def digit_val_def isdigit_def islower_def isxdigit_def Let_def
      split: if_splits)

lemma url_decoded_pct: "url_decoded (concat (map pct s)) = s"
proof (induction s)
  case (Cons c s)
  have "(of_char c :: nat) div 16 < 16" by (rule less_mult_imp_div_less) simp
  moreover have "(of_char c :: nat) div 16 * 16 + of_char c mod 16 = of_char c" by simp
  ultimately show ?case using Cons
    by (simp add: pct_def hexval_digit_char digit_char_facts)
qed simp

section \<open>MAC addresses\<close>

lemma is_hex_char_isxdigit: "is_hex_char c \<longleftrightarrow> isxdigit c"
  by (auto simp: is_hex_char_def isxdigit_def Let_def)

lemma isxdigit_val_less: "isxdigit c \<Longrightarrow> digit_val c < 16"
  by (auto simp: isxdigit_def digit_val_def isdigit_def islower_def Let_def)

lemma isxdigit_x: "\<not> isxdigit (CHR ''x'')" and isxdigit_colon: "\<not> isxdigit (CHR '':'')"
  and isxdigit_NUL: "\<not> isxdigit NUL" and digit_val_0: "digit_val (CHR ''0'') = 0"
  by (simp_all add: isxdigit_def digit_val_def isdigit_def)

lemma strto_loop_stop: "\<not> isxdigit (deref r) \<Longrightarrow> strto_loop b acc r = (acc, r)"
  by (cases r) auto

lemma simple_strtoul_hex2:
  assumes "isxdigit a" and "isxdigit b" and "\<not> isxdigit (deref r)"
  shows "simple_strtoul (a # b # r) 16 = (of_nat (16 * digit_val a + digit_val b), r)"
proof -
  have "b \<noteq> CHR ''x''" using assms(2) isxdigit_x by auto
  with assms show ?thesis
    by (cases "a = CHR ''0''")
      (auto simp: simple_strtoul_def strto_prefix_def isxdigit_val_less strto_loop_stop digit_val_0
        algebra_simps)
qed

lemma ucast_of_nat_small: "m < 256 \<Longrightarrow> (ucast (of_nat m :: u32) :: u8) = of_nat m"
  by (simp add: unsigned_of_nat take_bit_nat_eq_self)

lemma eth_parse_loop_step:
  assumes "isxdigit (at s 0)" and "isxdigit (at s 1)" and "\<not> isxdigit (at s 2)"
  shows "eth_parse_loop (Suc k) s
    = of_nat (16 * digit_val (at s 0) + digit_val (at s 1))
      # eth_parse_loop k (drop (if at s 2 \<noteq> NUL then 3 else 2) s)"
proof -
  obtain a b r where s: "s = a # b # r"
    using assms(1,2) isxdigit_NUL by (cases s; cases "tl s") auto
  have small: "16 * digit_val a + digit_val b < 256"
    using isxdigit_val_less [of a] isxdigit_val_less [of b] assms s by simp
  have "simple_strtoul (a # b # r) 16 = (of_nat (16 * digit_val a + digit_val b), r)"
    using assms s by (intro simple_strtoul_hex2) simp_all
  then show ?thesis
    using ucast_of_nat_small [OF small] s by (simp add: numeral_eq_Suc del: of_nat_add of_nat_mult)
qed

lemma eth_parse_loop_groups:
  assumes "\<forall>j<k. isxdigit (at s (3 * j)) \<and> isxdigit (at s (3 * j + 1))
      \<and> at s (3 * j + 2) = (if j + 1 = k then NUL else CHR '':'')"
  shows "eth_parse_loop k s
    = map (\<lambda>j. of_nat (16 * digit_val (at s (3 * j)) + digit_val (at s (3 * j + 1)))) [0..<k]"
  using assms
proof (induction k arbitrary: s)
  case (Suc k)
  let ?f = "\<lambda>s j. of_nat (16 * digit_val (at s (3 * j)) + digit_val (at s (3 * j + 1))) :: u8"
  have h0: "isxdigit (at s 0)" "isxdigit (at s 1)" "\<not> isxdigit (at s 2)"
    using Suc.prems [rule_format, of 0] isxdigit_NUL isxdigit_colon
    by (auto simp: numeral_2_eq_2 split: if_splits)
  show ?case
  proof (cases k)
    case 0
    then show ?thesis using eth_parse_loop_step [OF h0, of 0] by simp
  next
    case (Suc k')
    with Suc.prems [rule_format, of 0] have c: "at s 2 = CHR '':''"
      by (simp add: numeral_2_eq_2)
    have shift: "at (drop 3 s) (3 * j + i) = at s (3 * Suc j + i)" for i j
      by (simp add: at_drop algebra_simps)
    have "eth_parse_loop k (drop 3 s) = map (?f (drop 3 s)) [0..<k]"
    proof (rule Suc.IH, intro allI impI)
      fix j assume "j < k"
      then show "isxdigit (at (drop 3 s) (3 * j)) \<and> isxdigit (at (drop 3 s) (3 * j + 1))
          \<and> at (drop 3 s) (3 * j + 2) = (if j + 1 = k then NUL else CHR '':'')"
        using Suc.prems [rule_format, of "Suc j"] shift [of j 0] shift [of j 1] shift [of j 2] by simp
    qed
    also have "\<dots> = map (?f s) (map Suc [0..<k])"
      using shift [of _ 0] shift [of _ 1] by simp
    finally have "eth_parse_loop k (drop 3 s) = map (?f s) [1..<Suc k]"
      by (simp only: map_Suc_upt One_nat_def)
    then show ?thesis
      using eth_parse_loop_step [OF h0, of k] c by (simp add: upt_conv_Cons del: upt_Suc)
  qed
qed simp

lemma mac_string_valid_loop_iff:
  "mac_string_valid_loop s i k \<longleftrightarrow>
     (\<forall>j. i \<le> j \<and> j < i + k \<longrightarrow> (if j mod 3 = 2 then at s j = CHR '':'' else is_hex_char (at s j)))"
proof (induction k arbitrary: i)
  case (Suc k)
  have "(\<forall>j. i \<le> j \<and> j < i + Suc k \<longrightarrow> P j) \<longleftrightarrow> P i \<and> (\<forall>j. Suc i \<le> j \<and> j < Suc i + k \<longrightarrow> P j)" for P
    by (metis Suc_leI add_Suc_right add_Suc_shift le_add1 le_eq_less_or_eq le_imp_less_Suc not_less_eq)
  then show ?case by (simp add: Suc.IH del: add_Suc_right)
qed auto

lemma mac_string_valid_loop_numeral:
  "mac_string_valid_loop s i (numeral k) =
     ((if i mod 3 = 2 then at s i = CHR '':'' else is_hex_char (at s i))
      \<and> mac_string_valid_loop s (Suc i) (pred_numeral k))"
  unfolding numeral_eq_Suc [of k] by (rule mac_string_valid_loop.simps)

lemma mac_string_valid_groups:
  assumes "mac_string_valid s" and "j < 6"
  shows "isxdigit (at s (3 * j)) \<and> isxdigit (at s (3 * j + 1))
      \<and> at s (3 * j + 2) = (if j + 1 = 6 then NUL else CHR '':'')"
proof -
  have v: "i < 17 \<Longrightarrow> (if i mod 3 = 2 then at s i = CHR '':'' else isxdigit (at s i))" for i
    using assms(1)
    by (auto simp: mac_string_valid_def mac_string_valid_loop_iff is_hex_char_isxdigit)
  have m: "(3 * j) mod 3 = 0" "(3 * j + 1) mod 3 = 1" "(3 * j + 2) mod 3 = 2" by presburger+
  show ?thesis
    using v [of "3 * j"] v [of "3 * j + 1"] v [of "3 * j + 2"] m assms
    by (cases "j = 5") (auto simp: mac_string_valid_def)
qed

section \<open>Form fields\<close>

lemma amp_split:
  assumes "strchr p c = Some a" and "n < length p - length a"
  shows "c \<notin> set (take n p) \<and> NUL \<notin> set (take n p)"
proof -
  from strchr_Some [OF assms(1)] obtain q where "p = q @ a" "c \<notin> set q" "NUL \<notin> set q" by blast
  with assms(2) show ?thesis by (auto dest: in_set_takeD)
qed

text \<open>The field at the cursor: its text up to the next separator or the end of the string.\<close>

lemma field_split:
  assumes "len = (case strchr p c of Some a \<Rightarrow> length p - length a | None \<Rightarrow> strlen p)" and "c \<noteq> NUL"
  shows "\<exists>f r. p = f @ r \<and> length f = len \<and> c \<notin> set f \<and> NUL \<notin> set f
    \<and> (deref r = c \<or> deref r = NUL)"
proof (cases "strchr p c")
  case None
  have "p = cstr p @ dropWhile (\<lambda>x. x \<noteq> NUL) p" by (simp add: cstr_def)
  moreover have "c \<notin> set (cstr p)" using None assms(2) by (simp add: strchr_None)
  moreover have "deref (dropWhile (\<lambda>x. x \<noteq> NUL) p) = NUL"
    by (induction p) auto
  ultimately show ?thesis using None assms(1)
    by (intro exI [of _ "cstr p"] exI [of _ "dropWhile (\<lambda>x. x \<noteq> NUL) p"]) (simp add: strlen_cstr)
next
  case (Some a)
  from strchr_Some [OF Some] obtain q
    where "p = q @ a" "c \<notin> set q" "NUL \<notin> set q" "deref a = c" by blast
  with Some assms(1) show ?thesis by (intro exI [of _ q] exI [of _ a]) simp
qed

lemma form_scan_Found:
  assumes "form_scan p key n = Found v" and "NUL \<notin> set key"
  shows "\<exists>pre val rest. p = pre @ key @ ''='' @ val @ rest
    \<and> (pre = [] \<or> last pre = CHR ''&'') \<and> CHR ''&'' \<notin> set val \<and> NUL \<notin> set val
    \<and> (deref rest = CHR ''&'' \<or> deref rest = NUL) \<and> length val < n \<and> v = cstr (url_decode val)"
  using assms
proof (induction p key n rule: form_scan.induct)
  case (1 p key n)
  define amp where "amp = strchr p (CHR ''&'')"
  define len where "len = (case amp of Some a \<Rightarrow> length p - length a | None \<Rightarrow> strlen p)"
  define hit where "hit \<longleftrightarrow> strlen key < len \<and> strncmp p key (strlen key) = 0 \<and> at p (strlen key) = CHR ''=''"
  have klen: "strlen key = length key" using "1.prems"(2) by (rule strlen_eq_length)
  have ne: "deref p \<noteq> NUL" using "1.prems"(1) by (auto simp: form_scan.simps [of p])
  show ?case
  proof (cases hit)
    case True
    obtain f r where f: "p = f @ r" "length f = len" "CHR ''&'' \<notin> set f" "NUL \<notin> set f"
        "deref r = CHR ''&'' \<or> deref r = NUL"
      using field_split [of len p "CHR ''&''"] by (auto simp: len_def amp_def)
    have "prefix key p" using True klen "1.prems"(2) by (auto simp: hit_def strncmp_eq_prefix)
    then obtain t where t: "p = key @ t" by (auto simp: prefix_def)
    have "deref t = CHR ''=''" using True t by (simp add: hit_def klen at_def)
    then obtain t' where t': "t = CHR ''='' # t'" by (cases t) auto
    have lt: "length key < length f" using True f klen by (simp add: hit_def)
    define val where "val = take (len - length key - 1) t'"
    have fk: "f = key @ CHR ''='' # val"
    proof -
      have "f = take len p" using f by simp
      then show ?thesis using t t' lt f by (simp add: val_def take_Cons' min_def)
    qed
    have "form_scan p key n = (if n \<le> len - length key - 1 then Missing
        else Found (cstr (url_decode (take (len - length key - 1) (drop (length key + 1) p)))))"
      using ne True klen by (simp add: form_scan.simps [of p key n] Let_def hit_def len_def amp_def)
    moreover have "drop (length key + 1) p = t'" using t t' by simp
    ultimately have "len - length key - 1 < n" and "v = cstr (url_decode val)"
      using "1.prems"(1) by (simp_all add: val_def split: if_splits)
    moreover have "length val = len - length key - 1" using fk f by simp
    ultimately show ?thesis using f fk by (intro exI [of _ "[]"] exI [of _ val] exI [of _ r]) auto
  next
    case False
    then obtain a where a: "amp = Some a" and fs: "form_scan (drop 1 a) key n = Found v"
      using "1.prems"(1) ne
      by (auto simp: form_scan.simps [of p] Let_def hit_def len_def amp_def split: option.splits)
    from strchr_Some [OF a [unfolded amp_def]] obtain q where q: "p = q @ a" "deref a = CHR ''&''"
      by blast
    then have pa: "p = (q @ ''&'') @ drop 1 a" by (cases a) auto
    from "1.IH" [OF ne refl refl refl _ a [unfolded amp_def] fs "1.prems"(2)] False
    obtain pre val rest where "drop 1 a = pre @ key @ ''='' @ val @ rest"
      "pre = [] \<or> last pre = CHR ''&''" "CHR ''&'' \<notin> set val" "NUL \<notin> set val"
      "deref rest = CHR ''&'' \<or> deref rest = NUL" "length val < n" "v = cstr (url_decode val)"
      by (auto simp: hit_def len_def amp_def)
    with pa show ?thesis
      by (intro exI [of _ "(q @ ''&'') @ pre"] exI [of _ val] exI [of _ rest]) auto
  qed
qed

section \<open>JSON text\<close>

lemma json_closed_Cons: "c \<noteq> CHR 0x22 \<Longrightarrow> c \<noteq> CHR 0x5C \<Longrightarrow> json_closed (c # s) = json_closed s"
  by (cases s) auto

lemma json_closed_escape: "json_closed (CHR 0x5C # d # s) = json_closed s"
  by simp

lemma digit_char_plain:
  assumes "d < 16"
  shows "digit_char d \<noteq> CHR 0x22" and "digit_char d \<noteq> CHR 0x5C" and "\<not> (of_char (digit_char d) :: nat) < 32"
proof -
  have "isxdigit (digit_char d)" using assms by (rule digit_char_facts)
  then show "digit_char d \<noteq> CHR 0x22" and "digit_char d \<noteq> CHR 0x5C"
    and "\<not> (of_char (digit_char d) :: nat) < 32"
    by (auto simp: isxdigit_def Let_def)
qed

lemma of_char_nibbles: "(of_char c :: nat) div 16 < 16" "(of_char c :: nat) mod 16 < 16"
  by (rule less_mult_imp_div_less) simp_all

lemma json_rep_closed: "json_closed (json_rep c @ s) = json_closed s"
  using of_char_nibbles [of c]
  by (auto simp: json_rep_def json_closed_Cons digit_char_plain)

lemma json_rep_unescape: "json_unescape (json_rep c @ s) = c # json_unescape s"
  using of_char_nibbles [of c]
  by (auto simp: json_rep_def digit_char_facts)

lemma json_rep_printable: "d \<in> set (json_rep c) \<Longrightarrow> 32 \<le> (of_char d :: nat)"
  using of_char_nibbles [of c]
  by (auto simp: json_rep_def digit_char_plain not_less [symmetric] split: if_splits)

lemma json_reps:
  "json_closed (concat (map json_rep s)) \<and> json_unescape (concat (map json_rep s)) = s
    \<and> (\<forall>d \<in> set (concat (map json_rep s)). 32 \<le> (of_char d :: nat))"
  by (induction s) (auto simp: json_rep_closed json_rep_unescape dest: json_rep_printable)

lemma json_escape_loop_spec:
  assumes "json_escape_loop acc n src k = (out, r)" and "length acc < n"
  shows "length out < n \<and> (\<exists>m \<le> k. out = acc @ concat (map json_rep (take m (cstr src)))
    \<and> (if r = -1 then m < min k (strlen src) else r = int (length out) \<and> m = min k (strlen src)))"
  using assms
proof (induction acc n src k rule: json_escape_loop.induct)
  case (2 acc n c src k)
  show ?case
  proof (cases "c = NUL \<or> k = 0")
    case True
    with "2.prems" show ?thesis by (intro conjI exI [of _ 0]) auto
  next
    case go: False
    show ?thesis
    proof (cases "n \<le> length acc + length (json_rep c)")
      case True
      with go "2.prems" show ?thesis by (intro conjI exI [of _ 0]) auto
    next
      case False
      with go "2.prems" have "json_escape_loop (acc @ json_rep c) n src (k - 1) = (out, r)" by simp
      from "2.IH" [OF go False this] False obtain m where m: "length out < n" "m \<le> k - 1"
        "out = (acc @ json_rep c) @ concat (map json_rep (take m (cstr src)))"
        "if r = -1 then m < min (k - 1) (strlen src)
         else r = int (length out) \<and> m = min (k - 1) (strlen src)"
        by auto
      with go show ?thesis by (intro conjI exI [of _ "Suc m"]) (auto split: if_splits)
    qed
  qed
qed auto

section \<open>Properties\<close>


text \<open>
  a MAC address text that passes \<^verbatim>\<open>mac_string_valid\<close> is parsed by
  \<^verbatim>\<open>eth_parse_enetaddr\<close> to exactly six bytes, byte \<open>j\<close> being the value of the two hex
  digits of group \<open>j\<close>; the forgiving number parser cannot turn it into anything else.
\<close>

theorem mac_text_parsed_exactly:
  assumes "mac_string_valid s"
  shows "eth_parse_enetaddr s
    = map (\<lambda>j. of_nat (16 * digit_val (at s (3 * j)) + digit_val (at s (3 * j + 1)))) [0..<6]"
  unfolding eth_parse_enetaddr_def
  using mac_string_valid_groups [OF assms] by (intro eth_parse_loop_groups) blast

theorem mac_text_parsed_exactly_witness:
  "mac_string_valid ''02:11:aB:33:44:5F''
   \<and> eth_parse_enetaddr ''02:11:aB:33:44:5F'' = [0x02, 0x11, 0xAB, 0x33, 0x44, 0x5F]"
proof -
  have v: "mac_string_valid ''02:11:aB:33:44:5F''"
    by (simp add: mac_string_valid_def mac_string_valid_loop_numeral is_hex_char_def)
  show ?thesis
    using v mac_text_parsed_exactly [OF v]
    by (simp add: upt_conv_Cons digit_val_def isdigit_def islower_def)
qed

text \<open>
  a form value the server accepts is the decoded text of a field of the body: the key
  stands at the start of a field (at the start of the body or right after an ampersand), the
  value runs to the next ampersand or the end, and it is shorter than the caller's buffer.
\<close>

theorem form_value_is_a_field:
  assumes "httpd_form_value body key n = Found v" and "NUL \<notin> set key"
  shows "\<exists>pre val rest. body = pre @ key @ ''='' @ val @ rest
    \<and> (pre = [] \<or> last pre = CHR ''&'') \<and> CHR ''&'' \<notin> set val \<and> NUL \<notin> set val
    \<and> (deref rest = CHR ''&'' \<or> deref rest = NUL) \<and> length val < n \<and> v = cstr (url_decode val)"
  using assms by (intro form_scan_Found) (auto simp: httpd_form_value_def split: if_splits)

theorem form_value_is_a_field_witness:
  "httpd_form_value ''xmac=1&mac=a%20b'' ''mac'' 32 = Found ''a b''
   \<and> (\<exists>pre val rest. ''xmac=1&mac=a%20b'' = pre @ ''mac'' @ ''='' @ val @ rest
      \<and> (pre = [] \<or> last pre = CHR ''&''))"
proof -
  have v: "httpd_form_value ''xmac=1&mac=a%20b'' ''mac'' 32 = Found ''a b''"
    by (simp add: httpd_form_value_def form_scan.simps [of "''xmac=1&mac=a%20b''"]
        form_scan.simps [of "''mac=a%20b''"] url_decode_eq hexval_def char_of_def bit_Suc_0_iff)
  show ?thesis using v form_value_is_a_field [OF v] by fastforce
qed

text \<open>
  a body whose only field is not the wanted one makes \<^verbatim>\<open>httpd_form_value\<close> read
  through a null pointer: after the last field the cursor becomes \<^verbatim>\<open>NULL\<close> and the loop
  condition dereferences it, instead of returning \<open>-1\<close>.
\<close>

theorem form_value_missing_key_null_deref:
  assumes "deref body \<noteq> NUL" and "CHR ''&'' \<notin> set (cstr body)" and "0 < n"
    and "NUL \<notin> set key" and "\<not> prefix (key @ ''='') body"
  shows "httpd_form_value body key n = NullDeref"
proof -
  have amp: "strchr body (CHR ''&'') = None" using assms(2) by (simp add: strchr_None)
  have klen: "strlen key = length key" using assms(4) by (rule strlen_eq_length)
  have "\<not> (strncmp body key (length key) = 0 \<and> at body (length key) = CHR ''='')"
  proof
    assume h: "strncmp body key (length key) = 0 \<and> at body (length key) = CHR ''=''"
    then obtain t where t: "body = key @ t" using assms(4) by (auto simp: strncmp_eq_prefix prefix_def)
    with h have "deref t = CHR ''=''" by (simp add: at_def)
    with t assms(5) show False by (cases t) (auto simp: prefix_def)
  qed
  with assms amp klen show ?thesis
    by (auto simp: httpd_form_value_def form_scan.simps [of body])
qed

theorem form_value_missing_key_null_deref_witness:
  "httpd_form_value ''mac=02:11:22:33:44:55'' ''iface'' 16 = NullDeref"
  by (rule form_value_missing_key_null_deref) simp_all

text \<open>
  \<^verbatim>\<open>json_escape\<close> is safe and lossless: whatever it leaves in a buffer of size
  \<open>n > 0\<close> is shorter than \<open>n\<close>, contains no control character and cannot end the
  surrounding JSON string; when it reports success, undoing the escapes gives back the first
  \<open>maxlen\<close> characters of the source string.
\<close>

theorem json_escape_safe_and_lossless:
  assumes "json_escape n src maxlen = (out, r)" and "0 < n"
  shows "length out < n \<and> json_closed out \<and> (\<forall>d \<in> set out. 32 \<le> (of_char d :: nat))
    \<and> (r \<noteq> -1 \<longrightarrow> r = int (length out) \<and> json_unescape out = take maxlen (cstr src))"
proof -
  from assms have "json_escape_loop [] n src maxlen = (out, r)" by (simp add: json_escape_def)
  from json_escape_loop_spec [OF this] assms(2) obtain m where m: "length out < n"
    "out = concat (map json_rep (take m (cstr src)))"
    "if r = -1 then m < min maxlen (strlen src) else r = int (length out) \<and> m = min maxlen (strlen src)"
    by auto
  have "r \<noteq> -1 \<Longrightarrow> take m (cstr src) = take maxlen (cstr src)"
    using m(3) by (simp add: min_def strlen_cstr)
  with m json_reps [of "take m (cstr src)"] show ?thesis by auto
qed

theorem json_escape_safe_and_lossless_witness:
  "json_escape 384 [CHR ''a'', CHR 0x22, CHR 0x01] 128 = ([CHR ''a'', CHR 0x5C, CHR 0x22] @ [CHR 0x5C] @ ''u0001'', 9)
   \<and> json_unescape ([CHR ''a'', CHR 0x5C, CHR 0x22] @ [CHR 0x5C] @ ''u0001'') = [CHR ''a'', CHR 0x22, CHR 0x01]"
proof -
  have e: "json_escape 384 [CHR ''a'', CHR 0x22, CHR 0x01] 128
      = ([CHR ''a'', CHR 0x5C, CHR 0x22] @ [CHR 0x5C] @ ''u0001'', 9)"
    by (simp add: json_escape_def json_rep_def digit_char_def)
  show ?thesis using e json_escape_safe_and_lossless [OF e] by simp
qed

end
