(* ===== verification/Dhcpd.thy ===== *)
theory Dhcpd
  imports CString "HOL-Library.Monad_Syntax"
begin

text \<open>
  The DHCP server of the recovery environment, \<^verbatim>\<open>net/dhcpd.c\<close>, with
  \<^verbatim>\<open>string_to_ip\<close> and \<^verbatim>\<open>ip_to_string\<close>.

  The state holds the lease table, the configuration, the server state, the saved UDP handler,
  the packets handed to the network, the shared network variables and the clock; \<open>hung\<close>
  records that the handler called itself without end. Every call of \<^verbatim>\<open>get_timer\<close> reads the
  next value of the clock, an arbitrary function of the number of reads, so time may pass
  between any two reads of one handler. An address is kept as the code keeps it, a word in
  network byte order; \<open>htonl\<close> and \<open>ntohl\<close> swap the bytes.
\<close>

section \<open>Byte order\<close>

definition htonl :: "u32 \<Rightarrow> u32" where
  "htonl x = push_bit 24 (take_bit 8 x) OR push_bit 16 (take_bit 8 (drop_bit 8 x))
     OR push_bit 8 (take_bit 8 (drop_bit 16 x)) OR take_bit 8 (drop_bit 24 x)"

abbreviation ntohl :: "u32 \<Rightarrow> u32" where "ntohl \<equiv> htonl"

text \<open>A 32-bit value in memory: least significant byte first.\<close>

definition u32_bytes :: "u32 \<Rightarrow> u8 list" where
  "u32_bytes x = [ucast x, ucast (drop_bit 8 x), ucast (drop_bit 16 x), ucast (drop_bit 24 x)]"

fun bytes_u32 :: "u8 list \<Rightarrow> u32" where
  "bytes_u32 [] = 0"
| "bytes_u32 (b # bs) = ucast b OR push_bit 8 (bytes_u32 bs)"

section \<open>State\<close>

record lease =
  used :: bool
  mac_addr :: "u8 list"
  ip_addr :: u32
  lease_start :: u32
  lease_time :: u32

record svr_cfg =
  server_ip :: u32
  start_ip :: u32
  end_ip :: u32
  netmask :: u32
  gateway :: u32

datatype dhcpd_state_t = DHCPD_STATE_STOPPED | DHCPD_STATE_RUNNING

datatype udp_handler = Default_Handler nat | Dhcpd_Handler

record dhcpd =
  leases :: "lease list"
  cfg :: svr_cfg
  dstate :: dhcpd_state_t
  original_udp_handler :: "udp_handler option"
  udp_handler :: udp_handler
  net_tx_packet :: bool
  sent :: "(u32 \<times> u8 list) list"
  forwarded :: "u8 list list"
  hung :: bool
  net_ip :: u32
  net_netmask :: u32
  net_gateway :: u32
  netloop_success :: bool
  global_retry_count :: nat
  clock :: "nat \<Rightarrow> u32"
  ticks :: nat

datatype dhcp_err = ERR_INVALID_PARAM | ERR_NETWORK | ERR_NOT_FOUND | ERR_OUT_OF_RANGE
  | ERR_INVALID_PACKET | ERR_SERVER_FULL | ERR_CONFIG | ERR_BUFFER_OVERFLOW
  | RETRY_REQUEST | ERR_DHCP_FAILURE

abbreviation (input) MAX_LEASES :: nat where "MAX_LEASES \<equiv> 32"

text \<open>One hour in timer ticks (\<^verbatim>\<open>CONFIG_SYS_HZ\<close> is 1000).\<close>

abbreviation (input) LEASE_TICKS :: u32 where "LEASE_TICKS \<equiv> 3600 * 1000"

definition get_timer :: "u32 \<Rightarrow> dhcpd \<Rightarrow> u32 \<times> dhcpd" where
  "get_timer base s = (clock s (ticks s) - base, s\<lparr>ticks := Suc (ticks s)\<rparr>)"

section \<open>Leases\<close>

definition dhcpd_mac_equal :: "u8 list \<Rightarrow> u8 list \<Rightarrow> bool" where
  "dhcpd_mac_equal a b = (take 6 a = take 6 b)"

fun expire_loop :: "(nat \<Rightarrow> u32) \<Rightarrow> nat \<Rightarrow> lease list \<Rightarrow> nat \<times> lease list" where
  "expire_loop clk t [] = (t, [])"
| "expire_loop clk t (l # ls) =
     (if used l \<and> lease_time l \<noteq> 0 then
        let l' = (if lease_time l < clk t - lease_start l then l\<lparr>used := False\<rparr> else l);
            (t', ls') = expire_loop clk (Suc t) ls
        in (t', l' # ls')
      else let (t', ls') = expire_loop clk t ls in (t', l # ls'))"

definition dhcpd_expire_leases :: "dhcpd \<Rightarrow> dhcpd" where
  "dhcpd_expire_leases s =
     (let (t, ls) = expire_loop (clock s) (ticks s) (leases s) in s\<lparr>ticks := t, leases := ls\<rparr>)"

text \<open>The index of the first slot with a property: the search loops over the lease table.\<close>

fun find_slot :: "(lease \<Rightarrow> bool) \<Rightarrow> lease list \<Rightarrow> nat option" where
  "find_slot P [] = None"
| "find_slot P (l # ls) = (if P l then Some 0 else map_option Suc (find_slot P ls))"

definition dhcpd_find_lease :: "u8 list \<Rightarrow> dhcpd \<Rightarrow> nat option \<times> dhcpd" where
  "dhcpd_find_lease mac s =
     (let s = dhcpd_expire_leases s
      in (find_slot (\<lambda>l. used l \<and> dhcpd_mac_equal (mac_addr l) mac) (leases s), s))"

definition dhcpd_ip_in_pool :: "u32 \<Rightarrow> dhcpd \<Rightarrow> bool" where
  "dhcpd_ip_in_pool ip_host s =
     (ntohl (start_ip (cfg s)) \<le> ip_host \<and> ip_host \<le> ntohl (end_ip (cfg s)))"

definition dhcpd_ip_is_allocated :: "u32 \<Rightarrow> dhcpd \<Rightarrow> bool \<times> dhcpd" where
  "dhcpd_ip_is_allocated ip_host s =
     (let s = dhcpd_expire_leases s
      in (find_slot (\<lambda>l. used l \<and> ip_addr l = htonl ip_host) (leases s) \<noteq> None, s))"

definition dhcpd_ip_allocated_to_mac :: "u32 \<Rightarrow> u8 list \<Rightarrow> dhcpd \<Rightarrow> bool \<times> dhcpd" where
  "dhcpd_ip_allocated_to_mac ip_host mac s =
     (let s = dhcpd_expire_leases s
      in (find_slot (\<lambda>l. used l \<and> ip_addr l = htonl ip_host \<and> dhcpd_mac_equal (mac_addr l) mac)
            (leases s) \<noteq> None, s))"

definition dhcpd_validate_config :: "svr_cfg \<Rightarrow> dhcp_err option" where
  "dhcpd_validate_config c = (if server_ip c = 0 \<or> end_ip c = 0 then Some ERR_CONFIG else None)"

definition dhcpd_create_lease :: "u8 list \<Rightarrow> u32 \<Rightarrow> int \<Rightarrow> dhcpd \<Rightarrow> dhcp_err option \<times> dhcpd" where
  "dhcpd_create_lease mac ip index s =
     (if index < 0 \<or> int MAX_LEASES \<le> index then (Some ERR_INVALID_PARAM, s)
      else
        let (now, s) = get_timer 0 s
        in (None, s\<lparr>leases := (leases s)[nat index :=
              \<lparr>used = True, mac_addr = take 6 mac, ip_addr = ip, lease_start = now,
               lease_time = LEASE_TICKS\<rparr>]\<rparr>))"

definition dhcpd_get_available_lease_slot :: "dhcpd \<Rightarrow> int \<times> dhcpd" where
  "dhcpd_get_available_lease_slot s =
     (let s = dhcpd_expire_leases s
      in (case find_slot (\<lambda>l. \<not> used l) (leases s) of Some i \<Rightarrow> int i | None \<Rightarrow> -1, s))"

text \<open>The error, the address left in \<open>allocated_ip\<close>, the new state.\<close>

definition dhcpd_try_allocate_ip :: "u8 list \<Rightarrow> u32 \<Rightarrow> dhcpd \<Rightarrow> dhcp_err option \<times> u32 \<times> dhcpd" where
  "dhcpd_try_allocate_ip mac try_ip s =
     (let (lease_idx, s) = dhcpd_get_available_lease_slot s in
      if 0 \<le> lease_idx then
        let (_, s) = dhcpd_create_lease mac (htonl try_ip) lease_idx s
        in (None, ip_addr (leases s ! nat lease_idx), s)
      else (Some ERR_SERVER_FULL, 0, s))"

definition mac_hash :: "u8 list \<Rightarrow> u32" where
  "mac_hash mac = fold (\<lambda>b h. h * 31 + ucast b) (take 6 mac) 0"

text \<open>The hashed attempts; \<open>None\<close> when all of them hit allocated addresses.\<close>

fun alloc_random :: "u8 list \<Rightarrow> u32 \<Rightarrow> u32 \<Rightarrow> nat \<Rightarrow> nat \<Rightarrow> dhcpd
    \<Rightarrow> (dhcp_err option \<times> u32) option \<times> dhcpd" where
  "alloc_random mac start end_host attempt 0 s = (None, s)"
| "alloc_random mac start end_host attempt (Suc left) s =
     (let (now, s) = get_timer 0 s;
          seed = mac_hash mac + now + of_nat attempt;
          random_ip = start + seed mod (end_host - start + 1);
          (taken, s) = dhcpd_ip_is_allocated random_ip s
      in if \<not> taken then
           let (r, ip, s) = dhcpd_try_allocate_ip mac random_ip s in (Some (r, ip), s)
         else alloc_random mac start end_host (Suc attempt) left s)"

fun alloc_linear :: "u8 list \<Rightarrow> u32 \<Rightarrow> u32 \<Rightarrow> u32 \<Rightarrow> nat \<Rightarrow> dhcpd
    \<Rightarrow> dhcp_err option \<times> u32 \<times> dhcpd" where
  "alloc_linear mac start end_host current_ip 0 s = (Some ERR_SERVER_FULL, 0, s)"
| "alloc_linear mac start end_host current_ip (Suc left) s =
     (let (taken, s) = dhcpd_ip_is_allocated current_ip s
      in if \<not> taken then dhcpd_try_allocate_ip mac current_ip s
         else alloc_linear mac start end_host
                (if current_ip < end_host then current_ip + 1 else start) left s)"

definition dhcpd_alloc_ip :: "u8 list \<Rightarrow> dhcpd \<Rightarrow> dhcp_err option \<times> u32 \<times> dhcpd" where
  "dhcpd_alloc_ip mac s =
     (let start = ntohl (start_ip (cfg s));
          end_host = ntohl (end_ip (cfg s))
      in case find_slot (\<lambda>l. used l \<and> dhcpd_mac_equal (mac_addr l) mac) (leases s) of
           Some i \<Rightarrow>
             let (now, s) = get_timer 0 s;
                 s = s\<lparr>leases := (leases s)[i := (leases s ! i)\<lparr>lease_start := now\<rparr>]\<rparr>
             in (None, ip_addr (leases s ! i), s)
         | None \<Rightarrow>
             let total_ips = end_host - start + 1;
                 max_attempts = (if total_ips < 100 then unat total_ips else 100)
             in case alloc_random mac start end_host 0 max_attempts s of
                  (Some (r, ip), s) \<Rightarrow> (r, ip, s)
                | (None, s) \<Rightarrow> alloc_linear mac start end_host start (nat (sint total_ips)) s)"

section \<open>Packets\<close>

text \<open>
  A packet is the list of its bytes; the fields of \<^verbatim>\<open>struct dhcpd_pkt\<close> stand at fixed
  offsets, the options (\<^verbatim>\<open>vend\<close>, 312 bytes in the struct) start at byte 236.
\<close>

abbreviation (input) VEND :: nat where "VEND \<equiv> 236"
abbreviation (input) VEND_SIZE :: nat where "VEND_SIZE \<equiv> 312"

definition pkt_op :: "u8 list \<Rightarrow> u8" where "pkt_op p = p ! 0"
definition pkt_htype :: "u8 list \<Rightarrow> u8" where "pkt_htype p = p ! 1"
definition pkt_hlen :: "u8 list \<Rightarrow> u8" where "pkt_hlen p = p ! 2"
definition pkt_xid :: "u8 list \<Rightarrow> u8 list" where "pkt_xid p = take 4 (drop 4 p)"
definition pkt_secs :: "u8 list \<Rightarrow> u8 list" where "pkt_secs p = take 2 (drop 8 p)"
definition pkt_ciaddr :: "u8 list \<Rightarrow> u32" where "pkt_ciaddr p = bytes_u32 (take 4 (drop 12 p))"
definition pkt_yiaddr :: "u8 list \<Rightarrow> u32" where "pkt_yiaddr p = bytes_u32 (take 4 (drop 16 p))"
definition pkt_chaddr :: "u8 list \<Rightarrow> u8 list" where "pkt_chaddr p = take 16 (drop 28 p)"

definition dhcp_magic_cookie :: "u8 list" where
  "dhcp_magic_cookie = [99, 130, 83, 99]"

fun option_loop :: "u8 list \<Rightarrow> u8 \<Rightarrow> u8 \<Rightarrow> dhcp_err + u8 list" where
  "option_loop [] option_code expected_len = Inl ERR_NOT_FOUND"
| "option_loop (code # opt) option_code expected_len =
     (if code = 0 then option_loop opt option_code expected_len
      else if code = 255 then Inl ERR_NOT_FOUND
      else case opt of
        [] \<Rightarrow> Inl ERR_NOT_FOUND
      | olen # opt' \<Rightarrow>
          if length opt' < unat olen then Inl ERR_NOT_FOUND
          else if code = option_code \<and> (expected_len = 0 \<or> olen = expected_len)
          then Inr (take (unat olen) opt')
          else option_loop (drop (unat olen) opt') option_code expected_len)"

definition dhcpd_parse_option :: "u8 list \<Rightarrow> u8 \<Rightarrow> u8 \<Rightarrow> dhcp_err + u8 list" where
  "dhcpd_parse_option bp option_code expected_len =
     (if length bp < VEND + 4 then Inl ERR_INVALID_PARAM
      else if take 4 (drop VEND bp) \<noteq> dhcp_magic_cookie then Inl ERR_INVALID_PACKET
      else option_loop (drop (VEND + 4) bp) option_code expected_len)"

definition dhcpd_parse_msg_type :: "u8 list \<Rightarrow> dhcp_err + u8" where
  "dhcpd_parse_msg_type bp =
     (case dhcpd_parse_option bp 53 1 of Inr v \<Rightarrow> Inr (v ! 0) | Inl _ \<Rightarrow> Inl ERR_NOT_FOUND)"

definition dhcpd_parse_req_ip :: "u8 list \<Rightarrow> dhcp_err + u32" where
  "dhcpd_parse_req_ip bp =
     (case dhcpd_parse_option bp 50 4 of Inr v \<Rightarrow> Inr (bytes_u32 v) | Inl e \<Rightarrow> Inl e)"

definition dhcpd_parse_server_id :: "u8 list \<Rightarrow> dhcp_err + u32" where
  "dhcpd_parse_server_id bp =
     (case dhcpd_parse_option bp 54 4 of Inr v \<Rightarrow> Inr (bytes_u32 v) | Inl e \<Rightarrow> Inl e)"

definition ip_to_string :: "u32 \<Rightarrow> string" where
  "ip_to_string a =
     (let x = ntohl a
      in fmt_dec (unat (drop_bit 24 x AND 0xff)) @ ''.'' @ fmt_dec (unat (drop_bit 16 x AND 0xff))
         @ ''.'' @ fmt_dec (unat (drop_bit 8 x AND 0xff)) @ ''.'' @ fmt_dec (unat (x AND 0xff)))"

definition dhcpd_validate_request :: "u32 \<Rightarrow> dhcpd \<Rightarrow> (dhcp_err \<times> string) option" where
  "dhcpd_validate_request req_ip s =
     (let ip_host = ntohl req_ip;
          network = server_ip (cfg s) AND netmask (cfg s);
          req_network = req_ip AND netmask (cfg s)
      in if req_network \<noteq> network then
           Some (ERR_INVALID_PACKET, ''['' @ ip_to_string req_ip @ ''] out of subnet'')
         else if \<not> dhcpd_ip_in_pool ip_host s then
           Some (ERR_OUT_OF_RANGE, ''['' @ ip_to_string req_ip @ ''] out of pool'')
         else None)"

definition dhcpd_process_lease :: "u8 list \<Rightarrow> u32 \<Rightarrow> dhcpd \<Rightarrow> dhcp_err option \<times> u32 \<times> dhcpd" where
  "dhcpd_process_lease client_mac req_ip s =
     (let ip_host = ntohl req_ip;
          (lease, s) = dhcpd_find_lease client_mac s;
          (allocated, s) = dhcpd_ip_is_allocated ip_host s;
          (own, s) = (if allocated then dhcpd_ip_allocated_to_mac ip_host client_mac s else (True, s))
      in if allocated \<and> \<not> own then dhcpd_alloc_ip client_mac s
         else case lease of
           Some i \<Rightarrow>
             let (now, s) = get_timer 0 s
             in (None, req_ip, s\<lparr>leases := (leases s)[i := (leases s ! i)
                   \<lparr>ip_addr := req_ip, lease_start := now, lease_time := LEASE_TICKS\<rparr>]\<rparr>)
         | None \<Rightarrow>
             let (lease_idx, s) = dhcpd_get_available_lease_slot s
             in if lease_idx < 0 then (Some ERR_SERVER_FULL, req_ip, s)
                else let (_, s) = dhcpd_create_lease client_mac req_ip lease_idx s
                     in (None, req_ip, s))"

definition dhcpd_opt_add_u8 :: "u8 list \<Rightarrow> u8 \<Rightarrow> u8 \<Rightarrow> u8 list" where
  "dhcpd_opt_add_u8 p code val = p @ [code, 1, val]"

definition dhcpd_opt_add_u32 :: "u8 list \<Rightarrow> u8 \<Rightarrow> u32 \<Rightarrow> u8 list" where
  "dhcpd_opt_add_u32 p code val = p @ [code, 4] @ u32_bytes val"

definition dhcpd_opt_add_inaddr :: "u8 list \<Rightarrow> u8 \<Rightarrow> u32 \<Rightarrow> u8 list" where
  "dhcpd_opt_add_inaddr p code addr = dhcpd_opt_add_u32 p code addr"

text \<open>The test for room in \<^verbatim>\<open>vend\<close> that precedes every option; \<open>None\<close> is \<^verbatim>\<open>ERR_BUFFER_OVERFLOW\<close>.\<close>

definition room :: "u8 list \<Rightarrow> nat \<Rightarrow> u8 list \<Rightarrow> u8 list option" where
  "room opt n opt' = (if VEND_SIZE < length opt + n then None else Some opt')"

definition nak_options :: "u32 \<Rightarrow> string \<Rightarrow> u8 list \<Rightarrow> u8 list option" where
  "nak_options sip nak_message opt =
     do {
       opt \<leftarrow> room opt 6 (dhcpd_opt_add_inaddr opt 54 sip);
       let msg_len = min (strlen nak_message) 64;
       Some (if strlen nak_message \<noteq> 0 \<and> length opt + 2 + msg_len \<le> VEND_SIZE
             then opt @ [56, of_nat msg_len] @ map of_char (take msg_len nak_message) else opt)
     }"

definition ack_options :: "svr_cfg \<Rightarrow> u8 list \<Rightarrow> u8 list option" where
  "ack_options c opt =
     do {
       opt \<leftarrow> room opt 6 (dhcpd_opt_add_inaddr opt 54 (server_ip c));
       opt \<leftarrow> room opt 6 (dhcpd_opt_add_inaddr opt 1 (netmask c));
       opt \<leftarrow> (if gateway c \<noteq> 0 then room opt 6 (dhcpd_opt_add_inaddr opt 3 (gateway c)) else Some opt);
       opt \<leftarrow> room opt 6 (dhcpd_opt_add_inaddr opt 6 (server_ip c));
       room opt 6 (dhcpd_opt_add_u32 opt 51 (htonl 3600))
     }"

definition reply_header :: "u8 list \<Rightarrow> u32 \<Rightarrow> u32 \<Rightarrow> u8 list" where
  "reply_header req yi si =
     [2, 1, 6, 0] @ pkt_xid req @ pkt_secs req @ [0x80, 0x00] @ u32_bytes (pkt_ciaddr req)
     @ u32_bytes yi @ u32_bytes si @ [0, 0, 0, 0] @ pkt_chaddr req @ replicate 64 0 @ replicate 128 0"

definition dhcpd_send_reply :: "u8 list \<Rightarrow> u8 \<Rightarrow> u32 \<Rightarrow> string \<Rightarrow> dhcpd \<Rightarrow> dhcp_err option \<times> dhcpd" where
  "dhcpd_send_reply req dhcp_msg_type yiaddr nak_message s =
     (if \<not> net_tx_packet s then (Some ERR_NETWORK, s)
      else
        let dest_addr = (if pkt_ciaddr req \<noteq> 0 then pkt_ciaddr req else htonl 0xFFFFFFFF);
            hdr = (if dhcp_msg_type = 6 then reply_header req 0 0
                   else reply_header req yiaddr (server_ip (cfg s)));
            options =
              do {
                opt \<leftarrow> room dhcp_magic_cookie 3 (dhcpd_opt_add_u8 dhcp_magic_cookie 53 dhcp_msg_type);
                if dhcp_msg_type = 6 then nak_options (server_ip (cfg s)) nak_message opt
                else ack_options (cfg s) opt
              }
        in case options of
             None \<Rightarrow> (Some ERR_BUFFER_OVERFLOW, s)
           | Some opt \<Rightarrow>
               let opt = (if length opt < VEND_SIZE then opt @ [255] else opt);
                   padding = 300 - length (hdr @ opt);
                   opt = (if length opt + padding \<le> VEND_SIZE then opt @ replicate padding 0 else opt)
               in (None, s\<lparr>sent := sent s @ [(dest_addr, hdr @ opt)]\<rparr>))"

section \<open>Message handlers\<close>

definition dhcpd_handle_request :: "u8 list \<Rightarrow> dhcpd \<Rightarrow> dhcp_err option \<times> dhcpd" where
  "dhcpd_handle_request bp s =
     (let chaddr = pkt_chaddr bp;
          serve = (case dhcpd_parse_req_ip bp of
             Inl _ \<Rightarrow>
               (case dhcpd_alloc_ip chaddr s of
                  (Some e, _, s) \<Rightarrow> (Some e, s)
                | (None, yiaddr, s) \<Rightarrow> dhcpd_send_reply bp 5 yiaddr [] s)
           | Inr req_ip \<Rightarrow>
               (case dhcpd_validate_request req_ip s of
                  Some (_, nak_msg) \<Rightarrow> dhcpd_send_reply bp 6 0 nak_msg s
                | None \<Rightarrow>
                    (case dhcpd_process_lease chaddr req_ip s of
                       (Some e, _, s) \<Rightarrow> (Some e, s)
                     | (None, yiaddr, s) \<Rightarrow> dhcpd_send_reply bp 5 yiaddr [] s)))
      in case dhcpd_parse_server_id bp of
           Inr server_id \<Rightarrow> if server_id \<noteq> server_ip (cfg s) then (None, s) else serve
         | Inl e \<Rightarrow> if e \<noteq> ERR_NOT_FOUND then (Some e, s) else serve)"

definition dhcpd_handle_discover :: "u8 list \<Rightarrow> dhcpd \<Rightarrow> dhcp_err option \<times> u32 \<times> dhcpd" where
  "dhcpd_handle_discover client_mac s =
     (let (lease, s) = dhcpd_find_lease client_mac s
      in case lease of
           None \<Rightarrow> dhcpd_alloc_ip client_mac s
         | Some i \<Rightarrow>
             let ip_host = ntohl (ip_addr (leases s ! i));
                 (allocated, s) = dhcpd_ip_is_allocated ip_host s;
                 (own, s) = (if allocated then dhcpd_ip_allocated_to_mac ip_host client_mac s
                             else (True, s))
             in if \<not> allocated \<or> own then (None, ip_addr (leases s ! i), s)
                else dhcpd_alloc_ip client_mac
                       (s\<lparr>leases := (leases s)[i := (leases s ! i)
                           \<lparr>used := False, mac_addr := replicate 6 0\<rparr>]\<rparr>))"

definition dhcpd_handler_with_fallback :: "u8 list \<Rightarrow> dhcpd \<Rightarrow> dhcpd" where
  "dhcpd_handler_with_fallback pkt s =
     (let fallback = (case original_udp_handler s of
            Some Dhcpd_Handler \<Rightarrow> s\<lparr>hung := True\<rparr>
          | Some (Default_Handler _) \<Rightarrow> s\<lparr>forwarded := forwarded s @ [pkt]\<rparr>
          | None \<Rightarrow> s)
      in if VEND \<le> length pkt \<and> pkt_op pkt = 1 \<and> pkt_htype pkt = 1 \<and> pkt_hlen pkt = 6
            \<and> VEND + 4 \<le> length pkt \<and> take 4 (drop VEND pkt) = dhcp_magic_cookie
         then case dhcpd_parse_msg_type pkt of
                Inl _ \<Rightarrow> fallback
              | Inr msg_type \<Rightarrow>
                  if msg_type = 1 then
                    let (ret, yiaddr, s) = dhcpd_handle_discover (pkt_chaddr pkt) s
                    in snd (dhcpd_send_reply pkt 2 yiaddr [] s)
                  else if msg_type = 3 then snd (dhcpd_handle_request pkt s)
                  else fallback
         else fallback)"

section \<open>Configuration and life cycle\<close>

fun string_to_ip_loop :: "nat \<Rightarrow> u32 \<Rightarrow> string \<Rightarrow> u32" where
  "string_to_ip_loop 0 addr s = addr"
| "string_to_ip_loop (Suc k) addr s =
     (let (val, e) = simple_strtoul s 10
      in string_to_ip_loop k (push_bit 8 addr OR (val AND 0xFF)) (if deref e \<noteq> NUL then tl e else e))"

definition string_to_ip :: "string option \<Rightarrow> u32" where
  "string_to_ip s = (case s of None \<Rightarrow> 0 | Some s \<Rightarrow> htonl (string_to_ip_loop 4 0 s))"

text \<open>The address range offered to clients, in host byte order.\<close>

definition dhcpd_pool :: "u32 \<Rightarrow> u32 \<Rightarrow> u32 \<times> u32" where
  "dhcpd_pool ip_addr_int netmask_int =
     (let network_addr = ip_addr_int AND netmask_int;
          broadcast_addr = network_addr OR NOT netmask_int;
          start = ip_addr_int + 1;
          stop = ip_addr_int + 100;
          start = (if start \<le> network_addr then network_addr + 1 else start);
          stop = (if broadcast_addr \<le> stop then broadcast_addr - 1 else stop)
      in if stop < start then
           let start = network_addr + 1;
               stop = (if start + 10 < broadcast_addr then start + 10 else broadcast_addr - 1)
           in (start, if broadcast_addr - 1 < stop then broadcast_addr - 1 else stop)
         else (start, stop))"

type_synonym env = "string \<Rightarrow> string option"

text \<open>\<open>env_default\<close> stands for the shell command \<^verbatim>\<open>env default ipaddr netmask\<close>.\<close>

definition dhcpd_ip_settings :: "(env \<Rightarrow> env) \<Rightarrow> env \<Rightarrow> dhcpd \<Rightarrow> env \<times> dhcpd" where
  "dhcpd_ip_settings env_default e s =
     (let env_gateway = e ''gatewayip'';
          e = (if e ''ipaddr'' = None \<or> e ''netmask'' = None then env_default e else e);
          ip = string_to_ip (e ''ipaddr'');
          mask = string_to_ip (e ''netmask'');
          (start, stop) = dhcpd_pool (ntohl ip) (ntohl mask)
      in (e, s\<lparr>cfg := \<lparr>server_ip = ip, start_ip = htonl start, end_ip = htonl stop, netmask = mask,
               gateway = (if env_gateway \<noteq> None then string_to_ip env_gateway else ip)\<rparr>,
               net_ip := ip, net_netmask := mask\<rparr>))"

definition dhcpd_set_config :: "svr_cfg \<Rightarrow> dhcpd \<Rightarrow> dhcp_err option \<times> dhcpd" where
  "dhcpd_set_config c s =
     (case dhcpd_validate_config c of Some e \<Rightarrow> (Some e, s) | None \<Rightarrow> (None, s\<lparr>cfg := c\<rparr>))"

definition empty_lease :: lease where
  "empty_lease = \<lparr>used = False, mac_addr = replicate 6 0, ip_addr = 0, lease_start = 0, lease_time = 0\<rparr>"

definition dhcpd_init_server :: "(env \<Rightarrow> env) \<Rightarrow> env \<Rightarrow> dhcpd \<Rightarrow> env \<times> dhcpd" where
  "dhcpd_init_server env_default e s =
     (let (e, s) = dhcpd_ip_settings env_default e s
      in (e, s\<lparr>leases := replicate MAX_LEASES empty_lease,
               original_udp_handler := Some (udp_handler s), udp_handler := Dhcpd_Handler\<rparr>))"

definition dhcpd_deinit_server :: "dhcpd \<Rightarrow> dhcpd" where
  "dhcpd_deinit_server s =
     (let s = (case original_udp_handler s of
            Some h \<Rightarrow> s\<lparr>udp_handler := h, original_udp_handler := None\<rparr> | None \<Rightarrow> s)
      in s\<lparr>dstate := DHCPD_STATE_STOPPED, netloop_success := True\<rparr>)"

definition dhcpd_stop_server :: "dhcpd \<Rightarrow> dhcpd" where
  "dhcpd_stop_server s =
     (if dstate s \<noteq> DHCPD_STATE_STOPPED
      then (dhcpd_deinit_server s)\<lparr>dstate := DHCPD_STATE_STOPPED\<rparr> else s)"

text \<open>\<open>eth_rx\<close> delivers the waiting packets to the installed UDP handler.\<close>

definition eth_rx_udp :: "u8 list list \<Rightarrow> dhcpd \<Rightarrow> dhcpd" where
  "eth_rx_udp pkts s =
     fold (\<lambda>p s. if udp_handler s = Dhcpd_Handler then dhcpd_handler_with_fallback p s
                 else s\<lparr>forwarded := forwarded s @ [p]\<rparr>) pkts s"

definition dhcpd_poll_server :: "u8 list list \<Rightarrow> bool \<Rightarrow> dhcpd \<Rightarrow> dhcp_err option \<times> dhcpd" where
  "dhcpd_poll_server pkts ctrlc s =
     (if dstate s \<noteq> DHCPD_STATE_RUNNING then (Some ERR_NETWORK, s)
      else let s = eth_rx_udp pkts s
           in if ctrlc then (Some ERR_NETWORK, dhcpd_stop_server s) else (None, s))"

text \<open>
  The polling loop of the non-blocking start: \<open>rx k\<close> is what \<^verbatim>\<open>eth_rx\<close> does in round
  \<open>k\<close> (its result and the UDP payloads it delivers). The result says whether the loop left
  through the 300-packet return; \<open>None\<close> is running out of fuel.
\<close>

fun nonblocking_loop :: "(nat \<Rightarrow> int \<times> u8 list list) \<Rightarrow> nat \<Rightarrow> nat \<Rightarrow> u32 \<Rightarrow> u32 \<Rightarrow> int \<Rightarrow> dhcpd
    \<Rightarrow> (bool \<times> int \<times> dhcpd) option" where
  "nonblocking_loop rx 0 k start last_pkt prcd s = None"
| "nonblocking_loop rx (Suc fuel) k start last_pkt prcd s =
     (let (elapsed, s) = get_timer start s
      in if \<not> elapsed < 10 * 1000 then Some (False, prcd, s)
         else
           let (current_time, s) = get_timer 0 s;
               (rx_result, pkts) = rx k;
               s = eth_rx_udp pkts s;
               last_pkt = (if rx_result > 0 then current_time else last_pkt);
               prcd = (if rx_result > 0 then prcd + rx_result else prcd)
           in if rx_result > 0 \<and> 300 \<le> prcd then Some (True, prcd, s)
              else if 3 * 1000 \<le> current_time - last_pkt then Some (False, prcd, s)
              else nonblocking_loop rx fuel (Suc k) start last_pkt prcd s)"

definition dhcpd_request_nonblocking :: "(nat \<Rightarrow> int \<times> u8 list list) \<Rightarrow> nat \<Rightarrow> (env \<Rightarrow> env) \<Rightarrow> env
    \<Rightarrow> dhcpd \<Rightarrow> (dhcp_err option \<times> env \<times> dhcpd) option" where
  "dhcpd_request_nonblocking rx fuel env_default e s =
     (let (e, s) = dhcpd_init_server env_default e s;
          s = s\<lparr>dstate := DHCPD_STATE_RUNNING\<rparr>;
          (start, s) = get_timer 0 s
      in case nonblocking_loop rx fuel 0 start start 0 s of
           None \<Rightarrow> None
         | Some (done, prcd, s) \<Rightarrow>
             if done then Some (None, e, s\<lparr>global_retry_count := 0\<rparr>)
             else if prcd < 300 then
               if global_retry_count s < 5
               then Some (Some RETRY_REQUEST, e, s\<lparr>global_retry_count := global_retry_count s + 1\<rparr>)
               else Some (Some ERR_DHCP_FAILURE, e, s\<lparr>global_retry_count := 0\<rparr>)
             else Some (None, e, s\<lparr>global_retry_count := 0\<rparr>))"

text \<open>
  The blocking loop over what happens in each round: the payloads \<^verbatim>\<open>eth_rx\<close> delivers and
  whether Ctrl+C is pressed after it; \<open>None\<close> when the rounds end before a Ctrl+C.
\<close>

fun request_loop :: "(u8 list list \<times> bool) list \<Rightarrow> dhcpd \<Rightarrow> dhcpd option" where
  "request_loop [] s = None"
| "request_loop ((pkts, ctrlc) # rounds) s =
     (let s = eth_rx_udp pkts s in if ctrlc then Some s else request_loop rounds s)"

definition dhcpd_request :: "(u8 list list \<times> bool) list \<Rightarrow> (env \<Rightarrow> env) \<Rightarrow> env \<Rightarrow> dhcpd
    \<Rightarrow> (dhcp_err option \<times> env \<times> dhcpd) option" where
  "dhcpd_request rounds env_default e s =
     (let (e, s) = dhcpd_init_server env_default e s;
          s = s\<lparr>dstate := DHCPD_STATE_RUNNING\<rparr>
      in map_option (\<lambda>s. (None, e, dhcpd_stop_server s)) (request_loop rounds s))"

text \<open>
  \<^verbatim>\<open>net_init\<close>: the first call provides the transmit buffer and installs the dummy UDP
  handler, number 0. The buffer is set nowhere else, so its presence is the \<^verbatim>\<open>first_call\<close> flag.
\<close>

definition net_init :: "dhcpd \<Rightarrow> dhcpd" where
  "net_init s = (if \<not> net_tx_packet s
     then s\<lparr>net_tx_packet := True, udp_handler := Default_Handler 0\<rparr> else s)"

definition do_dhcpd :: "(nat \<Rightarrow> int \<times> u8 list list) \<Rightarrow> nat \<Rightarrow> (u8 list list \<times> bool) list
    \<Rightarrow> (env \<Rightarrow> env) \<Rightarrow> string list \<Rightarrow> env \<Rightarrow> dhcpd \<Rightarrow> (dhcp_err option \<times> env \<times> dhcpd) option" where
  "do_dhcpd rx fuel rounds env_default argv e s =
     (let (e, s) = dhcpd_ip_settings env_default e s
      in case dhcpd_validate_config (cfg s) of
           Some err \<Rightarrow> Some (Some err, e, s)
         | None \<Rightarrow>
             let s = net_init s;
                 s = s\<lparr>net_ip := server_ip (cfg s)\<rparr>;
                 s = (if net_netmask s = 0 then s\<lparr>net_netmask := netmask (cfg s)\<rparr> else s);
                 s = (if net_gateway s = 0 then s\<lparr>net_gateway := gateway (cfg s)\<rparr> else s)
             in if length argv > 1 \<and> strcmp (argv ! 1) ''-nb'' = 0
                then dhcpd_request_nonblocking rx fuel env_default e s
                else dhcpd_request rounds env_default e s)"

end
