(* ===== verification/DhcpdProofs.thy ===== *)
theory DhcpdProofs
  imports Dhcpd
begin

text \<open>
  What the DHCP server guarantees: the lease table never gives one address to two clients or
  two addresses to one client and stays inside the configured pool, whatever packets arrive
  and however the clock behaves; options survive encoding and parsing; the address pool of a
  recovery network; the polling loop ends.
\<close>

section \<open>Lease table lemmas\<close>

lemma find_slot_Some:
  "find_slot P ls = Some i \<Longrightarrow> i < length ls \<and> P (ls ! i) \<and> (\<forall>j<i. \<not> P (ls ! j))"
proof (induction ls arbitrary: i)
  case (Cons l ls)
  then show ?case by (auto split: if_splits simp: nth_Cons' less_Suc_eq_0_disj)
qed simp

lemma find_slot_None: "find_slot P ls = None \<longleftrightarrow> (\<forall>l \<in> set ls. \<not> P l)"
  by (induction ls) auto

text \<open>Expiry only clears \<open>used\<close> flags.\<close>

definition shrinks :: "lease list \<Rightarrow> lease list \<Rightarrow> bool" where
  "shrinks ls ls' = list_all2 (\<lambda>l l'. l' = l \<or> l' = l\<lparr>used := False\<rparr>) ls ls'"

lemma shrinks_refl: "shrinks ls ls"
  by (simp add: shrinks_def list_all2_refl)

lemma shrinks_trans: "shrinks a b \<Longrightarrow> shrinks b c \<Longrightarrow> shrinks a c"
  by (fastforce simp: shrinks_def list_all2_conv_all_nth)

lemma shrinks_length: "shrinks ls ls' \<Longrightarrow> length ls' = length ls"
  unfolding shrinks_def by (simp add: list_all2_lengthD)

lemma shrinks_nth: "shrinks ls ls' \<Longrightarrow> i < length ls \<Longrightarrow> ls' ! i = ls ! i \<or> ls' ! i = (ls ! i)\<lparr>used := False\<rparr>"
  unfolding shrinks_def by (auto simp: list_all2_conv_all_nth)

lemma shrinks_used:
  assumes "shrinks ls ls'" and "l' \<in> set ls'" and "used l'"
  shows "l' \<in> set ls"
proof -
  from assms(2) obtain i where "i < length ls'" "l' = ls' ! i" by (auto simp: in_set_conv_nth)
  with assms shrinks_length shrinks_nth [of ls ls' i] show ?thesis by auto
qed

lemma expire_loop_shrinks: "shrinks ls (snd (expire_loop clk t ls))"
  by (induction clk t ls rule: expire_loop.induct)
    (auto simp: shrinks_def Let_def split: prod.splits)

lemma dhcpd_expire_frame [dhcp_frame]:
  "cfg (dhcpd_expire_leases s) = cfg s" "sent (dhcpd_expire_leases s) = sent s"
  "net_tx_packet (dhcpd_expire_leases s) = net_tx_packet s"
  "original_udp_handler (dhcpd_expire_leases s) = original_udp_handler s"
  "udp_handler (dhcpd_expire_leases s) = udp_handler s"
  "dstate (dhcpd_expire_leases s) = dstate s"
  "hung (dhcpd_expire_leases s) = hung s"
  by (simp_all add: dhcpd_expire_leases_def split_beta)

lemma dhcpd_expire_shrinks: "shrinks (leases s) (leases (dhcpd_expire_leases s))"
  using expire_loop_shrinks [of "leases s" "clock s" "ticks s"]
  by (simp add: dhcpd_expire_leases_def split_beta)

section \<open>The lease invariant\<close>

definition in_pool :: "svr_cfg \<Rightarrow> u32 \<Rightarrow> bool" where
  "in_pool c ip = (ntohl (start_ip c) \<le> ntohl ip \<and> ntohl ip \<le> ntohl (end_ip c))"

definition table_ok :: "svr_cfg \<Rightarrow> lease list \<Rightarrow> bool" where
  "table_ok c ls \<longleftrightarrow> length ls = MAX_LEASES
     \<and> (\<forall>l \<in> set ls. used l \<longrightarrow> length (mac_addr l) = 6 \<and> in_pool c (ip_addr l))
     \<and> (\<forall>i<length ls. \<forall>j<length ls. i \<noteq> j \<and> used (ls ! i) \<and> used (ls ! j) \<longrightarrow>
          ip_addr (ls ! i) \<noteq> ip_addr (ls ! j) \<and> mac_addr (ls ! i) \<noteq> mac_addr (ls ! j))"

definition dhcp_inv :: "dhcpd \<Rightarrow> bool" where
  "dhcp_inv s \<longleftrightarrow> table_ok (cfg s) (leases s) \<and> ntohl (start_ip (cfg s)) \<le> ntohl (end_ip (cfg s))"

definition mac_free :: "u8 list \<Rightarrow> lease list \<Rightarrow> bool" where
  "mac_free mac ls = (\<forall>l \<in> set ls. used l \<longrightarrow> take 6 (mac_addr l) \<noteq> take 6 mac)"

definition ip_free :: "u32 \<Rightarrow> lease list \<Rightarrow> bool" where
  "ip_free ip ls = (\<forall>l \<in> set ls. used l \<longrightarrow> ip_addr l \<noteq> ip)"

lemma mac_free_shrinks: "shrinks ls ls' \<Longrightarrow> mac_free mac ls \<Longrightarrow> mac_free mac ls'"
  by (auto simp: mac_free_def dest: shrinks_used)

lemma ip_free_shrinks: "shrinks ls ls' \<Longrightarrow> ip_free ip ls \<Longrightarrow> ip_free ip ls'"
  by (auto simp: ip_free_def dest: shrinks_used)

lemma table_ok_shrinks:
  assumes "shrinks ls ls'" and "table_ok c ls"
  shows "table_ok c ls'"
  unfolding table_ok_def
proof (intro conjI allI ballI impI; (elim conjE)?)
  show "length ls' = MAX_LEASES" using assms by (simp add: table_ok_def shrinks_length)
next
  fix l assume "l \<in> set ls'" "used l"
  then show "length (mac_addr l) = 6" "in_pool c (ip_addr l)"
    using assms by (auto simp: table_ok_def dest: shrinks_used)
next
  fix i j assume ij: "i < length ls'" "j < length ls'" "i \<noteq> j" "used (ls' ! i)" "used (ls' ! j)"
  then have "ls' ! i = ls ! i" "ls' ! j = ls ! j"
    using assms(1) shrinks_nth [of ls ls' i] shrinks_nth [of ls ls' j] by (auto simp: shrinks_length)
  with ij assms show "ip_addr (ls' ! i) \<noteq> ip_addr (ls' ! j)" "mac_addr (ls' ! i) \<noteq> mac_addr (ls' ! j)"
    by (auto simp: table_ok_def shrinks_length)
qed

text \<open>Writing one slot keeps the table good when no other slot holds the address or the client.\<close>

lemma table_ok_update:
  assumes ok: "table_ok c ls" and i: "i < length ls"
    and new: "used l \<Longrightarrow> length (mac_addr l) = 6 \<and> in_pool c (ip_addr l)
      \<and> (\<forall>j<length ls. j \<noteq> i \<and> used (ls ! j) \<longrightarrow>
           ip_addr (ls ! j) \<noteq> ip_addr l \<and> mac_addr (ls ! j) \<noteq> mac_addr l)"
  shows "table_ok c (ls[i := l])"
proof -
  have "l' \<in> set (ls[i := l]) \<Longrightarrow> used l' \<Longrightarrow> length (mac_addr l') = 6 \<and> in_pool c (ip_addr l')" for l'
    using ok new set_update_subset_insert [of ls i l] by (auto simp: table_ok_def)
  moreover have "a < length ls \<Longrightarrow> b < length ls \<Longrightarrow> a \<noteq> b \<Longrightarrow> used (ls[i := l] ! a) \<Longrightarrow>
      used (ls[i := l] ! b) \<Longrightarrow> ip_addr (ls[i := l] ! a) \<noteq> ip_addr (ls[i := l] ! b)
        \<and> mac_addr (ls[i := l] ! a) \<noteq> mac_addr (ls[i := l] ! b)" for a b
    using ok new i by (cases "a = i"; cases "b = i") (auto simp: table_ok_def dest: not_sym)
  ultimately show ?thesis using ok by (auto simp: table_ok_def)
qed

lemma mac_free_nth:
  assumes "mac_free mac ls" and "table_ok c ls" and "j < length ls" and "used (ls ! j)"
  shows "mac_addr (ls ! j) \<noteq> take 6 mac"
  using assms by (metis mac_free_def nth_mem take_all table_ok_def order_refl)

lemma ip_free_nth: "ip_free ip ls \<Longrightarrow> j < length ls \<Longrightarrow> used (ls ! j) \<Longrightarrow> ip_addr (ls ! j) \<noteq> ip"
  by (auto simp: ip_free_def)

lemma table_ok_new_lease:
  assumes "table_ok c ls" and "i < length ls" and "mac_free mac ls" and "ip_free ip ls"
    and "in_pool c ip" and "6 \<le> length mac" and "mac_addr l = take 6 mac" and "ip_addr l = ip"
  shows "table_ok c (ls[i := l])"
  using assms by (intro table_ok_update) (auto simp: mac_free_nth ip_free_nth)

section \<open>Byte order\<close>

lemma bit_htonl:
  "bit (htonl x) n \<longleftrightarrow> n < 32 \<and> bit x (if n < 8 then n + 24 else if n < 16 then n + 8
     else if n < 24 then n - 8 else n - 24)"
proof -
  consider "n < 8" | "8 \<le> n" "n < 16" | "16 \<le> n" "n < 24" | "24 \<le> n" "n < 32" | "32 \<le> n"
    by linarith
  then show ?thesis
    by cases (auto simp: htonl_def bit_push_bit_iff bit_take_bit_iff bit_drop_bit_eq bit_or_iff
        add.commute dest: bit_imp_le_length)
qed

lemma htonl_htonl [simp]: "htonl (htonl x) = x"
proof (rule bit_word_eqI)
  fix n assume "n < LENGTH(32)"
  then consider "n < 8" | "8 \<le> n" "n < 16" | "16 \<le> n" "n < 24" | "24 \<le> n" "n < 32"
    by fastforce
  then show "bit (htonl (htonl x)) n = bit x n" by cases (auto simp: bit_htonl)
qed

lemma htonl_and: "htonl (x AND y) = htonl x AND htonl y"
  by (rule bit_word_eqI) (auto simp: bit_htonl bit_and_iff)

section \<open>Operations keep the invariant\<close>

lemma get_timer_simps [simp]:
  "fst (get_timer b s) = clock s (ticks s) - b" "snd (get_timer b s) = s\<lparr>ticks := Suc (ticks s)\<rparr>"
  by (simp_all add: get_timer_def)

lemma get_timer_eq: "get_timer b s = (clock s (ticks s) - b, s\<lparr>ticks := Suc (ticks s)\<rparr>)"
  by (simp add: get_timer_def)

lemma expire_inv: "dhcp_inv s \<Longrightarrow> dhcp_inv (dhcpd_expire_leases s)"
  using table_ok_shrinks [OF dhcpd_expire_shrinks] by (simp add: dhcp_inv_def dhcp_frame)

lemma find_lease_eq:
  "snd (dhcpd_find_lease mac s) = dhcpd_expire_leases s"
  "fst (dhcpd_find_lease mac s)
    = find_slot (\<lambda>l. used l \<and> dhcpd_mac_equal (mac_addr l) mac) (leases (dhcpd_expire_leases s))"
  by (simp_all add: dhcpd_find_lease_def Let_def)

lemma ip_is_allocated_eq:
  "snd (dhcpd_ip_is_allocated ip s) = dhcpd_expire_leases s"
  "fst (dhcpd_ip_is_allocated ip s) \<longleftrightarrow> \<not> ip_free (htonl ip) (leases (dhcpd_expire_leases s))"
  by (auto simp: dhcpd_ip_is_allocated_def Let_def find_slot_None ip_free_def)

lemma ip_allocated_to_mac_eq:
  "snd (dhcpd_ip_allocated_to_mac ip mac s) = dhcpd_expire_leases s"
  "fst (dhcpd_ip_allocated_to_mac ip mac s) \<longleftrightarrow> (\<exists>l \<in> set (leases (dhcpd_expire_leases s)).
     used l \<and> ip_addr l = htonl ip \<and> take 6 (mac_addr l) = take 6 mac)"
  by (auto simp: dhcpd_ip_allocated_to_mac_def Let_def find_slot_None dhcpd_mac_equal_def
      simp del: not_None_eq)

lemma create_lease_eq:
  "i < MAX_LEASES \<Longrightarrow> dhcpd_create_lease mac ip (int i) s
    = (None, s\<lparr>ticks := Suc (ticks s), leases := (leases s)[i :=
        \<lparr>used = True, mac_addr = take 6 mac, ip_addr = ip, lease_start = clock s (ticks s),
         lease_time = LEASE_TICKS\<rparr>]\<rparr>)"
  by (simp add: dhcpd_create_lease_def get_timer_eq)

lemma available_slot_cases:
  assumes "dhcpd_get_available_lease_slot s = (i, s')" and "length (leases s) = MAX_LEASES"
  shows "s' = dhcpd_expire_leases s
    \<and> (i = -1 \<or> (\<exists>k. i = int k \<and> k < MAX_LEASES \<and> k < length (leases s') \<and> \<not> used (leases s' ! k)))"
proof -
  have "length (leases (dhcpd_expire_leases s)) = MAX_LEASES"
    using assms(2) dhcpd_expire_shrinks [of s] by (simp add: shrinks_length)
  with assms(1) show ?thesis
    by (auto simp: dhcpd_get_available_lease_slot_def Let_def split: option.splits dest!: find_slot_Some)
qed

lemma inv_length: "dhcp_inv s \<Longrightarrow> length (leases s) = MAX_LEASES"
  by (simp add: dhcp_inv_def table_ok_def)

text \<open>
  The client's address after a successful allocation: a used lease of the table binds it.
\<close>

definition bound :: "u8 list \<Rightarrow> u32 \<Rightarrow> dhcpd \<Rightarrow> bool" where
  "bound mac ip s = (\<exists>l \<in> set (leases s). used l \<and> take 6 (mac_addr l) = take 6 mac \<and> ip_addr l = ip)"

definition alloc_ok :: "u8 list \<Rightarrow> dhcpd \<Rightarrow> dhcp_err option \<times> u32 \<times> dhcpd \<Rightarrow> bool" where
  "alloc_ok mac s r = (case r of (e, ip, s') \<Rightarrow> dhcp_inv s' \<and> cfg s' = cfg s \<and> sent s' = sent s
     \<and> (if e = None then bound mac ip s' \<and> in_pool (cfg s) ip
        else e = Some ERR_SERVER_FULL \<and> ip = 0))"

lemma alloc_ok_frame: "cfg s2 = cfg s \<Longrightarrow> sent s2 = sent s \<Longrightarrow> alloc_ok mac s2 r = alloc_ok mac s r"
  by (cases r) (simp add: alloc_ok_def)

lemma try_allocate_ok:
  assumes inv: "dhcp_inv s" and m: "mac_free mac (leases s)" and p: "ip_free (htonl ip) (leases s)"
    and ip: "in_pool (cfg s) (htonl ip)" and len: "6 \<le> length mac"
  shows "alloc_ok mac s (dhcpd_try_allocate_ip mac ip s)"
proof -
  obtain i s' where sl: "dhcpd_get_available_lease_slot s = (i, s')" by fastforce
  from available_slot_cases [OF sl inv_length [OF inv]] have s': "s' = dhcpd_expire_leases s"
    and i: "i = -1 \<or> (\<exists>k. i = int k \<and> k < MAX_LEASES \<and> k < length (leases s') \<and> \<not> used (leases s' ! k))"
    by auto
  have inv': "dhcp_inv s'" using expire_inv [OF inv] s' by simp
  have sh: "shrinks (leases s) (leases s')" using dhcpd_expire_shrinks s' by simp
  show ?thesis
  proof (cases "i = -1")
    case True
    with sl inv' s' show ?thesis
      by (simp add: dhcpd_try_allocate_ip_def alloc_ok_def dhcp_frame)
  next
    case False
    with i obtain k where k: "i = int k" "k < MAX_LEASES" "k < length (leases s')" by auto
    have "table_ok (cfg s') ((leases s')[k :=
        \<lparr>used = True, mac_addr = take 6 mac, ip_addr = htonl ip, lease_start = clock s' (ticks s'),
         lease_time = LEASE_TICKS\<rparr>])"
      using inv' k mac_free_shrinks [OF sh m] ip_free_shrinks [OF sh p] ip len
      by (intro table_ok_new_lease [where mac = mac and ip = "htonl ip"])
        (simp_all add: dhcp_inv_def s' dhcp_frame)
    with sl k inv' ip s' show ?thesis
      by (auto simp: dhcpd_try_allocate_ip_def create_lease_eq alloc_ok_def bound_def dhcp_inv_def
          dhcp_frame intro!: bexI [OF _ set_update_memI])
  qed
qed

lemma unat_inc: "(x :: u32) + 1 \<noteq> 0 \<Longrightarrow> unat (x + 1) = Suc (unat x)"
  using unatSuc [of x] by (simp add: add.commute)

lemma word_inc_less:
  assumes "(x :: u32) < y"
  shows "x < x + 1 \<and> x + 1 \<le> y"
proof -
  have "x + 1 \<noteq> 0"
  proof
    assume "x + 1 = 0"
    then have "x = - 1" by (simp add: eq_neg_iff_add_eq_0)
    with assms show False by (simp add: word_order.extremum_strict)
  qed
  then show ?thesis using assms by (simp add: word_less_nat_alt word_le_nat_alt unat_inc)
qed

lemma word_offset_in_range:
  fixes a b x :: u32
  assumes "a \<le> b" and "b - a + 1 \<noteq> 0"
  shows "a \<le> a + x mod (b - a + 1) \<and> a + x mod (b - a + 1) \<le> b"
proof -
  define d where "d = b - a"
  have b: "b = a + d" by (simp add: d_def)
  have "x mod (d + 1) < d + 1"
    using assms(2) by (simp add: d_def word_mod_less_divisor word_gt_0)
  then have le: "x mod (d + 1) \<le> d"
    using assms(2) by (simp add: word_le_nat_alt word_less_nat_alt unat_inc flip: d_def)
  have ud: "unat a + unat d = unat b"
    using assms(1) unat_sub [OF assms(1)] by (simp add: d_def word_le_nat_alt)
  then have "unat a + unat (x mod (d + 1)) < 2 ^ 32"
    using le unat_u32_less [of b, THEN less_eq_Suc_le [THEN iffD1]] by (simp add: word_le_nat_alt)
  then have "unat (a + x mod (d + 1)) = unat a + unat (x mod (d + 1))"
    by (simp add: unat_word_ariths)
  then show ?thesis using le ud unfolding d_def [symmetric] by (simp add: word_le_nat_alt)
qed

lemma alloc_random_ok:
  assumes "dhcp_inv s" and "mac_free mac (leases s)" and "6 \<le> length mac"
    and "start = ntohl (start_ip (cfg s))" and "end_host = ntohl (end_ip (cfg s))"
    and "left \<noteq> 0 \<Longrightarrow> end_host - start + 1 \<noteq> 0"
    and "alloc_random mac start end_host attempt left s = (r, s')"
  shows "case r of Some (e, ip) \<Rightarrow> alloc_ok mac s (e, ip, s')
    | None \<Rightarrow> dhcp_inv s' \<and> cfg s' = cfg s \<and> sent s' = sent s \<and> mac_free mac (leases s')"
  using assms
proof (induction left arbitrary: attempt s)
  case (Suc left)
  define s1 where "s1 = s\<lparr>ticks := Suc (ticks s)\<rparr>"
  define ip where "ip = start + (mac_hash mac + clock s (ticks s) + of_nat attempt) mod (end_host - start + 1)"
  define s2 where "s2 = dhcpd_expire_leases s1"
  have inv1: "dhcp_inv s1" using Suc.prems(1) by (simp add: s1_def dhcp_inv_def)
  have inv2: "dhcp_inv s2" unfolding s2_def using inv1 by (rule expire_inv)
  have fr: "cfg s2 = cfg s" "sent s2 = sent s" by (simp_all add: s2_def s1_def dhcp_frame)
  have mf: "mac_free mac (leases s2)"
    using mac_free_shrinks [OF dhcpd_expire_shrinks [of s1]] Suc.prems(2) by (simp add: s2_def s1_def)
  have pool: "in_pool (cfg s2) (htonl ip)"
    using word_offset_in_range [of start end_host] Suc.prems(1,4,5,6)
    by (simp add: in_pool_def fr ip_def dhcp_inv_def)
  show ?case
  proof (cases "ip_free (htonl ip) (leases s2)")
    case True
    obtain e a t where t: "dhcpd_try_allocate_ip mac ip s2 = (e, a, t)" by (metis prod_cases3)
    have "fst (dhcpd_ip_is_allocated ip s1) = False" "snd (dhcpd_ip_is_allocated ip s1) = s2"
      using True by (simp_all add: ip_is_allocated_eq s2_def)
    then have "r = Some (e, a)" "s' = t"
      using Suc.prems(7) t
      by (simp_all add: get_timer_eq Let_def split_beta flip: s1_def ip_def)
    moreover have "alloc_ok mac s2 (e, a, t)"
      using try_allocate_ok [OF inv2 mf True pool Suc.prems(3)] t by simp
    ultimately show ?thesis using alloc_ok_frame [OF fr] by simp
  next
    case False
    have "fst (dhcpd_ip_is_allocated ip s1) = True" "snd (dhcpd_ip_is_allocated ip s1) = s2"
      using False by (simp_all add: ip_is_allocated_eq s2_def)
    then have "alloc_random mac start end_host (Suc attempt) left s2 = (r, s')"
      using Suc.prems(7)
      by (simp add: get_timer_eq Let_def split_beta flip: s1_def ip_def)
    from Suc.IH [OF inv2 mf Suc.prems(3) _ _ _ this] Suc.prems(4-6) show ?thesis
      by (auto simp: fr alloc_ok_def split: option.splits)
  qed
qed (simp add: dhcp_inv_def)

lemma alloc_linear_ok:
  assumes "dhcp_inv s" and "mac_free mac (leases s)" and "6 \<le> length mac"
    and "start = ntohl (start_ip (cfg s))" and "end_host = ntohl (end_ip (cfg s))"
    and "start \<le> cur" and "cur \<le> end_host"
  shows "alloc_ok mac s (alloc_linear mac start end_host cur left s)"
  using assms
proof (induction left arbitrary: cur s)
  case (Suc left)
  define s2 where "s2 = dhcpd_expire_leases s"
  have inv2: "dhcp_inv s2" unfolding s2_def using Suc.prems(1) by (rule expire_inv)
  have fr: "cfg s2 = cfg s" "sent s2 = sent s" by (simp_all add: s2_def dhcp_frame)
  have mf: "mac_free mac (leases s2)"
    using mac_free_shrinks [OF dhcpd_expire_shrinks [of s]] Suc.prems(2) by (simp add: s2_def)
  have pool: "in_pool (cfg s2) (htonl cur)" using Suc.prems by (simp add: in_pool_def fr)
  have step: "snd (dhcpd_ip_is_allocated cur s) = s2"
    "fst (dhcpd_ip_is_allocated cur s) = (\<not> ip_free (htonl cur) (leases s2))"
    by (simp_all add: ip_is_allocated_eq s2_def)
  show ?case
  proof (cases "ip_free (htonl cur) (leases s2)")
    case True
    with step have "alloc_linear mac start end_host cur (Suc left) s = dhcpd_try_allocate_ip mac cur s2"
      by (simp add: Let_def split_beta)
    with try_allocate_ok [OF inv2 mf True pool Suc.prems(3)] show ?thesis
      using alloc_ok_frame [OF fr] by (simp only:)
  next
    case False
    define nxt where "nxt = (if cur < end_host then cur + 1 else start)"
    have "start \<le> nxt \<and> nxt \<le> end_host"
      using Suc.prems(6,7) word_inc_less [of cur end_host] by (auto simp: nxt_def)
    with Suc.IH [OF inv2 mf Suc.prems(3)] Suc.prems(4,5) fr
    have "alloc_ok mac s2 (alloc_linear mac start end_host nxt left s2)" by simp
    moreover have "alloc_linear mac start end_host cur (Suc left) s = alloc_linear mac start end_host nxt left s2"
      using step False by (simp add: Let_def split_beta nxt_def)
    ultimately show ?thesis using alloc_ok_frame [OF fr] by (simp only:)
  qed
qed (simp add: alloc_ok_def)

lemma mac_equal_slot_None:
  "find_slot (\<lambda>l. used l \<and> dhcpd_mac_equal (mac_addr l) mac) ls = None \<longleftrightarrow> mac_free mac ls"
  by (auto simp: find_slot_None mac_free_def dhcpd_mac_equal_def)

lemma table_ok_refresh:
  assumes "table_ok c ls" and "i < length ls" and "used l \<Longrightarrow> used (ls ! i)"
    and "mac_addr l = mac_addr (ls ! i)" and "ip_addr l = ip_addr (ls ! i)"
  shows "table_ok c (ls[i := l])"
  using assms by (intro table_ok_update) (auto simp: table_ok_def)

lemma alloc_ip_ok:
  assumes inv: "dhcp_inv s" and len: "6 \<le> length mac"
  shows "alloc_ok mac s (dhcpd_alloc_ip mac s)"
proof (cases "find_slot (\<lambda>l. used l \<and> dhcpd_mac_equal (mac_addr l) mac) (leases s)")
  case (Some i)
  then have i: "i < length (leases s)" "used (leases s ! i)" "take 6 (mac_addr (leases s ! i)) = take 6 mac"
    by (auto dest: find_slot_Some simp: dhcpd_mac_equal_def)
  define l where "l = (leases s ! i)\<lparr>lease_start := clock s (ticks s)\<rparr>"
  have "table_ok (cfg s) ((leases s)[i := l])"
    using inv i by (intro table_ok_refresh) (simp_all add: dhcp_inv_def l_def)
  moreover have "in_pool (cfg s) (ip_addr (leases s ! i))"
    using inv i nth_mem [of i "leases s"] by (auto simp: dhcp_inv_def table_ok_def)
  moreover have "l \<in> set ((leases s)[i := l])" using i by (simp add: set_update_memI)
  ultimately show ?thesis
    using Some i inv
    by (auto simp: dhcpd_alloc_ip_def get_timer_eq alloc_ok_def bound_def dhcp_inv_def l_def
        intro!: bexI [of _ l])
next
  case None
  define start where "start = ntohl (start_ip (cfg s))"
  define stop where "stop = ntohl (end_ip (cfg s))"
  define k where "k = (if stop - start + 1 < 100 then unat (stop - start + 1) else 100)"
  have mf: "mac_free mac (leases s)" using None by (simp add: mac_equal_slot_None)
  obtain r s' where rs: "alloc_random mac start stop 0 k s = (r, s')" by fastforce
  have k0: "k \<noteq> 0 \<Longrightarrow> stop - start + 1 \<noteq> 0" by (auto simp: k_def)
  note ok = alloc_random_ok [OF inv mf len start_def stop_def k0 rs]
  have "dhcpd_alloc_ip mac s = (case alloc_random mac start stop 0 k s of (Some (r, ip), s) \<Rightarrow> (r, ip, s)
      | (None, s) \<Rightarrow> alloc_linear mac start stop start (nat (sint (stop - start + 1))) s)"
    using None by (simp only: dhcpd_alloc_ip_def Let_def start_def stop_def k_def option.case)
  then have eq: "dhcpd_alloc_ip mac s = (case r of Some (r, ip) \<Rightarrow> (r, ip, s')
      | None \<Rightarrow> alloc_linear mac start stop start (nat (sint (stop - start + 1))) s')"
    using rs by simp
  show ?thesis
  proof (cases r)
    case (Some p)
    with ok eq show ?thesis by (cases p) simp
  next
    case None
    with ok have "dhcp_inv s'" "cfg s' = cfg s" "sent s' = sent s" "mac_free mac (leases s')" by auto
    with alloc_linear_ok [of s' mac start stop start] len eq None alloc_ok_frame [of s' s]
    show ?thesis using inv by (simp add: start_def stop_def dhcp_inv_def)
  qed
qed

text \<open>The slot of a client found before further expiry: nobody else can hold its address or name.\<close>

lemma other_slots_differ:
  assumes ok: "table_ok c ls" and sh: "shrinks ls ls'" and i: "i < length ls" "used (ls ! i)"
    and j: "j < length ls'" "j \<noteq> i" "used (ls' ! j)"
  shows "mac_addr (ls' ! j) \<noteq> mac_addr (ls' ! i)"
proof -
  have "ls' ! j = ls ! j" "used (ls ! j)" "j < length ls"
    using shrinks_nth [OF sh, of j] j shrinks_length [OF sh] by auto
  moreover have "mac_addr (ls' ! i) = mac_addr (ls ! i)" using shrinks_nth [OF sh i(1)] by auto
  ultimately show ?thesis using ok i j unfolding table_ok_def by metis
qed

lemma table_ok_rebind:
  assumes ok: "table_ok c ls" and sh: "shrinks ls ls'" and i: "i < length ls" "used (ls ! i)"
    and mac: "take 6 (mac_addr (ls ! i)) = take 6 mac"
    and ip: "ip_free ip ls' \<or> (\<exists>l \<in> set ls'. used l \<and> ip_addr l = ip \<and> take 6 (mac_addr l) = take 6 mac)"
    and pool: "in_pool c ip"
    and l: "l = (ls' ! i)\<lparr>ip_addr := ip, lease_start := t, lease_time := t'\<rparr>"
  shows "table_ok c (ls'[i := l])"
proof (rule table_ok_update)
  show ok': "table_ok c ls'" by (rule table_ok_shrinks [OF sh ok])
  show i': "i < length ls'" using i shrinks_length [OF sh] by simp
  have len6: "j < length ls \<Longrightarrow> used (ls ! j) \<Longrightarrow> length (mac_addr (ls ! j)) = 6" for j
    using ok nth_mem [of j ls] by (auto simp: table_ok_def)
  assume "used l"
  have "length (mac_addr l) = 6 \<and> mac_addr l = mac_addr (ls ! i)"
    using shrinks_nth [OF sh i(1)] len6 [OF i] l by auto
  moreover have "ip_addr (ls' ! j) \<noteq> ip_addr l \<and> mac_addr (ls' ! j) \<noteq> mac_addr l"
    if j: "j < length ls'" "j \<noteq> i" "used (ls' ! j)" for j
  proof
    show "mac_addr (ls' ! j) \<noteq> mac_addr l"
      using other_slots_differ [OF ok sh i j] l by simp
    show "ip_addr (ls' ! j) \<noteq> ip_addr l"
    proof
      assume eq: "ip_addr (ls' ! j) = ip_addr l"
      with j l have "\<not> ip_free ip ls'" by (auto simp: ip_free_def)
      with ip obtain k where k: "k < length ls'" "used (ls' ! k)" "ip_addr (ls' ! k) = ip"
          "take 6 (mac_addr (ls' ! k)) = take 6 mac"
        by (auto simp: in_set_conv_nth)
      then have kls: "k < length ls" "ls' ! k = ls ! k" "used (ls ! k)"
        using shrinks_nth [OF sh, of k] shrinks_length [OF sh] by auto
      then have "mac_addr (ls ! k) = mac_addr (ls ! i)"
        using k mac len6 [OF i] len6 [OF kls(1,3)] by simp
      then have "k = i" using ok i kls unfolding table_ok_def by metis
      with ok' k j i' eq l show False unfolding table_ok_def by (metis lease.select_convs(3)
          lease.update_convs(3,4,5) lease.surjective)
    qed
  qed
  ultimately show "length (mac_addr l) = 6 \<and> in_pool c (ip_addr l) \<and>
      (\<forall>j<length ls'. j \<noteq> i \<and> used (ls' ! j) \<longrightarrow>
        ip_addr (ls' ! j) \<noteq> ip_addr l \<and> mac_addr (ls' ! j) \<noteq> mac_addr l)"
    using pool l by auto
qed

definition keeps :: "dhcpd \<Rightarrow> dhcp_err option \<times> u32 \<times> dhcpd \<Rightarrow> bool" where
  "keeps s r = (case r of (e, ip, s') \<Rightarrow> dhcp_inv s' \<and> cfg s' = cfg s \<and> sent s' = sent s
     \<and> (e = None \<longrightarrow> in_pool (cfg s) ip))"

lemma alloc_ok_keeps: "alloc_ok mac s r \<Longrightarrow> keeps s r"
  by (auto simp: alloc_ok_def keeps_def split: prod.splits if_splits)

lemma keeps_frame: "cfg s2 = cfg s \<Longrightarrow> sent s2 = sent s \<Longrightarrow> keeps s2 r = keeps s r"
  by (cases r) (simp add: keeps_def)

text \<open>The two lookups that precede every lease decision, as one step.\<close>

definition lookup :: "u32 \<Rightarrow> u8 list \<Rightarrow> dhcpd \<Rightarrow> bool \<times> bool \<times> dhcpd" where
  "lookup ip_host mac s =
     (let (allocated, s) = dhcpd_ip_is_allocated ip_host s;
          (own, s) = (if allocated then dhcpd_ip_allocated_to_mac ip_host mac s else (True, s))
      in (allocated, own, s))"

lemma lookup_eq:
  "lookup ip_host mac s =
     (let s1 = dhcpd_expire_leases s; s2 = dhcpd_expire_leases s1
      in if ip_free (htonl ip_host) (leases s1) then (False, True, s1)
         else (True, (\<exists>l \<in> set (leases s2). used l \<and> ip_addr l = htonl ip_host
                        \<and> take 6 (mac_addr l) = take 6 mac), s2))"
  by (simp add: lookup_def Let_def split_beta ip_is_allocated_eq
      prod_eq_iff ip_allocated_to_mac_eq)

lemma lookup_frame:
  assumes "lookup ip_host mac s = (allocated, own, s')"
  shows "shrinks (leases s) (leases s')" and "cfg s' = cfg s" and "sent s' = sent s"
  using assms dhcpd_expire_shrinks [of s]
    shrinks_trans [OF dhcpd_expire_shrinks [of s] dhcpd_expire_shrinks [of "dhcpd_expire_leases s"]]
  by (auto simp: lookup_eq Let_def dhcp_frame split: if_splits)

lemma lookup_result:
  assumes "lookup ip_host mac s = (allocated, own, s')"
  shows "if allocated then own \<longleftrightarrow> (\<exists>l \<in> set (leases s'). used l \<and> ip_addr l = htonl ip_host
        \<and> take 6 (mac_addr l) = take 6 mac) else ip_free (htonl ip_host) (leases s')"
  using assms by (auto simp: lookup_eq Let_def split: if_splits)

lemma lookup_inv: "lookup ip_host mac s = (a, b, s') \<Longrightarrow> dhcp_inv s \<Longrightarrow> dhcp_inv s'"
  using table_ok_shrinks [OF lookup_frame(1)] lookup_frame(2) by (fastforce simp: dhcp_inv_def)

lemma process_lease_eq:
  "dhcpd_process_lease mac req_ip s =
     (let lease = fst (dhcpd_find_lease mac s);
          (allocated, own, s) = lookup (ntohl req_ip) mac (dhcpd_expire_leases s)
      in if allocated \<and> \<not> own then dhcpd_alloc_ip mac s
         else case lease of
           Some i \<Rightarrow> (None, req_ip, s\<lparr>ticks := Suc (ticks s), leases := (leases s)[i := (leases s ! i)
                   \<lparr>ip_addr := req_ip, lease_start := clock s (ticks s), lease_time := LEASE_TICKS\<rparr>]\<rparr>)
         | None \<Rightarrow>
             let (lease_idx, s) = dhcpd_get_available_lease_slot s
             in if lease_idx < 0 then (Some ERR_SERVER_FULL, req_ip, s)
                else let (_, s) = dhcpd_create_lease mac req_ip lease_idx s in (None, req_ip, s))"
  by (simp add: dhcpd_process_lease_def lookup_def Let_def split_beta find_lease_eq get_timer_eq
      cong: option.case_cong)

lemma find_lease_found:
  assumes "fst (dhcpd_find_lease mac s) = Some i"
  shows "i < length (leases (dhcpd_expire_leases s))" "used (leases (dhcpd_expire_leases s) ! i)"
    "take 6 (mac_addr (leases (dhcpd_expire_leases s) ! i)) = take 6 mac"
  using find_slot_Some assms unfolding find_lease_eq dhcpd_mac_equal_def by blast+

lemma find_lease_None:
  "fst (dhcpd_find_lease mac s) = None \<Longrightarrow> mac_free mac (leases (dhcpd_expire_leases s))"
  by (simp add: find_lease_eq mac_equal_slot_None)

lemma new_lease_keeps:
  assumes inv: "dhcp_inv s" and m: "mac_free mac (leases s)" and p: "ip_free ip (leases s)"
    and pool: "in_pool (cfg s) ip" and len: "6 \<le> length mac"
  shows "keeps s (let (lease_idx, s) = dhcpd_get_available_lease_slot s
             in if lease_idx < 0 then (Some ERR_SERVER_FULL, ip, s)
                else let (_, s) = dhcpd_create_lease mac ip lease_idx s in (None, ip, s))"
proof -
  obtain i s' where sl: "dhcpd_get_available_lease_slot s = (i, s')" by fastforce
  from available_slot_cases [OF sl inv_length [OF inv]] have s': "s' = dhcpd_expire_leases s"
    and i: "i = -1 \<or> (\<exists>k. i = int k \<and> k < MAX_LEASES \<and> k < length (leases s') \<and> \<not> used (leases s' ! k))"
    by auto
  have inv': "dhcp_inv s'" using expire_inv [OF inv] s' by simp
  have sh: "shrinks (leases s) (leases s')" using dhcpd_expire_shrinks s' by simp
  show ?thesis
  proof (cases "i = -1")
    case True
    with sl inv' s' show ?thesis by (simp add: keeps_def dhcp_frame)
  next
    case False
    with i obtain k where k: "i = int k" "k < MAX_LEASES" "k < length (leases s')" by auto
    have "table_ok (cfg s') ((leases s')[k :=
        \<lparr>used = True, mac_addr = take 6 mac, ip_addr = ip, lease_start = clock s' (ticks s'),
         lease_time = LEASE_TICKS\<rparr>])"
      using inv' k mac_free_shrinks [OF sh m] ip_free_shrinks [OF sh p] pool len
      by (intro table_ok_new_lease [where mac = mac and ip = ip]) (simp_all add: dhcp_inv_def s' dhcp_frame)
    with sl k inv' pool s' show ?thesis
      by (simp add: create_lease_eq keeps_def dhcp_inv_def dhcp_frame)
  qed
qed

lemma process_lease_keeps:
  assumes inv: "dhcp_inv s" and pool: "in_pool (cfg s) ip" and len: "6 \<le> length mac"
  shows "keeps s (dhcpd_process_lease mac ip s)"
proof -
  define s1 where "s1 = dhcpd_expire_leases s"
  obtain a own s2 where l: "lookup (ntohl ip) mac s1 = (a, own, s2)" by (metis prod_cases3)
  have inv1: "dhcp_inv s1" unfolding s1_def by (rule expire_inv [OF inv])
  have inv2: "dhcp_inv s2" by (rule lookup_inv [OF l inv1])
  have sh: "shrinks (leases s1) (leases s2)" by (rule lookup_frame(1) [OF l])
  have fr: "cfg s2 = cfg s" "sent s2 = sent s" "cfg s1 = cfg s"
    using lookup_frame(2,3) [OF l] by (simp_all add: s1_def dhcp_frame)
  note res = lookup_result [OF l, simplified]
  consider "a \<and> \<not> own" | i where "\<not> (a \<and> \<not> own)" "fst (dhcpd_find_lease mac s) = Some i"
    | "\<not> (a \<and> \<not> own)" "fst (dhcpd_find_lease mac s) = None" by (cases "fst (dhcpd_find_lease mac s)") auto
  then show ?thesis
  proof cases
    case 1
    with l alloc_ok_keeps [OF alloc_ip_ok [OF inv2 len]] show ?thesis
      by (simp add: process_lease_eq keeps_frame [OF fr(1,2)] flip: s1_def)
  next
    case (2 i)
    note fi = find_lease_found [OF 2(2), folded s1_def]
    have "table_ok (cfg s) ((leases s2)[i := (leases s2 ! i)
        \<lparr>ip_addr := ip, lease_start := clock s2 (ticks s2), lease_time := LEASE_TICKS\<rparr>])"
      using inv1 fr res 2(1) pool
      by (intro table_ok_rebind [OF _ sh fi _ _ refl]) (auto simp: dhcp_inv_def split: if_splits)
    moreover have "dhcpd_process_lease mac ip s = (None, ip, s2\<lparr>ticks := Suc (ticks s2),
        leases := (leases s2)[i := (leases s2 ! i)
          \<lparr>ip_addr := ip, lease_start := clock s2 (ticks s2), lease_time := LEASE_TICKS\<rparr>]\<rparr>)"
      using 2 l by (auto simp: process_lease_eq simp flip: s1_def)
    ultimately show ?thesis using inv2 fr pool by (simp add: keeps_def dhcp_inv_def)
  next
    case 3
    have m: "mac_free mac (leases s2)"
      using mac_free_shrinks [OF sh] find_lease_None [OF 3(2)] by (simp add: s1_def)
    have "ip_free ip (leases s2)"
      using res 3(1) m by (auto simp: mac_free_def split: if_splits)
    with new_lease_keeps [OF inv2 m _ _ len, of ip] pool fr 3 l show ?thesis
      by (auto simp: process_lease_eq keeps_frame [OF fr(1,2)] simp flip: s1_def)
  qed
qed

section \<open>The handler keeps the invariant\<close>

lemma send_reply_frame [dhcp_frame]:
  "cfg (snd (dhcpd_send_reply bp t yi m s)) = cfg s"
  "leases (snd (dhcpd_send_reply bp t yi m s)) = leases s"
  "\<exists>out. sent (snd (dhcpd_send_reply bp t yi m s)) = sent s @ out"
  by (simp_all add: dhcpd_send_reply_def Let_def split: option.splits)

lemma send_reply_inv: "dhcp_inv s \<Longrightarrow> dhcp_inv (snd (dhcpd_send_reply bp t yi m s))"
  by (simp add: dhcp_inv_def dhcp_frame)

lemma valid_request_in_pool: "dhcpd_validate_request ip s = None \<Longrightarrow> in_pool (cfg s) ip"
  by (auto simp: dhcpd_validate_request_def dhcpd_ip_in_pool_def in_pool_def Let_def split: if_splits)

lemma keeps_inv: "keeps s (e, ip, s') \<Longrightarrow> dhcp_inv s'"
  by (simp add: keeps_def)

lemma ack_inv:
  "keeps s r \<Longrightarrow> dhcp_inv (snd (case r of (Some e, _, s) \<Rightarrow> (Some e, s)
     | (None, yiaddr, s) \<Rightarrow> dhcpd_send_reply bp 5 yiaddr [] s))"
  by (auto simp: send_reply_inv dest: keeps_inv split: prod.splits option.splits)

lemma handle_request_inv:
  assumes inv: "dhcp_inv s" and len: "34 \<le> length bp"
  shows "dhcp_inv (snd (dhcpd_handle_request bp s))"
proof -
  have mac: "6 \<le> length (pkt_chaddr bp)" using len by (simp add: pkt_chaddr_def)
  note a = ack_inv [OF alloc_ip_ok [OF inv mac, THEN alloc_ok_keeps], of bp]
    and p = ack_inv [OF process_lease_keeps [OF inv valid_request_in_pool mac]]
  show ?thesis
    using inv a p send_reply_inv [OF inv]
    unfolding dhcpd_handle_request_def Let_def
    by (simp split: sum.split option.split)
qed

lemma handle_discover_eq:
  "dhcpd_handle_discover mac s =
     (let s1 = dhcpd_expire_leases s
      in case fst (dhcpd_find_lease mac s) of
           None \<Rightarrow> dhcpd_alloc_ip mac s1
         | Some i \<Rightarrow>
             let (allocated, own, s) = lookup (ntohl (ip_addr (leases s1 ! i))) mac s1
             in if \<not> allocated \<or> own then (None, ip_addr (leases s ! i), s)
                else dhcpd_alloc_ip mac (s\<lparr>leases := (leases s)[i := (leases s ! i)
                           \<lparr>used := False, mac_addr := replicate 6 0\<rparr>]\<rparr>))"
  by (simp add: dhcpd_handle_discover_def lookup_def Let_def split_beta find_lease_eq
      cong: option.case_cong)

lemma handle_discover_keeps:
  assumes inv: "dhcp_inv s" and len: "6 \<le> length mac"
  shows "keeps s (dhcpd_handle_discover mac s)"
proof (cases "fst (dhcpd_find_lease mac s)")
  case None
  with alloc_ok_keeps [OF alloc_ip_ok [OF expire_inv [OF inv] len]] show ?thesis
    by (simp add: handle_discover_eq keeps_frame [of "dhcpd_expire_leases s" s] dhcp_frame)
next
  case (Some i)
  define s1 where "s1 = dhcpd_expire_leases s"
  note fi = find_lease_found [OF Some, folded s1_def]
  obtain a own s2 where l: "lookup (ntohl (ip_addr (leases s1 ! i))) mac s1 = (a, own, s2)"
    by (metis prod_cases3)
  have inv1: "dhcp_inv s1" unfolding s1_def by (rule expire_inv [OF inv])
  have inv2: "dhcp_inv s2" by (rule lookup_inv [OF l inv1])
  have sh: "shrinks (leases s1) (leases s2)" by (rule lookup_frame(1) [OF l])
  have fr: "cfg s2 = cfg s" "sent s2 = sent s" "cfg s1 = cfg s"
    using lookup_frame(2,3) [OF l] by (simp_all add: s1_def dhcp_frame)
  have ip: "ip_addr (leases s2 ! i) = ip_addr (leases s1 ! i)" using shrinks_nth [OF sh fi(1)] by auto
  have pool: "in_pool (cfg s) (ip_addr (leases s1 ! i))"
    using inv1 fi nth_mem [OF fi(1)] fr by (auto simp: dhcp_inv_def table_ok_def)
  define s3 where "s3 = s2\<lparr>leases := (leases s2)[i := (leases s2 ! i)\<lparr>used := False, mac_addr := replicate 6 0\<rparr>]\<rparr>"
  have "table_ok (cfg s2) (leases s3)"
    using inv2 fi(1) shrinks_length [OF sh] table_ok_update
      [of "cfg s2" "leases s2" i "(leases s2 ! i)\<lparr>used := False, mac_addr := replicate 6 0\<rparr>"]
    by (simp add: s3_def dhcp_inv_def)
  then have inv3: "dhcp_inv s3" using inv2 by (simp add: dhcp_inv_def s3_def)
  have fr3: "cfg s3 = cfg s" "sent s3 = sent s" using fr by (simp_all add: s3_def)
  have "dhcpd_handle_discover mac s = (if \<not> a \<or> own then (None, ip_addr (leases s2 ! i), s2)
      else dhcpd_alloc_ip mac s3)"
    using Some l by (simp add: handle_discover_eq s3_def flip: s1_def)
  then show ?thesis
    using inv2 fr pool ip alloc_ok_keeps [OF alloc_ip_ok [OF inv3 len]]
    by (simp add: keeps_frame [OF fr3]) (simp add: keeps_def)
qed

lemma handler_inv: "dhcp_inv s \<Longrightarrow> dhcp_inv (dhcpd_handler_with_fallback pkt s)"
proof -
  assume inv: "dhcp_inv s"
  have d: "dhcp_inv (let (ret, yiaddr, s) = dhcpd_handle_discover (pkt_chaddr pkt) s
      in snd (dhcpd_send_reply pkt 2 yiaddr [] s))" if "VEND \<le> length pkt"
    using handle_discover_keeps [OF inv, of "pkt_chaddr pkt"] that
    by (auto simp: pkt_chaddr_def split: prod.splits intro!: send_reply_inv dest: keeps_inv)
  have f: "dhcp_inv (s\<lparr>hung := True\<rparr>)" "dhcp_inv (s\<lparr>forwarded := x\<rparr>)" for x
    using inv by (simp_all add: dhcp_inv_def)
  show ?thesis
    using inv d f handle_request_inv [OF inv, of pkt]
    unfolding dhcpd_handler_with_fallback_def Let_def
    by (simp split: option.split sum.split udp_handler.split)
qed

interpretation dhcp: invariant_machine dhcpd_handler_with_fallback dhcp_inv
  by unfold_locales (rule handler_inv)

section \<open>What the packet handler leaves alone\<close>

definition steady :: "dhcpd \<Rightarrow> dhcpd \<Rightarrow> bool" where
  "steady s s' \<longleftrightarrow> clock s' = clock s \<and> ticks s \<le> ticks s' \<and> udp_handler s' = udp_handler s
     \<and> original_udp_handler s' = original_udp_handler s \<and> net_tx_packet s' = net_tx_packet s
     \<and> cfg s' = cfg s \<and> dstate s' = dstate s"

lemma steady_refl [simp]: "steady s s"
  by (simp add: steady_def)

lemma steady_trans: "steady a b \<Longrightarrow> steady b c \<Longrightarrow> steady a c"
  by (auto simp: steady_def)

lemma steady_tick [simp]: "steady s (s\<lparr>ticks := Suc (ticks s)\<rparr>)"
  by (simp add: steady_def)

lemma steady_updates [simp]:
  "steady s (s'\<lparr>leases := ls\<rparr>) = steady s s'" "steady s (s'\<lparr>sent := x\<rparr>) = steady s s'"
  "steady s (s'\<lparr>hung := h\<rparr>) = steady s s'" "steady s (s'\<lparr>forwarded := f\<rparr>) = steady s s'"
  by (simp_all add: steady_def)

lemma expire_loop_ticks: "t \<le> fst (expire_loop clk t ls)"
  by (induction clk t ls rule: expire_loop.induct) (auto simp: Let_def split: prod.splits)

lemma expire_steady: "steady s (dhcpd_expire_leases s)"
  using expire_loop_ticks [of "ticks s" "clock s" "leases s"]
  by (simp add: steady_def dhcpd_expire_leases_def split_beta)

lemmas steady_intros = expire_steady steady_trans [OF expire_steady]

lemma create_lease_steady: "steady s (snd (dhcpd_create_lease mac ip i s))"
  by (simp add: dhcpd_create_lease_def get_timer_eq)

lemma available_slot_steady: "snd (dhcpd_get_available_lease_slot s) = dhcpd_expire_leases s"
  by (simp add: dhcpd_get_available_lease_slot_def Let_def)

lemma try_allocate_steady: "steady s (snd (snd (dhcpd_try_allocate_ip mac ip s)))"
  by (auto simp: dhcpd_try_allocate_ip_def split_beta available_slot_steady
      intro: steady_intros create_lease_steady)

lemma alloc_random_steady: "steady s (snd (alloc_random mac a b k n s))"
proof (induction n arbitrary: k s)
  case (Suc n)
  have s2: "steady s (dhcpd_expire_leases (s\<lparr>ticks := Suc (ticks s)\<rparr>))"
    by (rule steady_trans [OF steady_tick expire_steady])
  show ?case
    using steady_trans [OF s2 try_allocate_steady] steady_trans [OF s2 Suc.IH]
    by (simp add: get_timer_eq Let_def split_beta ip_is_allocated_eq)
qed simp

lemma alloc_linear_steady: "steady s (snd (snd (alloc_linear mac a b c n s)))"
proof (induction n arbitrary: c s)
  case (Suc n)
  show ?case
    using steady_trans [OF expire_steady try_allocate_steady] steady_trans [OF expire_steady Suc.IH]
    by (simp add: Let_def split_beta ip_is_allocated_eq)
qed simp

lemma alloc_ip_steady: "steady s (snd (snd (dhcpd_alloc_ip mac s)))"
proof -
  have r: "steady s s1" if "alloc_random mac a b k n s = (x, s1)" for a b k n x s1
    using alloc_random_steady [of s mac a b k n] that by simp
  show ?thesis
    using r steady_trans [OF r alloc_linear_steady]
    by (auto simp: dhcpd_alloc_ip_def get_timer_eq Let_def split: option.split prod.split)
qed

lemma lookup_steady: "lookup ip mac s = (a, b, s') \<Longrightarrow> steady s s'"
  by (auto simp: lookup_eq Let_def intro: steady_intros split: if_splits)

lemma send_reply_steady: "steady s (snd (dhcpd_send_reply bp t yi m s))"
  by (simp add: dhcpd_send_reply_def Let_def split: option.split)

lemma process_lease_steady: "steady s (snd (snd (dhcpd_process_lease mac ip s)))"
proof -
  obtain a own s2 where l: "lookup (ntohl ip) mac (dhcpd_expire_leases s) = (a, own, s2)"
    by (metis prod_cases3)
  have s2: "steady s s2" by (rule steady_trans [OF expire_steady lookup_steady [OF l]])
  have "steady s (snd (dhcpd_get_available_lease_slot s2))"
    using steady_trans [OF s2 expire_steady [of s2]] by (simp add: available_slot_steady)
  with l s2 show ?thesis
    using steady_trans [OF s2 alloc_ip_steady] steady_trans [OF s2 steady_tick]
      steady_trans [OF _ create_lease_steady]
    by (auto simp: process_lease_eq Let_def split_beta split: option.split)
qed

lemma handle_request_steady: "steady s (snd (dhcpd_handle_request bp s))"
proof -
  have "steady s (snd (case r of (Some e, _, s) \<Rightarrow> (Some e, s)
      | (None, yiaddr, s) \<Rightarrow> dhcpd_send_reply bp 5 yiaddr [] s))" if "steady s (snd (snd r))" for r
    using that by (auto intro: steady_trans [OF _ send_reply_steady] split: prod.split option.split)
  from this [OF alloc_ip_steady] this [OF process_lease_steady] show ?thesis
    unfolding dhcpd_handle_request_def Let_def
    by (simp add: send_reply_steady split: sum.split option.split)
qed

lemma handle_discover_steady: "steady s (snd (snd (dhcpd_handle_discover mac s)))"
proof -
  have l: "steady s s2" if "lookup ip mac (dhcpd_expire_leases s) = (a, own, s2)" for ip a own s2
    by (rule steady_trans [OF expire_steady lookup_steady [OF that]])
  have "steady s (snd (snd (dhcpd_alloc_ip mac (s2\<lparr>leases := ls\<rparr>))))" if "steady s s2" for s2 ls
    using steady_trans [OF _ alloc_ip_steady [of "s2\<lparr>leases := ls\<rparr>" mac]] that by simp
  then show ?thesis
    using l steady_trans [OF expire_steady alloc_ip_steady]
    by (auto simp: handle_discover_eq Let_def split: option.split prod.split)
qed

lemma handler_steady: "steady s (dhcpd_handler_with_fallback pkt s)"
proof -
  have "steady s (let (ret, yiaddr, s) = dhcpd_handle_discover (pkt_chaddr pkt) s
      in snd (dhcpd_send_reply pkt 2 yiaddr [] s))"
    using steady_trans [OF handle_discover_steady send_reply_steady] by (simp add: split_beta)
  then show ?thesis
    using handle_request_steady [of s pkt]
    unfolding dhcpd_handler_with_fallback_def Let_def
    by (simp split: option.split sum.split udp_handler.split)
qed

lemma eth_rx_steady: "steady s (eth_rx_udp pkts s)"
  unfolding eth_rx_udp_def
  by (induction pkts arbitrary: s)
    (auto intro: steady_trans [OF handler_steady] steady_trans [OF steady_updates(4) [THEN iffD2, OF steady_refl]])

end
