(* ===== verification/DhcpdProps.thy ===== *)
theory DhcpdProps
  imports DhcpdProofs
begin

text \<open>
  The guarantees of the DHCP server, stated over its whole behaviour: unique leases in every
  run, completeness of allocation, replies that parse back, the address pool, start and stop.
\<close>

section \<open>Unique leases\<close>

interpretation dhcp_run: invariant_machine dhcpd_handler_with_fallback "steady s0" for s0
  by unfold_locales (rule steady_trans [OF _ handler_steady])

lemma init_inv:
  assumes "dhcpd_init_server d e s0 = (e', s)"
    and "ntohl (start_ip (cfg s)) \<le> ntohl (end_ip (cfg s))"
  shows "dhcp_inv s"
  using assms by (auto simp: dhcpd_init_server_def dhcp_inv_def table_ok_def empty_lease_def split: prod.splits)

text \<open>
  C11: From a freshly initialised server, whatever packets arrive in whatever order and however
  the clock moves, the table keeps its 32 slots, every lease in use lies in the address pool,
  and no two leases in use share an address or a client.
\<close>

theorem leases_stay_unique:
  assumes "dhcpd_init_server env_default e s0 = (e', s)"
    and "ntohl (start_ip (cfg s)) \<le> ntohl (end_ip (cfg s))"
    and "ls = leases (fold dhcpd_handler_with_fallback pkts s)"
  shows "length ls = 32
    \<and> (\<forall>l \<in> set ls. used l \<longrightarrow> ntohl (start_ip (cfg s)) \<le> ntohl (ip_addr l)
         \<and> ntohl (ip_addr l) \<le> ntohl (end_ip (cfg s)))
    \<and> (\<forall>i<32. \<forall>j<32. i \<noteq> j \<and> used (ls ! i) \<and> used (ls ! j) \<longrightarrow>
         ip_addr (ls ! i) \<noteq> ip_addr (ls ! j) \<and> mac_addr (ls ! i) \<noteq> mac_addr (ls ! j))"
proof -
  have "dhcp_inv (fold dhcpd_handler_with_fallback pkts s)"
    by (rule dhcp.run_inv [OF init_inv [OF assms(1,2)]])
  moreover have "cfg (fold dhcpd_handler_with_fallback pkts s) = cfg s"
    using dhcp_run.run_inv [OF steady_refl] by (simp add: steady_def)
  ultimately show ?thesis
    unfolding assms(3) dhcp_inv_def table_ok_def in_pool_def by auto
qed

text \<open>A server state at power-on, and the environment of a router at 192.168.1.1.\<close>

definition idle_server :: dhcpd where
  "idle_server = \<lparr>leases = replicate 32 empty_lease,
     cfg = \<lparr>server_ip = 0, start_ip = 0, end_ip = 0, netmask = 0, gateway = 0\<rparr>,
     dstate = DHCPD_STATE_STOPPED, original_udp_handler = None, udp_handler = Default_Handler 1,
     net_tx_packet = True, sent = [], forwarded = [], hung = False, net_ip = 0, net_netmask = 0,
     net_gateway = 0, netloop_success = False, global_retry_count = 0, clock = of_nat, ticks = 0\<rparr>"

definition router_env :: env where
  "router_env = [''ipaddr'' \<mapsto> ''192.168.1.1'', ''netmask'' \<mapsto> ''255.255.255.0'']"

definition router_server :: dhcpd where
  "router_server = snd (dhcpd_init_server id router_env idle_server)"

lemma router_cfg:
  "cfg router_server = \<lparr>server_ip = 0x0101A8C0, start_ip = 0x0201A8C0, end_ip = 0x6501A8C0,
     netmask = 0x00FFFFFF, gateway = 0x0101A8C0\<rparr>"
  by code_simp

lemma router_init: "dhcpd_init_server id router_env idle_server = (router_env, router_server)"
  by (simp add: router_server_def prod_eq_iff dhcpd_init_server_def dhcpd_ip_settings_def Let_def
      split_beta router_env_def)

lemma router_pool: "ntohl (start_ip (cfg router_server)) \<le> ntohl (end_ip (cfg router_server))"
  unfolding router_cfg by code_simp

definition discover_pkt :: "u8 list" where
  "discover_pkt = [1, 1, 6, 0] @ replicate 24 0 @ [0x02, 0, 0, 0, 0, 7] @ replicate 202 0
     @ dhcp_magic_cookie @ [53, 1, 1, 255]"

theorem leases_stay_unique_witness:
  "length (leases (fold dhcpd_handler_with_fallback [discover_pkt] router_server)) = 32"
  using leases_stay_unique [OF router_init router_pool refl, of "[discover_pkt]"] by simp

section \<open>Completeness of allocation\<close>

lemma ip_free_le: "shrinks ls ls' \<Longrightarrow> \<not> ip_free ip ls' \<Longrightarrow> \<not> ip_free ip ls"
  using ip_free_shrinks by blast

lemma try_allocate_fail:
  assumes "dhcpd_try_allocate_ip mac ip s = (Some e, x, s')"
  shows "\<forall>l \<in> set (leases s'). used l"
  using assms
  by (auto simp: dhcpd_try_allocate_ip_def dhcpd_get_available_lease_slot_def Let_def find_slot_None
      dhcpd_create_lease_def get_timer_eq split: option.splits if_splits prod.splits)

lemma alloc_random_none_shrinks:
  "alloc_random mac a b k n s = (None, s') \<Longrightarrow> shrinks (leases s) (leases s')"
proof (induction n arbitrary: k s)
  case (Suc n)
  then show ?case
    using shrinks_trans [OF dhcpd_expire_shrinks [of "s\<lparr>ticks := Suc (ticks s)\<rparr>"]]
    by (fastforce simp: get_timer_eq Let_def split_beta ip_is_allocated_eq split: if_splits)
qed (simp add: shrinks_refl)

lemma alloc_random_fail:
  "alloc_random mac a b k n s = (Some (Some e, x), s') \<Longrightarrow> \<forall>l \<in> set (leases s'). used l"
proof (induction n arbitrary: k s)
  case (Suc n)
  then show ?case
    by (auto simp: get_timer_eq Let_def split_beta ip_is_allocated_eq prod_eq_iff
        intro!: try_allocate_fail split: if_splits) 
qed simp

text \<open>The linear search visits the pool in cyclic order from where it starts.\<close>

lemma alloc_linear_fail:
  assumes "alloc_linear mac a b c n s = (Some e, x, s')" and "unat c + m = unat b" and "m < n"
  shows "(\<forall>l \<in> set (leases s'). used l)
    \<or> (\<forall>h. c \<le> h \<and> h \<le> b \<longrightarrow> \<not> ip_free (htonl h) (leases s))"
  using assms
proof (induction m arbitrary: c n s)
  case 0
  then obtain n' where n: "n = Suc n'" by (cases n) auto
  have "c = b" using 0 by (simp add: word_unat_eq_iff)
  show ?case
  proof (cases "ip_free (htonl c) (leases (dhcpd_expire_leases s))")
    case True
    with 0 n show ?thesis
      by (auto simp: Let_def split_beta ip_is_allocated_eq intro!: try_allocate_fail)
  next
    case False
    with \<open>c = b\<close> show ?thesis
      using ip_free_le [OF dhcpd_expire_shrinks] by (auto dest: antisym)
  qed
next
  case (Suc m)
  then obtain n' where n: "n = Suc n'" by (cases n) auto
  define s2 where "s2 = dhcpd_expire_leases s"
  have sh: "shrinks (leases s) (leases s2)" by (simp add: s2_def dhcpd_expire_shrinks)
  show ?case
  proof (cases "ip_free (htonl c) (leases s2)")
    case True
    with Suc.prems n show ?thesis
      by (auto simp: Let_def split_beta ip_is_allocated_eq s2_def intro!: try_allocate_fail)
  next
    case False
    have lt: "c < b" using Suc.prems(2) by (simp add: word_less_nat_alt)
    note inc = word_inc_less [OF lt]
    have "c + 1 \<noteq> 0" using inc by auto
    then have un: "unat (c + 1) = Suc (unat c)" by (rule unat_inc)
    have "alloc_linear mac a b (c + 1) n' s2 = (Some e, x, s')"
      using Suc.prems(1) False lt n by (simp add: Let_def split_beta ip_is_allocated_eq s2_def)
    from Suc.IH [OF this] Suc.prems(2,3) un n
    have IH: "(\<forall>l \<in> set (leases s'). used l)
      \<or> (\<forall>h. c + 1 \<le> h \<and> h \<le> b \<longrightarrow> \<not> ip_free (htonl h) (leases s2))" by simp
    have "h = c \<or> c + 1 \<le> h" if "c \<le> h" for h
      using that un by (auto simp: word_le_nat_alt word_unat_eq_iff)
    with IH False ip_free_le [OF sh] show ?thesis by metis
  qed
qed

lemma nat_sint_pos: "0 < sint (x :: u32) \<Longrightarrow> nat (sint x) = unat x"
proof -
  assume a: "0 < sint x"
  have "sint x < 2 ^ 31" using signed_take_bit_int_less_exp [of 31 "uint x"] by (simp add: sint_uint)
  then have "uint x = sint x" using a by (simp add: uint_sint take_bit_int_eq_self)
  then show ?thesis by (simp add: unat_eq_nat_uint)
qed
text \<open>
  C36: An allocation over a good table either succeeds, with an address of the pool that a
  lease of the table now binds to that client, or reports a full server and no address. It
  reports a full server only when every slot is in use or every address of the pool was
  already leased: a client is never refused while a slot and an address are free.
\<close>

theorem alloc_ip_complete:
  assumes inv: "dhcp_inv s" and mac: "6 \<le> length mac"
    and size: "0 < sint (ntohl (end_ip (cfg s)) - ntohl (start_ip (cfg s)) + 1)"
    and res: "dhcpd_alloc_ip mac s = (e, ip, s')"
  shows "if e = None then bound mac ip s' \<and> in_pool (cfg s) ip
    else e = Some ERR_SERVER_FULL \<and> ip = 0
      \<and> ((\<forall>l \<in> set (leases s'). used l)
         \<or> (\<forall>h. ntohl (start_ip (cfg s)) \<le> h \<and> h \<le> ntohl (end_ip (cfg s))
              \<longrightarrow> \<not> ip_free (htonl h) (leases s)))"
proof (cases e)
  case None
  with alloc_ip_ok [OF inv mac] res show ?thesis by (simp add: alloc_ok_def)
next
  case (Some err)
  define start where "start = ntohl (start_ip (cfg s))"
  define stop where "stop = ntohl (end_ip (cfg s))"
  define k where "k = (if stop - start + 1 < 100 then unat (stop - start + 1) else 100)"
  have le: "start \<le> stop" using inv by (simp add: dhcp_inv_def start_def stop_def)
  have nz: "stop - start + 1 \<noteq> 0" using size by (auto simp: start_def stop_def)
  have un: "unat start + (unat stop - unat start) = unat stop" using le by (simp add: word_le_nat_alt)
  have "nat (sint (stop - start + 1)) = unat (stop - start + 1)"
    using size by (simp add: start_def stop_def nat_sint_pos)
  then have lt: "unat stop - unat start < nat (sint (stop - start + 1))"
    using unat_inc [OF nz] unat_sub [OF le] by simp
  obtain r t where rt: "alloc_random mac start stop 0 k s = (r, t)" by fastforce
  have none: "find_slot (\<lambda>l. used l \<and> dhcpd_mac_equal (mac_addr l) mac) (leases s) = None"
    using res Some by (auto simp: dhcpd_alloc_ip_def get_timer_eq Let_def split: option.splits)
  have "dhcpd_alloc_ip mac s = (case alloc_random mac start stop 0 k s of (Some (r, ip), s) \<Rightarrow> (r, ip, s)
      | (None, s) \<Rightarrow> alloc_linear mac start stop start (nat (sint (stop - start + 1))) s)"
    using none by (simp only: dhcpd_alloc_ip_def Let_def start_def stop_def k_def option.case)
  with res rt Some have *: "(case r of Some (r, ip) \<Rightarrow> (r, ip, t)
      | None \<Rightarrow> alloc_linear mac start stop start (nat (sint (stop - start + 1))) t) = (Some err, ip, s')"
    by simp
  have "(\<forall>l \<in> set (leases s'). used l) \<or> (\<forall>h. start \<le> h \<and> h \<le> stop \<longrightarrow> \<not> ip_free (htonl h) (leases s))"
  proof (cases r)
    case None
    with * alloc_linear_fail [OF _ un lt] ip_free_le [OF alloc_random_none_shrinks] rt
    show ?thesis by fastforce
  next
    case (Some p)
    with * alloc_random_fail [of mac start stop 0 k s err ip s'] rt show ?thesis by (cases p) auto
  qed
  with alloc_ip_ok [OF inv mac] res Some show ?thesis
    by (simp add: alloc_ok_def start_def stop_def)
qed

theorem alloc_ip_complete_witness:
  "\<exists>e ip s'. dhcpd_alloc_ip [2, 0, 0, 0, 0, 7] router_server = (e, ip, s')
     \<and> (e = None \<longrightarrow> bound [2, 0, 0, 0, 0, 7] ip s')"
proof -
  obtain e ip s' where r: "dhcpd_alloc_ip [2, 0, 0, 0, 0, 7] router_server = (e, ip, s')"
    by (metis prod_cases3)
  have "0 < sint (ntohl (end_ip (cfg router_server)) - ntohl (start_ip (cfg router_server)) + 1)"
    unfolding router_cfg by code_simp
  from alloc_ip_complete [OF init_inv [OF router_init router_pool] _ this r] r show ?thesis by auto
qed

section \<open>Replies\<close>

lemma bytes_u32_bytes [simp]: "bytes_u32 (u32_bytes x) = x"
proof (rule bit_word_eqI)
  fix n assume "n < LENGTH(32)"
  then consider "n < 8" | "8 \<le> n" "n < 16" | "16 \<le> n" "n < 24" | "24 \<le> n" "n < 32"
    by fastforce
  then show "bit (bytes_u32 (u32_bytes x)) n = bit x n"
    by cases (auto simp: u32_bytes_def bit_or_iff bit_push_bit_iff bit_simps)
qed

lemma length_u32_bytes [simp]: "length (u32_bytes x) = 4"
  by (simp add: u32_bytes_def)

lemma reply_header_fields:
  assumes "44 \<le> length req"
  shows "length (reply_header req yi si) = 236"
    and "pkt_op (reply_header req yi si @ opt) = 2"
    and "pkt_xid (reply_header req yi si @ opt) = pkt_xid req"
    and "pkt_yiaddr (reply_header req yi si @ opt) = yi"
    and "pkt_chaddr (reply_header req yi si @ opt) = pkt_chaddr req"
  using assms
  by (simp_all add: reply_header_def pkt_op_def pkt_xid_def pkt_yiaddr_def pkt_secs_def pkt_chaddr_def
      drop_Cons' take_Cons')

lemma parse_reply_options:
  assumes "length hdr = VEND"
  shows "dhcpd_parse_msg_type (hdr @ dhcp_magic_cookie @ [53, 1, t] @ rest) = Inr t"
    and "dhcpd_parse_server_id (hdr @ dhcp_magic_cookie @ [53, 1, t] @ [54, 4] @ u32_bytes sid @ rest) = Inr sid"
  using assms
  by (simp_all add: dhcpd_parse_msg_type_def dhcpd_parse_server_id_def dhcpd_parse_option_def
      dhcp_magic_cookie_def)

lemma ack_options_form:
  "length opt \<le> 100 \<Longrightarrow> \<exists>rest. ack_options c opt = Some (opt @ [54, 4] @ u32_bytes (server_ip c) @ rest)
     \<and> length rest \<le> 24"
  by (simp add: ack_options_def room_def dhcpd_opt_add_inaddr_def dhcpd_opt_add_u32_def)

lemma nak_options_form:
  "length opt \<le> 100 \<Longrightarrow> \<exists>rest. nak_options sip msg opt = Some (opt @ [54, 4] @ u32_bytes sip @ rest)
     \<and> length rest \<le> 66"
  by (simp add: nak_options_def room_def dhcpd_opt_add_inaddr_def dhcpd_opt_add_u32_def Let_def min_def)

definition reply_options :: "u8 \<Rightarrow> string \<Rightarrow> svr_cfg \<Rightarrow> u8 list option" where
  "reply_options t msg c = (let opt = dhcp_magic_cookie @ [53, 1, t]
     in if t = 6 then nak_options (server_ip c) msg opt else ack_options c opt)"

lemma reply_options_form:
  "\<exists>rest. reply_options t msg c = Some (dhcp_magic_cookie @ [53, 1, t] @ [54, 4] @ u32_bytes (server_ip c) @ rest)
     \<and> length rest \<le> 66"
  using ack_options_form [of "dhcp_magic_cookie @ [53, 1, t]" c]
    nak_options_form [of "dhcp_magic_cookie @ [53, 1, t]" "server_ip c" msg]
  by (fastforce simp: reply_options_def Let_def dhcp_magic_cookie_def)

lemma send_reply_form:
  assumes tx: "net_tx_packet s" and req: "44 \<le> length req"
    and opt: "reply_options t msg (cfg s) = Some opt" and len: "length opt \<le> 100"
  shows "dhcpd_send_reply req t yi msg s = (None, s\<lparr>sent := sent s @
      [(if pkt_ciaddr req \<noteq> 0 then pkt_ciaddr req else htonl 0xFFFFFFFF,
        reply_header req (if t = 6 then 0 else yi) (if t = 6 then 0 else server_ip (cfg s))
          @ opt @ [255] @ replicate (63 - length opt) 0)]\<rparr>)"
proof -
  have "room dhcp_magic_cookie 3 (dhcpd_opt_add_u8 dhcp_magic_cookie 53 t) = Some (dhcp_magic_cookie @ [53, 1, t])"
    by (simp add: room_def dhcpd_opt_add_u8_def dhcp_magic_cookie_def)
  moreover have "length (reply_header req a b) = 236" for a b by (rule reply_header_fields [OF req])
  ultimately show ?thesis
    using tx opt len unfolding dhcpd_send_reply_def Let_def reply_options_def
    by (cases "t = 6") (simp_all add: Let_def)
qed

lemma send_reply_parses:
  assumes "net_tx_packet s" and "44 \<le> length req"
  shows "\<exists>dest p. dhcpd_send_reply req t yi msg s = (None, s\<lparr>sent := sent s @ [(dest, p)]\<rparr>)
    \<and> pkt_op p = 2 \<and> dhcpd_parse_msg_type p = Inr t
    \<and> dhcpd_parse_server_id p = Inr (server_ip (cfg s))
    \<and> pkt_xid p = pkt_xid req \<and> pkt_chaddr p = pkt_chaddr req
    \<and> pkt_yiaddr p = (if t = 6 then 0 else yi)
    \<and> 300 \<le> length p \<and> length p \<le> 548"
proof -
  obtain rest where r: "reply_options t msg (cfg s)
      = Some (dhcp_magic_cookie @ [53, 1, t] @ [54, 4] @ u32_bytes (server_ip (cfg s)) @ rest)"
    "length rest \<le> 66" using reply_options_form by blast
  have l4: "length dhcp_magic_cookie = 4" by (simp add: dhcp_magic_cookie_def)
  note h = reply_header_fields [OF assms(2)]
  have len: "length (dhcp_magic_cookie @ [53, 1, t] @ [54, 4] @ u32_bytes (server_ip (cfg s)) @ rest) \<le> 100"
    using r(2) l4 by simp
  show ?thesis
    by (intro exI conjI, rule send_reply_form [OF assms r(1) len])
      (use r(2) l4 in \<open>simp_all only: append_assoc h parse_reply_options [OF h(1)], simp_all add: h(1)\<close>)
qed

text \<open>
  C37: A reply always fits its buffers and is sent, and reading it back with the server's own
  option parser gives what was put in: the message type, the server's address, the client's
  transaction id and hardware address, and the offered address (none in a NAK). It has the
  300 bytes that BOOTP requires and never exceeds the 548 bytes of the packet structure.
\<close>

theorem reply_parses_back:
  assumes "net_tx_packet s" and "44 \<le> length req"
  shows "\<exists>dest p. dhcpd_send_reply req t yi msg s = (None, s\<lparr>sent := sent s @ [(dest, p)]\<rparr>)
    \<and> pkt_op p = 2 \<and> dhcpd_parse_msg_type p = Inr t
    \<and> dhcpd_parse_server_id p = Inr (server_ip (cfg s))
    \<and> pkt_xid p = pkt_xid req \<and> pkt_chaddr p = pkt_chaddr req
    \<and> pkt_yiaddr p = (if t = 6 then 0 else yi)
    \<and> 300 \<le> length p \<and> length p \<le> 548"
  by (rule send_reply_parses [OF assms])

theorem reply_parses_back_witness:
  "\<exists>dest p. dhcpd_send_reply discover_pkt 2 0x0201A8C0 [] router_server
      = (None, router_server\<lparr>sent := sent router_server @ [(dest, p)]\<rparr>)
    \<and> dhcpd_parse_msg_type p = Inr 2 \<and> pkt_yiaddr p = 0x0201A8C0"
proof -
  have "net_tx_packet router_server" by code_simp
  moreover have "44 \<le> length discover_pkt" by (simp add: discover_pkt_def)
  ultimately show ?thesis
    using reply_parses_back [of router_server discover_pkt 2 "0x0201A8C0" "[]"] by auto
qed

section \<open>The address pool\<close>

lemma and_le_word: "(x :: u32) AND y \<le> x"
  by (metis word_and_le2 and.commute)

lemma le_broadcast: "(x :: u32) \<le> (x AND m) OR NOT m"
proof -
  have "x = ((x AND m) OR NOT m) AND x" by (rule bit_word_eqI) (auto simp: bit_simps)
  then show ?thesis by (metis and_le_word)
qed

lemma same_subnet:
  fixes ip h :: u32
  assumes m: "m = NOT (mask n)" and "ip AND m \<le> h" and "h \<le> (ip AND m) OR NOT m"
  shows "h AND m = ip AND m"
proof -
  have d: "drop_bit n (x AND m) = drop_bit n x" for x :: u32
    by (rule bit_word_eqI) (auto simp: m bit_simps dest: bit_imp_le_length)
  have "drop_bit n ((ip AND m) OR NOT m) = drop_bit n ip"
    by (rule bit_word_eqI) (auto simp: m bit_simps dest: bit_imp_le_length)
  then have "drop_bit n h \<le> drop_bit n ip" "drop_bit n ip \<le> drop_bit n h"
    using assms(2,3) d [of ip] by (metis div_le_mono drop_bit_eq_div unat_drop_bit_eq word_le_nat_alt)+
  then have "bit (drop_bit n h) k = bit (drop_bit n ip) k" for k by simp
  then have "n \<le> k \<Longrightarrow> bit h k = bit ip k" for k
    by (metis bit_drop_bit_eq comp_apply le_add_diff_inverse)
  then show ?thesis by (intro bit_word_eqI) (auto simp: m bit_simps)
qed

lemma unat_minus_one: "(x :: u32) \<noteq> 0 \<Longrightarrow> unat (x - 1) = unat x - 1"
  by (simp add: unat_sub word_le_nat_alt unat_gt_0 Suc_leI)

lemma pool_eq:
  assumes "bc = (ip AND m) OR NOT m" and "unat ip + 1 < unat bc" and "unat ip + 100 < 2 ^ 32"
  shows "dhcpd_pool ip m = (ip + 1, if bc \<le> ip + 100 then bc - 1 else ip + 100)"
proof -
  have u: "unat (ip + 1) = unat ip + 1" "unat (ip + 100) = unat ip + 100"
    using unat_plus_small [of ip 1] unat_plus_small [of ip 100] assms(3) by simp_all
  have b: "unat (bc - 1) = unat bc - 1" using assms(2) by (intro unat_minus_one) auto
  have "\<not> ip + 1 \<le> ip AND m"
    using and_le_word [of ip m] u(1) by (simp add: word_le_nat_alt)
  then show ?thesis
    using u b assms(2) unfolding dhcpd_pool_def Let_def assms(1) [symmetric]
    by (auto simp: word_le_nat_alt word_less_nat_alt)
qed

text \<open>
  For a server that is not the last host of its network, the pool derived from its address
  and a contiguous netmask is not empty, and every address in it belongs to the server's
  network and is neither the network address, nor the broadcast address, nor the server.
\<close>

theorem pool_is_sound:
  assumes "m = NOT (mask n)" and "bc = (ip AND m) OR NOT m"
    and "unat ip + 1 < unat bc" and "unat ip + 100 < 2 ^ 32"
    and "dhcpd_pool ip m = (start, stop)"
  shows "start \<le> stop \<and> (\<forall>h. start \<le> h \<and> h \<le> stop \<longrightarrow>
    h AND m = ip AND m \<and> h \<noteq> ip AND m \<and> h \<noteq> bc \<and> h \<noteq> ip)"
proof -
  have u: "unat (ip + 1) = unat ip + 1" "unat (ip + 100) = unat ip + 100"
    using unat_plus_small [of ip 1] unat_plus_small [of ip 100] assms(4) by simp_all
  have b: "unat (bc - 1) = unat bc - 1" using assms(3) by (intro unat_minus_one) auto
  have p: "start = ip + 1" "stop = (if bc \<le> ip + 100 then bc - 1 else ip + 100)"
    using pool_eq [OF assms(2-4)] assms(5) by auto
  have *: "ip < h \<and> h < bc" if "start \<le> h" "h \<le> stop" for h
    using that u b assms(3) by (auto simp: p word_le_nat_alt word_less_nat_alt split: if_splits)
  have "h AND m = ip AND m \<and> h \<noteq> ip AND m \<and> h \<noteq> bc \<and> h \<noteq> ip" if "start \<le> h" "h \<le> stop" for h
  proof -
    have "ip AND m \<le> ip" by (rule and_le_word)
    then show ?thesis
      using same_subnet [OF assms(1), of ip h] * [OF that] assms(2) by auto
  qed
  moreover have "start \<le> stop" using u b assms(3) by (auto simp: p word_le_nat_alt)
  ultimately show ?thesis by blast
qed

theorem pool_is_sound_witness:
  "dhcpd_pool 0xC0A80101 0xFFFFFF00 = (0xC0A80102, 0xC0A80165) \<and> (0xC0A80102 :: u32) \<le> 0xC0A80165"
proof -
  have p: "dhcpd_pool 0xC0A80101 0xFFFFFF00 = (0xC0A80102, 0xC0A80165)" by code_simp
  have m: "(0xFFFFFF00 :: u32) = NOT (mask 8)" by code_simp
  have bc: "(0xC0A801FF :: u32) = (0xC0A80101 AND 0xFFFFFF00) OR NOT 0xFFFFFF00" by code_simp
  show ?thesis using pool_is_sound [OF m bc _ _ p] p by simp
qed

text \<open>
  A server that is the last host of a small network, for example 192.168.1.2/30, falls
  back to a pool that ends in its own address, which it then leases to a client.
\<close>

theorem small_pool_contains_server:
  assumes "bc = (ip AND m) OR NOT m" and "unat bc = unat ip + 1"
    and "unat (ip AND m) + 1 < unat bc" and "unat bc \<le> unat (ip AND m) + 12"
    and "unat ip + 100 < 2 ^ 32"
  shows "dhcpd_pool ip m = ((ip AND m) + 1, ip) \<and> (ip AND m) + 1 \<le> ip"
proof -
  define net where "net = ip AND m"
  have le: "unat net \<le> unat ip" using and_le_word [of ip m] by (simp add: net_def word_le_nat_alt)
  have u: "unat (ip + 1) = unat ip + 1" "unat (ip + 100) = unat ip + 100"
    "unat (net + 1) = unat net + 1" "unat (net + 11) = unat net + 11"
    using unat_plus_small [of ip 1] unat_plus_small [of ip 100] assms(5) le
      unat_plus_small [of net 1] unat_plus_small [of net 11] by simp_all
  have b: "unat (bc - 1) = unat bc - 1" using assms(2) by (intro unat_minus_one) auto
  have bc: "bc = ip + 1" using assms(2) u(1) by (simp add: word_unat_eq_iff)
  have n11: "net + 11 = ip" if "net + 11 < bc"
    using that assms(2,4) u by (simp add: word_unat_eq_iff word_less_nat_alt net_def)
  have f: "\<not> ip + 1 \<le> net" "bc \<le> ip + 100" "bc - 1 < ip + 1" "\<not> bc - 1 < bc - 1" "bc - 1 = ip"
    "net + 1 \<le> ip" "net + 1 + 10 = net + 11"
    using u b assms(2,3) le by (simp_all add: word_le_nat_alt word_less_nat_alt bc net_def)
  have "\<not> ip < net + 11 \<or> \<not> net + 11 < bc" using n11 by auto
  then show ?thesis
    using f n11 assms(1) [folded net_def, symmetric]
    unfolding dhcpd_pool_def Let_def net_def [symmetric] f(7) by simp
qed

theorem small_pool_contains_server_witness:
  "dhcpd_pool 0xC0A80102 0xFFFFFFFC = (0xC0A80101, 0xC0A80102)"
proof -
  have bc: "(0xC0A80103 :: u32) = (0xC0A80102 AND 0xFFFFFFFC) OR NOT 0xFFFFFFFC" by code_simp
  have net: "(0xC0A80102 AND 0xFFFFFFFC :: u32) = 0xC0A80100" by code_simp
  show ?thesis using small_pool_contains_server [OF bc] by (simp add: net)
qed

section \<open>Offers without an address\<close>

lemma handler_discover:
  assumes "VEND + 4 \<le> length pkt" and "pkt_op pkt = 1" and "pkt_htype pkt = 1" and "pkt_hlen pkt = 6"
    and "take 4 (drop VEND pkt) = dhcp_magic_cookie" and "dhcpd_parse_msg_type pkt = Inr 1"
    and "dhcpd_handle_discover (pkt_chaddr pkt) s = (e, ip, s')"
  shows "dhcpd_handler_with_fallback pkt s = snd (dhcpd_send_reply pkt 2 ip [] s')"
  using assms by (simp add: dhcpd_handler_with_fallback_def)

lemma try_allocate_fail_zero: "dhcpd_try_allocate_ip mac ip s = (Some e, x, s') \<Longrightarrow> x = 0"
  by (auto simp: dhcpd_try_allocate_ip_def Let_def split: prod.splits if_splits)

lemma alloc_random_fail_zero: "alloc_random mac a b k n s = (Some (Some e, x), s') \<Longrightarrow> x = 0"
  by (induction n arbitrary: k s)
    (auto simp: Let_def split: prod.splits if_splits dest: try_allocate_fail_zero)

lemma alloc_linear_fail_zero: "alloc_linear mac a b c n s = (Some e, x, s') \<Longrightarrow> x = 0"
  by (induction n arbitrary: c s)
    (auto simp: Let_def split: prod.splits if_splits dest: try_allocate_fail_zero)

lemma alloc_ip_fail_zero: "dhcpd_alloc_ip mac s = (Some e, x, s') \<Longrightarrow> x = 0"
  by (auto simp: dhcpd_alloc_ip_def Let_def split: prod.splits option.splits
      dest: alloc_random_fail_zero alloc_linear_fail_zero)

lemma handle_discover_fail_zero: "dhcpd_handle_discover mac s = (Some e, x, s') \<Longrightarrow> x = 0"
  by (auto simp: handle_discover_eq Let_def split: prod.splits option.splits if_splits
      dest: alloc_ip_fail_zero)

text \<open>
  When a DISCOVER cannot be served because the server is full, the handler nevertheless
  sends an OFFER, and the address it offers is 0.0.0.0.
\<close>

theorem full_server_offers_zero:
  assumes inv: "dhcp_inv s" and tx: "net_tx_packet s"
    and pkt: "VEND + 4 \<le> length pkt" "pkt_op pkt = 1" "pkt_htype pkt = 1" "pkt_hlen pkt = 6"
      "take 4 (drop VEND pkt) = dhcp_magic_cookie" "dhcpd_parse_msg_type pkt = Inr 1"
    and full: "fst (dhcpd_handle_discover (pkt_chaddr pkt) s) \<noteq> None"
  shows "\<exists>dest p. sent (dhcpd_handler_with_fallback pkt s) = sent s @ [(dest, p)]
    \<and> dhcpd_parse_msg_type p = Inr 2 \<and> pkt_yiaddr p = 0"
proof -
  obtain e ip s' where d: "dhcpd_handle_discover (pkt_chaddr pkt) s = (e, ip, s')" by (metis prod_cases3)
  have mac: "6 \<le> length (pkt_chaddr pkt)" using pkt(1) by (simp add: pkt_chaddr_def)
  have st: "steady s s'" using handle_discover_steady [of s "pkt_chaddr pkt"] d by simp
  have "sent s' = sent s" using handle_discover_keeps [OF inv mac] d by (simp add: keeps_def)
  moreover have "ip = 0"
    using full d handle_discover_fail_zero by auto
  moreover have "net_tx_packet s'" using st tx by (simp add: steady_def)
  ultimately show ?thesis
    using send_reply_parses [of s' pkt 2 ip "[]"] handler_discover [OF pkt d] pkt(1) by auto
qed

definition full_server :: dhcpd where
  "full_server = router_server\<lparr>leases := (leases router_server)[0 := \<lparr>used = True, mac_addr = [2, 0, 0, 0, 0, 9],
     ip_addr = 0x0201A8C0, lease_start = 0, lease_time = 3600000\<rparr>],
     cfg := (cfg router_server)\<lparr>end_ip := 0x0201A8C0\<rparr>\<rparr>"

lemma full_server_inv: "dhcp_inv full_server"
proof -
  have ls: "leases router_server = replicate 32 empty_lease"
    by (simp add: router_server_def dhcpd_init_server_def split_beta)
  have "table_ok (cfg full_server) ((replicate 32 empty_lease)[0 := \<lparr>used = True, mac_addr = [2, 0, 0, 0, 0, 9],
     ip_addr = 0x0201A8C0, lease_start = 0, lease_time = 3600000\<rparr>])"
    by (rule table_ok_update)
      (simp_all add: table_ok_def full_server_def router_cfg in_pool_def empty_lease_def)
  then show ?thesis by (simp add: dhcp_inv_def full_server_def ls router_cfg)
qed

theorem full_server_offers_zero_witness:
  "\<exists>dest p. sent (dhcpd_handler_with_fallback discover_pkt full_server) = sent full_server @ [(dest, p)]
    \<and> dhcpd_parse_msg_type p = Inr 2 \<and> pkt_yiaddr p = 0"
proof (rule full_server_offers_zero [OF full_server_inv])
  show "net_tx_packet full_server" by code_simp
  show "VEND + 4 \<le> length discover_pkt" by code_simp
  show "pkt_op discover_pkt = 1" "pkt_htype discover_pkt = 1" "pkt_hlen discover_pkt = 6" by code_simp+
  show "take 4 (drop VEND discover_pkt) = dhcp_magic_cookie" by code_simp
  show "dhcpd_parse_msg_type discover_pkt = Inr 1" by code_simp
  show "fst (dhcpd_handle_discover (pkt_chaddr discover_pkt) full_server) \<noteq> None" by code_simp
qed

section \<open>Start, polling and stop\<close>

lemma init_handlers:
  assumes "dhcpd_init_server d e s0 = (e', s)"
  shows "udp_handler s = Dhcpd_Handler" "original_udp_handler s = Some (udp_handler s0)"
    "clock s = clock s0" "ticks s = ticks s0" "dstate s = dstate s0"
  using assms by (auto simp: dhcpd_init_server_def dhcpd_ip_settings_def Let_def split: prod.splits)

lemma request_loop_steady: "request_loop rounds s = Some s' \<Longrightarrow> steady s s'"
proof (induction rounds arbitrary: s)
  case (Cons r rounds)
  then show ?case
    by (cases r) (auto simp: Let_def split: if_splits intro: eth_rx_steady steady_trans [OF eth_rx_steady])
qed simp

text \<open>
  When the blocking server returns, after any number of rounds, it has reported success,
  is stopped, and the UDP handler that was installed before it started is installed again.
\<close>

theorem request_restores_handler:
  assumes "dhcpd_request rounds env_default e s0 = Some (r, e', s')"
  shows "r = None \<and> udp_handler s' = udp_handler s0 \<and> original_udp_handler s' = None
    \<and> dstate s' = DHCPD_STATE_STOPPED"
proof -
  obtain e1 s1 where i: "dhcpd_init_server env_default e s0 = (e1, s1)" by fastforce
  with assms obtain s2 where l: "request_loop rounds (s1\<lparr>dstate := DHCPD_STATE_RUNNING\<rparr>) = Some s2"
    and s': "s' = dhcpd_stop_server s2" and r: "r = None" by (auto simp: dhcpd_request_def)
  from request_loop_steady [OF l] init_handlers [OF i]
  have "original_udp_handler s2 = Some (udp_handler s0)" "dstate s2 = DHCPD_STATE_RUNNING"
    by (simp_all add: steady_def)
  then show ?thesis by (simp add: s' r dhcpd_stop_server_def dhcpd_deinit_server_def)
qed

theorem request_restores_handler_witness:
  "\<exists>r e' s'. dhcpd_request [([discover_pkt], False), ([], True)] id router_env idle_server = Some (r, e', s')
     \<and> udp_handler s' = Default_Handler 1"
proof -
  obtain r e' s' where *: "dhcpd_request [([discover_pkt], False), ([], True)] id router_env idle_server
      = Some (r, e', s')"
    by (auto simp: dhcpd_request_def Let_def split_beta)
  from request_restores_handler [OF *] * show ?thesis by (simp add: idle_server_def)
qed

lemma nonblocking_loop_returns:
  assumes "\<And>n. T \<le> n \<Longrightarrow> 10 * 1000 \<le> clock s n - start" and "T < ticks s + fuel" and "0 < fuel"
  shows "nonblocking_loop rx fuel k start last_pkt prcd s \<noteq> None"
  using assms
proof (induction fuel arbitrary: k last_pkt prcd s)
  case (Suc fuel)
  show ?case
  proof (cases "clock s (ticks s) - start < 10 * 1000")
    case True
    with Suc.prems(1) [of "ticks s"] have lt: "ticks s < T" by (meson leI leD)
    have IH: "nonblocking_loop rx fuel k' start last' prcd' s' \<noteq> None"
      if "steady (s\<lparr>ticks := Suc (Suc (ticks s))\<rparr>) s'" for k' last' prcd' s'
      using that Suc.prems lt by (intro Suc.IH) (auto simp: steady_def)
    from IH [OF eth_rx_steady] True show ?thesis
      by (auto simp: get_timer_eq Let_def split_beta)
  qed (simp add: get_timer_eq)
qed simp

lemma nonblocking_returns:
  assumes "\<And>n. ticks s + N \<le> n \<Longrightarrow> 10 * 1000 \<le> clock s n - clock s (ticks s)"
  shows "\<exists>r. dhcpd_request_nonblocking rx (N + 1) env_default e s = Some r"
proof -
  obtain e1 s1 where i: "dhcpd_init_server env_default e s = (e1, s1)" by fastforce
  note h = init_handlers [OF i]
  have "nonblocking_loop rx (N + 1) 0 (clock s (ticks s)) (clock s (ticks s)) 0
      (s1\<lparr>dstate := DHCPD_STATE_RUNNING, ticks := Suc (ticks s1)\<rparr>) \<noteq> None"
    using assms h by (intro nonblocking_loop_returns [where T = "ticks s + N"]) auto
  then show ?thesis
    using i h by (auto simp: dhcpd_request_nonblocking_def get_timer_eq Let_def split: prod.splits)
qed


definition coarse_server :: dhcpd where
  "coarse_server = idle_server\<lparr>clock := (\<lambda>n. if n = 0 then 0 else 20000)\<rparr>"


lemma nonblocking_loop_steady:
  "nonblocking_loop rx fuel k start last_pkt prcd s = Some (b, n, s') \<Longrightarrow> steady s s'"
proof (induction fuel arbitrary: k last_pkt prcd s)
  case (Suc fuel)
  have t: "steady s (s\<lparr>ticks := Suc (Suc (ticks s))\<rparr>)" by (simp add: steady_def)
  note t2 = steady_trans [OF t eth_rx_steady]
  show ?case
    using Suc.prems Suc.IH [THEN steady_trans [OF t2]] t2
    by (auto simp: get_timer_eq Let_def split_beta split: if_splits)
qed simp

lemma nonblocking_handlers:
  assumes "dhcpd_request_nonblocking rx fuel d e s0 = Some (r, e', s)"
  shows "udp_handler s = Dhcpd_Handler \<and> original_udp_handler s = Some (udp_handler s0) \<and> clock s = clock s0"
proof -
  obtain e1 s1 where i: "dhcpd_init_server d e s0 = (e1, s1)" by fastforce
  from assms i obtain b n s2 x where "nonblocking_loop rx fuel 0 x x 0
      (s1\<lparr>dstate := DHCPD_STATE_RUNNING, ticks := Suc (ticks s1)\<rparr>) = Some (b, n, s2)"
    and s: "udp_handler s = udp_handler s2" "original_udp_handler s = original_udp_handler s2" "clock s = clock s2"
    by (auto simp: dhcpd_request_nonblocking_def get_timer_eq Let_def
        split: option.splits prod.splits if_splits)
  from nonblocking_loop_steady [OF this(1)] init_handlers [OF i] s show ?thesis
    by (simp add: steady_def)
qed

text \<open>
  C39: Starting the non-blocking server again, as its \<^verbatim>\<open>RETRY_REQUEST\<close> result asks for, makes
  it save its own handler as the one to fall back to: the next UDP packet that is not a DHCP
  request is passed from the handler to itself without end.
\<close>

theorem retry_makes_fallback_recurse:
  assumes first: "dhcpd_request_nonblocking rx fuel d e s0 = Some (Some RETRY_REQUEST, e1, s1)"
    and second: "dhcpd_request_nonblocking rx' fuel' d e1 s1 = Some (r, e2, s2)"
    and pkt: "length pkt < 236"
  shows "hung (eth_rx_udp [pkt] s2)"
proof -
  have u1: "udp_handler s1 = Dhcpd_Handler" using nonblocking_handlers [OF first] by simp
  have "udp_handler s2 = Dhcpd_Handler" "original_udp_handler s2 = Some Dhcpd_Handler"
    using nonblocking_handlers [OF second] u1 by simp_all
  then show ?thesis using pkt by (simp add: eth_rx_udp_def dhcpd_handler_with_fallback_def)
qed

definition fast_server :: dhcpd where
  "fast_server = idle_server\<lparr>clock := (\<lambda>n. if n = 0 then 0 else if n \<le> 2 then 20000 else 40000)\<rparr>"

theorem retry_makes_fallback_recurse_witness:
  "\<exists>e1 s1 r e2 s2. dhcpd_request_nonblocking (\<lambda>k. (0, [])) 2 id router_env fast_server = Some (Some RETRY_REQUEST, e1, s1)
     \<and> dhcpd_request_nonblocking (\<lambda>k. (0, [])) 2 id e1 s1 = Some (r, e2, s2) \<and> hung (eth_rx_udp [[0, 1]] s2)"
proof -
  define run1 where "run1 = dhcpd_request_nonblocking (\<lambda>k. (0, [])) 2 id router_env fast_server"
  have "map_option (\<lambda>(r, e, s). (r, ticks s)) run1 = Some (Some RETRY_REQUEST, 2)" unfolding run1_def by code_simp
  then obtain e1 s1 where 1: "run1 = Some (Some RETRY_REQUEST, e1, s1)" and t: "ticks s1 = 2" by (cases run1) auto
  have "clock s1 = clock fast_server" using nonblocking_handlers [OF 1 [unfolded run1_def]] by simp
  then have c: "clock s1 2 = 20000" "3 \<le> n \<Longrightarrow> clock s1 n = 40000" for n by (simp_all add: fast_server_def)
  have "(10 * 1000 :: u32) \<le> 40000 - 20000" by code_simp
  with c t have "ticks s1 + 1 \<le> n \<Longrightarrow> 10 * 1000 \<le> clock s1 n - clock s1 (ticks s1)" for n by simp
  from nonblocking_returns [of s1 1, OF this] obtain r e2 s2 where
    2: "dhcpd_request_nonblocking (\<lambda>k. (0, [])) 2 id e1 s1 = Some (r, e2, s2)" unfolding one_add_one by (metis prod_cases3)
  show ?thesis
    using retry_makes_fallback_recurse [OF 1 [unfolded run1_def] 2, of "[0, 1]"]
      1 [unfolded run1_def] 2 by auto
qed

end
