(* ===== verification/Webterm.thy ===== *)
theory Webterm
  imports CString
begin

text \<open>
  The web terminal, \<^verbatim>\<open>common/webterm.c\<close>: console output is collected line by line in a
  ring buffer that the browser polls, and commands are queued for the main loop. The counters,
  signed and never negative in the code, are naturals; \<^verbatim>\<open>webterm_output_seq\<close> would overflow
  only after two gigabytes of console output.
\<close>

section \<open>Model\<close>

abbreviation (input) WEBTERM_BUFFER_SIZE :: nat where "WEBTERM_BUFFER_SIZE \<equiv> 16384"
abbreviation (input) WEBTERM_LINE_SIZE :: nat where "WEBTERM_LINE_SIZE \<equiv> 256"
abbreviation (input) WEBTERM_MAX_CMD_LEN :: nat where "WEBTERM_MAX_CMD_LEN \<equiv> 4096"

record webterm =
  wt_buffer :: "string option"
  wt_size :: nat
  wt_head :: nat
  wt_tail :: nat
  wt_count :: nat
  wt_overflow :: bool
  wt_line_buffer :: string
  wt_line_pos :: nat
  wt_prev_char_was_cr :: bool
  wt_output_seq :: nat
  wt_pending_cmd :: string
  wt_has_pending_cmd :: bool
  wt_abort_requested :: bool

text \<open>\<open>ok\<close> says whether the allocation succeeds; \<open>fresh\<close> is what the new block contains.\<close>

definition webterm_init :: "bool \<Rightarrow> string \<Rightarrow> webterm \<Rightarrow> int \<times> webterm" where
  "webterm_init ok fresh w =
     (case wt_buffer w of
        Some _ \<Rightarrow> (0, w)
      | None \<Rightarrow>
          if \<not> ok then (-1, w)
          else (0, w\<lparr>wt_buffer := Some fresh, wt_size := WEBTERM_BUFFER_SIZE, wt_head := 0, wt_tail := 0,
                     wt_count := 0, wt_overflow := False, wt_line_pos := 0\<rparr>))"

definition webterm_reset :: "webterm \<Rightarrow> webterm" where
  "webterm_reset w =
     (let w = (if wt_buffer w \<noteq> None
               then w\<lparr>wt_head := 0, wt_tail := 0, wt_count := 0, wt_overflow := False\<rparr> else w)
      in w\<lparr>wt_output_seq := 0, wt_line_pos := 0, wt_prev_char_was_cr := False\<rparr>)"

text \<open>\<^verbatim>\<open>memcpy\<close> into a buffer at an index.\<close>

definition blit :: "string \<Rightarrow> nat \<Rightarrow> string \<Rightarrow> string" where
  "blit b i src = take i b @ src @ drop (i + length src) b"

definition webterm_batch_copy :: "string \<Rightarrow> webterm \<Rightarrow> webterm" where
  "webterm_batch_copy src w =
     (let len = length src;
          buf = (case wt_buffer w of Some b \<Rightarrow> b | None \<Rightarrow> []);
          first = min len (wt_size w - wt_head w);
          (buf, head) = (if 0 < first
            then (blit buf (wt_head w) (take first src), (wt_head w + first) mod wt_size w)
            else (buf, wt_head w));
          (buf, head) = (if first < len then (blit buf 0 (drop first src), len - first) else (buf, head));
          count = wt_count w + len;
          w = w\<lparr>wt_buffer := Some buf, wt_head := head, wt_output_seq := wt_output_seq w + len\<rparr>
      in if wt_size w < count
         then w\<lparr>wt_tail := (wt_tail w + count - wt_size w) mod wt_size w, wt_count := wt_size w,
                wt_overflow := True\<rparr>
         else w\<lparr>wt_count := count\<rparr>)"

definition webterm_flush_line :: "webterm \<Rightarrow> webterm" where
  "webterm_flush_line w =
     (let line = (wt_line_buffer w)[wt_line_pos w := LF]
      in (webterm_batch_copy (take (wt_line_pos w + 1) line) (w\<lparr>wt_line_buffer := line\<rparr>))
           \<lparr>wt_line_pos := 0\<rparr>)"

definition webterm_add_char :: "char \<Rightarrow> webterm \<Rightarrow> webterm" where
  "webterm_add_char c w =
     (if wt_buffer w = None then w
      else if c = LF \<or> c = CR then
        if c = LF \<and> wt_prev_char_was_cr w then w\<lparr>wt_prev_char_was_cr := False\<rparr>
        else
          let w = w\<lparr>wt_prev_char_was_cr := (c = CR)\<rparr>
          in if 0 < wt_line_pos w then webterm_flush_line w else w
      else
        let w = w\<lparr>wt_prev_char_was_cr := False\<rparr>;
            w = (if WEBTERM_LINE_SIZE - 1 \<le> wt_line_pos w then webterm_flush_line w else w)
        in w\<lparr>wt_line_buffer := (wt_line_buffer w)[wt_line_pos w := c], wt_line_pos := wt_line_pos w + 1\<rparr>)"

definition webterm_capture_output :: "string \<Rightarrow> webterm \<Rightarrow> webterm" where
  "webterm_capture_output str w =
     (if wt_buffer w = None then w else fold webterm_add_char (cstr str) w)"

definition webterm_putc :: "char \<Rightarrow> webterm \<Rightarrow> webterm" where
  "webterm_putc c w = webterm_add_char c w"

text \<open>The text left in a buffer of \<open>bufsz\<close> bytes.\<close>

definition webterm_get_output :: "nat \<Rightarrow> int \<Rightarrow> webterm \<Rightarrow> string" where
  "webterm_get_output bufsz since w =
     (let since = nat since in
      case wt_buffer w of
        None \<Rightarrow> []
      | Some buf \<Rightarrow>
          if bufsz = 0 \<or> wt_count w = 0 \<or> wt_output_seq w \<le> since then []
          else
            let len = min (min (wt_output_seq w - since) (wt_count w)) (bufsz - 1);
                skip = wt_count w - len;
                pos = (wt_tail w + skip) mod wt_size w;
                first = min len (wt_size w - pos)
            in take first (drop pos buf) @ (if first < len then take (len - first) buf else []))"

text \<open>\<open>run_command\<close> stands for the command interpreter and what it does to the terminal.\<close>

definition webterm_execute_command :: "(string \<Rightarrow> webterm \<Rightarrow> webterm) \<Rightarrow> bool \<Rightarrow> string \<Rightarrow> webterm \<Rightarrow> webterm" where
  "webterm_execute_command run_command running cmd w =
     (let w = w\<lparr>wt_abort_requested := False\<rparr>;
          w = webterm_capture_output (''> '' @ cstr cmd @ [LF]) w
      in if running
         then w\<lparr>wt_pending_cmd := cstr (take (WEBTERM_MAX_CMD_LEN - 1) cmd), wt_has_pending_cmd := True\<rparr>
         else let w = run_command cmd w in if 0 < wt_line_pos w then webterm_flush_line w else w)"

definition webterm_parse_post_body :: "string \<Rightarrow> nat \<Rightarrow> nat \<Rightarrow> (nat \<times> string) option" where
  "webterm_parse_post_body data data_len out_size =
     (case strstr data crlf2 of
        None \<Rightarrow> None
      | Some body \<Rightarrow>
          let body = drop 4 body;
              body_len = int data_len - int (length data - length body)
          in if body_len \<le> 0 \<or> int WEBTERM_MAX_CMD_LEN < body_len then None
             else
               let n = (if out_size \<le> nat body_len then out_size - 1 else nat body_len);
                   out = take n body
               in Some (n, case strpbrk out crlf of
                             Some nl \<Rightarrow> take (length out - length nl) out | None \<Rightarrow> out))"

definition webterm_respond :: "nat \<Rightarrow> string \<Rightarrow> string \<Rightarrow> string" where
  "webterm_respond code ctype body =
     ''HTTP/1.1 '' @ fmt_dec code @ '' '' @ (if code = 200 then ''OK'' else ''405'') @ crlf
     @ ''Content-Type: '' @ ctype @ crlf @ ''Cache-Control: no-cache'' @ crlf
     @ ''Connection: close'' @ crlf2 @ body"

text \<open>The response sent from \<^verbatim>\<open>webterm_response_buf\<close>, if the handler sends one.\<close>

definition webterm_http_handler :: "(string \<Rightarrow> webterm \<Rightarrow> webterm) \<Rightarrow> bool \<Rightarrow> string \<Rightarrow> nat \<Rightarrow> webterm
    \<Rightarrow> string option \<times> webterm" where
  "webterm_http_handler run_command running data data_len w =
     (let is_post = (strncmp data ''POST '' 5 = 0);
          path = (if is_post then drop 5 data else drop 4 data);
          flushed = (if 0 < wt_line_pos w then webterm_flush_line w else w);
          ok_or_405 = webterm_respond (if is_post then 200 else 405) ''text/plain''
            (if is_post then ''OK'' @ [LF] else ''405'' @ [LF])
      in if strncmp data ''GET '' 4 \<noteq> 0 \<and> \<not> is_post then (None, w)
         else if strncmp path ''/webterm/'' 9 \<noteq> 0 then (None, w)
         else
           let path = drop 9 path
           in if strncmp path ''cmd'' 3 = 0 then
                (Some ok_or_405,
                 if is_post then
                   (case webterm_parse_post_body data data_len WEBTERM_MAX_CMD_LEN of
                      Some (n, cmd) \<Rightarrow> if 0 < n then webterm_execute_command run_command running cmd w else w
                    | None \<Rightarrow> w)
                 else w)
              else if strncmp path ''abort'' 5 = 0 then
                (Some ok_or_405, if is_post then w\<lparr>wt_abort_requested := True\<rparr> else w)
              else if strncmp path ''reset'' 5 = 0 then
                (Some (webterm_respond 200 ''text/plain'' (''OK'' @ [LF])), webterm_reset w)
              else if is_post then (None, w)
              else if strncmp path ''status'' 6 = 0 then
                (Some (webterm_respond 200 ''text/plain'' (fmt_dec (wt_output_seq flushed))), flushed)
              else if strncmp path ''data'' 4 = 0 then
                let since = (case strstr path ''?since='' of
                       Some qp \<Rightarrow> simple_strtol (drop 7 qp) 10 | None \<Rightarrow> 0);
                    out = webterm_get_output WEBTERM_BUFFER_SIZE since flushed
                in (Some (webterm_respond 200 ''text/plain; charset=utf-8'' (cstr out)), flushed)
              else (None, w))"

section \<open>The ring buffer refines a bounded log\<close>

definition last_n :: "nat \<Rightarrow> 'a list \<Rightarrow> 'a list" where
  "last_n n xs = drop (length xs - n) xs"

definition wt_contents :: "webterm \<Rightarrow> string" where
  "wt_contents w = map (\<lambda>i. the (wt_buffer w) ! ((wt_tail w + i) mod wt_size w)) [0..<wt_count w]"

definition ring_ok :: "webterm \<Rightarrow> bool" where
  "ring_ok w \<longleftrightarrow> wt_size w = WEBTERM_BUFFER_SIZE
     \<and> wt_buffer w \<noteq> None \<and> length (the (wt_buffer w)) = wt_size w
     \<and> wt_tail w < wt_size w \<and> wt_count w \<le> wt_size w
     \<and> wt_head w = (wt_tail w + wt_count w) mod wt_size w
     \<and> wt_count w \<le> wt_output_seq w
     \<and> length (wt_line_buffer w) = WEBTERM_LINE_SIZE \<and> wt_line_pos w < WEBTERM_LINE_SIZE"

lemma length_blit: "i + length src \<le> length b \<Longrightarrow> length (blit b i src) = length b"
  by (simp add: blit_def)

lemma nth_blit:
  "i + length src \<le> length b \<Longrightarrow> j < length b \<Longrightarrow>
     blit b i src ! j = (if i \<le> j \<and> j < i + length src then src ! (j - i) else b ! j)"
  by (auto simp: blit_def nth_append)

text \<open>The buffer after the two copies, and its bytes counted from the old head.\<close>

definition ring_write :: "string \<Rightarrow> nat \<Rightarrow> string \<Rightarrow> string" where
  "ring_write b h src =
     (let first = min (length src) (length b - h); b1 = blit b h (take first src)
      in if first < length src then blit b1 0 (drop first src) else b1)"

lemma length_ring_write:
  "h < length b \<Longrightarrow> length src \<le> length b \<Longrightarrow> length (ring_write b h src) = length b"
  by (simp add: ring_write_def Let_def length_blit min_def)

lemma ring_write_flat: "h + length src \<le> length b \<Longrightarrow> ring_write b h src = blit b h src"
  by (simp add: ring_write_def min_absorb1)

lemma mod_wrap: "n \<le> a + b \<Longrightarrow> a < n \<Longrightarrow> b \<le> n \<Longrightarrow> (a + b) mod n = a + b - (n :: nat)"
  by (simp add: mod_if)

lemma ring_write_wrap:
  assumes "length b = h + f" and "length src = f + g"
  shows "ring_write b h src = blit (blit b h (take f src)) 0 (drop f src)"
  using assms by (cases g) (simp_all add: ring_write_def Let_def blit_def)

lemma nth_ring_write:
  assumes "h < length b" and "length src \<le> length b" and "q < length b"
  shows "ring_write b h src ! ((h + q) mod length b)
    = (if q < length src then src ! q else b ! ((h + q) mod length b))"
proof -
  obtain f where f: "length b = h + f" using assms(1) less_imp_add_positive by metis
  show ?thesis
  proof (cases "length src \<le> f")
    case True
    have w: "ring_write b h src = blit b h src" using True f by (simp add: ring_write_flat)
    show ?thesis
    proof (cases "q < f")
      case True
      with \<open>length src \<le> f\<close> f show ?thesis by (simp add: w nth_blit)
    next
      case False
      then have "(h + q) mod length b = h + q - length b" using assms f by (intro mod_wrap) auto
      moreover have "q - f < h" using False assms f by linarith
      ultimately show ?thesis using False True assms f by (simp add: w nth_blit)
    qed
  next
    case False
    then obtain g where g: "length src = f + g" by (metis less_imp_add_positive not_le)
    have w: "ring_write b h src = blit (blit b h (take f src)) 0 (drop f src)"
      by (rule ring_write_wrap [OF f g])
    have l: "length (blit b h (take f src)) = length b" using f g by (simp add: length_blit)
    show ?thesis
    proof (cases "q < f")
      case True
      with f g assms(2) l show ?thesis by (simp add: w nth_blit)
    next
      case False
      then obtain r where r: "q = f + r" by (metis le_iff_add not_less)
      then have "(h + q) mod length b = r" using assms f by (simp add: add.assoc [symmetric])
      with r f g assms l show ?thesis by (simp add: w nth_blit)
    qed
  qed
qed

lemma batch_copy_eq:
  assumes "ring_ok w" and "wt_buffer w = Some b" and "length src \<le> wt_size w"
  shows "wt_buffer (webterm_batch_copy src w) = Some (ring_write b (wt_head w) src)"
    and "wt_head (webterm_batch_copy src w) = (wt_head w + length src) mod wt_size w"
    and "wt_count (webterm_batch_copy src w) = min (wt_size w) (wt_count w + length src)"
    and "wt_tail (webterm_batch_copy src w) = (wt_tail w + (wt_count w + length src - wt_size w)) mod wt_size w"
    and "wt_output_seq (webterm_batch_copy src w) = wt_output_seq w + length src"
proof -
  have b: "length b = wt_size w" and h: "wt_head w < wt_size w" and t: "wt_tail w < wt_size w"
    using assms by (auto simp: ring_ok_def)
  have z: "blit b i [] = b" for i by (simp add: blit_def)
  have "src = [] \<or> 0 < min (length src) (wt_size w - wt_head w)" using h by auto
  then show "wt_buffer (webterm_batch_copy src w) = Some (ring_write b (wt_head w) src)"
    using assms(2) b by (elim disjE) (simp_all add: webterm_batch_copy_def ring_write_def Let_def z)
  show "wt_head (webterm_batch_copy src w) = (wt_head w + length src) mod wt_size w"
  proof (cases "length src \<le> wt_size w - wt_head w")
    case True
    with h show ?thesis by (cases src) (simp_all add: webterm_batch_copy_def Let_def min_absorb1)
  next
    case False
    moreover have "(wt_head w + length src) mod wt_size w = wt_head w + length src - wt_size w"
      using False h assms(3) by (intro mod_wrap) auto
    ultimately show ?thesis using h by (simp add: webterm_batch_copy_def Let_def min_absorb2 split_beta)
  qed
  show "wt_count (webterm_batch_copy src w) = min (wt_size w) (wt_count w + length src)"
    by (simp add: webterm_batch_copy_def Let_def split_beta)
  show "wt_tail (webterm_batch_copy src w) = (wt_tail w + (wt_count w + length src - wt_size w)) mod wt_size w"
    using t by (simp add: webterm_batch_copy_def Let_def split_beta)
  show "wt_output_seq (webterm_batch_copy src w) = wt_output_seq w + length src"
    by (simp add: webterm_batch_copy_def Let_def split_beta)
qed

lemma nth_wt_contents: "i < wt_count w \<Longrightarrow> wt_contents w ! i = the (wt_buffer w) ! ((wt_tail w + i) mod wt_size w)"
  by (simp add: wt_contents_def)

lemma length_wt_contents [simp]: "length (wt_contents w) = wt_count w"
  by (simp add: wt_contents_def)

text \<open>Counting from the tail, the written buffer reads as the old contents followed by the new text.\<close>

lemma ring_write_from_tail:
  assumes ok: "ring_ok w" and b: "wt_buffer w = Some b" and len: "length src \<le> wt_size w"
    and m: "wt_count w + length src \<le> m + wt_size w" "m < wt_count w + length src"
  shows "ring_write b (wt_head w) src ! ((wt_tail w + m) mod wt_size w) = (wt_contents w @ src) ! m"
proof -
  define n where "n = wt_size w"
  have n: "length b = n" "wt_tail w < n" "wt_count w \<le> n" "wt_head w = (wt_tail w + wt_count w) mod n"
    using ok b by (auto simp: ring_ok_def n_def)
  then have h: "wt_head w < length b" by simp
  show ?thesis
  proof (cases "wt_count w \<le> m")
    case True
    then obtain q where q: "m = wt_count w + q" by (metis le_iff_add)
    have "(wt_tail w + m) mod n = (wt_head w + q) mod n"
      unfolding n(4) q by (simp add: mod_add_left_eq add.assoc)
    with nth_ring_write [OF h, of src q] q m len n show ?thesis
      by (simp add: n_def nth_append)
  next
    case False
    then obtain r where r: "wt_count w = m + r" "0 < r" by (metis less_imp_add_positive not_le)
    define q where "q = n - r"
    have qr: "q + r = n" using r n(3) by (simp add: q_def)
    have "wt_tail w + wt_count w + q = wt_tail w + m + n" using qr r by simp
    then have "(wt_tail w + m) mod n = (wt_head w + q) mod n"
      unfolding n(4) by (metis mod_add_left_eq mod_add_self2)
    moreover have "length src \<le> q" "q < n" using m r qr by (simp_all add: n_def)
    ultimately show ?thesis
      using nth_ring_write [OF h, of src q] len n False b
      by (simp add: nth_append nth_wt_contents flip: n_def)
  qed
qed

lemma batch_copy_contents:
  assumes ok: "ring_ok w" and len: "length src \<le> wt_size w"
  shows "wt_contents (webterm_batch_copy src w) = last_n (wt_size w) (wt_contents w @ src)"
proof -
  obtain b where b: "wt_buffer w = Some b" using ok by (auto simp: ring_ok_def)
  note eq = batch_copy_eq [OF ok b len]
  define k where "k = wt_count w + length src - wt_size w"
  have sz: "wt_size (webterm_batch_copy src w) = wt_size w"
    by (simp add: webterm_batch_copy_def Let_def split_beta)
  show ?thesis
  proof (rule nth_equalityI)
    show "length (wt_contents (webterm_batch_copy src w)) = length (last_n (wt_size w) (wt_contents w @ src))"
      by (simp add: eq last_n_def)
  next
    fix i assume "i < length (wt_contents (webterm_batch_copy src w))"
    then have i: "i < wt_size w" "i < wt_count w + length src" by (simp_all add: eq)
    have "wt_contents (webterm_batch_copy src w) ! i
        = ring_write b (wt_head w) src ! ((wt_tail w + (k + i)) mod wt_size w)"
      using i by (simp add: nth_wt_contents eq sz k_def mod_add_left_eq add.assoc)
    also have "\<dots> = (wt_contents w @ src) ! (k + i)"
      using i by (intro ring_write_from_tail [OF ok b len]) (simp_all add: k_def)
    finally show "wt_contents (webterm_batch_copy src w) ! i = last_n (wt_size w) (wt_contents w @ src) ! i"
      using i by (simp add: last_n_def k_def del: drop_append)
  qed
qed

lemma batch_copy_frame:
  "wt_size (webterm_batch_copy src w) = wt_size w"
  "wt_line_buffer (webterm_batch_copy src w) = wt_line_buffer w"
  "wt_line_pos (webterm_batch_copy src w) = wt_line_pos w"
  "wt_prev_char_was_cr (webterm_batch_copy src w) = wt_prev_char_was_cr w"
  by (simp_all add: webterm_batch_copy_def Let_def split_beta)

lemma batch_copy_ok:
  assumes ok: "ring_ok w" and len: "length src \<le> wt_size w"
  shows "ring_ok (webterm_batch_copy src w)"
proof -
  obtain b where b: "wt_buffer w = Some b" using ok by (auto simp: ring_ok_def)
  note eq = batch_copy_eq [OF ok b len]
  have w: "length b = wt_size w" "wt_head w = (wt_tail w + wt_count w) mod wt_size w"
    "wt_head w < wt_size w" "wt_count w \<le> wt_output_seq w" "0 < wt_size w"
    using ok b by (auto simp: ring_ok_def)
  have "(wt_count w + length src - wt_size w) + min (wt_size w) (wt_count w + length src) = wt_count w + length src"
    by simp
  then have "(wt_head w + length src) mod wt_size w
      = ((wt_tail w + (wt_count w + length src - wt_size w)) mod wt_size w
         + min (wt_size w) (wt_count w + length src)) mod wt_size w"
    unfolding w(2) mod_add_left_eq by (simp add: add.assoc)
  note h = this
  have "min (wt_size w) (wt_count w + length src) \<le> wt_output_seq w + length src"
    using w(4) by (simp add: min.coboundedI2)
  moreover have "length (ring_write b (wt_head w) src) = wt_size w"
    using length_ring_write [of "wt_head w" b src] len w by simp
  moreover have "wt_size w = WEBTERM_BUFFER_SIZE" "length (wt_line_buffer w) = WEBTERM_LINE_SIZE"
    "wt_line_pos w < WEBTERM_LINE_SIZE" using ok by (simp_all add: ring_ok_def)
  ultimately show ?thesis
    unfolding ring_ok_def batch_copy_frame eq h using w(5) by simp
qed

text \<open>What the terminal has taken in: the log behind the ring, then the unfinished line.\<close>

definition wt_line :: "webterm \<Rightarrow> string" where
  "wt_line w = take (wt_line_pos w) (wt_line_buffer w)"

lemma take_update_line: "p < length xs \<Longrightarrow> take (Suc p) (xs[p := c]) = take p xs @ [c]"
  by (simp add: take_Suc_conv_app_nth)

lemma flush_line_contents:
  assumes "ring_ok w"
  shows "wt_contents (webterm_flush_line w) = last_n (wt_size w) (wt_contents w @ wt_line w @ [LF])"
    and "ring_ok (webterm_flush_line w)" and "wt_line (webterm_flush_line w) = []"
    and "wt_size (webterm_flush_line w) = wt_size w"
    and "wt_output_seq (webterm_flush_line w) = wt_output_seq w + Suc (wt_line_pos w)"
    and "wt_line_pos (webterm_flush_line w) = 0"
proof -
  define w1 where "w1 = w\<lparr>wt_line_buffer := (wt_line_buffer w)[wt_line_pos w := LF]\<rparr>"
  define src where "src = wt_line w @ [LF]"
  have src: "take (wt_line_pos w + 1) ((wt_line_buffer w)[wt_line_pos w := LF]) = src"
    using assms by (simp add: src_def wt_line_def ring_ok_def take_update_line)
  have fl: "webterm_flush_line w = (webterm_batch_copy src w1)\<lparr>wt_line_pos := 0\<rparr>"
    unfolding webterm_flush_line_def Let_def src w1_def ..
  have ok1: "ring_ok w1" using assms by (auto simp: w1_def ring_ok_def)
  have sz: "wt_size w1 = wt_size w" "wt_contents w1 = wt_contents w" "wt_output_seq w1 = wt_output_seq w"
    by (simp_all add: w1_def wt_contents_def)
  have len: "length src \<le> wt_size w1" "length src = Suc (wt_line_pos w)"
    using assms by (simp_all add: src_def wt_line_def ring_ok_def w1_def)
  have c: "wt_contents (v\<lparr>wt_line_pos := 0\<rparr>) = wt_contents v" for v by (simp add: wt_contents_def)
  show "wt_contents (webterm_flush_line w) = last_n (wt_size w) (wt_contents w @ wt_line w @ [LF])"
    using batch_copy_contents [OF ok1 len(1)] by (simp add: fl c sz src_def)
  show "ring_ok (webterm_flush_line w)"
    using batch_copy_ok [OF ok1 len(1)] by (simp add: fl ring_ok_def)
  show "wt_line (webterm_flush_line w) = []" "wt_line_pos (webterm_flush_line w) = 0"
    by (simp_all add: fl wt_line_def)
  show "wt_size (webterm_flush_line w) = wt_size w" by (simp add: fl batch_copy_frame sz)
  obtain b where "wt_buffer w1 = Some b" using ok1 by (auto simp: ring_ok_def)
  from batch_copy_eq(5) [OF ok1 this len(1)] len(2)
  show "wt_output_seq (webterm_flush_line w) = wt_output_seq w + Suc (wt_line_pos w)"
    by (simp add: fl sz)
qed


lemma last_n_append: "last_n n (last_n n xs @ ys) = last_n n (xs @ ys)"
  by (cases "length xs \<le> n") (simp_all add: last_n_def add.commute)

lemma ring_size: "ring_ok w \<Longrightarrow> wt_size w = WEBTERM_BUFFER_SIZE"
  by (simp add: ring_ok_def)

lemma ring_count: "ring_ok w \<Longrightarrow> wt_count w \<le> WEBTERM_BUFFER_SIZE"
  by (simp add: ring_ok_def)

text \<open>The contract of a log that keeps the last \<open>limit\<close> characters of what is appended to it.\<close>

locale bounded_log =
  fixes contents :: "'s \<Rightarrow> 'c list" and limit :: nat
    and append :: "'c list \<Rightarrow> 's \<Rightarrow> 's" and good :: "'s \<Rightarrow> bool"
  assumes append_contents: "good s \<Longrightarrow> length xs \<le> limit \<Longrightarrow>
      contents (append xs s) = last_n limit (contents s @ xs)"
    and append_good: "good s \<Longrightarrow> length xs \<le> limit \<Longrightarrow> good (append xs s)"
    and contents_bound: "good s \<Longrightarrow> length (contents s) \<le> limit"
begin

lemma appends_good: "good s \<Longrightarrow> \<forall>xs \<in> set xss. length xs \<le> limit \<Longrightarrow> good (fold append xss s)"
  by (induction xss arbitrary: s) (simp_all add: append_good)

lemma appends_contents:
  "good s \<Longrightarrow> \<forall>xs \<in> set xss. length xs \<le> limit \<Longrightarrow>
     contents (fold append xss s) = last_n limit (contents s @ concat xss)"
proof (induction xss arbitrary: s)
  case Nil
  then show ?case using contents_bound [of s] by (simp add: last_n_def)
next
  case (Cons xs xss)
  have "contents (fold append xss (append xs s)) = last_n limit (last_n limit (contents s @ xs) @ concat xss)"
    using Cons by (simp add: append_good append_contents)
  also have "\<dots> = last_n limit (contents s @ xs @ concat xss)"
    by (simp add: last_n_append)
  finally show ?case by simp
qed

end

interpretation wt_log: bounded_log wt_contents WEBTERM_BUFFER_SIZE webterm_batch_copy ring_ok
  by unfold_locales (simp_all add: batch_copy_ok batch_copy_contents ring_size ring_count)

text \<open>The line discipline: what a character adds to the log, the unfinished line, and the CR flag.\<close>

definition emit :: "char \<Rightarrow> string \<times> string \<times> bool \<Rightarrow> string \<times> string \<times> bool" where
  "emit c t = (case t of (out, line, cr) \<Rightarrow>
     if c = LF \<or> c = CR then
       if c = LF \<and> cr then (out, line, False)
       else (if line = [] then out else out @ line @ [LF], [], c = CR)
     else if 255 \<le> length line then (out @ line @ [LF], [c], False)
     else (out, line @ [c], False))"

definition emitted :: "string \<Rightarrow> webterm \<Rightarrow> string \<times> string \<times> bool" where
  "emitted txt w = fold emit txt ([], wt_line w, wt_prev_char_was_cr w)"

definition follows :: "webterm \<Rightarrow> string \<times> string \<times> bool \<Rightarrow> webterm \<Rightarrow> bool" where
  "follows w0 t w \<longleftrightarrow> ring_ok w \<and> wt_contents w = last_n WEBTERM_BUFFER_SIZE (wt_contents w0 @ fst t)
     \<and> wt_output_seq w = wt_output_seq w0 + length (fst t)
     \<and> wt_line w = fst (snd t) \<and> wt_prev_char_was_cr w = snd (snd t)"

lemma length_wt_line: "ring_ok w \<Longrightarrow> length (wt_line w) = wt_line_pos w"
  by (simp add: wt_line_def ring_ok_def)

lemma flush_cr: "wt_prev_char_was_cr (webterm_flush_line w) = wt_prev_char_was_cr w"
  by (simp add: webterm_flush_line_def Let_def batch_copy_frame)

lemma follows_flush:
  assumes "follows w0 (out, line, cr) w"
  shows "follows w0 (out @ line @ [LF], [], cr) (webterm_flush_line w)"
proof -
  have ok: "ring_ok w" and sz: "wt_size w = WEBTERM_BUFFER_SIZE" using assms by (simp_all add: follows_def ring_ok_def)
  note f = flush_line_contents [OF ok]
  show ?thesis
    using assms f length_wt_line [OF ok] by (simp add: follows_def sz flush_cr last_n_append)
qed

lemma follows_cr: "follows w0 (out, line, cr) w \<Longrightarrow> follows w0 (out, line, b) (w\<lparr>wt_prev_char_was_cr := b\<rparr>)"
  by (auto simp: follows_def ring_ok_def wt_contents_def wt_line_def)

lemma follows_put:
  assumes "follows w0 (out, line, cr) w" and "length line < 255"
  shows "follows w0 (out, line @ [c], cr)
    (w\<lparr>wt_line_buffer := (wt_line_buffer w)[wt_line_pos w := c], wt_line_pos := wt_line_pos w + 1\<rparr>)"
  using assms length_wt_line [of w]
  by (auto simp: follows_def ring_ok_def wt_contents_def wt_line_def take_update_line)

lemma add_char_follows:
  assumes "follows w0 (out, line, cr) w"
  shows "follows w0 (emit c (out, line, cr)) (webterm_add_char c w)"
proof -
  have ok: "ring_ok w" and l: "wt_line w = line" "wt_prev_char_was_cr w = cr" "wt_line_pos w = length line"
    using assms length_wt_line [of w] by (auto simp: follows_def)
  have ne: "wt_buffer w \<noteq> None" using ok by (auto simp: ring_ok_def)
  note cr = follows_cr [OF assms]
  show ?thesis
  proof (cases "c = LF \<or> c = CR")
    case True
    then show ?thesis
      using ne l cr follows_flush [OF cr [of "c = CR"]]
      by (auto simp: webterm_add_char_def emit_def Let_def)
  next
    case False
    show ?thesis
    proof (cases "255 \<le> length line")
      case True
      have "follows w0 ((out @ line @ [LF]), [c], False)
         ((webterm_flush_line (w\<lparr>wt_prev_char_was_cr := False\<rparr>))
           \<lparr>wt_line_buffer := (wt_line_buffer (webterm_flush_line (w\<lparr>wt_prev_char_was_cr := False\<rparr>)))
              [wt_line_pos (webterm_flush_line (w\<lparr>wt_prev_char_was_cr := False\<rparr>)) := c],
            wt_line_pos := wt_line_pos (webterm_flush_line (w\<lparr>wt_prev_char_was_cr := False\<rparr>)) + 1\<rparr>)"
        using follows_put [OF follows_flush [OF cr [of False]], of c] by simp
      with True False ne l show ?thesis by (auto simp: webterm_add_char_def emit_def Let_def)
    next
      case short: False
      with follows_put [OF cr [of False], of c] False ne l show ?thesis
        by (auto simp: webterm_add_char_def emit_def Let_def)
    qed
  qed
qed

lemma capture_follows:
  assumes "ring_ok w"
  shows "follows w (emitted (cstr str) w) (webterm_capture_output str w)"
proof -
  have "follows w0 (fold emit cs t) (fold webterm_add_char cs v)" if "follows w0 t v" for w0 cs t v
    using that
  proof (induction cs arbitrary: t v)
    case (Cons c cs)
    from Cons.prems have "follows w0 (emit c t) (webterm_add_char c v)"
      by (cases t) (simp add: add_char_follows)
    from Cons.IH [OF this] show ?case by simp
  qed simp
  moreover have "follows w ([], wt_line w, wt_prev_char_was_cr w) w"
    using assms by (simp add: follows_def last_n_def ring_ok_def)
  moreover have "wt_buffer w \<noteq> None" using assms by (auto simp: ring_ok_def)
  ultimately show ?thesis by (auto simp: webterm_capture_output_def emitted_def)
qed


section \<open>Reading the log\<close>

lemma ring_read:
  assumes "ring_ok w" and "wt_buffer w = Some b" and "len \<le> wt_count w"
  defines "pos \<equiv> (wt_tail w + (wt_count w - len)) mod wt_size w"
  defines "first \<equiv> min len (wt_size w - pos)"
  shows "take first (drop pos b) @ (if first < len then take (len - first) b else [])
    = last_n len (wt_contents w)"
proof (rule nth_equalityI)
  have b: "length b = wt_size w" "0 < wt_size w" "wt_count w \<le> wt_size w" using assms by (auto simp: ring_ok_def)
  have p: "pos < wt_size w" using b by (simp add: pos_def)
  show len: "length (take first (drop pos b) @ (if first < len then take (len - first) b else []))
      = length (last_n len (wt_contents w))"
    using b p assms(3) by (auto simp: last_n_def first_def)
  fix i assume "i < length (take first (drop pos b) @ (if first < len then take (len - first) b else []))"
  then have i: "i < len" using len assms(3) by (simp add: last_n_def)
  have rhs: "last_n len (wt_contents w) ! i = b ! ((pos + i) mod wt_size w)"
    using i assms(2,3) by (simp add: last_n_def nth_wt_contents pos_def mod_add_left_eq add.assoc)
  show "(take first (drop pos b) @ (if first < len then take (len - first) b else [])) ! i
      = last_n len (wt_contents w) ! i"
  proof (cases "i < first")
    case True
    then have "pos + i < wt_size w" "i < wt_size w - pos" by (auto simp: first_def)
    with True b p show ?thesis unfolding rhs by (simp add: nth_append)
  next
    case False
    with i have f: "first = wt_size w - pos" by (simp add: first_def)
    have "(pos + i) mod wt_size w = pos + i - wt_size w"
      using False f i p b assms(3) by (intro mod_wrap) auto
    moreover have "i - first = pos + i - wt_size w" using f p by simp
    ultimately show ?thesis
      using False i f b p assms(3) unfolding rhs by (simp add: nth_append)
  qed
qed

lemma get_output_last_n:
  assumes "ring_ok w" and "0 < bufsz" and "nat since < wt_output_seq w"
  shows "webterm_get_output bufsz since w
    = last_n (min (min (wt_output_seq w - nat since) (wt_count w)) (bufsz - 1)) (wt_contents w)"
proof -
  obtain b where b: "wt_buffer w = Some b" using assms(1) by (auto simp: ring_ok_def)
  show ?thesis
  proof (cases "wt_count w = 0")
    case True
    then have "wt_contents w = []" by (simp add: wt_contents_def)
    with True b show ?thesis by (simp add: webterm_get_output_def last_n_def)
  next
    case False
    define len where "len = min (min (wt_output_seq w - nat since) (wt_count w)) (bufsz - 1)"
    have le: "len \<le> wt_count w" by (simp add: len_def)
    have "\<not> (bufsz = 0 \<or> wt_count w = 0 \<or> wt_output_seq w \<le> nat since)" using False assms by simp
    then show ?thesis
      unfolding webterm_get_output_def Let_def b option.case len_def [symmetric]
      by (simp only: if_False ring_read [OF assms(1) b le])
  qed
qed


definition boot_term :: webterm where
  "boot_term = \<lparr>wt_buffer = Some (replicate 16384 NUL), wt_size = 16384, wt_head = 0, wt_tail = 0,
     wt_count = 0, wt_overflow = False, wt_line_buffer = replicate 256 NUL, wt_line_pos = 0,
     wt_prev_char_was_cr = False, wt_output_seq = 0, wt_pending_cmd = [], wt_has_pending_cmd = False,
     wt_abort_requested = False\<rparr>"

lemma boot_term_ok: "ring_ok boot_term"
  by (simp add: ring_ok_def boot_term_def)

lemma boot_term_emits:
  "emitted (cstr (''ok'' @ crlf @ ''a'')) boot_term = (''ok'' @ [LF], ''a'', False)"
  by (simp add: emitted_def emit_def boot_term_def wt_line_def)


text \<open>
  A browser that polls with the sequence number it last saw receives exactly the text
  emitted since then, as long as no more than 16383 characters came in between.
\<close>

theorem poll_gets_new_output:
  assumes "ring_ok w" and "emitted (cstr str) w = (out, line, cr)" and "length out \<le> 16383"
  shows "webterm_get_output 16384 (int (wt_output_seq w)) (webterm_capture_output str w) = out"
proof -
  define w' where "w' = webterm_capture_output str w"
  have f: "ring_ok w'" "wt_contents w' = last_n 16384 (wt_contents w @ out)"
    "wt_output_seq w' = wt_output_seq w + length out"
    using capture_follows [OF assms(1), of str] assms(2) by (simp_all add: follows_def w'_def)
  have c: "wt_count w' = min 16384 (wt_count w + length out)"
    using arg_cong [OF f(2), of length] by (simp add: last_n_def)
  show ?thesis
  proof (cases "out = []")
    case True
    with f obtain b where "wt_buffer w' = Some b" by (auto simp: ring_ok_def)
    with True f show ?thesis by (simp add: webterm_get_output_def flip: w'_def)
  next
    case False
    then have "nat (int (wt_output_seq w)) < wt_output_seq w'" using f by simp
    from get_output_last_n [OF f(1) _ this, of 16384]
    have "webterm_get_output 16384 (int (wt_output_seq w)) w'
        = last_n (length out) (last_n 16384 (wt_contents w @ out))"
      using assms(3) f c by (simp add: min_def)
    also have "\<dots> = out" using assms(3) by (simp add: last_n_def del: drop_append) (simp add: drop_all)
    finally show ?thesis by (simp add: w'_def)
  qed
qed

theorem poll_gets_new_output_witness:
  "webterm_get_output 16384 0 (webterm_capture_output (''ok'' @ crlf @ ''a'') boot_term) = ''ok'' @ [LF]"
  using poll_gets_new_output [OF boot_term_ok boot_term_emits] by (simp add: boot_term_def)

end
