(* ===== verification/FlashInfo.thy ===== *)
theory FlashInfo
  imports CString
begin

text \<open>
  What the board reports about its flash, and \<^verbatim>\<open>backup_flash_capacity\<close> of
  \<^verbatim>\<open>failsafe/failsafe_httpd.c\<close>, which bounds a backup by it. The fields of \<open>flash_info\<close> are the
  answers of the flash drivers and of the partition tables (\<^verbatim>\<open>smem\<close>, GPT); \<open>has_nand\<close> and
  \<open>has_mmc\<close> are the build options \<^verbatim>\<open>CONFIG_CMD_NAND\<close> and \<^verbatim>\<open>CONFIG_QCA_MMC\<close>.
\<close>

abbreviation (input) SMEM_BOOT_NO_FLASH :: int where "SMEM_BOOT_NO_FLASH \<equiv> 0"
abbreviation (input) SMEM_BOOT_NAND_FLASH :: int where "SMEM_BOOT_NAND_FLASH \<equiv> 2"
abbreviation (input) SMEM_BOOT_MMC_FLASH :: int where "SMEM_BOOT_MMC_FLASH \<equiv> 5"
abbreviation (input) SMEM_BOOT_SPI_FLASH :: int where "SMEM_BOOT_SPI_FLASH \<equiv> 6"
abbreviation (input) SMEM_BOOT_NORPLUSNAND :: int where "SMEM_BOOT_NORPLUSNAND \<equiv> 7"
abbreviation (input) SMEM_BOOT_NORPLUSEMMC :: int where "SMEM_BOOT_NORPLUSEMMC \<equiv> 8"
abbreviation (input) SMEM_BOOT_QSPI_NAND_FLASH :: int where "SMEM_BOOT_QSPI_NAND_FLASH \<equiv> 11"

record nand_chip =
  nand_size :: u64
  writesize :: u32
  oobsize :: u32

record mmc_dev =
  blksz :: u64
  lba :: u64
  gpt_part_size :: "string \<Rightarrow> u64 option"

record flash_info =
  current_flash_type :: "int option"
  spi_size :: u32
  has_nand :: bool
  has_mmc :: bool
  nand_chip :: "nand_chip option"
  which_flash_param :: "string \<Rightarrow> int"
  smem_part_size :: "string \<Rightarrow> u32 option"
  mmc_dev :: "mmc_dev option"

text \<open>\<^verbatim>\<open>getpart_offset_size\<close> succeeding with a size that is not zero.\<close>

definition part_size :: "flash_info \<Rightarrow> string \<Rightarrow> u64 option" where
  "part_size fi part = (case smem_part_size fi part of
      Some sz \<Rightarrow> if sz \<noteq> 0 then Some (ucast sz) else None | None \<Rightarrow> None)"

definition nand_capacity :: "flash_info \<Rightarrow> string \<Rightarrow> bool \<Rightarrow> u64" where
  "nand_capacity fi part raw =
     (case nand_chip fi of
        Some n \<Rightarrow>
          if strcmp part ''nand_full'' = 0 then
            if nand_size n > 0 then
              if raw \<and> writesize n > 0
              then nand_size n div ucast (writesize n) * ucast (writesize n + oobsize n)
              else nand_size n
            else 0
          else (case part_size fi part of
                  Some sz \<Rightarrow> sz | None \<Rightarrow> if nand_size n > 0 then nand_size n else 0)
      | None \<Rightarrow>
          if strcmp part ''nand_full'' = 0 then 0
          else (case part_size fi part of Some sz \<Rightarrow> sz | None \<Rightarrow> 0))"

definition mmc_capacity :: "flash_info \<Rightarrow> mmc_dev \<Rightarrow> string \<Rightarrow> int \<Rightarrow> int \<Rightarrow> u64" where
  "mmc_capacity fi d part flash_type over =
     (if strcmp part ''0:GPT'' = 0 then 34 * blksz d
      else if strcmp part ''0:GPTBACKUP'' = 0 then 33 * blksz d
      else case gpt_part_size d part of
             Some sz \<Rightarrow> sz * blksz d
           | None \<Rightarrow>
               if over = SMEM_BOOT_MMC_FLASH then 0
               else if flash_type = SMEM_BOOT_NORPLUSEMMC then
                 (case part_size fi part of Some sz \<Rightarrow> sz | None \<Rightarrow> ucast (spi_size fi))
               else lba d * blksz d)"

definition spi_capacity :: "flash_info \<Rightarrow> string \<Rightarrow> int \<Rightarrow> u64" where
  "spi_capacity fi part over =
     (if (has_nand fi \<and> over = -1 \<and> which_flash_param fi part > 0) \<or> over = SMEM_BOOT_SPI_FLASH
      then (case part_size fi part of Some sz \<Rightarrow> sz | None \<Rightarrow> ucast (spi_size fi))
      else ucast (spi_size fi))"

definition backup_flash_capacity :: "flash_info \<Rightarrow> string \<Rightarrow> bool \<Rightarrow> int \<Rightarrow> u64" where
  "backup_flash_capacity fi part raw over =
     (if current_flash_type fi = None \<and> over = -1 then 0
      else
        let flash_type = (case current_flash_type fi of Some t \<Rightarrow> t | None \<Rightarrow> over)
        in if strcmp part ''nor_full'' = 0 then ucast (spi_size fi)
           else if has_nand fi \<and> (strcmp part ''nand_full'' = 0 \<or> over = SMEM_BOOT_NAND_FLASH
                \<or> (over = -1 \<and> (flash_type = SMEM_BOOT_NAND_FLASH \<or> flash_type = SMEM_BOOT_QSPI_NAND_FLASH
                    \<or> flash_type = SMEM_BOOT_NORPLUSNAND \<or> which_flash_param fi part > 0)))
           then nand_capacity fi part raw
           else if has_mmc fi \<and> mmc_dev fi \<noteq> None \<and> (over = SMEM_BOOT_MMC_FLASH
                \<or> (over = -1 \<and> (flash_type = SMEM_BOOT_MMC_FLASH \<or> flash_type = SMEM_BOOT_NO_FLASH
                    \<or> flash_type = SMEM_BOOT_NORPLUSEMMC)))
           then mmc_capacity fi (the (mmc_dev fi)) part flash_type over
           else if over = SMEM_BOOT_SPI_FLASH
                \<or> (over = -1 \<and> (flash_type = SMEM_BOOT_SPI_FLASH \<or> flash_type = SMEM_BOOT_NORPLUSNAND
                    \<or> flash_type = SMEM_BOOT_NORPLUSEMMC))
           then spi_capacity fi part over
           else 0)"

end
