(* ===== verification/HttpdState.thy ===== *)
theory HttpdState
  imports WebForm Webterm FlashInfo
begin

text \<open>
  The state of the recovery web server, \<^verbatim>\<open>failsafe/failsafe_httpd.c\<close>, and the operations
  every handler uses: sending, closing, aborting and resetting a connection.

  A connection (\<^verbatim>\<open>struct failsafe_httpd_state\<close> with its \<^verbatim>\<open>pcb\<close>) is named by a number;
  \<open>conns\<close> holds the allocated ones. A callback for a number that is not allocated is a
  callback with a NULL argument: connections are detached before they are freed. A store through a
  pointer to a freed connection sets \<open>uaf\<close>.

  What the server reads from outside itself comes from \<open>outside\<close>: the timer, the free send
  buffer of a connection, whether \<^verbatim>\<open>tcp_write\<close> and \<^verbatim>\<open>malloc\<close> succeed. Each read takes the
  answer of the next index, so nothing is assumed about successive answers. \<open>tx\<close> collects the
  bytes accepted by \<^verbatim>\<open>tcp_write\<close> for each connection. A read through NULL sets
  \<open>null_deref\<close>. The values fixed by the board and the
  code of other components are the fields of \<open>platform\<close>.
\<close>

section \<open>Data\<close>

datatype http_state = STATE_NONE | STATE_FILE_REQUEST | STATE_UPLOAD_REQUEST

datatype upgrade_type = FIRMWARE | UBOOT | ART | IMG | CDT | MIBIB | PTABLE | INITRAMFS

text \<open>The static buffers a response can be sent from, and pointers into them, into RAM or constants.\<close>

datatype buffer = Status_Resp | Led_Resp | Btn_Resp | Env_Resp | Mac_Resp | Mac_Info_Buf
  | Part_Json_Buf | About_Json_Buf | Redirect_Buf | Webterm_Response_Buf

datatype ptr = Null | Ram u32 | Buf buffer nat | Const string

record conn =
  http_state :: http_state
  last_activity :: u32
  dataptr :: ptr
  hs_upload :: u32
  upload_total :: u32
  owns_global :: bool

record upload_t =
  ram_end :: u32
  data_start_found :: bool
  packet_counter :: u8
  led_counter :: u32
  start_time :: u32
  file_too_big :: bool
  failed :: bool
  upload_done :: bool

record backup_t =
  data_size :: u32
  data_addr :: u32
  sending_header :: bool
  total_remaining :: u64
  total_sent :: u64
  total_size :: u64
  chunk_offset :: u64
  chunked :: bool
  chunk_busy :: bool
  chunk_num :: nat
  total_chunks :: nat
  raw :: bool
  flash_type :: int
  part_name :: string

record outside =
  timer :: "nat \<Rightarrow> u32"
  sndbuf :: "nat \<Rightarrow> u16"
  write_ok :: "nat \<Rightarrow> bool"
  malloc_ok :: "nat \<Rightarrow> bool"

datatype pcb_end = Closed | Aborted

datatype led_event = Led_On string | Led_Off string | Led_Toggle string | Progress nat

record httpd =
  conns :: "nat \<Rightarrow> conn option"
  uaf :: bool
  boundary_value :: "string option"
  upload :: upload_t
  backup :: backup_t
  upgrade_status :: nat
  bufs :: "buffer \<Rightarrow> string"
  hs_global :: "nat option"
  upload_pending :: bool
  upload_hs :: "nat option"
  flashread_yield_set :: bool
  webfailsafe_data_pointer :: u32
  webfailsafe_upgrade_type :: upgrade_type
  webfailsafe_img_flash :: nat
  webfailsafe_backup_avail_enabled :: bool
  webfailsafe_auto_reboot_enabled :: bool
  webfailsafe_ready_for_upgrade :: bool
  net_boot_file_size :: u32
  ram :: ram
  leds :: "led_event list"
  env :: "string \<Rightarrow> string option"
  saved_env :: "string \<Rightarrow> string option"
  reset_gpio_cached :: bool
  mac_writes :: "(bool \<times> u8 list \<times> int) list"
  webterm :: webterm
  null_deref :: bool
  webfailsafe_is_running :: bool
  httpd_progress_start_done :: bool
  listening :: bool
  rebooted :: bool
  tx :: "nat \<Rightarrow> string"
  pcb_gone :: "nat \<Rightarrow> pcb_end option"
  orc :: outside
  reads :: nat

text \<open>
  Board values, the size limits of \<^verbatim>\<open>lib/ipq_api.c\<close> (\<open>None\<close> for a NULL entry of
  \<^verbatim>\<open>upload_types\<close>), the flash of the board, its reader (partition, offset, length, raw flag and flash
  type give the bytes read to the upload address and the detail text, \<open>None\<close> on failure), the
  GPIO registers, the MAC writer of the board code (wireless or not, address, index), what a terminal command does when the server does not run, the files
  generated into \<^verbatim>\<open>fsdata.c\<close>, and the texts of the status pages that describe the hardware.
\<close>

record platform =
  sdram_end :: u32
  upload_ram :: u32
  uboot_size :: u64
  max_size :: "upgrade_type \<Rightarrow> u64 option"
  flashread :: "string \<Rightarrow> u64 \<Rightarrow> u32 \<Rightarrow> bool \<Rightarrow> int \<Rightarrow> string option \<times> string"
  flash :: flash_info
  gpio_max :: nat
  gpio_config :: "nat \<Rightarrow> u32"
  gpio_value :: "nat \<Rightarrow> nat"
  gpio_skip :: "nat \<Rightarrow> bool"
  macaddr_modify :: "bool \<Rightarrow> u8 list \<Rightarrow> int \<Rightarrow> int"
  fs_files :: "(string \<times> string) list"
  index_file :: string
  not_found_file :: string
  term_command :: "string \<Rightarrow> webterm \<Rightarrow> webterm"
  about_text :: "httpd \<Rightarrow> string"
  mac_info_text :: string
  partitions_text :: string

section \<open>Outside answers and pointers\<close>

definition get_timer :: "u32 \<Rightarrow> httpd \<Rightarrow> u32 \<times> httpd" where
  "get_timer base s = (timer (orc s) (reads s) - base, s\<lparr>reads := Suc (reads s)\<rparr>)"

definition malloc :: "httpd \<Rightarrow> bool \<times> httpd" where
  "malloc s = (malloc_ok (orc s) (reads s), s\<lparr>reads := Suc (reads s)\<rparr>)"

fun ptr_add :: "ptr \<Rightarrow> nat \<Rightarrow> ptr" where
  "ptr_add Null n = Null"
| "ptr_add (Ram a) n = Ram (a + of_nat n)"
| "ptr_add (Buf b k) n = Buf b (k + n)"
| "ptr_add (Const cs) n = Const (drop n cs)"

text \<open>The \<open>n\<close> bytes at a pointer; what lies beyond the end of a buffer's text reads as NUL.\<close>

definition pad :: "nat \<Rightarrow> string \<Rightarrow> string" where
  "pad n cs = take n cs @ replicate (n - length cs) NUL"

fun ptr_read :: "(buffer \<Rightarrow> string) \<Rightarrow> ram \<Rightarrow> ptr \<Rightarrow> nat \<Rightarrow> string" where
  "ptr_read bs m Null n = pad n []"
| "ptr_read bs m (Ram a) n = ram_bytes m a n"
| "ptr_read bs m (Buf b k) n = pad n (drop k (bs b))"
| "ptr_read bs m (Const cs) n = pad n cs"

text \<open>A store through a connection pointer.\<close>

definition upd :: "nat \<Rightarrow> (conn \<Rightarrow> conn) \<Rightarrow> httpd \<Rightarrow> httpd" where
  "upd c f s = (case conns s c of
      None \<Rightarrow> s\<lparr>uaf := True\<rparr>
    | Some h \<Rightarrow> s\<lparr>conns := (conns s)(c \<mapsto> f h)\<rparr>)"

definition fresh_conn :: conn where
  "fresh_conn = \<lparr>http_state = STATE_NONE, last_activity = 0, dataptr = Null, hs_upload = 0,
     upload_total = 0, owns_global = False\<rparr>"

definition conn_of :: "nat \<Rightarrow> httpd \<Rightarrow> conn" where
  "conn_of c s = (case conns s c of Some h \<Rightarrow> h | None \<Rightarrow> fresh_conn)"

section \<open>Sending\<close>

abbreviation (input) TCP_MSS :: u16 where "TCP_MSS \<equiv> 1446"

text \<open>The loop of \<^verbatim>\<open>httpd_send_data\<close>: data pointer, bytes left, answer index, bytes accepted.\<close>

function send_loop :: "outside \<Rightarrow> (ptr \<Rightarrow> nat \<Rightarrow> string) \<Rightarrow> ptr \<Rightarrow> u32 \<Rightarrow> nat \<Rightarrow> string
    \<Rightarrow> ptr \<times> u32 \<times> nat \<times> string" where
  "send_loop oc rd p left n out =
     (if left = 0 then (p, left, n, out)
      else
        let snd_buf = sndbuf oc n in
        if snd_buf = 0 then (p, left, Suc n, out)
        else
          let send_len = (if ucast snd_buf < left then snd_buf else ucast left) in
          if write_ok oc (Suc n)
          then send_loop oc rd (ptr_add p (unat send_len)) (left - ucast send_len) (n + 2)
                 (out @ rd p (unat send_len))
          else if TCP_MSS < send_len then
            let send_len = (if left < ucast TCP_MSS then ucast left else TCP_MSS) in
            if write_ok oc (n + 2)
            then send_loop oc rd (ptr_add p (unat send_len)) (left - ucast send_len) (n + 3)
                   (out @ rd p (unat send_len))
            else (p, left, n + 3, out)
          else (p, left, n + 2, out))"
  by pat_completeness auto

lemma unat_u16_less [simp]: "unat (b :: u16) < 65536"
proof -
  have "unat b < 2 ^ LENGTH(16)" by (rule unsigned_less)
  then show ?thesis by simp
qed

lemma unat_ucast_u16 [simp]: "unat (ucast (b :: u16) :: u32) = unat b"
proof -
  have "unat b < 2 ^ 32" by (rule order_less_trans [OF unat_u16_less]) simp
  then show ?thesis by (simp add: unsigned_ucast_eq take_bit_nat_eq_self)
qed

lemma send_len_bounds:
  fixes left :: u32 and b :: u16
  assumes "left \<noteq> 0" and "b \<noteq> 0"
  defines "l \<equiv> if ucast b < left then b else ucast left"
  shows "unat l \<le> unat left" and "0 < unat l"
proof -
  have "unat (ucast left :: u16) = unat left" if "\<not> ucast b < left"
  proof -
    have "unat left \<le> unat b" using that by (simp add: word_less_nat_alt)
    then have "unat left < 65536" using unat_u16_less [of b] by linarith
    then show ?thesis by (simp add: unsigned_ucast_eq take_bit_nat_eq_self)
  qed
  then show "unat l \<le> unat left" "0 < unat l"
    using assms(1,2) by (auto simp: l_def word_less_nat_alt unat_gt_0 unat_eq_zero)
qed

lemma unat_left_minus: "unat l \<le> unat left \<Longrightarrow> unat (left - ucast (l :: u16) :: u32) = unat left - unat l"
  by (simp add: unat_sub word_le_nat_alt)

lemma send_len_mss: "(if left < ucast TCP_MSS then ucast left else TCP_MSS) = (if ucast TCP_MSS < left then TCP_MSS else ucast (left :: u32))"
  by (cases "left = 1446") (auto simp: not_less)

lemma send_loop_decreases:
  assumes "left \<noteq> 0" and "b \<noteq> 0"
  shows "unat (left - ucast (if ucast b < left then b else ucast left :: u16) :: u32) < unat left"
  using send_len_bounds [OF assms] by (simp add: unat_left_minus)

termination send_loop
proof (relation "measure (\<lambda>(oc, rd, p, left, n, out). unat left)", goal_cases)
  case (2 oc rd p left n out snd_buf send_len)
  then show ?case using send_loop_decreases [of left snd_buf] by simp
next
  case (3 oc rd p left n out snd_buf send_len send_len')
  then show ?case using send_loop_decreases [of left TCP_MSS] unfolding send_len_mss by simp
qed simp

declare send_loop.simps [simp del]

definition httpd_send_data :: "nat \<Rightarrow> httpd \<Rightarrow> httpd" where
  "httpd_send_data c s =
     (let h = conn_of c s;
          (p, left, n, out) = send_loop (orc s) (ptr_read (bufs s) (ram s)) (dataptr h) (hs_upload h) (reads s) []
      in (upd c (\<lambda>h. h\<lparr>dataptr := p, hs_upload := left\<rparr>) s)\<lparr>reads := n, tx := (tx s)(c := tx s c @ out)\<rparr>)"

definition httpd_send_static :: "nat \<Rightarrow> ptr \<Rightarrow> u32 \<Rightarrow> httpd \<Rightarrow> httpd" where
  "httpd_send_static c p len s =
     httpd_send_data c (upd c (\<lambda>h. h\<lparr>http_state := STATE_FILE_REQUEST, dataptr := p, hs_upload := len\<rparr>) s)"

text \<open>Sending a constant text, and sending a text just formatted into a static buffer.\<close>

definition send_const :: "nat \<Rightarrow> string \<Rightarrow> httpd \<Rightarrow> httpd" where
  "send_const c txt s = httpd_send_static c (Const txt) (of_nat (length txt)) s"

definition send_buffer :: "nat \<Rightarrow> buffer \<Rightarrow> string \<Rightarrow> httpd \<Rightarrow> httpd" where
  "send_buffer c b txt s =
     httpd_send_static c (Buf b 0) (of_nat (length txt)) (s\<lparr>bufs := (bufs s)(b := txt)\<rparr>)"

section \<open>Resetting and closing\<close>

definition empty_upload :: upload_t where
  "empty_upload = \<lparr>ram_end = 0, data_start_found = False, packet_counter = 0, led_counter = 0,
     start_time = 0, file_too_big = False, failed = False, upload_done = False\<rparr>"

definition empty_backup :: backup_t where
  "empty_backup = \<lparr>data_size = 0, data_addr = 0, sending_header = False, total_remaining = 0,
     total_sent = 0, total_size = 0, chunk_offset = 0, chunked = False, chunk_busy = False,
     chunk_num = 0, total_chunks = 0, raw = False, flash_type = 0, part_name = []\<rparr>"

definition led :: "led_event \<Rightarrow> httpd \<Rightarrow> httpd" where
  "led ev s = s\<lparr>leds := leds s @ [ev]\<rparr>"

definition httpd_state_reset :: "nat \<Rightarrow> httpd \<Rightarrow> httpd" where
  "httpd_state_reset c s =
     (let (now, s) = get_timer 0 s;
          s = upd c (\<lambda>h. h\<lparr>http_state := STATE_NONE, last_activity := now, dataptr := Null,
                              hs_upload := 0, upload_total := 0\<rparr>) s
      in if owns_global (conn_of c s) then
           let s = upd c (\<lambda>h. h\<lparr>owns_global := False\<rparr>) s
           in led (Led_On ''blink_led'')
                (s\<lparr>hs_global := None,
                   upload := empty_upload\<lparr>upload_done := upload_done (upload s),
                     failed := failed (upload s), packet_counter := 255\<rparr>,
                   backup := empty_backup, flashread_yield_set := False, boundary_value := None\<rparr>)
         else s)"

definition httpd_reset_upload_state :: "httpd \<Rightarrow> httpd" where
  "httpd_reset_upload_state s =
     s\<lparr>upload := empty_upload\<lparr>packet_counter := 255\<rparr>, upload_pending := False, upload_hs := None\<rparr>"

definition httpd_discard_pending_upload :: "httpd \<Rightarrow> httpd" where
  "httpd_discard_pending_upload s =
     s\<lparr>upload_pending := False, upload := (upload s)\<lparr>upload_done := False, failed := False\<rparr>,
       upload_hs := None, upgrade_status := 0\<rparr>"

definition free_conn :: "nat \<Rightarrow> httpd \<Rightarrow> httpd" where
  "free_conn c s = s\<lparr>conns := (conns s)(c := None)\<rparr>"

definition pcb_end :: "nat \<Rightarrow> pcb_end \<Rightarrow> httpd \<Rightarrow> httpd" where
  "pcb_end c e s = s\<lparr>pcb_gone := (pcb_gone s)(c \<mapsto> e)\<rparr>"

text \<open>\<^verbatim>\<open>httpd_detach_pcb\<close> clears the callbacks of the connection, which is freed in the same call.\<close>

definition httpd_close_conn :: "nat \<Rightarrow> httpd \<Rightarrow> httpd" where
  "httpd_close_conn c s = free_conn c (pcb_end c Closed (httpd_state_reset c s))"

definition httpd_conn_abort :: "nat \<Rightarrow> httpd \<Rightarrow> httpd" where
  "httpd_conn_abort c s = pcb_end c Aborted (free_conn c (httpd_state_reset c s))"

end
