(* ===== verification/Upload.thy ===== *)
theory Upload
  imports HttpdState
begin

text \<open>
  Receiving an image over HTTP, the upload half of \<^verbatim>\<open>failsafe/failsafe_httpd.c\<close>: the
  request header, the first chunk with the multipart header, the following chunks and the
  completion. Packet data is the text of the received bytes followed by the zero bytes of the
  buffer it was copied to; \<open>data_len\<close> is the number of bytes received.
\<close>

section \<open>Progress display\<close>

definition httpd_upload_progress :: "platform \<Rightarrow> nat \<Rightarrow> httpd \<Rightarrow> httpd" where
  "httpd_upload_progress pl c s =
     (let total = upload_total (conn_of c s) in
      if total = 0 then s
      else
        let data_written = webfailsafe_data_pointer s - upload_ram pl;
            percent = min 100 (unat data_written * 100 div unat total);
            s = (if percent div 25 \<noteq> unat (packet_counter (upload s)) div 25 then
                   let (elapsed, s) = get_timer (start_time (upload s)) s
                   in s\<lparr>upload := (upload s)\<lparr>packet_counter := of_nat percent\<rparr>\<rparr>
                 else s);
            n = led_counter (upload s) + 1
        in if 10000 \<le> n
           then led (Progress 1) (s\<lparr>upload := (upload s)\<lparr>led_counter := 0\<rparr>\<rparr>)
           else s\<lparr>upload := (upload s)\<lparr>led_counter := n\<rparr>\<rparr>)"

section \<open>The request header\<close>

fun skip_blanks :: "string \<Rightarrow> string" where
  "skip_blanks [] = []"
| "skip_blanks (c # cs) = (if c = CHR '' '' \<or> c = CHR 0x09 then skip_blanks cs else c # cs)"

text \<open>The announced length, or \<open>None\<close> for -1. The store to \<^verbatim>\<open>hs\<close> is left to the caller below.\<close>

definition content_length :: "string \<Rightarrow> u64 option" where
  "content_length data =
     (case strstr data ''Content-Length:'' of
        None \<Rightarrow> None
      | Some start \<Rightarrow>
          let start = skip_blanks (drop (strlen ''Content-Length:'') start)
          in case strstr start crlf of
               None \<Rightarrow> None
             | Some _ \<Rightarrow>
                 let (len, num_end) = simple_strtoull start 10;
                     num_end' = skip_blanks num_end
                 in if num_end' = start \<or> (deref num_end' \<noteq> CR \<and> deref num_end' \<noteq> LF)
                       \<or> len = 0 \<or> 0xFFFFFFFF < len
                    then None else Some len)"

definition httpd_parse_content_length :: "nat \<Rightarrow> string \<Rightarrow> httpd \<Rightarrow> int \<times> httpd" where
  "httpd_parse_content_length c data s =
     (case content_length data of
        None \<Rightarrow> (-1, s)
      | Some len \<Rightarrow> (0, upd c (\<lambda>h. h\<lparr>upload_total := ucast len\<rparr>) s))"

definition boundary_text :: "string \<Rightarrow> string option" where
  "boundary_text data =
     (case strstr data ''boundary='' of
        None \<Rightarrow> None
      | Some start \<Rightarrow>
          let start = drop 9 start
          in case strstr start crlf of
               None \<Rightarrow> None
             | Some stop \<Rightarrow> Some (take (length start - length stop) start))"

definition httpd_parse_boundary :: "string \<Rightarrow> httpd \<Rightarrow> int \<times> httpd" where
  "httpd_parse_boundary data s =
     (case boundary_text data of
        None \<Rightarrow> (-1, s)
      | Some b \<Rightarrow>
          let (ok, s) = malloc s
          in if ok then (0, s\<lparr>boundary_value := Some (''--'' @ b)\<rparr>)
             else (-1, s\<lparr>boundary_value := None\<rparr>))"

definition httpd_init_upload_ram :: "platform \<Rightarrow> httpd \<Rightarrow> int \<times> httpd" where
  "httpd_init_upload_ram pl s =
     (let s = s\<lparr>webfailsafe_data_pointer := upload_ram pl,
                upload := (upload s)\<lparr>ram_end := sdram_end pl\<rparr>\<rparr>
      in if webfailsafe_data_pointer s = 0 then (-1, s)
         else
           let memset_len = ucast (uboot_size pl) :: u32;
               memset_len = (if ram_end (upload s) < webfailsafe_data_pointer s + memset_len
                  then ram_end (upload s) - webfailsafe_data_pointer s else memset_len)
           in (0, s\<lparr>ram := ram_write (ram s) (webfailsafe_data_pointer s)
                      (replicate (unat memset_len) (CHR 0xFF))\<rparr>))"

section \<open>The first chunk\<close>

definition upload_types :: "(string \<times> upgrade_type) list" where
  "upload_types = [(''name=\"firmware\"'', FIRMWARE), (''name=\"uboot\"'', UBOOT), (''name=\"art\"'', ART),
     (''name=\"img\"'', IMG), (''name=\"cdt\"'', CDT), (''name=\"mibib\"'', MIBIB),
     (''name=\"ptable\"'', PTABLE), (''name=\"initramfs\"'', INITRAMFS)]"

fun find_type :: "(string \<times> upgrade_type) list \<Rightarrow> string \<Rightarrow> (string \<times> upgrade_type) option" where
  "find_type [] start = None"
| "find_type ((name, t) # ts) start =
     (if strstr start name \<noteq> None then Some (name, t) else find_type ts start)"

definition img_flash :: "string \<Rightarrow> nat" where
  "img_flash start =
     (if strstr start ''img_nand_raw'' \<noteq> None then 4
      else if strstr start ''img_nand'' \<noteq> None then 2
      else if strstr start ''img_emmc'' \<noteq> None then 3
      else if strstr start ''img_nor'' \<noteq> None then 1 else 0)"

definition auto_reboot :: "string \<Rightarrow> bool" where
  "auto_reboot start =
     (case strstr start ''auto_reboot'' of
        None \<Rightarrow> True
      | Some ar_key \<Rightarrow>
          (case strstr ar_key crlf2 of
             None \<Rightarrow> True
           | Some ar_body \<Rightarrow>
               if length ar_key - length ar_body < 100 then at ar_body 4 \<noteq> CHR ''0'' else True))"

definition set_upgrade_type :: "upgrade_type \<Rightarrow> string \<Rightarrow> httpd \<Rightarrow> httpd" where
  "set_upgrade_type t start s =
     s\<lparr>webfailsafe_upgrade_type := t,
       webfailsafe_img_flash := (if t = IMG then img_flash start else webfailsafe_img_flash s),
       webfailsafe_backup_avail_enabled := (strstr start ''flash_backup'' \<noteq> None),
       webfailsafe_auto_reboot_enabled := auto_reboot start\<rparr>"

definition fail_upload :: "bool \<Rightarrow> httpd \<Rightarrow> httpd" where
  "fail_upload big s =
     s\<lparr>upload := (upload s)\<lparr>failed := True, file_too_big := (big \<or> file_too_big (upload s))\<rparr>\<rparr>"

text \<open>Copying bytes to the upload pointer, unless they would pass the end of RAM.\<close>

definition store_chunk :: "string \<Rightarrow> httpd \<Rightarrow> bool \<times> httpd" where
  "store_chunk bytes s =
     (if ram_end (upload s) < webfailsafe_data_pointer s + of_nat (length bytes)
      then (False, fail_upload True s)
      else (True, s\<lparr>ram := ram_write (ram s) (webfailsafe_data_pointer s) bytes,
                    webfailsafe_data_pointer := webfailsafe_data_pointer s + of_nat (length bytes)\<rparr>))"

text \<open>
  The second half of the first chunk: \<open>e\<close> is the first byte of image data, \<open>start\<close> the first
  boundary in the packet.
\<close>

definition store_first :: "platform \<Rightarrow> nat \<Rightarrow> upgrade_type \<Rightarrow> nat \<Rightarrow> string \<Rightarrow> nat \<Rightarrow> httpd \<Rightarrow> bool \<times> httpd" where
  "store_first pl c t overhead e received s =
     (if unat (upload_total (conn_of c s)) < overhead then (False, fail_upload False s)
      else
        let s = upd c (\<lambda>h. h\<lparr>upload_total := upload_total h - of_nat overhead\<rparr>) s;
            s = (case max_size pl t of
                   Some m \<Rightarrow> if m < ucast (upload_total (conn_of c s)) then fail_upload True s else s
                 | None \<Rightarrow> s);
            s = upd c (\<lambda>h. h\<lparr>hs_upload := of_nat received\<rparr>) s
        in if file_too_big (upload s) then (True, s)
           else
             let first_data = min (hs_upload (conn_of c s)) (upload_total (conn_of c s));
                 (stored, s) = store_chunk (take (unat first_data) e) s
             in if \<not> stored then (True, s)
                else
                  let (now, s) = get_timer 0 s
                  in (True, httpd_upload_progress pl c (s\<lparr>upload := (upload s)\<lparr>start_time := now\<rparr>\<rparr>)))"

definition httpd_findandstore_firstchunk :: "platform \<Rightarrow> nat \<Rightarrow> string \<Rightarrow> nat \<Rightarrow> httpd \<Rightarrow> bool \<times> httpd" where
  "httpd_findandstore_firstchunk pl c data data_len s =
     (case boundary_value s of
        None \<Rightarrow> (False, s)
      | Some bv \<Rightarrow>
     (case strstr data bv of
        None \<Rightarrow> (False, s)
      | Some start \<Rightarrow>
     (case find_type upload_types start of
        None \<Rightarrow> (False, s)
      | Some (name, t) \<Rightarrow>
          let s = set_upgrade_type t start s in
     (case strstr (the (strstr start name)) crlf2 of
        None \<Rightarrow> (False, s)
      | Some e \<Rightarrow>
          if data_len \<le> length data - length e then (False, s)
          else
            let e = drop 4 e
            in store_first pl c t (length start - length e + strlen bv + 6) e
                 (data_len - (length data - length e)) s))))"

definition httpd_check_upload_size :: "nat \<Rightarrow> httpd \<Rightarrow> bool" where
  "httpd_check_upload_size c s =
     (let total = upload_total (conn_of c s); t = webfailsafe_upgrade_type s
      in \<not> (total < 10240 \<and> t \<noteq> CDT) \<and> \<not> (t = CDT \<and> total < 184))"

section \<open>Following chunks and completion\<close>

definition httpd_handle_upload_data :: "platform \<Rightarrow> nat \<Rightarrow> string \<Rightarrow> nat \<Rightarrow> httpd \<Rightarrow> httpd" where
  "httpd_handle_upload_data pl c data data_len s =
     (let total = upload_total (conn_of c s);
          data_written = webfailsafe_data_pointer s - upload_ram pl
      in if total < data_written then fail_upload False s
         else if data_written = total then httpd_upload_progress pl c s
         else
           let bytes_to_write = (if unat total < unat data_written + data_len
                 then unat (total - data_written) else data_len);
               s = (if 0 < bytes_to_write then snd (store_chunk (take bytes_to_write data) s) else s)
           in httpd_upload_progress pl c s)"

definition httpd_upload_complete :: "nat \<Rightarrow> httpd \<Rightarrow> httpd" where
  "httpd_upload_complete c s =
     (let s = led (Led_On ''blink_led'') s;
          s = s\<lparr>upload := (upload s)\<lparr>upload_done := True\<rparr>\<rparr>;
          s = (if \<not> failed (upload s) then s\<lparr>upload_pending := True, upload_hs := Some c\<rparr> else s)
      in s\<lparr>upgrade_status := 1, net_boot_file_size := upload_total (conn_of c s)\<rparr>)"

definition resp_ok :: string where
  "resp_ok = ''HTTP/1.0 200 OK'' @ crlf @ ''Connection: close'' @ crlf2"

definition resp_err :: string where
  "resp_err = ''HTTP/1.0 500 Internal Server Error'' @ crlf @ ''Connection: close'' @ crlf2"

definition httpd_check_upload_complete :: "nat \<Rightarrow> httpd \<Rightarrow> bool \<times> httpd" where
  "httpd_check_upload_complete c s =
     (let h = conn_of c s; bv = (case boundary_value s of Some b \<Rightarrow> b | None \<Rightarrow> [])
      in if unat (upload_total h) + strlen bv + 6 \<le> unat (hs_upload h) then
           let s = httpd_upload_complete c s;
               s = httpd_state_reset c s;
               resp = (if \<not> failed (upload s) then resp_ok else resp_err)
           in (True, httpd_send_static c (Const resp) (of_nat (length resp)) s)
         else (False, s))"

section \<open>Packets of an upload\<close>

text \<open>
  The two cases of \<^verbatim>\<open>httpd_recv\<close> that serve an upload: the POST request and the packets that
  follow it. \<open>False\<close> asks the caller to abort the connection. The terminator stored at
  \<^verbatim>\<open>data[data_len]\<close> is already there: the buffer was cleared and is longer than the packet.
\<close>

definition busy_resp :: string where
  "busy_resp = ''HTTP/1.0 503 Service Unavailable'' @ crlf @ ''Connection: close'' @ crlf2 @ ''Busy''"

definition set_data_start_found :: "bool \<Rightarrow> httpd \<Rightarrow> httpd" where
  "set_data_start_found b s = s\<lparr>upload := (upload s)\<lparr>data_start_found := b\<rparr>\<rparr>"

definition recv_post_upload :: "platform \<Rightarrow> nat \<Rightarrow> string \<Rightarrow> nat \<Rightarrow> httpd \<Rightarrow> bool \<times> httpd" where
  "recv_post_upload pl c data data_len s =
     (if upload_pending s \<or> (hs_global s \<noteq> None \<and> hs_global s \<noteq> Some c)
      then (True, send_const c busy_resp s)
      else
        let s = httpd_reset_upload_state s;
            (r, s) = httpd_parse_content_length c data s
        in if r < 0 then (False, s)
           else
             let s = upd c (\<lambda>h. h\<lparr>http_state := STATE_UPLOAD_REQUEST, owns_global := True\<rparr>) s;
                 s = s\<lparr>hs_global := Some c\<rparr>;
                 s = led (Led_Off ''blink_led'') s;
                 (r, s) = httpd_parse_boundary data s
             in if r < 0 then (False, s)
                else
                  let (r, s) = httpd_init_upload_ram pl s
                  in if r < 0 then (False, s)
                     else
                       let (found, s) = httpd_findandstore_firstchunk pl c data data_len s
                       in if found then
                            let s = set_data_start_found True s
                            in if \<not> httpd_check_upload_size c s then (False, s)
                               else (True, snd (httpd_check_upload_complete c s))
                          else (True, set_data_start_found False s))"

definition recv_upload :: "platform \<Rightarrow> nat \<Rightarrow> string \<Rightarrow> nat \<Rightarrow> httpd \<Rightarrow> bool \<times> httpd" where
  "recv_upload pl c data data_len s =
     (if \<not> data_start_found (upload s) then
        let (found, s) = httpd_findandstore_firstchunk pl c data data_len s
        in if \<not> found then (False, s)
           else
             let s = set_data_start_found True s
             in if \<not> httpd_check_upload_size c s then (False, s)
                else (True, snd (httpd_check_upload_complete c s))
      else
        let s = upd c (\<lambda>h. h\<lparr>hs_upload := hs_upload h + of_nat data_len\<rparr>) s;
            s = (if \<not> failed (upload s) then httpd_handle_upload_data pl c data data_len s else s)
        in (True, snd (httpd_check_upload_complete c s)))"

end
