(* ===== verification/HttpdHandlers.thy ===== *)
theory HttpdHandlers
  imports HttpdState
begin

text \<open>
  The small request handlers of \<^verbatim>\<open>failsafe/failsafe_httpd.c\<close> (status, LEDs, buttons,
  environment, MAC addresses, files) and the file table of \<^verbatim>\<open>failsafe/fs.c\<close>. Every handler
  formats a response into its static buffer and starts sending it.
\<close>

section \<open>Files\<close>

fun fs_strcmp :: "string \<Rightarrow> string \<Rightarrow> nat" where
  "fs_strcmp str1 [] = 0"
| "fs_strcmp str1 (c # str2) =
     (if c = NUL \<or> deref str1 = CR \<or> deref str1 = LF then 0
      else if deref str1 \<noteq> c then 1
      else fs_strcmp (tl str1) str2)"

fun fs_open :: "(string \<times> string) list \<Rightarrow> string \<Rightarrow> string option" where
  "fs_open [] name = None"
| "fs_open ((fname, fdata) # fs) name = (if fs_strcmp name fname = 0 then Some fdata else fs_open fs name)"

definition is_http_whitespace :: "char \<Rightarrow> bool" where
  "is_http_whitespace c = (c = CHR '' '' \<or> c = CR \<or> c = LF \<or> c = CHR 0x09)"

definition is_http_method_separator :: "char \<Rightarrow> bool" where
  "is_http_method_separator c = (c = CHR '' '' \<or> c = CHR 0x09)"

text \<open>The position of the first white space among bytes 4 to 29 of the packet.\<close>

fun find_space :: "string \<Rightarrow> nat \<Rightarrow> nat \<Rightarrow> nat \<Rightarrow> nat option" where
  "find_space data data_len i 0 = None"
| "find_space data data_len i (Suc k) =
     (if data_len \<le> i then None
      else if is_http_whitespace (at data i) then Some i
      else find_space data data_len (Suc i) k)"

definition redirects :: "(string \<times> string) list" where
  "redirects = [(''/firmware.html'', ''firmware''), (''/uboot.html'', ''uboot''), (''/art.html'', ''art''),
     (''/cdt.html'', ''cdt''), (''/ptable.html'', ''ptable''), (''/initramfs.html'', ''initramfs''),
     (''/mibib.html'', ''ptable''), (''/gpt.html'', ''ptable'')]"

definition redirect_text :: "string \<Rightarrow> string" where
  "redirect_text hash = ''HTTP/1.0 302 Found'' @ crlf @ ''Location: /update.html#'' @ hash @ crlf2"

definition cgi_redirect :: string where
  "cgi_redirect = ''HTTP/1.0 302 Found'' @ crlf @ ''Location: /index.html'' @ crlf2"

definition send_file :: "nat \<Rightarrow> string option \<Rightarrow> httpd \<Rightarrow> httpd" where
  "send_file c f s = (case f of Some d \<Rightarrow> send_const c d s | None \<Rightarrow> send_const c [] s)"

definition httpd_handle_file_request :: "platform \<Rightarrow> nat \<Rightarrow> string \<Rightarrow> nat \<Rightarrow> httpd \<Rightarrow> int \<times> httpd" where
  "httpd_handle_file_request pl c data data_len s =
     (if data_len < 6 then (-1, s)
      else if 13 \<le> data_len \<and> memcmp (drop 4 data) ''/cgi-bin/'' 9 = 0
      then (0, httpd_send_static c (Const cgi_redirect) 44 s)
      else case find_space data data_len 4 26 of
             None \<Rightarrow> (-1, s)
           | Some i \<Rightarrow>
               let data = data[i := NUL];
                   data = (case strstr (drop 4 data) ''?'' of
                             Some q \<Rightarrow> data[length data - length q := NUL] | None \<Rightarrow> data);
                   url = drop 4 data
               in if at data 4 = CHR ''/'' \<and> at data 5 = NUL
                  then (0, send_file c (fs_open (fs_files pl) (index_file pl)) s)
                  else case find (\<lambda>(u, h). strcmp url u = 0) redirects of
                         Some (u, hash) \<Rightarrow> (0, send_buffer c Redirect_Buf (redirect_text hash) s)
                       | None \<Rightarrow>
                           (case fs_open (fs_files pl) url of
                              Some d \<Rightarrow> (0, send_const c d s)
                            | None \<Rightarrow> (0, send_file c (fs_open (fs_files pl) (not_found_file pl)) s)))"

section \<open>Status, LEDs and buttons\<close>

definition text_resp :: "string \<Rightarrow> string \<Rightarrow> string" where
  "text_resp status body = ''HTTP/1.0 '' @ status @ crlf @ ''Cache-Control: no-cache'' @ crlf
     @ ''Content-Type: text/plain'' @ crlf @ ''Connection: close'' @ crlf2 @ body"

definition json_resp :: "string \<Rightarrow> string" where
  "json_resp body = ''HTTP/1.0 200 OK'' @ crlf @ ''Cache-Control: no-cache'' @ crlf
     @ ''Content-Type: application/json'' @ crlf @ ''Content-Length: '' @ fmt_dec (length body) @ crlf
     @ ''Connection: close'' @ crlf2 @ body"

definition status_text :: "string list" where
  "status_text = [''idle'', ''verifying'', ''flashing'', ''type_mismatch'', ''rebooting'', ''upgrade_done'']"

definition httpd_handle_upgrade_status :: "nat \<Rightarrow> httpd \<Rightarrow> httpd" where
  "httpd_handle_upgrade_status c s =
     send_buffer c Status_Resp (text_resp ''200 OK'' (status_text ! upgrade_status s)) s"

text \<open>\<open>p < q\<close> for two pointers into one text.\<close>

definition before :: "string option \<Rightarrow> string option \<Rightarrow> bool" where
  "before p q = (case (p, q) of (Some p, Some q) \<Rightarrow> length q < length p | _ \<Rightarrow> False)"

text \<open>The name and the position after it; \<open>None\<close> when the name is too long.\<close>

definition led_name :: "string \<Rightarrow> (string \<times> string) option" where
  "led_name p =
     (if strncmp p ''name='' 5 = 0 then
        let start = drop 5 p;
            amp = strchr start (CHR ''&'');
            sp = strchr start (CHR '' '');
            (nlen, p) = (if amp \<noteq> None \<and> (sp = None \<or> before amp sp)
               then (length start - length (the amp), drop 1 (the amp))
               else case sp of
                      Some q \<Rightarrow> (length start - length q, q)
                    | None \<Rightarrow> (strlen start, drop (strlen start) start))
        in if 64 \<le> nlen then None else Some (take nlen start, p)
      else Some ([], p))"

definition led_action :: "string \<Rightarrow> string" where
  "led_action p =
     (if strncmp p ''action='' 7 = 0 then
        let p = drop 7 p;
            sp = strchr p (CHR '' '');
            amp = strchr p (CHR ''&'');
            e = (if amp \<noteq> None \<and> (sp = None \<or> before amp sp) then amp else sp);
            alen = (case e of
                Some q \<Rightarrow> length p - length q
              | None \<Rightarrow> length (takeWhile (\<lambda>ch. ch \<noteq> NUL \<and> ch \<noteq> CHR '' '' \<and> ch \<noteq> CR \<and> ch \<noteq> LF) p));
            alen = (if 15 < alen then 15 else alen)
        in take alen p
      else [])"

definition httpd_handle_led :: "nat \<Rightarrow> string \<Rightarrow> httpd \<Rightarrow> httpd" where
  "httpd_handle_led c data s =
     (case (case strchr (drop 4 data) (CHR ''?'') of
              None \<Rightarrow> Some ([], [])
            | Some q \<Rightarrow> map_option (\<lambda>(name, p). (name, led_action p)) (led_name (drop 1 q))) of
        None \<Rightarrow> send_buffer c Led_Resp (text_resp ''400 Bad Request'' ''bad request'') s
      | Some (name, action) \<Rightarrow>
          let s = (if name \<noteq> [] \<and> action \<noteq> [] then
                     if strcmp action ''on'' = 0 then led (Led_On name) s
                     else if strcmp action ''off'' = 0 then led (Led_Off name) s
                     else if strcmp action ''toggle'' = 0 then led (Led_Toggle name) s
                     else s
                   else s)
          in send_buffer c Led_Resp (text_resp ''200 OK'' ''ok'') s)"

fun btn_loop :: "platform \<Rightarrow> nat \<Rightarrow> nat \<Rightarrow> bool \<Rightarrow> string \<Rightarrow> string" where
  "btn_loop pl i 0 first out = out"
| "btn_loop pl i (Suc k) first out =
     (if 4096 - 256 < length out + 32 then out
      else if gpio_skip pl i then btn_loop pl (Suc i) k first out
      else if gpio_config pl i AND 0x1C \<noteq> 0 \<or> gpio_config pl i AND push_bit 9 1 \<noteq> 0
      then btn_loop pl (Suc i) k first out
      else btn_loop pl (Suc i) k False
             (out @ (if first then [] else '', '') @ ''{\"gpio\":'' @ fmt_dec i @ '',\"value\":''
              @ fmt_dec (gpio_value pl i) @ ''}''))"

definition httpd_handle_btn_detect :: "platform \<Rightarrow> nat \<Rightarrow> httpd \<Rightarrow> httpd" where
  "httpd_handle_btn_detect pl c s =
     send_buffer c Btn_Resp (json_resp (btn_loop pl 0 (gpio_max pl) True ''['' @ '']'')) s"

section \<open>Environment and MAC addresses\<close>

fun reset_key_loop :: "nat \<Rightarrow> nat \<Rightarrow> string \<Rightarrow> bool" where
  "reset_key_loop gmax gpio [] = True"
| "reset_key_loop gmax gpio (ch # cs) =
     (if ch = NUL then True
      else if \<not> isdigit ch \<or> (gmax - 1) div 10 < gpio then False
      else let gpio = gpio * 10 + (of_char ch - 48)
           in if gmax \<le> gpio then False else reset_key_loop gmax gpio cs)"

definition config_name_valid :: "string \<Rightarrow> bool" where
  "config_name_valid v =
     (\<forall>ch \<in> set (cstr v). \<not> (ch = CHR 0x22 \<or> ch = CHR 0x5C \<or> (of_char ch :: nat) < 0x20))"

definition setenv :: "string \<Rightarrow> string option \<Rightarrow> httpd \<Rightarrow> httpd" where
  "setenv name v s = s\<lparr>env := (env s)(name := v)\<rparr>"

definition saveenv :: "httpd \<Rightarrow> httpd" where
  "saveenv s = s\<lparr>saved_env := env s\<rparr>"

text \<open>The decoded name and value of the first field; \<open>None\<close> is a bad request.\<close>

definition env_field :: "string \<Rightarrow> (string \<times> string) option" where
  "env_field data =
     (case strstr data crlf2 of
        None \<Rightarrow> None
      | Some b \<Rightarrow>
          let body = drop 4 b;
              amp = strchr body (CHR ''&'')
          in case strchr body (CHR ''='') of
               None \<Rightarrow> None
             | Some eq \<Rightarrow>
                 if amp = None \<or> before (Some eq) amp then
                   let nlen = length body - length eq;
                       v = drop 1 eq;
                       vlen = (case amp of Some a \<Rightarrow> length v - length a | None \<Rightarrow> strlen v)
                   in if 64 \<le> nlen \<or> 128 \<le> vlen then None
                      else Some (cstr (url_decode (take nlen body)), cstr (url_decode (take vlen v)))
                 else None)"

definition httpd_handle_env_set :: "platform \<Rightarrow> nat \<Rightarrow> string \<Rightarrow> httpd \<Rightarrow> httpd" where
  "httpd_handle_env_set pl c data s =
     (let bad = send_buffer c Env_Resp (text_resp ''400 Bad Request'' ''bad request'');
          ok = send_buffer c Env_Resp (text_resp ''200 OK'' ''ok'');
          err = send_buffer c Env_Resp (text_resp ''200 OK'' ''error'')
      in case env_field data of
           None \<Rightarrow> bad s
         | Some (name, v) \<Rightarrow>
             if strcmp name ''reset_key'' = 0 then
               if v = [] then ok ((saveenv (setenv name None s))\<lparr>reset_gpio_cached := False\<rparr>)
               else if reset_key_loop (gpio_max pl) 0 v
               then ok ((saveenv (setenv name (Some v) s))\<lparr>reset_gpio_cached := False\<rparr>)
               else bad s
             else if strcmp name ''config_name'' = 0 then
               if config_name_valid v
               then ok (saveenv (setenv name (if v = [] then None else Some v) s))
               else bad s
             else err s)"

text \<open>Interface kind (wireless or not) and index.\<close>

definition mac_iface :: "string \<Rightarrow> (bool \<times> int) option" where
  "mac_iface iface =
     (if strncmp iface ''eth'' 3 = 0 then
        let (idx, e) = simple_strtoul (drop 3 iface) 10
        in if deref e = NUL then Some (False, sint idx) else None
      else if strncmp iface ''wifi'' 4 = 0 then
        let (idx, e) = simple_strtoul (drop 4 iface) 10
        in if deref e = NUL then Some (True, sint idx) else None
      else None)"

definition httpd_handle_mac_set :: "platform \<Rightarrow> nat \<Rightarrow> string \<Rightarrow> httpd \<Rightarrow> httpd" where
  "httpd_handle_mac_set pl c data s =
     (let reply = (\<lambda>ok s. send_buffer c Mac_Resp (text_resp ''200 OK'' (if ok then ''ok'' else ''error'')) s);
          crash = s\<lparr>null_deref := True\<rparr>
      in case strstr data crlf2 of
           None \<Rightarrow> reply False s
         | Some b \<Rightarrow>
             let body = drop 4 b
             in case httpd_form_value body ''iface'' 16 of
                  NullDeref \<Rightarrow> crash
                | Missing \<Rightarrow> reply False s
                | Found iface \<Rightarrow>
                    (case httpd_form_value body ''mac'' 32 of
                       NullDeref \<Rightarrow> crash
                     | Missing \<Rightarrow> reply False s
                     | Found mac_str \<Rightarrow>
                         (case mac_iface iface of
                            None \<Rightarrow> reply False s
                          | Some (wifi, index) \<Rightarrow>
                              let mac = eth_parse_enetaddr mac_str
                              in if mac_string_valid mac_str \<and> is_valid_ethaddr mac
                                 then reply (0 \<le> macaddr_modify pl wifi mac index)
                                        (s\<lparr>mac_writes := mac_writes s @ [(wifi, mac, index)]\<rparr>)
                                 else reply False s)))"

end
