(* ===== verification/Backup.thy ===== *)
theory Backup
  imports HttpdState
begin

text \<open>
  Downloading flash contents, the backup half of \<^verbatim>\<open>failsafe/failsafe_httpd.c\<close>: the request,
  the chunks read between acknowledgements, and \<^verbatim>\<open>httpd_sent\<close>, which drives both. Large
  backups are sent in chunks of the RAM behind the upload address.
\<close>

section \<open>The request\<close>

definition resp_msg :: "string \<Rightarrow> string \<Rightarrow> string" where
  "resp_msg status body = ''HTTP/1.0 '' @ status @ crlf @ ''Connection: close'' @ crlf2 @ body"

text \<open>The partition name: 63 bytes of the query, cut at white space, decoded, cut at an ampersand.\<close>

definition backup_part :: "string \<Rightarrow> string" where
  "backup_part query =
     (let p = strncpy (drop 6 query) 63;
          p = url_decode (str_trim_crlf p)
      in cstr (str_cut p (CHR ''&'')))"

function flash_field :: "string \<Rightarrow> string \<Rightarrow> string option" where
  "flash_field query p =
     (case strstr p ''flash='' of
        None \<Rightarrow> None
      | Some q \<Rightarrow>
          let prev = query ! (length query - length q - 1)
          in if length q = length query \<or> prev = CHR ''?'' \<or> prev = CHR ''&'' then Some q
             else flash_field query (drop 1 q))"
  by pat_completeness auto
termination
proof (relation "measure (\<lambda>(query, p). length p)")
  fix query p q :: string and prev
  assume "strstr p ''flash='' = Some q"
  then have "suffix q p" "q \<noteq> []"
    using find_sub_suffix [of p "''flash=''" q] by (auto simp: strstr_find_sub)
  then show "((query, drop 1 q), query, p) \<in> measure (\<lambda>(query, p). length p)"
    by (cases q) (auto dest: suffix_length_le)
qed simp

declare flash_field.simps [simp del]

text \<open>The flash type of the request: -1 when none is given, \<open>None\<close> for an unknown one.\<close>

definition backup_flash_type :: "string \<Rightarrow> int option" where
  "backup_flash_type query =
     (case flash_field query query of
        None \<Rightarrow> Some (-1)
      | Some f \<Rightarrow>
          let v = takeWhile (\<lambda>c. c \<noteq> NUL \<and> c \<noteq> CHR ''&'' \<and> c \<noteq> CR \<and> c \<noteq> LF \<and> c \<noteq> CHR '' '') (drop 6 f)
          in if v = ''emmc'' then Some SMEM_BOOT_MMC_FLASH
             else if v = ''nand'' then Some SMEM_BOOT_NAND_FLASH
             else if v = ''nor'' then Some SMEM_BOOT_SPI_FLASH
             else None)"

definition backup_size :: "string \<Rightarrow> u64" where
  "backup_size query = (case strstr query ''size='' of
      Some p \<Rightarrow> fst (simple_strtoull (drop 5 p) 10) | None \<Rightarrow> 0)"

definition backup_header :: "string \<Rightarrow> bool \<Rightarrow> u64 \<Rightarrow> string" where
  "backup_header part rw tot =
     ''HTTP/1.0 200 OK'' @ crlf @ ''Content-Type: application/octet-stream'' @ crlf
     @ ''Content-Disposition: attachment; filename=\"'' @ part @ (if rw then ''_oob'' else []) @ ''.bin\"'' @ crlf
     @ ''Content-Length: '' @ fmt_dec (unat tot) @ crlf @ ''Connection: close'' @ crlf2"

definition ram_avail :: "platform \<Rightarrow> u32" where
  "ram_avail pl = sdram_end pl - upload_ram pl"

text \<open>
  \<^verbatim>\<open>flashread_partition_chunk\<close> to the upload address: the number of bytes read (\<open>None\<close> on
  failure), the detail text and the new state.
\<close>

definition read_chunk :: "platform \<Rightarrow> string \<Rightarrow> u64 \<Rightarrow> u32 \<Rightarrow> bool \<Rightarrow> int \<Rightarrow> httpd
    \<Rightarrow> nat option \<times> string \<times> httpd" where
  "read_chunk pl part off len rw ft s =
     (case flashread pl part off len rw ft of
        (None, detail) \<Rightarrow> (None, detail, s)
      | (Some bytes, detail) \<Rightarrow>
          (Some (length bytes), detail, s\<lparr>ram := ram_write (ram s) (upload_ram pl) bytes\<rparr>))"

text \<open>The chunk accounting of a backup whose first read gave \<open>n\<close> bytes, and the length announced.\<close>

definition backup_plan :: "platform \<Rightarrow> u64 \<Rightarrow> u64 \<Rightarrow> backup_t \<Rightarrow> u64 \<times> backup_t" where
  "backup_plan pl tot n b =
     (let avail = ucast (ram_avail pl) :: u64;
          b = b\<lparr>data_addr := upload_ram pl, data_size := ucast n\<rparr>
      in if avail < tot then
           (tot, b\<lparr>chunked := True, total_chunks := unat ((tot + avail - 1) div avail),
                     chunk_num := 2, chunk_offset := n, total_sent := n, total_remaining := tot - n\<rparr>)
         else (n, b\<lparr>total_size := n, chunked := False, total_remaining := 0, total_sent := 0,
                    chunk_offset := 0\<rparr>))"

definition send_backup_header :: "nat \<Rightarrow> backup_t \<Rightarrow> string \<Rightarrow> httpd \<Rightarrow> httpd" where
  "send_backup_header c b hdr s =
     (let s = s\<lparr>backup := b, bufs := (bufs s)(Part_Json_Buf := hdr)\<rparr>;
          s = upd c (\<lambda>h. h\<lparr>http_state := STATE_FILE_REQUEST, owns_global := True,
                             dataptr := Buf Part_Json_Buf 0, hs_upload := of_nat (length hdr)\<rparr>) s;
          s = httpd_send_data c (s\<lparr>hs_global := Some c\<rparr>)
      in s\<lparr>backup := (backup s)\<lparr>sending_header := True\<rparr>\<rparr>)"

definition start_backup :: "platform \<Rightarrow> nat \<Rightarrow> string \<Rightarrow> bool \<Rightarrow> int \<Rightarrow> u64 \<Rightarrow> httpd \<Rightarrow> httpd" where
  "start_backup pl c part rw ft tot s =
     (let s = s\<lparr>backup := (backup s)\<lparr>raw := rw, flash_type := ft, total_size := tot, part_name := part\<rparr>,
                flashread_yield_set := True\<rparr>;
          first_size = (if ucast (ram_avail pl) < tot then ram_avail pl else ucast tot);
          (rd, detail, s) = read_chunk pl part 0 first_size rw ft s
      in if rd = None \<or> rd = Some 0
         then send_buffer c Part_Json_Buf
                (resp_msg ''500 Internal Server Error''
                  (''Read failed'' @ (if detail \<noteq> [] then '': '' @ detail else []))) s
         else
           let n = min (of_nat (the rd)) tot;
               (tot, b) = backup_plan pl tot n (backup s)
           in send_backup_header c b (backup_header part rw tot) s)"

definition httpd_handle_backup :: "platform \<Rightarrow> nat \<Rightarrow> string \<Rightarrow> httpd \<Rightarrow> httpd" where
  "httpd_handle_backup pl c data s =
     (if upload_pending s \<or> (hs_global s \<noteq> None \<and> hs_global s \<noteq> Some c)
      then send_const c (resp_msg ''503 Service Unavailable'' ''Busy'') s
      else case strchr (drop 4 data) (CHR ''?'') of
        None \<Rightarrow> send_const c (resp_msg ''400 Bad Request'' ''Missing partition'') s
      | Some query \<Rightarrow>
          if strncmp (drop 1 query) ''part='' 5 \<noteq> 0
          then send_const c (resp_msg ''400 Bad Request'' ''Missing partition'') s
          else case backup_flash_type query of
            None \<Rightarrow> send_const c (resp_msg ''400 Bad Request'' ''Invalid flash type'') s
          | Some ft \<Rightarrow>
              let part = backup_part query;
                  rw = (strstr query ''raw=1'' \<noteq> None);
                  tot = backup_size query
              in if tot = 0 then send_const c (resp_msg ''400 Bad Request'' ''Missing size'') s
                 else
                   let cap = backup_flash_capacity (flash pl) part rw ft
                   in start_backup pl c part rw ft (if cap \<noteq> 0 \<and> cap < tot then cap else tot) s)"

section \<open>Chunks\<close>

text \<open>The accounting after \<open>n\<close> more bytes: a chunk that passes the announced length is cut.\<close>

definition chunk_account :: "platform \<Rightarrow> u32 \<Rightarrow> backup_t \<Rightarrow> backup_t" where
  "chunk_account pl n b =
     (let sent = total_sent b + ucast n;
          over = total_size b < sent;
          b = b\<lparr>data_addr := upload_ram pl,
                data_size := (if over then n - ucast (sent - total_size b) else n),
                chunk_offset := chunk_offset b + ucast n,
                total_sent := (if over then total_size b else sent)\<rparr>
      in b\<lparr>total_remaining := total_size b - total_sent b, chunk_num := chunk_num b + 1\<rparr>)"

definition send_chunk :: "httpd \<Rightarrow> httpd" where
  "send_chunk s =
     (case hs_global s of
        Some g \<Rightarrow>
          let s = upd g (\<lambda>h. h\<lparr>dataptr := Ram (data_addr (backup s)), hs_upload := data_size (backup s)\<rparr>) s;
              s = httpd_send_data g s
          in s\<lparr>backup := (backup s)\<lparr>chunk_busy := False\<rparr>\<rparr>
      | None \<Rightarrow> s\<lparr>backup := (backup s)\<lparr>chunked := False, total_remaining := 0, chunk_busy := False\<rparr>\<rparr>)"

text \<open>\<open>wait\<close> is what the network callbacks do during \<^verbatim>\<open>httpd_poll_wait\<close>.\<close>

definition backup_chunk_next :: "platform \<Rightarrow> (httpd \<Rightarrow> httpd) \<Rightarrow> httpd \<Rightarrow> httpd" where
  "backup_chunk_next pl wait s =
     (let b = backup s;
          chunk_size = (if ucast (ram_avail pl) < total_remaining b then ram_avail pl
                        else ucast (total_remaining b));
          (rd, detail, s) = read_chunk pl (part_name b) (chunk_offset b) chunk_size (raw b) (flash_type b) s
      in if rd \<noteq> None \<and> rd \<noteq> Some 0
         then send_chunk (wait (s\<lparr>backup := chunk_account pl (of_nat (the rd)) b\<rparr>))
         else
           let s = s\<lparr>backup := (backup s)\<lparr>chunk_busy := False, chunked := False, total_remaining := 0\<rparr>\<rparr>
           in case hs_global s of Some g \<Rightarrow> httpd_close_conn g s | None \<Rightarrow> s)"

text \<open>What \<^verbatim>\<open>httpd_sent\<close> and a half-close do when an upload has been answered.\<close>

definition arm_upgrade :: "nat \<Rightarrow> httpd \<Rightarrow> httpd" where
  "arm_upgrade c s =
     (if upload_done (upload s) \<and> (upload_hs s = None \<or> upload_hs s = Some c) then
        let s = (if \<not> failed (upload s) then s\<lparr>webfailsafe_ready_for_upgrade := True\<rparr> else s)
        in s\<lparr>upload := (upload s)\<lparr>upload_done := False, failed := False\<rparr>, upload_hs := None\<rparr>
      else s)"

definition httpd_sent :: "nat \<Rightarrow> httpd \<Rightarrow> httpd" where
  "httpd_sent c s =
     (if conns s c = None then s
      else
        let (now, s) = get_timer 0 s;
            s = upd c (\<lambda>h. h\<lparr>last_activity := now\<rparr>) s;
            owner = (owns_global (conn_of c s) \<and> hs_global s = Some c);
            s = (if owner \<and> sending_header (backup s) \<and> hs_upload (conn_of c s) = 0 then
                   upd c (\<lambda>h. h\<lparr>http_state := STATE_FILE_REQUEST, dataptr := Ram (data_addr (backup s)),
                                  hs_upload := data_size (backup s)\<rparr>)
                     (s\<lparr>backup := (backup s)\<lparr>sending_header := False\<rparr>\<rparr>)
                 else s)
        in if hs_upload (conn_of c s) = 0 then
             if owner \<and> chunked (backup s) \<and> 0 < total_remaining (backup s) \<and> \<not> chunk_busy (backup s)
             then s\<lparr>backup := (backup s)\<lparr>chunk_busy := True\<rparr>\<rparr>
             else if owner \<and> chunk_busy (backup s) then s
             else httpd_close_conn c (arm_upgrade c s)
           else httpd_send_data c s)"

end
