(* ===== verification/Server.thy ===== *)
theory Server
  imports Upload HttpdHandlers Backup
begin

text \<open>
  The callbacks of the recovery web server and its poll function, the rest of
  \<^verbatim>\<open>failsafe/failsafe_httpd.c\<close>. \<open>event\<close> is what the TCP stack reports; \<open>callback\<close>
  dispatches it to the function registered for it.
\<close>

section \<open>Requests\<close>

text \<open>Handlers that answer, and the request that must be aborted (\<open>False\<close>).\<close>

definition handle_webterm :: "platform \<Rightarrow> nat \<Rightarrow> string \<Rightarrow> nat \<Rightarrow> httpd \<Rightarrow> httpd" where
  "handle_webterm pl c data data_len s =
     (let (resp, w) = webterm_http_handler (term_command pl) (webfailsafe_is_running s) data data_len (webterm s);
          s = s\<lparr>webterm := w\<rparr>
      in case resp of Some txt \<Rightarrow> send_buffer c Webterm_Response_Buf txt s | None \<Rightarrow> s)"

definition recv_get :: "platform \<Rightarrow> nat \<Rightarrow> string \<Rightarrow> nat \<Rightarrow> httpd \<Rightarrow> bool \<times> httpd" where
  "recv_get pl c data data_len s =
     (let url = drop 4 data in
      if strncmp url ''/webterm'' 8 = 0 then (True, handle_webterm pl c data data_len s)
      else if strncmp url ''/upgrade_status'' 15 = 0 then (True, httpd_handle_upgrade_status c s)
      else if strncmp url ''/partitions'' 11 = 0 \<and> at data 15 = CHR '' ''
      then (True, send_buffer c Part_Json_Buf (partitions_text pl) s)
      else if strncmp url ''/backup?'' 8 = 0 then (True, httpd_handle_backup pl c data s)
      else if strncmp url ''/about'' 6 = 0 \<and> at data 10 = CHR '' ''
      then (True, send_buffer c About_Json_Buf (about_text pl s) s)
      else if strncmp url ''/mac_info'' 9 = 0 \<and> at data 13 = CHR '' ''
      then (True, send_buffer c Mac_Info_Buf (mac_info_text pl) s)
      else if strncmp url ''/led?'' 5 = 0 then (True, httpd_handle_led c data s)
      else if strncmp url ''/btn_detect'' 11 = 0 \<and> at data 15 = CHR '' ''
      then (True, httpd_handle_btn_detect pl c s)
      else let (r, s) = httpd_handle_file_request pl c data data_len s in (0 \<le> r, s))"

definition recv_post :: "platform \<Rightarrow> nat \<Rightarrow> string \<Rightarrow> nat \<Rightarrow> httpd \<Rightarrow> bool \<times> httpd" where
  "recv_post pl c data data_len s =
     (let url = drop 5 data in
      if strncmp url ''/webterm'' 8 = 0 then (True, handle_webterm pl c data data_len s)
      else if strncmp url ''/env_set'' 8 = 0 then (True, httpd_handle_env_set pl c data s)
      else if strncmp url ''/mac_set'' 8 = 0 then (True, httpd_handle_mac_set pl c data s)
      else recv_post_upload pl c data data_len s)"

definition recv_data :: "platform \<Rightarrow> nat \<Rightarrow> string \<Rightarrow> nat \<Rightarrow> httpd \<Rightarrow> bool \<times> httpd" where
  "recv_data pl c data data_len s =
     (case http_state (conn_of c s) of
        STATE_NONE \<Rightarrow>
          if strncmp data ''GET'' 3 = 0 \<and> is_http_method_separator (at data 3)
          then recv_get pl c data data_len s
          else if strncmp data ''POST'' 4 = 0 \<and> is_http_method_separator (at data 4)
          then recv_post pl c data data_len s
          else (False, s)
      | STATE_UPLOAD_REQUEST \<Rightarrow> recv_upload pl c data data_len s
      | STATE_FILE_REQUEST \<Rightarrow> (True, s))"

text \<open>The buffer a packet is copied to: at least 64 bytes, cleared.\<close>

definition packet_buffer :: "string \<Rightarrow> string" where
  "packet_buffer payload =
     payload @ replicate (max (length payload + 1) 64 - length payload) NUL"

section \<open>Callbacks\<close>

definition httpd_recv :: "platform \<Rightarrow> nat \<Rightarrow> string option \<Rightarrow> httpd \<Rightarrow> httpd" where
  "httpd_recv pl c p s =
     (if conns s c = None then s
      else case p of
        None \<Rightarrow> httpd_close_conn c (arm_upgrade c s)
      | Some payload \<Rightarrow>
          let (now, s) = get_timer 0 s;
              s = upd c (\<lambda>h. h\<lparr>last_activity := now\<rparr>) s;
              (ok, s) = malloc s
          in if \<not> ok then httpd_conn_abort c s
             else
               let (handled, s) = recv_data pl c (packet_buffer payload) (length payload) s
               in if handled then s else httpd_conn_abort c s)"

definition httpd_err :: "nat \<Rightarrow> httpd \<Rightarrow> httpd" where
  "httpd_err c s =
     (if conns s c = None then s
      else
        let s = (if hs_global s = Some c then s\<lparr>hs_global := None\<rparr> else s);
            s = (if upload_hs s = Some c then httpd_discard_pending_upload s else s)
        in free_conn c (httpd_state_reset c s))"

definition httpd_poll_cb :: "nat \<Rightarrow> httpd \<Rightarrow> httpd" where
  "httpd_poll_cb c s =
     (if conns s c = None then s
      else
        let (idle, s) = get_timer (last_activity (conn_of c s)) s
        in if 300000 \<le> idle then
             let s = (if upload_hs s = Some c then httpd_discard_pending_upload s else s);
                 s = (if hs_global s = Some c then s\<lparr>hs_global := None\<rparr> else s)
             in httpd_conn_abort c s
           else if 0 < hs_upload (conn_of c s) then httpd_send_data c s
           else s)"

text \<open>The stack hands out a connection that is not in use.\<close>

definition httpd_accept :: "nat \<Rightarrow> httpd \<Rightarrow> httpd" where
  "httpd_accept c s =
     (if conns s c \<noteq> None then s
      else
        let (ok, s) = malloc s
        in if \<not> ok then s
           else
             let (now, s) = get_timer 0 s
             in s\<lparr>conns := (conns s)(c \<mapsto> fresh_conn\<lparr>last_activity := now\<rparr>),
                  pcb_gone := (pcb_gone s)(c := None), tx := (tx s)(c := [])\<rparr>)"

datatype event = Accept nat | Recv nat "string option" | Sent nat | Err nat | Poll nat

fun callback :: "platform \<Rightarrow> event \<Rightarrow> httpd \<Rightarrow> httpd" where
  "callback pl (Accept c) s = httpd_accept c s"
| "callback pl (Recv c p) s = httpd_recv pl c p s"
| "callback pl (Sent c) s = httpd_sent c s"
| "callback pl (Err c) s = httpd_err c s"
| "callback pl (Poll c) s = httpd_poll_cb c s"

section \<open>Start, stop and poll\<close>

text \<open>\<open>tcp_ok\<close> says which of \<^verbatim>\<open>tcp_new\<close>, \<^verbatim>\<open>tcp_bind\<close> and \<^verbatim>\<open>tcp_listen\<close> succeed.\<close>

definition failsafe_httpd_init :: "bool \<times> bool \<times> bool \<Rightarrow> httpd \<Rightarrow> httpd" where
  "failsafe_httpd_init tcp_ok s =
     (case tcp_ok of (new, bind, listen) \<Rightarrow>
        if new \<and> bind then s\<lparr>listening := listen\<rparr> else s)"

definition abort_port_pcb :: "nat list \<Rightarrow> httpd \<Rightarrow> httpd" where
  "abort_port_pcb pcbs s = fold (\<lambda>c s. if conns s c = None then s else httpd_conn_abort c s) pcbs s"

text \<open>\<open>pcbs\<close> lists the connections of port 80 that the stack knows, in its own order.\<close>

definition failsafe_httpd_stop :: "nat list \<Rightarrow> httpd \<Rightarrow> httpd" where
  "failsafe_httpd_stop pcbs s =
     (let s = abort_port_pcb pcbs (s\<lparr>listening := False\<rparr>)
      in s\<lparr>hs_global := None, upload := empty_upload, backup := empty_backup, upload_pending := False,
           upload_hs := None, boundary_value := None, flashread_yield_set := False,
           httpd_progress_start_done := False\<rparr>)"

definition reset_webfailsafe_state :: "httpd \<Rightarrow> httpd" where
  "reset_webfailsafe_state s =
     s\<lparr>webfailsafe_is_running := False, webfailsafe_ready_for_upgrade := False,
       webfailsafe_upgrade_type := FIRMWARE, webfailsafe_backup_avail_enabled := False,
       webfailsafe_auto_reboot_enabled := True\<rparr>"

definition HttpdDone :: "httpd \<Rightarrow> httpd" where
  "HttpdDone s = led (Progress 4) (reset_webfailsafe_state s)"

definition round_128k :: "u32 \<Rightarrow> u32" where
  "round_128k n = (n div 131072 + (if n mod 131072 \<noteq> 0 then 1 else 0)) * 131072"

text \<open>
  The surroundings of one call of the poll function: what arrives during each of its waits and
  from \<^verbatim>\<open>eth_rx\<close>, the flashing code (its result and effect), what the interpreter does with a
  queued command, and whether the Ethernet device is active.
\<close>

record round =
  waits :: "nat \<Rightarrow> event list"
  upgrade :: "u32 \<Rightarrow> upgrade_type \<Rightarrow> httpd \<Rightarrow> int \<times> httpd"
  shell :: "string \<Rightarrow> httpd \<Rightarrow> httpd"
  eth_active :: bool

definition httpd_poll_wait :: "platform \<Rightarrow> event list \<Rightarrow> httpd \<Rightarrow> httpd" where
  "httpd_poll_wait pl evs s = fold (callback pl) evs s"

text \<open>The first half of the upgrade branch of the poll function, up to the call of \<^verbatim>\<open>do_http_upgrade\<close>.\<close>

definition prepare_upgrade :: "platform \<Rightarrow> round \<Rightarrow> httpd \<Rightarrow> httpd" where
  "prepare_upgrade pl r s =
     (let s = s\<lparr>webfailsafe_ready_for_upgrade := False, upgrade_status := 1\<rparr>;
          s = setenv ''filesize'' (Some (fmt_hex (unat (net_boot_file_size s)))) s;
          s = setenv ''filesize_128k'' (Some (fmt_hex (unat (round_128k (net_boot_file_size s))))) s;
          s = setenv ''fileaddr'' (Some (fmt_hex (unat (upload_ram pl)))) s;
          s = led (Progress 2) s;
          s = httpd_poll_wait pl (waits r 0) s;
          s = s\<lparr>upgrade_status := 2\<rparr>
      in httpd_poll_wait pl (waits r 1) s)"

definition poll_upgrade :: "platform \<Rightarrow> round \<Rightarrow> httpd \<Rightarrow> httpd" where
  "poll_upgrade pl r s =
     (let s = prepare_upgrade pl r s;
          (ret, s) = upgrade r (net_boot_file_size s) (webfailsafe_upgrade_type s) s;
          s = s\<lparr>upload_pending := False\<rparr>
      in if ret \<noteq> 0 then
           httpd_poll_wait pl (waits r 2) ((led (Progress 5) s)\<lparr>upgrade_status := 3\<rparr>)
         else
           let s = s\<lparr>upgrade_status := (if webfailsafe_auto_reboot_enabled s then 4 else 5)\<rparr>;
               s = httpd_poll_wait pl (waits r 2) s
           in if webfailsafe_auto_reboot_enabled s then (HttpdDone s)\<lparr>rebooted := True\<rparr> else s)"

definition webterm_run_pending_command :: "(string \<Rightarrow> httpd \<Rightarrow> httpd) \<Rightarrow> httpd \<Rightarrow> bool \<times> httpd" where
  "webterm_run_pending_command run_command s =
     (if \<not> wt_has_pending_cmd (webterm s) then (False, s)
      else
        let s = s\<lparr>webterm := (webterm s)\<lparr>wt_has_pending_cmd := False, wt_abort_requested := False\<rparr>\<rparr>;
            s = run_command (wt_pending_cmd (webterm s)) s
        in (True, if 0 < wt_line_pos (webterm s) then s\<lparr>webterm := webterm_flush_line (webterm s)\<rparr> else s))"

definition failsafe_httpd_poll :: "platform \<Rightarrow> round \<Rightarrow> httpd \<Rightarrow> httpd" where
  "failsafe_httpd_poll pl r s =
     (if \<not> webfailsafe_is_running s then s
      else if webfailsafe_ready_for_upgrade s then poll_upgrade pl r s
      else
        let (ran, s) = webterm_run_pending_command (shell r) s
        in if ran \<and> \<not> webfailsafe_is_running s then s
           else
             let s = (if \<not> httpd_progress_start_done s \<and> eth_active r
                      then (led (Progress 0) s)\<lparr>httpd_progress_start_done := True\<rparr> else s);
                 s = (if chunked (backup s) \<and> chunk_busy (backup s) \<and> 0 < total_remaining (backup s)
                      then backup_chunk_next pl (httpd_poll_wait pl (waits r 3)) s else s)
             in fold (callback pl) (waits r 4) s)"

end
