(* ===== verification/HttpdProofs.thy ===== *)
theory HttpdProofs
  imports Server
begin

text \<open>
  Lemmas about the web server that its guarantees rest on: responses are conserved while they
  are sent in pieces, most handlers leave everything but their own response alone, and every
  callback keeps the server invariant.
\<close>

section \<open>Sending conserves the response\<close>

lemma unat_minus_u16: "unat (l :: u16) \<le> unat left \<Longrightarrow> unat (left - ucast l :: u32) = unat left - unat l"
  by (rule unat_left_minus)

text \<open>
  A reader of consecutive bytes: reading \<open>m + n\<close> bytes is reading \<open>m\<close> and then \<open>n\<close> further on.
\<close>

lemma pad_split: "pad (m + n) cs = pad m cs @ pad n (drop m cs)"
  by (cases "m \<le> length cs") (simp_all add: pad_def take_add flip: replicate_add)

lemma ram_bytes_split: "ram_bytes m a (i + j) = ram_bytes m a i @ ram_bytes m (a + of_nat i) j"
  by (rule nth_equalityI) (auto simp: nth_append ram_bytes_def add.assoc of_nat_add [symmetric] simp del: of_nat_add)

lemma ptr_read_split: "ptr_read bs m p (i + j) = ptr_read bs m p i @ ptr_read bs m (ptr_add p i) j"
  by (cases p) (simp_all add: pad_split ram_bytes_split add.commute)

lemma length_ptr_read: "length (ptr_read bs m p n) = n"
  by (cases p) (simp_all add: pad_def)

lemma send_loop_step:
  assumes "l = (if ucast (sndbuf oc n) < left then sndbuf oc n else ucast left)"
    and "k = (if left < ucast TCP_MSS then ucast left else TCP_MSS)"
    and "left \<noteq> 0" and "sndbuf oc n \<noteq> 0"
  shows "send_loop oc rd p left n out =
    (if write_ok oc (Suc n)
     then send_loop oc rd (ptr_add p (unat l)) (left - ucast l) (n + 2) (out @ rd p (unat l))
     else if TCP_MSS < l then
       if write_ok oc (n + 2)
       then send_loop oc rd (ptr_add p (unat k)) (left - ucast k) (n + 3) (out @ rd p (unat k))
       else (p, left, n + 3, out)
     else (p, left, n + 2, out))"
  unfolding assms(1,2) using assms(3,4) by (subst send_loop.simps) (simp only: Let_def if_False)

lemma send_loop_conserves:
  assumes "send_loop oc (ptr_read bs m) p left n out = (p', left', n', out')"
  shows "out' @ ptr_read bs m p' (unat left') = out @ ptr_read bs m p (unat left)
    \<and> unat left' \<le> unat left \<and> prefix out out'"
  using assms
proof (induction "unat left" arbitrary: p left n out rule: less_induct)
  case less
  define l where "l = (if ucast (sndbuf oc n) < left then sndbuf oc n else ucast left)"
  define k where "k = (if left < ucast TCP_MSS then ucast left else TCP_MSS)"
  have step: "out' @ ptr_read bs m p' (unat left') = out @ ptr_read bs m p (unat left)
      \<and> unat left' \<le> unat left \<and> prefix out out'"
    if x: "0 < unat x" "unat x \<le> unat left"
      and r: "send_loop oc (ptr_read bs m) (ptr_add p (unat x)) (left - ucast x) i (out @ ptr_read bs m p (unat x))
        = (p', left', n', out')" for x :: u16 and i
  proof -
    have u: "unat (left - ucast x) = unat left - unat x" by (rule unat_minus_u16 [OF x(2)])
    have "ptr_read bs m p (unat left) = ptr_read bs m p (unat x)
        @ ptr_read bs m (ptr_add p (unat x)) (unat left - unat x)"
      using ptr_read_split [of bs m p "unat x" "unat left - unat x"] x by simp
    with less.hyps [OF _ r] x u show ?thesis by (auto dest: append_prefixD)
  qed
  show ?case
  proof (cases "left = 0 \<or> sndbuf oc n = 0")
    case True
    with less.prems show ?thesis
      by (subst (asm) send_loop.simps) (auto simp: Let_def split: if_splits)
  next
    case False
    then have False: "left \<noteq> 0 \<and> sndbuf oc n \<noteq> 0" by simp
    then have b: "unat l \<le> unat left" "0 < unat l"
      using send_len_bounds [of left "sndbuf oc n"] by (simp_all add: l_def)
    have b': "unat k \<le> unat left" "0 < unat k"
      using send_len_bounds [of left TCP_MSS] False unfolding k_def send_len_mss by simp_all
    from less.prems False show ?thesis
      using step [OF b(2,1)] step [OF b'(2,1)]
      unfolding send_loop_step [OF l_def k_def False [THEN conjunct1] False [THEN conjunct2]]
      by (simp split: if_splits)
  qed
qed

section \<open>Handlers that only answer\<close>

abbreviation live :: "nat \<Rightarrow> httpd \<Rightarrow> bool" where "live c s \<equiv> conns s c \<noteq> None"

text \<open>The image that has been received, and the environment variables that tell the shell where it is.\<close>

definition same_upload :: "httpd \<Rightarrow> httpd \<Rightarrow> bool" where
  "same_upload s s' \<longleftrightarrow> ram s' = ram s \<and> upload s' = upload s \<and> boundary_value s' = boundary_value s
     \<and> webfailsafe_data_pointer s' = webfailsafe_data_pointer s \<and> upload_pending s' = upload_pending s
     \<and> upload_hs s' = upload_hs s \<and> hs_global s' = hs_global s
     \<and> net_boot_file_size s' = net_boot_file_size s
     \<and> webfailsafe_upgrade_type s' = webfailsafe_upgrade_type s
     \<and> webfailsafe_ready_for_upgrade s' = webfailsafe_ready_for_upgrade s \<and> uaf s' = uaf s
     \<and> env s' ''fileaddr'' = env s ''fileaddr'' \<and> env s' ''filesize'' = env s ''filesize''"

definition conn_step :: "conn \<Rightarrow> conn \<Rightarrow> bool" where
  "conn_step h h' \<longleftrightarrow> owns_global h' = owns_global h \<and> upload_total h' = upload_total h
     \<and> (http_state h' = http_state h \<or> http_state h' = STATE_FILE_REQUEST)"

definition quiet :: "nat \<Rightarrow> httpd \<Rightarrow> httpd \<Rightarrow> bool" where
  "quiet c s s' \<longleftrightarrow> same_upload s s' \<and> (\<forall>d. d \<noteq> c \<longrightarrow> conns s' d = conns s d)
     \<and> (\<exists>h h'. conns s c = Some h \<and> conns s' c = Some h' \<and> conn_step h h')"

named_theorems quiet \<open>operations that only answer a connection\<close>

lemma quiet_refl: "live c s \<Longrightarrow> quiet c s s"
  by (auto simp: quiet_def same_upload_def conn_step_def)

lemma quiet_live: "quiet c s s' \<Longrightarrow> live c s'"
  by (auto simp: quiet_def)

lemma same_upload_trans: "same_upload a b \<Longrightarrow> same_upload b d \<Longrightarrow> same_upload a d"
  by (simp add: same_upload_def)

lemma conn_step_trans: "conn_step a b \<Longrightarrow> conn_step b d \<Longrightarrow> conn_step a d"
  by (auto simp: conn_step_def)

lemma quiet_trans: "quiet c a b \<Longrightarrow> quiet c b d \<Longrightarrow> quiet c a d"
  unfolding quiet_def by (metis (full_types) same_upload_trans conn_step_trans option.inject)

lemma quiet_updates [simp]:
  "quiet c s (s'\<lparr>bufs := x1\<rparr>) = quiet c s s'" "quiet c s (s'\<lparr>leds := x2\<rparr>) = quiet c s s'"
  "quiet c s (s'\<lparr>saved_env := x4\<rparr>) = quiet c s s'"
  "quiet c s (s'\<lparr>reset_gpio_cached := x5\<rparr>) = quiet c s s'" "quiet c s (s'\<lparr>mac_writes := x6\<rparr>) = quiet c s s'"
  "quiet c s (s'\<lparr>webterm := x7\<rparr>) = quiet c s s'" "quiet c s (s'\<lparr>null_deref := x8\<rparr>) = quiet c s s'"
  "quiet c s (s'\<lparr>reads := x9\<rparr>) = quiet c s s'" "quiet c s (s'\<lparr>tx := y1\<rparr>) = quiet c s s'"
  "quiet c s (s'\<lparr>backup := y2\<rparr>) = quiet c s s'" "quiet c s (s'\<lparr>flashread_yield_set := y3\<rparr>) = quiet c s s'"
  "quiet c s (s'\<lparr>upgrade_status := y4\<rparr>) = quiet c s s'"
  by (simp_all add: quiet_def same_upload_def)

lemma quiet_upd:
  assumes "quiet c s s'" and "\<And>h. conn_step h (f h)"
  shows "quiet c s (upd c f s')"
proof (rule quiet_trans [OF assms(1)])
  obtain h where "conns s' c = Some h" using quiet_live [OF assms(1)] by auto
  with assms(2) [of h] show "quiet c s' (upd c f s')"
    by (auto simp: quiet_def same_upload_def upd_def)
qed

lemma quiet_send_data: "quiet c s s' \<Longrightarrow> quiet c s (httpd_send_data c s')"
  by (simp add: httpd_send_data_def split_beta Let_def quiet_upd conn_step_def)

lemma quiet_send_static: "quiet c s s' \<Longrightarrow> quiet c s (httpd_send_static c p n s')"
  unfolding httpd_send_static_def by (intro quiet_send_data quiet_upd) (simp_all add: conn_step_def)

lemma quiet_send_const: "quiet c s s' \<Longrightarrow> quiet c s (send_const c txt s')"
  by (simp add: send_const_def quiet_send_static)

lemma quiet_send_buffer: "quiet c s s' \<Longrightarrow> quiet c s (send_buffer c b txt s')"
  by (simp add: send_buffer_def quiet_send_static)

lemmas quiet_sends = quiet_send_data quiet_send_static quiet_send_const quiet_send_buffer

lemma quiet_timer: "quiet c s s' \<Longrightarrow> quiet c s (snd (get_timer b s'))"
  by (simp add: HttpdState.get_timer_def)

lemma quiet_led: "quiet c s s' \<Longrightarrow> quiet c s (led e s')"
  by (simp add: led_def)

lemma quiet_status [quiet]: "live c s \<Longrightarrow> quiet c s (httpd_handle_upgrade_status c s)"
  by (simp add: httpd_handle_upgrade_status_def quiet_sends quiet_refl)

lemma quiet_led_handler [quiet]: "live c s \<Longrightarrow> quiet c s (httpd_handle_led c data s)"
  by (auto simp: httpd_handle_led_def Let_def split: option.split
      intro!: quiet_sends quiet_led quiet_refl)

lemma quiet_btn [quiet]: "live c s \<Longrightarrow> quiet c s (httpd_handle_btn_detect pl c s)"
  by (simp add: httpd_handle_btn_detect_def quiet_sends quiet_refl)

lemma quiet_setenv:
  assumes "quiet c s s'" and "strcmp name ''reset_key'' = 0 \<or> strcmp name ''config_name'' = 0" and "cstr name = name"
  shows "quiet c s (setenv name v s')"
  using assms by (auto simp: quiet_def same_upload_def setenv_def strcmp_eq_0)

lemma cstr_cstr [simp]: "cstr (cstr s) = cstr s"
  by (simp add: cstr_def)

lemma env_field_name: "env_field data = Some (name, v) \<Longrightarrow> cstr name = name"
  by (auto simp: env_field_def Let_def split: option.splits if_splits)

lemma quiet_env_set [quiet]: "live c s \<Longrightarrow> quiet c s (httpd_handle_env_set pl c data s)"
  by (auto simp: httpd_handle_env_set_def Let_def saveenv_def split: option.split
      intro!: quiet_sends quiet_setenv quiet_refl dest: env_field_name)

lemma quiet_mac_set [quiet]: "live c s \<Longrightarrow> quiet c s (httpd_handle_mac_set pl c data s)"
  by (auto simp: httpd_handle_mac_set_def Let_def split: option.split form_result.split
      intro!: quiet_sends quiet_refl)

lemma quiet_file [quiet]: "live c s \<Longrightarrow> quiet c s (snd (httpd_handle_file_request pl c data n s))"
  using quiet_sends [OF quiet_refl [of s c]]
  by (simp add: httpd_handle_file_request_def Let_def send_file_def quiet_refl split: option.split)

lemma quiet_webterm [quiet]: "live c s \<Longrightarrow> quiet c s (handle_webterm pl c data n s)"
  by (auto simp: handle_webterm_def Let_def split: option.split prod.split intro!: quiet_sends quiet_refl)

section \<open>The server invariant\<close>

definition owner_ok :: "httpd \<Rightarrow> bool" where
  "owner_ok s \<longleftrightarrow> (\<forall>c. hs_global s = Some c \<longleftrightarrow> (\<exists>h. conns s c = Some h \<and> owns_global h))"

text \<open>What holds while a connection is uploading.\<close>

definition receiving :: "platform \<Rightarrow> httpd \<Rightarrow> bool" where
  "receiving pl s \<longleftrightarrow> boundary_value s \<noteq> None \<and> ram_end (upload s) = sdram_end pl
     \<and> upload_ram pl \<le> webfailsafe_data_pointer s \<and> webfailsafe_data_pointer s \<le> sdram_end pl
     \<and> \<not> upload_done (upload s) \<and> \<not> upload_pending s \<and> upload_hs s = None"

definition uploads_ok :: "platform \<Rightarrow> httpd \<Rightarrow> bool" where
  "uploads_ok pl s \<longleftrightarrow> (\<forall>c h. conns s c = Some h \<and> http_state h = STATE_UPLOAD_REQUEST
     \<longrightarrow> owns_global h \<and> receiving pl s)"

definition armed_ok :: "httpd \<Rightarrow> bool" where
  "armed_ok s \<longleftrightarrow> (webfailsafe_ready_for_upgrade s \<longrightarrow> upload_pending s \<and> upload_hs s = None)
     \<and> (upload_done (upload s) \<and> \<not> failed (upload s) \<longrightarrow> upload_pending s)"

definition server_ok :: "platform \<Rightarrow> httpd \<Rightarrow> bool" where
  "server_ok pl s \<longleftrightarrow> \<not> uaf s \<and> owner_ok s \<and> uploads_ok pl s \<and> armed_ok s"

definition platform_ok :: "platform \<Rightarrow> bool" where
  "platform_ok pl \<longleftrightarrow> upload_ram pl \<le> sdram_end pl \<and> unat (sdram_end pl) + 65536 \<le> 2 ^ 32
     \<and> unat (upload_ram pl) + unat (uboot_size pl) < 2 ^ 32
     \<and> (\<forall>part off len rw ft bytes d. flashread pl part off len rw ft = (Some bytes, d) \<longrightarrow> length bytes \<le> unat len)"

definition ram_frame :: "platform \<Rightarrow> httpd \<Rightarrow> httpd \<Rightarrow> bool" where
  "ram_frame pl s s' \<longleftrightarrow> (\<forall>a. \<not> (upload_ram pl \<le> a \<and> a < sdram_end pl) \<longrightarrow> ram s' a = ram s a)"

lemma ram_frame_refl: "ram s' = ram s \<Longrightarrow> ram_frame pl s s'"
  by (simp add: ram_frame_def)

lemma ram_frame_trans: "ram_frame pl a b \<Longrightarrow> ram_frame pl b c \<Longrightarrow> ram_frame pl a c"
  by (simp add: ram_frame_def)

lemma ram_frame_write:
  assumes "upload_ram pl \<le> p" and "unat p + length bs \<le> unat (sdram_end pl)"
    and "ram s' = ram_write (ram s) p bs"
  shows "ram_frame pl s s'"
  unfolding ram_frame_def
proof (intro allI impI)
  fix a assume out: "\<not> (upload_ram pl \<le> a \<and> a < sdram_end pl)"
  have "\<not> unat (a - p) < length bs"
  proof
    assume k: "unat (a - p) < length bs"
    define d where "d = a - p"
    have a: "a = p + d" by (simp add: d_def)
    have "unat p + unat d < 2 ^ 32"
      using k assms(2) unat_u32_less [of "sdram_end pl"] by (simp add: d_def del: unat_u32_less)
    then have "unat a = unat p + unat d" by (simp add: a unat_word_ariths)
    with out k assms(1,2) d_def show False by (simp add: word_le_nat_alt word_less_nat_alt)
  qed
  then show "ram s' a = ram s a" by (simp add: assms(3) ram_write_miss)
qed

lemma quiet_server_ok:
  assumes q: "quiet c s s'" and ok: "server_ok pl s"
  shows "server_ok pl s'"
proof -
  obtain h h' where h: "conns s c = Some h" "conns s' c = Some h'" "conn_step h h'"
    and oth: "\<And>d. d \<noteq> c \<Longrightarrow> conns s' d = conns s d" and su: "same_upload s s'"
    using q by (auto simp: quiet_def)
  have "owner_ok s'"
    unfolding owner_ok_def
  proof
    fix d show "(hs_global s' = Some d) = (\<exists>h. conns s' d = Some h \<and> owns_global h)"
      using ok oth [of d] h su by (cases "d = c") (auto simp: server_ok_def owner_ok_def same_upload_def conn_step_def)
  qed
  moreover have "receiving pl s' = receiving pl s" using su by (simp add: receiving_def same_upload_def)
  then have "uploads_ok pl s'"
    using ok h oth unfolding server_ok_def uploads_ok_def conn_step_def
    by (metis (no_types, opaque_lifting) http_state.distinct(5) option.inject)
  ultimately show ?thesis using ok su by (simp add: server_ok_def armed_ok_def same_upload_def)
qed

lemma quiet_ram: "quiet c s s' \<Longrightarrow> ram_frame pl s s'"
  by (simp add: quiet_def same_upload_def ram_frame_refl)

section \<open>Resetting and closing a connection\<close>

lemma upd_Some: "conns s c = Some h \<Longrightarrow> upd c f s = s\<lparr>conns := (conns s)(c \<mapsto> f h)\<rparr>"
  by (simp add: upd_def)

lemma conn_of_Some: "conns s c = Some h \<Longrightarrow> conn_of c s = h"
  by (simp add: conn_of_def)

lemma state_reset_facts:
  assumes "conns s c = Some h" and "s' = httpd_state_reset c s"
  shows "\<exists>h'. conns s' c = Some h' \<and> http_state h' = STATE_NONE \<and> \<not> owns_global h'"
    and "\<And>d. d \<noteq> c \<Longrightarrow> conns s' d = conns s d"
    and "hs_global s' = (if owns_global h then None else hs_global s)"
    and "ram s' = ram s" and "uaf s' = uaf s" and "upload_pending s' = upload_pending s"
    and "upload_hs s' = upload_hs s" and "webfailsafe_ready_for_upgrade s' = webfailsafe_ready_for_upgrade s"
    and "upload_done (upload s') = upload_done (upload s)" and "failed (upload s') = failed (upload s)"
    and "\<not> owns_global h \<Longrightarrow> upload s' = upload s \<and> boundary_value s' = boundary_value s
        \<and> backup s' = backup s"
    and "webfailsafe_data_pointer s' = webfailsafe_data_pointer s"
    and "net_boot_file_size s' = net_boot_file_size s"
    and "webfailsafe_upgrade_type s' = webfailsafe_upgrade_type s"
  using assms(1) unfolding assms(2) httpd_state_reset_def
  by (auto simp: HttpdState.get_timer_def upd_def conn_of_def led_def Let_def empty_upload_def)

lemma free_reset_ok:
  assumes live: "conns s c = Some h" and ok: "\<not> uaf s"
      "\<forall>d k. d \<noteq> c \<and> conns s d = Some k \<and> http_state k = STATE_UPLOAD_REQUEST \<longrightarrow> owns_global k \<and> receiving pl s"
      "armed_ok s"
    and own: "\<forall>d. d \<noteq> c \<longrightarrow> (hs_global s = Some d \<longleftrightarrow> (\<exists>h. conns s d = Some h \<and> owns_global h))"
      "hs_global s = Some c \<Longrightarrow> owns_global h" "owns_global h \<Longrightarrow> \<forall>d. d \<noteq> c \<longrightarrow> hs_global s \<noteq> Some d"
    and s': "s' = free_conn c (httpd_state_reset c s)"
  shows "server_ok pl s' \<and> ram s' = ram s \<and> \<not> live c s'"
proof -
  note f = state_reset_facts [OF live refl]
  have cs: "conns s' d = (if d = c then None else conns s d)" for d
    using f(2) [of d] by (simp add: s' free_conn_def)
  have g: "hs_global s' = (if owns_global h then None else hs_global s)" using f(3) by (simp add: s' free_conn_def)
  have "owner_ok s'"
    unfolding owner_ok_def cs g
  proof
    fix d show "((if owns_global h then None else hs_global s) = Some d)
        = (\<exists>h. (if d = c then None else conns s d) = Some h \<and> owns_global h)"
      using own by (cases "d = c"; cases "owns_global h") auto
  qed
  moreover have "uploads_ok pl s'"
    unfolding uploads_ok_def
  proof (intro allI impI, elim conjE)
    fix d k assume d: "conns s' d = Some k" "http_state k = STATE_UPLOAD_REQUEST"
    then have "d \<noteq> c" "conns s d = Some k" by (auto simp: cs split: if_splits)
    with ok(2) d have k: "owns_global k" "receiving pl s" by auto
    with own(1,3) \<open>d \<noteq> c\<close> \<open>conns s d = Some k\<close> have "\<not> owns_global h" by blast
    with k f show "owns_global k \<and> receiving pl s'" by (simp add: receiving_def s' free_conn_def)
  qed
  moreover have "armed_ok s'" using ok(3) f by (simp add: armed_ok_def s' free_conn_def)
  ultimately show ?thesis using ok(1) f by (simp add: server_ok_def s' free_conn_def)
qed

lemma free_reset_server_ok:
  assumes "server_ok pl s" and "conns s c = Some h"
  shows "server_ok pl (free_conn c (httpd_state_reset c s)) \<and> ram (free_conn c (httpd_state_reset c s)) = ram s"
proof -
  have o: "hs_global s = Some d \<longleftrightarrow> (\<exists>h. conns s d = Some h \<and> owns_global h)" for d
    using assms(1) by (simp add: server_ok_def owner_ok_def)
  have oc: "hs_global s = Some c \<longleftrightarrow> owns_global h" using o [of c] assms(2) by simp
  have "server_ok pl (free_conn c (httpd_state_reset c s))
      \<and> ram (free_conn c (httpd_state_reset c s)) = ram s \<and> \<not> live c (free_conn c (httpd_state_reset c s))"
  proof (rule free_reset_ok [OF assms(2) _ _ _ _ _ _ refl])
    show "\<not> uaf s" "armed_ok s" using assms(1) by (simp_all add: server_ok_def)
    show "\<forall>d k. d \<noteq> c \<and> conns s d = Some k \<and> http_state k = STATE_UPLOAD_REQUEST \<longrightarrow> owns_global k \<and> receiving pl s"
      using assms(1) unfolding server_ok_def uploads_ok_def by blast
    show "\<forall>d. d \<noteq> c \<longrightarrow> (hs_global s = Some d \<longleftrightarrow> (\<exists>h. conns s d = Some h \<and> owns_global h))"
      using o by blast
    show "hs_global s = Some c \<Longrightarrow> owns_global h" using oc by simp
    show "owns_global h \<Longrightarrow> \<forall>d. d \<noteq> c \<longrightarrow> hs_global s \<noteq> Some d" using oc by simp
  qed
  then show ?thesis by simp
qed

lemma pcb_end_ok [simp]: "server_ok pl (pcb_end c e s) = server_ok pl s" "ram (pcb_end c e s) = ram s"
  "free_conn c (pcb_end c e s) = pcb_end c e (free_conn c s)"
  by (simp_all add: pcb_end_def server_ok_def owner_ok_def uploads_ok_def armed_ok_def receiving_def free_conn_def)

lemma close_conn_ok:
  assumes "server_ok pl s" and "live c s"
  shows "server_ok pl (httpd_close_conn c s) \<and> ram (httpd_close_conn c s) = ram s"
    "server_ok pl (httpd_conn_abort c s) \<and> ram (httpd_conn_abort c s) = ram s"
  using assms free_reset_server_ok [OF assms(1), of c] by (auto simp: httpd_close_conn_def httpd_conn_abort_def)

definition safe :: "platform \<Rightarrow> httpd \<Rightarrow> httpd \<Rightarrow> bool" where
  "safe pl s s' \<longleftrightarrow> server_ok pl s' \<and> ram_frame pl s s'"

lemma safe_trans: "safe pl a b \<Longrightarrow> (server_ok pl b \<Longrightarrow> safe pl b c) \<Longrightarrow> safe pl a c"
  by (auto simp: safe_def intro: ram_frame_trans)

lemma safe_quiet: "server_ok pl s \<Longrightarrow> quiet c s s' \<Longrightarrow> safe pl s s'"
  by (simp add: safe_def quiet_server_ok quiet_ram)

lemma safe_refl: "server_ok pl s \<Longrightarrow> safe pl s s"
  by (simp add: safe_def ram_frame_refl)

lemma safe_close: "server_ok pl s \<Longrightarrow> live c s \<Longrightarrow> safe pl s (httpd_close_conn c s)"
  and safe_abort: "server_ok pl s \<Longrightarrow> live c s \<Longrightarrow> safe pl s (httpd_conn_abort c s)"
  using close_conn_ok by (simp_all add: safe_def ram_frame_refl)

lemma owner_ok_frame: "conns s' = conns s \<Longrightarrow> hs_global s' = hs_global s \<Longrightarrow> owner_ok s' = owner_ok s"
  by (simp add: owner_ok_def)

lemma no_upload_when:
  assumes "server_ok pl s" and "upload_done (upload s) \<or> upload_pending s \<or> upload_hs s \<noteq> None"
  shows "uploads_ok pl s' \<or> conns s' \<noteq> conns s"
  using assms by (auto simp: server_ok_def uploads_ok_def receiving_def)

lemma arm_upgrade_frame:
  "conns (arm_upgrade c s) = conns s" "ram (arm_upgrade c s) = ram s" "hs_global (arm_upgrade c s) = hs_global s"
  "uaf (arm_upgrade c s) = uaf s"
  by (simp_all add: arm_upgrade_def Let_def)

lemma arm_upgrade_ok:
  assumes "server_ok pl s" shows "server_ok pl (arm_upgrade c s)"
proof (cases "upload_done (upload s) \<and> (upload_hs s = None \<or> upload_hs s = Some c)")
  case True
  with no_upload_when [OF assms, of "arm_upgrade c s"] have "uploads_ok pl (arm_upgrade c s)"
    by (simp add: arm_upgrade_frame)
  moreover have "armed_ok (arm_upgrade c s)"
    using assms True by (auto simp: arm_upgrade_def server_ok_def armed_ok_def)
  moreover have "owner_ok (arm_upgrade c s)"
    using assms by (simp add: server_ok_def owner_ok_frame [of "arm_upgrade c s" s] arm_upgrade_frame)
  ultimately show ?thesis using assms by (simp add: server_ok_def arm_upgrade_frame)
next
  case False
  then have "arm_upgrade c s = s" by (auto simp: arm_upgrade_def)
  with assms show ?thesis by simp
qed

lemma drop_owner_ok:
  assumes ok: "server_ok pl s" and live: "conns s c = Some h"
    and s1: "s1 = (if upload_hs s = Some c then httpd_discard_pending_upload s else s)"
    and s2: "s2 = (if hs_global s = Some c then s1\<lparr>hs_global := None\<rparr> else s1)"
  shows "server_ok pl (free_conn c (httpd_state_reset c s2)) \<and> ram (free_conn c (httpd_state_reset c s2)) = ram s"
proof -
  have fr: "conns s2 = conns s" "ram s2 = ram s" "uaf s2 = uaf s"
    by (simp_all add: s1 s2 httpd_discard_pending_upload_def)
  have g2: "hs_global s2 = (if hs_global s = Some c then None else hs_global s)"
    by (simp add: s1 s2 httpd_discard_pending_upload_def)
  have o: "hs_global s = Some d \<longleftrightarrow> (\<exists>h. conns s d = Some h \<and> owns_global h)" for d
    using ok by (simp add: server_ok_def owner_ok_def)
  have oc: "hs_global s = Some c \<longleftrightarrow> owns_global h" using o [of c] live by simp
  have "server_ok pl (free_conn c (httpd_state_reset c s2)) \<and> ram (free_conn c (httpd_state_reset c s2)) = ram s2
      \<and> \<not> live c (free_conn c (httpd_state_reset c s2))"
  proof (rule free_reset_ok [OF _ _ _ _ _ _ _ refl])
    show "conns s2 c = Some h" "\<not> uaf s2" using ok live fr by (simp_all add: server_ok_def)
    have "uploads_ok pl s2"
    proof (cases "upload_hs s = Some c")
      case True
      with no_upload_when [OF ok, of s2] show ?thesis by (simp add: fr)
    next
      case False
      then have "receiving pl s2 = receiving pl s" by (simp add: s1 s2 receiving_def)
      then show ?thesis using ok unfolding server_ok_def uploads_ok_def fr by blast
    qed
    then show "\<forall>d k. d \<noteq> c \<and> conns s2 d = Some k \<and> http_state k = STATE_UPLOAD_REQUEST \<longrightarrow> owns_global k \<and> receiving pl s2"
      unfolding uploads_ok_def by blast
    show "armed_ok s2"
      using ok by (auto simp: server_ok_def armed_ok_def s1 s2 httpd_discard_pending_upload_def)
    show "\<forall>d. d \<noteq> c \<longrightarrow> (hs_global s2 = Some d \<longleftrightarrow> (\<exists>h. conns s2 d = Some h \<and> owns_global h))"
      using o unfolding fr g2 by (metis option.inject option.distinct(1))
    show "hs_global s2 = Some c \<Longrightarrow> owns_global h" by (simp add: g2 split: if_splits)
    show "owns_global h \<Longrightarrow> \<forall>d. d \<noteq> c \<longrightarrow> hs_global s2 \<noteq> Some d" using oc by (simp add: g2)
  qed
  then show ?thesis using fr by simp
qed

lemma discard_owner_commute:
  "httpd_discard_pending_upload (s\<lparr>hs_global := x\<rparr>) = (httpd_discard_pending_upload s)\<lparr>hs_global := x\<rparr>"
  by (cases s) (simp add: httpd_discard_pending_upload_def)

lemma err_safe: "server_ok pl s \<Longrightarrow> safe pl s (httpd_err c s)"
proof (cases "conns s c")
  case (Some h)
  assume ok: "server_ok pl s"
  have "httpd_err c s = free_conn c (httpd_state_reset c
      (if hs_global s = Some c then (if upload_hs s = Some c then httpd_discard_pending_upload s else s)\<lparr>hs_global := None\<rparr>
       else if upload_hs s = Some c then httpd_discard_pending_upload s else s))"
    using Some by (simp add: httpd_err_def Let_def discard_owner_commute)
  with drop_owner_ok [OF ok Some refl refl] show ?thesis by (simp add: safe_def ram_frame_refl)
qed (simp add: httpd_err_def safe_refl)

lemma timer_ok [simp]: "server_ok pl (s\<lparr>reads := n\<rparr>) = server_ok pl s"
  by (simp add: server_ok_def owner_ok_def uploads_ok_def armed_ok_def receiving_def)

lemma poll_cb_safe:
  assumes ok: "server_ok pl s" shows "safe pl s (httpd_poll_cb c s)"
proof (cases "conns s c")
  case None
  with ok show ?thesis by (simp add: httpd_poll_cb_def safe_refl)
next
  case (Some h)
  define s0 where "s0 = s\<lparr>reads := Suc (reads s)\<rparr>"
  have ok0: "server_ok pl s0" and c0: "conns s0 c = Some h" using ok Some by (simp_all add: s0_def)
  have fr: "ram_frame pl s s0" by (simp add: s0_def ram_frame_def)
  have q: "quiet c s0 (httpd_send_data c s0)" using c0 by (intro quiet_send_data quiet_refl) simp
  have "safe pl s0 (httpd_poll_cb c s)"
  proof (cases "300000 \<le> timer (orc s) (reads s) - last_activity h")
    case True
    have "httpd_poll_cb c s = httpd_conn_abort c
        (if hs_global s0 = Some c then (if upload_hs s0 = Some c then httpd_discard_pending_upload s0 else s0)\<lparr>hs_global := None\<rparr>
         else if upload_hs s0 = Some c then httpd_discard_pending_upload s0 else s0)"
      using Some True by (simp add: httpd_poll_cb_def HttpdState.get_timer_def conn_of_Some s0_def
          httpd_discard_pending_upload_def)
    with drop_owner_ok [OF ok0 c0 refl refl] show ?thesis
      by (simp add: safe_def ram_frame_refl httpd_conn_abort_def)
  next
    case False
    with Some have "httpd_poll_cb c s = (if 0 < hs_upload h then httpd_send_data c s0 else s0)"
      by (simp add: httpd_poll_cb_def HttpdState.get_timer_def conn_of_Some s0_def)
    then show ?thesis using safe_quiet [OF ok0 q] safe_refl [OF ok0] by simp
  qed
  with fr show ?thesis by (auto simp: safe_def intro: ram_frame_trans)
qed

lemma accept_safe:
  assumes ok: "server_ok pl s" shows "safe pl s (httpd_accept c s)"
proof -
  have o: "hs_global s = Some d \<longleftrightarrow> (\<exists>h. conns s d = Some h \<and> owns_global h)" for d
    using ok by (simp add: server_ok_def owner_ok_def)
  have "server_ok pl (httpd_accept c s)" if "conns s c = None" "malloc_ok (orc s) (reads s)"
    using ok that o unfolding server_ok_def owner_ok_def uploads_ok_def armed_ok_def receiving_def
    by (auto simp: httpd_accept_def malloc_def HttpdState.get_timer_def fresh_conn_def)
  moreover have "ram (httpd_accept c s) = ram s"
    by (simp add: httpd_accept_def malloc_def HttpdState.get_timer_def Let_def)
  moreover have "httpd_accept c s = s \<or> httpd_accept c s = s\<lparr>reads := Suc (reads s)\<rparr>"
    if "\<not> (conns s c = None \<and> malloc_ok (orc s) (reads s))"
    using that by (auto simp: httpd_accept_def malloc_def)
  ultimately have "server_ok pl (httpd_accept c s)"
    using ok by (cases "conns s c = None \<and> malloc_ok (orc s) (reads s)") auto
  with \<open>ram (httpd_accept c s) = ram s\<close> show ?thesis by (simp add: safe_def ram_frame_refl)
qed

lemma sent_safe:
  assumes ok: "server_ok pl s" shows "safe pl s (httpd_sent c s)"
proof (cases "conns s c")
  case None
  with ok show ?thesis by (simp add: httpd_sent_def safe_refl)
next
  case (Some h)
  define s1 where "s1 = upd c (\<lambda>h. h\<lparr>last_activity := timer (orc s) (reads s) - 0\<rparr>) (s\<lparr>reads := Suc (reads s)\<rparr>)"
  define owner where "owner = (owns_global (conn_of c s1) \<and> hs_global s1 = Some c)"
  define s2 where "s2 = (if owner \<and> sending_header (backup s1) \<and> hs_upload (conn_of c s1) = 0 then
       upd c (\<lambda>h. h\<lparr>http_state := STATE_FILE_REQUEST, dataptr := Ram (data_addr (backup s1)),
                      hs_upload := data_size (backup s1)\<rparr>)
         (s1\<lparr>backup := (backup s1)\<lparr>sending_header := False\<rparr>\<rparr>) else s1)"
  have q1: "quiet c s s1" unfolding s1_def by (rule quiet_upd) (simp_all add: conn_step_def quiet_refl Some)
  have q2: "quiet c s s2" unfolding s2_def using q1 by (auto intro!: quiet_upd simp: conn_step_def)
  have ok2: "server_ok pl s2" by (rule quiet_server_ok [OF q2 ok])
  have fr: "ram_frame pl s s2" by (rule quiet_ram [OF q2])
  have "httpd_sent c s = (if hs_upload (conn_of c s2) = 0 then
      if owner \<and> chunked (backup s2) \<and> 0 < total_remaining (backup s2) \<and> \<not> chunk_busy (backup s2)
      then s2\<lparr>backup := (backup s2)\<lparr>chunk_busy := True\<rparr>\<rparr>
      else if owner \<and> chunk_busy (backup s2) then s2
      else httpd_close_conn c (arm_upgrade c s2)
    else httpd_send_data c s2)"
    unfolding httpd_sent_def HttpdState.get_timer_def Let_def prod.case Some s2_def owner_def s1_def
    by (simp only: option.distinct if_False)
  moreover have "safe pl s2 (httpd_close_conn c (arm_upgrade c s2))"
    using safe_close [OF arm_upgrade_ok [OF ok2], of c c] quiet_live [OF q2]
    by (simp add: arm_upgrade_frame safe_def ram_frame_def)
  moreover have "quiet c s2 s2" using quiet_live [OF q2] by (rule quiet_refl)
  then have "safe pl s2 (s2\<lparr>backup := (backup s2)\<lparr>chunk_busy := True\<rparr>\<rparr>)" "safe pl s2 (httpd_send_data c s2)"
    "safe pl s2 s2"
    by (auto intro!: safe_quiet [OF ok2, of c] quiet_send_data)
  ultimately have "safe pl s2 (httpd_sent c s)" by simp
  with fr show ?thesis by (auto simp: safe_def intro: ram_frame_trans)
qed

section \<open>Upload steps\<close>


definition upl :: "platform \<Rightarrow> nat \<Rightarrow> httpd \<Rightarrow> bool" where
  "upl pl c s \<longleftrightarrow> server_ok pl s \<and> (\<exists>h. conns s c = Some h \<and> http_state h = STATE_UPLOAD_REQUEST)"

lemma upl_receiving: "upl pl c s \<Longrightarrow> receiving pl s"
  by (auto simp: upl_def server_ok_def uploads_ok_def)

lemma upl_owner: "upl pl c s \<Longrightarrow> hs_global s = Some c"
  by (auto simp: upl_def server_ok_def uploads_ok_def owner_ok_def)

definition upsame :: "nat \<Rightarrow> httpd \<Rightarrow> httpd \<Rightarrow> bool" where
  "upsame c s s' \<longleftrightarrow> uaf s' = uaf s \<and> hs_global s' = hs_global s \<and> (\<forall>d. d \<noteq> c \<longrightarrow> conns s' d = conns s d)
     \<and> (\<exists>h h'. conns s c = Some h \<and> conns s' c = Some h' \<and> owns_global h' = owns_global h \<and> http_state h' = http_state h)
     \<and> boundary_value s' = boundary_value s \<and> ram_end (upload s') = ram_end (upload s)
     \<and> upload_done (upload s') = upload_done (upload s) \<and> upload_pending s' = upload_pending s
     \<and> upload_hs s' = upload_hs s \<and> webfailsafe_ready_for_upgrade s' = webfailsafe_ready_for_upgrade s"

lemma upsame_refl: "live c s \<Longrightarrow> upsame c s s"
  by (auto simp: upsame_def)

lemma upsame_live: "upsame c s s' \<Longrightarrow> live c s'"
  by (auto simp: upsame_def)

lemma upsame_trans:
  assumes "upsame c a b" and "upsame c b d" shows "upsame c a d"
proof -
  obtain h1 h2 where 1: "conns a c = Some h1" "conns b c = Some h2" "owns_global h2 = owns_global h1"
      "http_state h2 = http_state h1" using assms(1) by (auto simp: upsame_def)
  obtain h3 where 2: "conns d c = Some h3" "owns_global h3 = owns_global h2" "http_state h3 = http_state h2"
    using assms(2) 1 by (auto simp: upsame_def)
  show ?thesis using assms 1 2 by (simp add: upsame_def)
qed

lemma upsame_upl:
  assumes u: "upl pl c s" and q: "upsame c s s'"
    and p: "upload_ram pl \<le> webfailsafe_data_pointer s'" "webfailsafe_data_pointer s' \<le> sdram_end pl"
  shows "upl pl c s'"
proof -
  obtain h where h: "conns s c = Some h" "http_state h = STATE_UPLOAD_REQUEST" using u by (auto simp: upl_def)
  have ok: "server_ok pl s" using u by (simp add: upl_def)
  have own: "owns_global h" using ok h by (auto simp: server_ok_def uploads_ok_def)
  obtain h' where h': "conns s' c = Some h'" "owns_global h'" "http_state h' = STATE_UPLOAD_REQUEST"
    using q h own by (auto simp: upsame_def)
  have rec: "receiving pl s'" using upl_receiving [OF u] q p by (simp add: receiving_def upsame_def)
  have oth: "conns s' d = conns s d" if "d \<noteq> c" for d using q that by (simp add: upsame_def)
  have "owner_ok s'"
    unfolding owner_ok_def
  proof
    fix d show "(hs_global s' = Some d) = (\<exists>h. conns s' d = Some h \<and> owns_global h)"
      using ok q h h' own oth [of d] by (cases "d = c") (auto simp: server_ok_def owner_ok_def upsame_def)
  qed
  moreover have "uploads_ok pl s'"
    using ok h' oth rec unfolding server_ok_def uploads_ok_def by (metis option.inject)
  moreover have "armed_ok s'"
    using upl_receiving [OF u] ok q by (auto simp: server_ok_def armed_ok_def upsame_def receiving_def)
  ultimately show ?thesis using ok q h' by (auto simp: upl_def server_ok_def upsame_def)
qed

definition upstep :: "platform \<Rightarrow> nat \<Rightarrow> httpd \<Rightarrow> httpd \<Rightarrow> bool" where
  "upstep pl c s s' \<longleftrightarrow> upsame c s s' \<and> ram_frame pl s s'
     \<and> upload_ram pl \<le> webfailsafe_data_pointer s' \<and> webfailsafe_data_pointer s' \<le> sdram_end pl"

lemma upstep_upl: "upl pl c s \<Longrightarrow> upstep pl c s s' \<Longrightarrow> upl pl c s'"
  by (simp add: upstep_def upsame_upl)

lemma upstep_trans: "upstep pl c a b \<Longrightarrow> upstep pl c b d \<Longrightarrow> upstep pl c a d"
  unfolding upstep_def using upsame_trans ram_frame_trans by blast

lemma upstep_refl:
  "upl pl c s \<Longrightarrow> upstep pl c s s"
  using upl_receiving [of pl c s] by (auto simp: upstep_def upsame_refl ram_frame_refl receiving_def upl_def)

text \<open>Steps that touch neither RAM nor the upload pointer.\<close>

lemma upstep_still:
  "upl pl c s \<Longrightarrow> upsame c s s' \<Longrightarrow> ram s' = ram s \<Longrightarrow> webfailsafe_data_pointer s' = webfailsafe_data_pointer s
    \<Longrightarrow> upstep pl c s s'"
  using upl_receiving [of pl c s] by (simp add: upstep_def ram_frame_refl receiving_def)

lemma progress_same:
  assumes "live c s"
  shows "upsame c s (httpd_upload_progress pl c s)" "ram (httpd_upload_progress pl c s) = ram s"
    "webfailsafe_data_pointer (httpd_upload_progress pl c s) = webfailsafe_data_pointer s"
    "conns (httpd_upload_progress pl c s) = conns s"
    "failed (upload (httpd_upload_progress pl c s)) = failed (upload s)"
    "file_too_big (upload (httpd_upload_progress pl c s)) = file_too_big (upload s)"
    "data_start_found (upload (httpd_upload_progress pl c s)) = data_start_found (upload s)"
    "webfailsafe_upgrade_type (httpd_upload_progress pl c s) = webfailsafe_upgrade_type s"
  using assms by (auto simp: httpd_upload_progress_def Let_def upsame_def HttpdState.get_timer_def led_def)

lemma upd_same:
  assumes "live c s" and "\<And>h. owns_global (f h) = owns_global h \<and> http_state (f h) = http_state h"
  shows "upsame c s (upd c f s)" "ram (upd c f s) = ram s"
    "webfailsafe_data_pointer (upd c f s) = webfailsafe_data_pointer s"
  using assms by (auto simp: upd_def upsame_def)

lemma fail_same:
  "live c s \<Longrightarrow> upsame c s (fail_upload b s)" "ram (fail_upload b s) = ram s"
  "webfailsafe_data_pointer (fail_upload b s) = webfailsafe_data_pointer s" "conns (fail_upload b s) = conns s"
  by (auto simp: fail_upload_def upsame_def)

lemma set_type_same:
  "live c s \<Longrightarrow> upsame c s (set_upgrade_type t st s)" "ram (set_upgrade_type t st s) = ram s"
  "webfailsafe_data_pointer (set_upgrade_type t st s) = webfailsafe_data_pointer s"
  "conns (set_upgrade_type t st s) = conns s"
  by (auto simp: set_upgrade_type_def upsame_def)

lemma store_chunk_upstep:
  assumes u: "upl pl c s" and pl: "platform_ok pl" and len: "length bs < 65536"
  shows "upstep pl c s (snd (store_chunk bs s))"
proof -
  have r: "receiving pl s" by (rule upl_receiving [OF u])
  have live: "live c s" using u by (auto simp: upl_def)
  define p where "p = webfailsafe_data_pointer s"
  have p: "upload_ram pl \<le> p" "p \<le> sdram_end pl" "ram_end (upload s) = sdram_end pl"
    using r by (simp_all add: receiving_def p_def)
  have sum: "unat (p + of_nat (length bs)) = unat p + length bs"
    using pl p(2) len by (intro unat_plus_small) (simp add: platform_ok_def word_le_nat_alt)
  show ?thesis
  proof (cases "sdram_end pl < p + of_nat (length bs)")
    case True
    then have "snd (store_chunk bs s) = fail_upload True s" by (simp add: store_chunk_def p p_def [symmetric])
    then show ?thesis using u live by (simp add: upstep_still fail_same)
  next
    case False
    then have le: "unat p + length bs \<le> unat (sdram_end pl)" using sum by (simp add: word_less_nat_alt)
    define s' where "s' = snd (store_chunk bs s)"
    have s': "s' = s\<lparr>ram := ram_write (ram s) p bs, webfailsafe_data_pointer := p + of_nat (length bs)\<rparr>"
      using False by (simp add: s'_def store_chunk_def p p_def [symmetric])
    have "ram_frame pl s s'" by (rule ram_frame_write [OF p(1) le]) (simp add: s')
    moreover have "upsame c s s'" using live by (auto simp: s' upsame_def)
    moreover have "upload_ram pl \<le> p + of_nat (length bs)" "p + of_nat (length bs) \<le> sdram_end pl"
      using p(1) le sum by (simp_all add: word_le_nat_alt)
    ultimately show ?thesis by (simp add: upstep_def s' s'_def [symmetric])
  qed
qed

lemma upl_live: "upl pl c s \<Longrightarrow> live c s"
  by (auto simp: upl_def)

lemma upstep_upd:
  assumes "upl pl c s" and "\<And>h. owns_global (f h) = owns_global h \<and> http_state (f h) = http_state h"
  shows "upstep pl c s (upd c f s)"
  using upstep_still [OF assms(1) upd_same [OF upl_live [OF assms(1)] assms(2)]] .

lemma upstep_fail: "upl pl c s \<Longrightarrow> upstep pl c s (fail_upload b s)"
  by (rule upstep_still) (simp_all add: fail_same upl_live)

lemma upstep_set_type: "upl pl c s \<Longrightarrow> upstep pl c s (set_upgrade_type t st s)"
  by (rule upstep_still) (simp_all add: set_type_same upl_live)

lemma upstep_progress: "upl pl c s \<Longrightarrow> upstep pl c s (httpd_upload_progress pl c s)"
  by (rule upstep_still) (simp_all add: progress_same [OF upl_live] upl_live)

lemma upstep_start_time: "upl pl c s \<Longrightarrow> upstep pl c s (s\<lparr>reads := n, upload := (upload s)\<lparr>start_time := t\<rparr>\<rparr>)"
  by (rule upstep_still) (auto simp: upsame_def dest: upl_live)

lemma upstep_found: "upl pl c s \<Longrightarrow> upstep pl c s (set_data_start_found b s)"
  by (rule upstep_still) (auto simp: upsame_def set_data_start_found_def dest: upl_live)

lemmas upsteps = upstep_upd upstep_fail upstep_set_type upstep_progress upstep_start_time upstep_found

lemma store_first_upstep:
  assumes u: "upl pl c s" and pl: "platform_ok pl" and n: "n < 65536"
  shows "upstep pl c s (snd (store_first pl c t ov e n s))"
proof -
  define s1 where "s1 = upd c (\<lambda>h. h\<lparr>upload_total := upload_total h - of_nat ov\<rparr>) s"
  define s2 where "s2 = (case max_size pl t of
      Some m \<Rightarrow> if m < ucast (upload_total (conn_of c s1)) then fail_upload True s1 else s1 | None \<Rightarrow> s1)"
  define s3 where "s3 = upd c (\<lambda>h. h\<lparr>hs_upload := of_nat n\<rparr>) s2"
  define fd where "fd = min (hs_upload (conn_of c s3)) (upload_total (conn_of c s3))"
  define r where "r = store_chunk (take (unat fd) e) s3"
  define s4 where "s4 = (snd r\<lparr>reads := Suc (reads (snd r))\<rparr>)\<lparr>upload :=
      (upload (snd r\<lparr>reads := Suc (reads (snd r))\<rparr>))\<lparr>start_time := timer (orc (snd r)) (reads (snd r)) - 0\<rparr>\<rparr>"
  have 1: "upstep pl c s s1" unfolding s1_def by (rule upstep_upd [OF u]) simp
  have "upstep pl c s1 s2"
    using upstep_refl upstep_fail upstep_upl [OF u 1] by (simp add: s2_def split: option.split)
  with 1 have 2: "upstep pl c s s2" by (rule upstep_trans)
  have "upstep pl c s2 s3" unfolding s3_def by (rule upstep_upd [OF upstep_upl [OF u 2]]) simp
  with 2 have 3: "upstep pl c s s3" by (rule upstep_trans)
  obtain h where "conns s2 c = Some h" using upl_live [OF upstep_upl [OF u 2]] by auto
  then have "hs_upload (conn_of c s3) = of_nat n" by (simp add: s3_def upd_def conn_of_def)
  then have "unat fd \<le> n" using n by (simp add: fd_def min_def word_le_nat_alt unat_of_nat_u32)
  then have "length (take (unat fd) e) < 65536" using n by simp
  with 3 have 4: "upstep pl c s (snd r)"
    unfolding r_def using store_chunk_upstep [OF upstep_upl [OF u 3] pl] upstep_trans by blast
  have 5: "upstep pl c s s4"
    using upstep_trans [OF 4 upstep_start_time [OF upstep_upl [OF u 4]]] by (simp add: s4_def)
  have 6: "upstep pl c s (httpd_upload_progress pl c s4)"
    by (rule upstep_trans [OF 5 upstep_progress [OF upstep_upl [OF u 5]]])
  have "snd (store_first pl c t ov e n s) = (if unat (upload_total (conn_of c s)) < ov then fail_upload False s
      else if file_too_big (upload s3) then s3 else if \<not> fst r then snd r else httpd_upload_progress pl c s4)"
    unfolding store_first_def Let_def HttpdState.get_timer_def s1_def [symmetric] s2_def [symmetric]
      s3_def [symmetric] fd_def [symmetric] r_def [symmetric] split_beta fst_conv snd_conv s4_def [symmetric]
    by simp
  then show ?thesis using upstep_fail [OF u] 3 4 6 by simp
qed

lemma firstchunk_upstep:
  assumes u: "upl pl c s" and pl: "platform_ok pl" and n: "n < 65536"
  shows "upstep pl c s (snd (httpd_findandstore_firstchunk pl c data n s))"
proof -
  have "upstep pl c s (set_upgrade_type t st s)" for t st by (rule upstep_set_type [OF u])
  moreover have "upstep pl c s (snd (store_first pl c t ov e (n - k) (set_upgrade_type t st s)))" for t st ov e k
    by (rule upstep_trans [OF upstep_set_type [OF u]
          store_first_upstep [OF upstep_upl [OF u upstep_set_type [OF u]] pl]]) (use n in simp)
  ultimately show ?thesis
    using upstep_refl [OF u]
    by (simp add: httpd_findandstore_firstchunk_def Let_def split: option.split prod.split)
qed

lemma handle_upload_data_upstep:
  assumes u: "upl pl c s" and pl: "platform_ok pl" and n: "n < 65536"
  shows "upstep pl c s (httpd_handle_upload_data pl c data n s)"
proof -
  have p: "upstep pl c s (httpd_upload_progress pl c s')" if "upstep pl c s s'" for s'
    by (rule upstep_trans [OF that upstep_progress [OF upstep_upl [OF u that]]])
  have st: "upstep pl c s (snd (store_chunk (take k data) s))" if "k \<le> n" for k
    using that n by (intro store_chunk_upstep [OF u pl]) simp
  have "(if unat tot < unat dw + n then unat (tot - dw) else n) \<le> n" if "\<not> tot < dw" for tot dw :: u32
    using that unat_sub [of dw tot] by (auto simp: word_le_nat_alt not_less)
  with p st upstep_refl [OF u] upstep_fail [OF u] show ?thesis
    by (simp add: httpd_handle_upload_data_def Let_def)
qed

lemma check_complete_safe:
  assumes u: "upl pl c s" shows "safe pl s (snd (httpd_check_upload_complete c s))"
proof -
  obtain h where h: "conns s c = Some h" "http_state h = STATE_UPLOAD_REQUEST" using u by (auto simp: upl_def)
  have ok: "server_ok pl s" using u by (simp add: upl_def)
  have g: "hs_global s = Some c" by (rule upl_owner [OF u])
  have own: "owns_global h" using ok h by (auto simp: server_ok_def uploads_ok_def)
  have r: "receiving pl s" by (rule upl_receiving [OF u])
  define s1 where "s1 = httpd_upload_complete c s"
  have c1: "conns s1 = conns s" "ram s1 = ram s" "hs_global s1 = hs_global s" "uaf s1 = uaf s"
    "webfailsafe_ready_for_upgrade s1 = webfailsafe_ready_for_upgrade s"
    "failed (upload s1) = failed (upload s)" "\<not> failed (upload s) \<Longrightarrow> upload_pending s1"
    by (simp_all add: s1_def httpd_upload_complete_def led_def Let_def)
  define s2 where "s2 = httpd_state_reset c s1"
  have h1: "conns s1 c = Some h" using h c1 by simp
  note f = state_reset_facts [OF h1 s2_def]
  have noown: "\<not> owns_global k" "http_state k \<noteq> STATE_UPLOAD_REQUEST" if "conns s2 d = Some k" for d k
  proof -
    have "\<not> owns_global k \<and> http_state k \<noteq> STATE_UPLOAD_REQUEST"
    proof (cases "d = c")
      case True
      with f(1) that show ?thesis by auto
    next
      case False
      with f(2) [OF False] that c1 have "conns s d = Some k" by simp
      with ok g False show ?thesis unfolding server_ok_def owner_ok_def uploads_ok_def
        by (metis option.inject)
    qed
    then show "\<not> owns_global k" "http_state k \<noteq> STATE_UPLOAD_REQUEST" by auto
  qed
  have g2: "hs_global s2 = None" using f(3) own by simp
  have "owner_ok s2" unfolding owner_ok_def g2 using noown by auto
  moreover have "uploads_ok pl s2" unfolding uploads_ok_def using noown by auto
  moreover have "armed_ok s2"
    using f ok r c1 by (auto simp: armed_ok_def server_ok_def receiving_def)
  ultimately have ok2: "server_ok pl s2" using ok f c1 by (simp add: server_ok_def)
  have "live c s2" using f(1) by auto
  then have "safe pl s2 (httpd_send_static c p k s2)" for p k
    by (intro safe_quiet [OF ok2, of c] quiet_send_static quiet_refl)
  moreover have "ram s2 = ram s" using f c1 by simp
  ultimately have "safe pl s (httpd_send_static c p k s2)" for p k by (simp add: safe_def ram_frame_def)
  then show ?thesis
    using safe_refl [OF ok]
    by (simp add: httpd_check_upload_complete_def Let_def flip: s1_def s2_def)
qed

lemma recv_upload_safe:
  assumes u: "upl pl c s" and pl: "platform_ok pl" and n: "n < 65536"
  shows "safe pl s (snd (recv_upload pl c data n s)) \<and>
    (\<not> fst (recv_upload pl c data n s) \<longrightarrow> live c (snd (recv_upload pl c data n s)))"
proof -
  have chk: "safe pl s (snd (httpd_check_upload_complete c s'))" if "upstep pl c s s'" for s'
    using check_complete_safe [OF upstep_upl [OF u that]] that
    by (auto simp: safe_def upstep_def intro: ram_frame_trans)
  have st: "safe pl s s' \<and> live c s'" if "upstep pl c s s'" for s'
    using upstep_upl [OF u that] that by (auto simp: safe_def upstep_def upl_def)
  define r where "r = httpd_findandstore_firstchunk pl c data n s"
  have 1: "upstep pl c s (snd r)" unfolding r_def by (rule firstchunk_upstep [OF u pl n])
  have 2: "upstep pl c s (set_data_start_found True (snd r))"
    by (rule upstep_trans [OF 1 upstep_found [OF upstep_upl [OF u 1]]])
  define s3 where "s3 = upd c (\<lambda>h. h\<lparr>hs_upload := hs_upload h + of_nat n\<rparr>) s"
  have 3: "upstep pl c s s3" unfolding s3_def by (rule upstep_upd [OF u]) simp
  have 4: "upstep pl c s (httpd_handle_upload_data pl c data n s3)"
    by (rule upstep_trans [OF 3 handle_upload_data_upstep [OF upstep_upl [OF u 3] pl n]])
  show ?thesis
    using st [OF 1] st [OF 2] chk [OF 2] chk [OF 3] chk [OF 4]
    by (auto simp: recv_upload_def Let_def split_beta s3_def [symmetric] r_def [symmetric])
qed

section \<open>Starting an upload or a backup\<close>

definition abortable :: "platform \<Rightarrow> nat \<Rightarrow> httpd \<Rightarrow> bool" where
  "abortable pl c s \<longleftrightarrow> live c s \<and> \<not> uaf s \<and> armed_ok s
     \<and> (\<forall>d k. d \<noteq> c \<and> conns s d = Some k \<longrightarrow> \<not> owns_global k \<and> http_state k \<noteq> STATE_UPLOAD_REQUEST)
     \<and> (hs_global s = None \<or> hs_global s = Some c) \<and> (hs_global s = Some c \<longrightarrow> owns_global (conn_of c s))"

lemma abort_abortable:
  assumes "abortable pl c s"
  shows "server_ok pl (httpd_conn_abort c s) \<and> ram (httpd_conn_abort c s) = ram s"
proof -
  obtain h where h: "conns s c = Some h" using assms by (auto simp: abortable_def)
  have "server_ok pl (free_conn c (httpd_state_reset c s)) \<and> ram (free_conn c (httpd_state_reset c s)) = ram s
      \<and> \<not> live c (free_conn c (httpd_state_reset c s))"
  proof (rule free_reset_ok [OF h _ _ _ _ _ _ refl])
    show "\<not> uaf s" "armed_ok s" using assms by (simp_all add: abortable_def)
    show "\<forall>d k. d \<noteq> c \<and> conns s d = Some k \<and> http_state k = STATE_UPLOAD_REQUEST \<longrightarrow> owns_global k \<and> receiving pl s"
      using assms unfolding abortable_def by blast
    show "\<forall>d. d \<noteq> c \<longrightarrow> (hs_global s = Some d \<longleftrightarrow> (\<exists>h. conns s d = Some h \<and> owns_global h))"
      using assms unfolding abortable_def by (metis option.distinct(1) option.inject)
    show "hs_global s = Some c \<Longrightarrow> owns_global h" using assms h by (simp add: abortable_def conn_of_Some)
    show "owns_global h \<Longrightarrow> \<forall>d. d \<noteq> c \<longrightarrow> hs_global s \<noteq> Some d" using assms by (auto simp: abortable_def)
  qed
  then show ?thesis by (simp add: httpd_conn_abort_def)
qed

lemma upl_abortable: "upl pl c s \<Longrightarrow> abortable pl c s"
proof -
  assume u: "upl pl c s"
  obtain h where h: "conns s c = Some h" "http_state h = STATE_UPLOAD_REQUEST" using u by (auto simp: upl_def)
  have ok: "server_ok pl s" using u by (simp add: upl_def)
  have g: "hs_global s = Some c" by (rule upl_owner [OF u])
  have "\<not> owns_global k" if "d \<noteq> c" "conns s d = Some k" for d k
    using ok g that unfolding server_ok_def owner_ok_def by (metis option.inject)
  moreover have "http_state k \<noteq> STATE_UPLOAD_REQUEST" if "d \<noteq> c" "conns s d = Some k" for d k
    using ok calculation [OF that] that unfolding server_ok_def uploads_ok_def by blast
  moreover have "owns_global h" using ok h by (auto simp: server_ok_def uploads_ok_def)
  ultimately show ?thesis using ok h g by (auto simp: abortable_def server_ok_def conn_of_Some)
qed

text \<open>Where an exclusive operation may start: nobody holds the upload area.\<close>

lemma idle_abortable:
  assumes ok: "server_ok pl s" and h: "conns s c = Some h" "http_state h \<noteq> STATE_UPLOAD_REQUEST"
    and g: "hs_global s = None \<or> hs_global s = Some c"
  shows "abortable pl c s" and "\<And>d k. conns s d = Some k \<Longrightarrow> http_state k \<noteq> STATE_UPLOAD_REQUEST"
proof -
  have o: "hs_global s = Some d \<longleftrightarrow> (\<exists>h. conns s d = Some h \<and> owns_global h)" for d
    using ok by (simp add: server_ok_def owner_ok_def)
  have "\<not> owns_global k" if "d \<noteq> c" "conns s d = Some k" for d k
    using o [of d] g that by auto
  moreover have up: "http_state k \<noteq> STATE_UPLOAD_REQUEST" if "conns s d = Some k" for d k
    using ok calculation [of d k] that h unfolding server_ok_def uploads_ok_def by (metis option.inject)
  ultimately show "abortable pl c s"
    using ok h g o [of c] by (auto simp: abortable_def server_ok_def conn_of_Some)
  show "\<And>d k. conns s d = Some k \<Longrightarrow> http_state k \<noteq> STATE_UPLOAD_REQUEST" by (rule up)
qed

lemma reset_upload_abortable:
  assumes "abortable pl c s" and "\<not> upload_pending s"
  shows "abortable pl c (httpd_reset_upload_state s)"
  using assms by (auto simp: abortable_def httpd_reset_upload_state_def armed_ok_def empty_upload_def conn_of_def)

lemma abortable_upd_total:
  "abortable pl c s \<Longrightarrow> abortable pl c (upd c (\<lambda>h. h\<lparr>upload_total := n\<rparr>) s)"
  by (auto simp: abortable_def upd_def armed_ok_def conn_of_def)

definition own_upload :: "nat \<Rightarrow> httpd \<Rightarrow> httpd" where
  "own_upload c s = led (Led_Off ''blink_led'')
     ((upd c (\<lambda>h. h\<lparr>http_state := STATE_UPLOAD_REQUEST, owns_global := True\<rparr>) s)\<lparr>hs_global := Some c\<rparr>)"

lemma own_upload_abortable:
  assumes "abortable pl c s" shows "abortable pl c (own_upload c s)"
  using assms by (auto simp: abortable_def own_upload_def upd_def led_def armed_ok_def conn_of_def)

lemma own_upload_facts:
  assumes "live c s"
  shows "ram (own_upload c s) = ram s" "upload (own_upload c s) = upload s"
    "upload_pending (own_upload c s) = upload_pending s" "upload_hs (own_upload c s) = upload_hs s"
    "hs_global (own_upload c s) = Some c"
    "http_state (conn_of c (own_upload c s)) = STATE_UPLOAD_REQUEST" "owns_global (conn_of c (own_upload c s))"
  using assms by (auto simp: own_upload_def led_def upd_def conn_of_def)

lemma abortable_misc [simp]:
  "abortable pl c (s\<lparr>reads := n\<rparr>) = abortable pl c s"
  "abortable pl c (s\<lparr>boundary_value := b\<rparr>) = abortable pl c s"
  "abortable pl c (s\<lparr>webfailsafe_data_pointer := p\<rparr>) = abortable pl c s"
  "abortable pl c (s\<lparr>ram := m\<rparr>) = abortable pl c s"
  "abortable pl c (s\<lparr>upload := (upload s)\<lparr>ram_end := e\<rparr>\<rparr>) = abortable pl c s"
  by (simp_all add: abortable_def armed_ok_def conn_of_def)

lemma memset_frame:
  assumes pl: "platform_ok pl"
    and len: "len = (if sdram_end pl < upload_ram pl + ucast (uboot_size pl)
       then sdram_end pl - upload_ram pl else ucast (uboot_size pl) :: u32)"
  shows "unat (upload_ram pl) + unat len \<le> unat (sdram_end pl)"
proof -
  have le: "upload_ram pl \<le> sdram_end pl" and w: "unat (upload_ram pl) + unat (uboot_size pl) < 2 ^ 32"
    using pl by (simp_all add: platform_ok_def)
  have u: "unat (ucast (uboot_size pl) :: u32) = unat (uboot_size pl)"
    using w by (simp add: unsigned_ucast_eq take_bit_nat_eq_self)
  then have "unat (upload_ram pl + ucast (uboot_size pl)) = unat (upload_ram pl) + unat (uboot_size pl)"
    using w by (simp add: unat_word_ariths)
  with le u show ?thesis by (simp add: len word_less_nat_alt word_le_nat_alt unat_sub)
qed

lemma init_ram_upl:
  assumes ab: "abortable pl c s" and pl: "platform_ok pl"
    and c: "http_state (conn_of c s) = STATE_UPLOAD_REQUEST" "owns_global (conn_of c s)" "hs_global s = Some c"
    and b: "boundary_value s \<noteq> None" "\<not> upload_done (upload s)" "\<not> upload_pending s" "upload_hs s = None"
    and r: "httpd_init_upload_ram pl s = (r, s')"
  shows "ram_frame pl s s' \<and> abortable pl c s' \<and> (r \<ge> 0 \<longrightarrow> upl pl c s')"
proof -
  define s1 where "s1 = s\<lparr>webfailsafe_data_pointer := upload_ram pl, upload := (upload s)\<lparr>ram_end := sdram_end pl\<rparr>\<rparr>"
  define len :: u32 where "len = (if sdram_end pl < upload_ram pl + ucast (uboot_size pl)
       then sdram_end pl - upload_ram pl else ucast (uboot_size pl))"
  have ab1: "abortable pl c s1" using ab by (simp add: s1_def abortable_def armed_ok_def conn_of_def)
  show ?thesis
  proof (cases "upload_ram pl = 0")
    case True
    with r have "s' = s1" "r = -1" by (simp_all add: httpd_init_upload_ram_def s1_def)
    with ab1 show ?thesis by (simp add: s1_def ram_frame_refl)
  next
    case False
    with r have s': "s' = s1\<lparr>ram := ram_write (ram s) (upload_ram pl) (replicate (unat len) (CHR 0xFF))\<rparr>"
      by (auto simp: httpd_init_upload_ram_def s1_def Let_def len_def split: if_splits)
    have fr: "ram_frame pl s s'"
      by (rule ram_frame_write [of _ "upload_ram pl" "replicate (unat len) (CHR 0xFF)"])
        (use memset_frame [OF pl len_def] in \<open>simp_all add: s'\<close>)
    have ab': "abortable pl c s'" using ab1 by (simp add: s')
    have rec: "receiving pl s'" using b pl by (simp add: receiving_def s' s1_def platform_ok_def)
    obtain h where h: "conns s' c = Some h" using ab' by (auto simp: abortable_def)
    have cs: "conns s' = conns s" "hs_global s' = Some c" using c by (simp_all add: s' s1_def)
    have hh: "http_state h = STATE_UPLOAD_REQUEST" "owns_global h" using c h cs by (simp_all add: conn_of_def)
    have "owner_ok s'"
      unfolding owner_ok_def cs(2) using ab' h hh unfolding abortable_def by (metis option.inject)
    moreover have "uploads_ok pl s'"
      using ab' h hh rec unfolding uploads_ok_def abortable_def by (metis option.inject)
    ultimately have "upl pl c s'" using ab' h hh by (auto simp: upl_def server_ok_def abortable_def)
    with fr ab' show ?thesis by simp
  qed
qed

lemma parse_boundary_cases:
  assumes "httpd_parse_boundary data s = (r, s')"
  shows "\<exists>n b. s' = s\<lparr>reads := n, boundary_value := b\<rparr> \<and> (r \<ge> 0 \<longrightarrow> b \<noteq> None) \<or> s' = s \<and> r = -1"
  using assms by (auto simp: httpd_parse_boundary_def malloc_def split: option.splits if_splits)

lemma first_packet_safe:
  assumes u: "upl pl c s" and pl: "platform_ok pl" and n: "n < 65536"
    and r_def: "r = (let (found, s) = httpd_findandstore_firstchunk pl c data n s
     in if found then
          let s = set_data_start_found True s
          in if \<not> httpd_check_upload_size c s then (False, s)
             else (True, snd (httpd_check_upload_complete c s))
        else (True, set_data_start_found False s))"
  shows "ram_frame pl s (snd r) \<and> (if fst r then server_ok pl (snd r) else abortable pl c (snd r))"
proof -
  define q where "q = httpd_findandstore_firstchunk pl c data n s"
  have 1: "upstep pl c s (snd q)" unfolding q_def by (rule firstchunk_upstep [OF u pl n])
  have 2: "upstep pl c s (set_data_start_found b (snd q))" for b
    by (rule upstep_trans [OF 1 upstep_found [OF upstep_upl [OF u 1]]])
  have 3: "safe pl s (snd (httpd_check_upload_complete c (set_data_start_found True (snd q))))"
    using check_complete_safe [OF upstep_upl [OF u 2]] 2 [of True]
    by (auto simp: safe_def upstep_def intro: ram_frame_trans)
  have r: "r = (if fst q then if \<not> httpd_check_upload_size c (set_data_start_found True (snd q))
        then (False, set_data_start_found True (snd q))
        else (True, snd (httpd_check_upload_complete c (set_data_start_found True (snd q))))
      else (True, set_data_start_found False (snd q)))"
    unfolding r_def q_def Let_def split_beta by simp
  show ?thesis
    using 2 3 upl_abortable [OF upstep_upl [OF u 2]] upstep_upl [OF u 2]
    by (simp add: r safe_def upstep_def upl_def)
qed

text \<open>From the boundary on, an upload is prepared and its first packet stored.\<close>

lemma post_boundary_safe:
  assumes ab: "abortable pl c s4" and pl: "platform_ok pl" and n: "n < 65536" and ram: "ram s4 = ram s"
    and own: "http_state (conn_of c s4) = STATE_UPLOAD_REQUEST" "owns_global (conn_of c s4)" "hs_global s4 = Some c"
    and bv: "boundary_value s4 \<noteq> None" and clean: "\<not> upload_done (upload s4)" "\<not> upload_pending s4" "upload_hs s4 = None"
    and i: "httpd_init_upload_ram pl s4 = (ri, s5)"
    and r: "r = (if ri < 0 then (False, s5) else
      let (found, s) = httpd_findandstore_firstchunk pl c data n s5
      in if found then
           let s = set_data_start_found True s
           in if \<not> httpd_check_upload_size c s then (False, s)
              else (True, snd (httpd_check_upload_complete c s))
         else (True, set_data_start_found False s))"
  shows "ram_frame pl s (snd r) \<and> (if fst r then server_ok pl (snd r) else abortable pl c (snd r))"
proof -
  note ini = init_ram_upl [OF ab pl own bv clean i]
  show ?thesis
  proof (cases "ri < 0")
    case True
    then show ?thesis using ini ram by (simp add: r ram_frame_def)
  next
    case False
    have fr: "ram_frame pl s s5" using ini ram by (simp add: ram_frame_def)
    have u: "upl pl c s5" using ini False by simp
    show ?thesis
      using first_packet_safe [OF u pl n r [unfolded if_not_P [OF False]]] ram_frame_trans [OF fr] by blast
  qed
qed

lemma recv_post_upload_safe:
  assumes ok: "server_ok pl s" and h: "conns s c = Some h" "http_state h = STATE_NONE"
    and pl: "platform_ok pl" and n: "n < 65536"
    and r_def: "r = recv_post_upload pl c data n s"
  shows "ram_frame pl s (snd r) \<and> (if fst r then server_ok pl (snd r) else abortable pl c (snd r))"
proof (cases "upload_pending s \<or> (hs_global s \<noteq> None \<and> hs_global s \<noteq> Some c)")
  case True
  then have "r = (True, send_const c busy_resp s)" by (simp add: r_def recv_post_upload_def)
  moreover have "safe pl s (send_const c busy_resp s)"
    using h by (intro safe_quiet [OF ok, of c] quiet_send_const quiet_refl) simp
  ultimately show ?thesis by (simp add: safe_def)
next
  case False
  then have busy: "(upload_pending s \<or> (hs_global s \<noteq> None \<and> hs_global s \<noteq> Some c)) = False" by blast
  define s1 where "s1 = httpd_reset_upload_state s"
  have "abortable pl c s" using h False by (intro idle_abortable(1) [OF ok]) auto
  then have ab1: "abortable pl c s1" unfolding s1_def using False by (intro reset_upload_abortable) blast+
  have f1: "ram s1 = ram s" "\<not> upload_done (upload s1)" "\<not> upload_pending s1" "upload_hs s1 = None"
    by (simp_all add: s1_def httpd_reset_upload_state_def empty_upload_def)
  show ?thesis
  proof (cases "content_length data")
    case None
    then have "r = (False, s1)"
      using False by (simp add: r_def recv_post_upload_def Let_def httpd_parse_content_length_def s1_def)
    then show ?thesis using ab1 f1 by (simp add: ram_frame_refl)
  next
    case (Some len)
    define s2 where "s2 = upd c (\<lambda>h. h\<lparr>upload_total := ucast len\<rparr>) s1"
    have ab2: "abortable pl c s2" unfolding s2_def by (rule abortable_upd_total [OF ab1])
    have f2: "ram s2 = ram s" "\<not> upload_done (upload s2)" "\<not> upload_pending s2" "upload_hs s2 = None"
      using f1 ab1 by (auto simp: s2_def upd_def split: option.split)
    define s3 where "s3 = own_upload c s2"
    have lv: "live c s2" using ab2 by (simp add: abortable_def)
    note f3 = own_upload_facts [OF lv, folded s3_def]
    have ab3: "abortable pl c s3" unfolding s3_def by (rule own_upload_abortable [OF ab2])
    obtain rb s4 where b: "httpd_parse_boundary data s3 = (rb, s4)" by fastforce
    from parse_boundary_cases [OF b] have ab4: "abortable pl c s4" and r4: "ram s4 = ram s"
      and f4: "http_state (conn_of c s4) = STATE_UPLOAD_REQUEST" "owns_global (conn_of c s4)" "hs_global s4 = Some c"
        "\<not> upload_done (upload s4)" "\<not> upload_pending s4" "upload_hs s4 = None" "rb \<ge> 0 \<Longrightarrow> boundary_value s4 \<noteq> None"
      using ab3 f3 f2 by (auto simp: conn_of_def)
    obtain ri s5 where i: "httpd_init_upload_ram pl s4 = (ri, s5)" by fastforce
    have r: "r = (if rb < 0 then (False, s4) else if ri < 0 then (False, s5) else
      let (found, s) = httpd_findandstore_firstchunk pl c data n s5
      in if found then
           let s = set_data_start_found True s
           in if \<not> httpd_check_upload_size c s then (False, s)
              else (True, snd (httpd_check_upload_complete c s))
         else (True, set_data_start_found False s))"
      using Some b i unfolding r_def recv_post_upload_def busy if_False
      by (simp add: httpd_parse_content_length_def Let_def s1_def s2_def s3_def own_upload_def)
    show ?thesis
    proof (cases "rb < 0")
      case True
      then show ?thesis using ab4 r4 by (simp add: r ram_frame_refl)
    next
      case False
      then show ?thesis
        using f4(7) r by (intro post_boundary_safe [OF ab4 pl n r4 f4(1-3) _ f4(4-6) i]) simp_all
    qed
  qed
qed

end
