(* ===== verification/ServerProofs.thy ===== *)
theory ServerProofs
  imports HttpdProofs
begin

text \<open>
  The invariant of the web server over whole runs: the backup handlers, every callback of
  \<^verbatim>\<open>failsafe/failsafe_httpd.c\<close> and the chunk reader keep \<open>server_ok\<close> and write RAM only
  between the upload address and the end of RAM. \<open>server\<close> interprets the locale of invariants on
  the callbacks.
\<close>

section \<open>Backups\<close>

lemma ram_avail_fits:
  assumes "platform_ok pl" and "n \<le> unat (ram_avail pl)"
  shows "unat (upload_ram pl) + n \<le> unat (sdram_end pl)"
proof -
  have "unat (upload_ram pl) \<le> unat (sdram_end pl)"
    "unat (ram_avail pl) = unat (sdram_end pl) - unat (upload_ram pl)"
    using assms(1) unat_sub [of "upload_ram pl" "sdram_end pl"]
    by (simp_all add: ram_avail_def platform_ok_def word_le_nat_alt)
  with assms(2) show ?thesis by simp
qed

lemma read_chunk_frame:
  assumes pl: "platform_ok pl" and len: "unat len \<le> unat (ram_avail pl)"
    and r: "read_chunk pl part off len rw ft s = (rd, detail, s')"
  shows "ram_frame pl s s' \<and> (\<exists>m. s' = s\<lparr>ram := m\<rparr>)
    \<and> (case rd of Some n \<Rightarrow> n \<le> unat len | None \<Rightarrow> s' = s)"
proof (cases "flashread pl part off len rw ft")
  case (Pair res d)
  show ?thesis
  proof (cases res)
    case None
    with Pair r have "s' = s" "rd = None" by (auto simp: read_chunk_def)
    then show ?thesis by (cases s) (auto simp: ram_frame_refl)
  next
    case (Some bytes)
    with Pair r have s': "s' = s\<lparr>ram := ram_write (ram s) (upload_ram pl) bytes\<rparr>" and rd: "rd = Some (length bytes)"
      by (simp_all add: read_chunk_def)
    have "length bytes \<le> unat len" using pl Pair Some unfolding platform_ok_def by blast
    then show ?thesis
      using ram_frame_write [of pl "upload_ram pl" bytes s' s] ram_avail_fits [OF pl, of "length bytes"] len s' rd
      by auto
  qed
qed

lemma chunk_len_bound:
  "unat (if ucast (avail :: u32) < (n :: u64) then avail else ucast n :: u32) \<le> unat avail"
proof (cases "ucast avail < n")
  case False
  have "unat (ucast avail :: u64) = unat avail"
  proof -
    have "unat avail < 2 ^ 64" by (rule order_less_trans [OF unat_u32_less]) simp
    then show ?thesis by (simp add: unsigned_ucast_eq take_bit_nat_eq_self)
  qed
  with False have "unat n \<le> unat avail" by (simp add: word_less_nat_alt not_less)
  moreover have "unat (ucast n :: u32) \<le> unat n" by (simp add: unsigned_ucast_eq take_bit_nat_less_eq_self)
  ultimately show ?thesis using False by simp
qed simp

lemma take_over_ok:
  assumes ab: "abortable pl c s" and np: "\<And>d k. conns s d = Some k \<Longrightarrow> http_state k \<noteq> STATE_UPLOAD_REQUEST"
    and s': "s' = (upd c (\<lambda>h. h\<lparr>http_state := STATE_FILE_REQUEST, owns_global := True,
         dataptr := p, hs_upload := n\<rparr>) s)\<lparr>hs_global := Some c\<rparr>"
  shows "server_ok pl s' \<and> live c s'"
proof -
  obtain h where h: "conns s c = Some h" using ab by (auto simp: abortable_def)
  have "owner_ok s'"
    using ab h by (auto simp: owner_ok_def s' upd_def abortable_def)
  moreover have "uploads_ok pl s'"
    using np h by (auto simp: uploads_ok_def s' upd_def split: if_splits)
  ultimately show ?thesis using ab h by (auto simp: server_ok_def abortable_def s' upd_def armed_ok_def)
qed

lemma ram_ok: "server_ok pl (s\<lparr>ram := m\<rparr>) = server_ok pl s"
proof -
  have "receiving pl (s\<lparr>ram := m\<rparr>) = receiving pl s" by (simp add: receiving_def)
  then show ?thesis by (simp add: server_ok_def owner_ok_def uploads_ok_def armed_ok_def)
qed

lemma start_backup_safe:
  assumes ok: "server_ok pl s" and h: "conns s c = Some h" "http_state h \<noteq> STATE_UPLOAD_REQUEST"
    and g: "hs_global s = None \<or> hs_global s = Some c" and pl: "platform_ok pl"
  shows "safe pl s (start_backup pl c part rw ft tot s)"
proof -
  define s1 where "s1 = s\<lparr>backup := (backup s)\<lparr>raw := rw, flash_type := ft, total_size := tot, part_name := part\<rparr>,
                flashread_yield_set := True\<rparr>"
  define fs where "fs = (if ucast (ram_avail pl) < tot then ram_avail pl else ucast tot)"
  obtain rd detail s2 where r: "read_chunk pl part 0 fs rw ft s1 = (rd, detail, s2)" by (metis prod_cases3)
  have fs: "unat fs \<le> unat (ram_avail pl)" unfolding fs_def by (rule chunk_len_bound)
  note rc = read_chunk_frame [OF pl fs r]
  have q1: "quiet c s s1" using h by (simp add: s1_def quiet_refl)
  have ok1: "server_ok pl s1" by (rule quiet_server_ok [OF q1 ok])
  obtain m where s2: "s2 = s1\<lparr>ram := m\<rparr>" using rc by auto
  have ok2: "server_ok pl s2"
    using ok1 by (simp add: s2 ram_ok)
  have fr2: "ram_frame pl s s2" using rc by (simp add: s1_def ram_frame_def)
  have c2: "conns s2 c = Some h" "hs_global s2 = None \<or> hs_global s2 = Some c" using h g by (simp_all add: s2 s1_def)
  show ?thesis
  proof (cases "rd = None \<or> rd = Some 0")
    case True
    then have "start_backup pl c part rw ft tot s = send_buffer c Part_Json_Buf
        (resp_msg ''500 Internal Server Error'' (''Read failed'' @ (if detail \<noteq> [] then '': '' @ detail else []))) s2"
      using r by (simp add: start_backup_def Let_def s1_def fs_def)
    moreover have "safe pl s2 (send_buffer c Part_Json_Buf x s2)" for x
      using c2 by (intro safe_quiet [OF ok2, of c] quiet_send_buffer quiet_refl) simp
    ultimately show ?thesis using fr2 by (auto simp: safe_def intro: ram_frame_trans)
  next
    case False
    note ia = idle_abortable [OF ok2 c2(1) h(2) c2(2)]
    define plan where "plan = backup_plan pl tot (min (of_nat (the rd)) tot) (backup s2)"
    define b where "b = snd plan"
    define hdr where "hdr = backup_header part rw (fst plan)"
    have e: "start_backup pl c part rw ft tot s = send_backup_header c b hdr s2"
      using r False by (cases rd) (simp_all add: start_backup_def Let_def s1_def fs_def split_beta b_def hdr_def plan_def)
    define s3 where "s3 = (upd c (\<lambda>h. h\<lparr>http_state := STATE_FILE_REQUEST, owns_global := True,
        dataptr := Buf Part_Json_Buf 0, hs_upload := of_nat (length hdr)\<rparr>)
        (s2\<lparr>backup := b, bufs := (bufs s2)(Part_Json_Buf := hdr)\<rparr>))\<lparr>hs_global := Some c\<rparr>"
    have ab: "abortable pl c (s2\<lparr>backup := b, bufs := (bufs s2)(Part_Json_Buf := hdr)\<rparr>)"
      using ia(1) by (simp add: abortable_def armed_ok_def conn_of_def)
    have ok3: "server_ok pl s3 \<and> live c s3"
      by (rule take_over_ok [OF ab _ s3_def]) (use ia(2) in simp)
    have r3: "ram s3 = ram s2" by (simp add: s3_def upd_def split: option.split)
    have "safe pl s3 (let s4 = httpd_send_data c s3 in s4\<lparr>backup := (backup s4)\<lparr>sending_header := True\<rparr>\<rparr>)"
      using ok3 by (simp add: Let_def) (intro safe_quiet [of pl s3 c], auto intro: quiet_send_data quiet_refl)
    then show ?thesis
      unfolding e send_backup_header_def Let_def s3_def [symmetric] using fr2 r3 by (auto simp: safe_def ram_frame_def)
  qed
qed

lemma handle_backup_safe:
  assumes ok: "server_ok pl s" and h: "conns s c = Some h" "http_state h \<noteq> STATE_UPLOAD_REQUEST"
    and pl: "platform_ok pl"
  shows "safe pl s (httpd_handle_backup pl c data s)"
proof -
  have q: "safe pl s (send_const c x s)" for x
    using h by (intro safe_quiet [OF ok, of c] quiet_send_const quiet_refl) simp
  have b: "safe pl s (start_backup pl c part rw ft tot s)"
    if "\<not> (upload_pending s \<or> (hs_global s \<noteq> None \<and> hs_global s \<noteq> Some c))" for part rw ft tot
    using that by (intro start_backup_safe [OF ok h _ pl]) auto
  show ?thesis
    unfolding httpd_handle_backup_def Let_def using q b by (simp split: option.split)
qed

section \<open>Every callback\<close>

lemma recv_get_safe:
  assumes ok: "server_ok pl s" and h: "conns s c = Some h" "http_state h \<noteq> STATE_UPLOAD_REQUEST"
    and pl: "platform_ok pl"
  shows "safe pl s (snd (recv_get pl c data n s))"
proof -
  have l: "live c s" using h by simp
  have q: "safe pl s s'" if "quiet c s s'" for s' by (rule safe_quiet [OF ok that])
  have b: "safe pl s (send_buffer c bf x s)" for bf x
    by (rule q) (intro quiet_send_buffer quiet_refl l)
  show ?thesis
    unfolding recv_get_def Let_def
    using q [OF quiet_webterm [OF l]] q [OF quiet_status [OF l]] b handle_backup_safe [OF ok h pl]
      q [OF quiet_led_handler [OF l]] q [OF quiet_btn [OF l]] q [OF quiet_file [OF l]]
    by (simp add: split_beta)
qed

definition settled :: "platform \<Rightarrow> nat \<Rightarrow> httpd \<Rightarrow> bool \<times> httpd \<Rightarrow> bool" where
  "settled pl c s r \<longleftrightarrow> safe pl s (if fst r then snd r else httpd_conn_abort c (snd r))"

lemma settled_quiet: "server_ok pl s \<Longrightarrow> quiet c s s' \<Longrightarrow> settled pl c s (b, s')"
  using safe_quiet [of pl s c s'] safe_abort [of pl s' c] quiet_live [of c s s']
  by (auto simp: settled_def safe_def intro: ram_frame_trans)

lemma recv_post_settled:
  assumes ok: "server_ok pl s" and h: "conns s c = Some h" "http_state h = STATE_NONE" and pl: "platform_ok pl"
    and len: "n < 65536"
  shows "settled pl c s (recv_post pl c data n s)"
proof -
  have l: "live c s" using h by simp
  note q = settled_quiet [OF ok, of c]
  have "settled pl c s (recv_post_upload pl c data n s)"
    using recv_post_upload_safe [OF ok h pl len refl, of data]
      abort_abortable [of pl c "snd (recv_post_upload pl c data n s)"]
    by (auto simp: settled_def safe_def ram_frame_def)
  then show ?thesis
    unfolding recv_post_def Let_def
    using q [OF quiet_webterm [OF l]] q [OF quiet_env_set [OF l]] q [OF quiet_mac_set [OF l]]
    by simp
qed

lemma recv_get_refused:
  "\<not> fst (recv_get pl c data n s) \<Longrightarrow> snd (recv_get pl c data n s) = snd (httpd_handle_file_request pl c data n s)"
  unfolding recv_get_def Let_def by (auto simp: split_beta split: if_splits)

lemma recv_get_settled:
  assumes ok: "server_ok pl s" and h: "conns s c = Some h" "http_state h \<noteq> STATE_UPLOAD_REQUEST"
    and pl: "platform_ok pl"
  shows "settled pl c s (recv_get pl c data n s)"
proof (cases "fst (recv_get pl c data n s)")
  case True
  then show ?thesis using recv_get_safe [OF assms] by (simp add: settled_def)
next
  case False
  then have "snd (recv_get pl c data n s) = snd (httpd_handle_file_request pl c data n s)"
    by (rule recv_get_refused)
  moreover have "quiet c s (snd (httpd_handle_file_request pl c data n s))"
    by (rule quiet_file) (use h in simp)
  ultimately show ?thesis using settled_quiet [OF ok] by (metis prod.collapse)
qed

lemma recv_data_settled:
  assumes ok: "server_ok pl s" and h: "conns s c = Some h" and pl: "platform_ok pl" and len: "n < 65536"
  shows "settled pl c s (recv_data pl c data n s)"
proof (cases "http_state h")
  case STATE_NONE
  then show ?thesis
    using recv_get_settled [OF ok h _ pl, of data n] recv_post_settled [OF ok h _ pl len, of data]
      settled_quiet [OF ok quiet_refl, of c False] h
    by (simp add: recv_data_def conn_of_Some)
next
  case STATE_UPLOAD_REQUEST
  with ok h have u: "upl pl c s" by (auto simp: upl_def server_ok_def uploads_ok_def)
  have "settled pl c s (recv_upload pl c data n s)"
    using recv_upload_safe [OF u pl len, of data] safe_abort [of pl "snd (recv_upload pl c data n s)" c]
    by (auto simp: settled_def safe_def intro: ram_frame_trans)
  then show ?thesis using STATE_UPLOAD_REQUEST h by (simp add: recv_data_def conn_of_Some)
next
  case STATE_FILE_REQUEST
  then show ?thesis using settled_quiet [OF ok quiet_refl, of c True] h
    by (simp add: recv_data_def conn_of_Some)
qed

lemma recv_safe:
  assumes ok: "server_ok pl s" and pl: "platform_ok pl" and len: "\<And>d. p = Some d \<Longrightarrow> length d < 65536"
  shows "safe pl s (httpd_recv pl c p s)"
proof (cases "conns s c")
  case (Some h)
  show ?thesis
  proof (cases p)
    case None
    have "safe pl s (arm_upgrade c s)" "live c (arm_upgrade c s)"
      using arm_upgrade_ok [OF ok] Some by (auto simp: safe_def arm_upgrade_frame intro: ram_frame_refl)
    then show ?thesis using None Some close_conn_ok(1) [of pl "arm_upgrade c s" c]
      by (auto simp: httpd_recv_def safe_def ram_frame_def)
  next
    case (Some d)
    define s1 where "s1 = snd (malloc (upd c (\<lambda>h. h\<lparr>last_activity := fst (HttpdState.get_timer 0 s)\<rparr>) (snd (HttpdState.get_timer 0 s))))"
    define ok1 where "ok1 = fst (malloc (upd c (\<lambda>h. h\<lparr>last_activity := fst (HttpdState.get_timer 0 s)\<rparr>) (snd (HttpdState.get_timer 0 s))))"
    have q: "quiet c s s1"
      using \<open>conns s c = Some h\<close>
      by (simp add: s1_def malloc_def HttpdState.get_timer_def) (intro quiet_upd; simp add: quiet_refl conn_step_def)
    note sok = quiet_server_ok [OF q ok]
    obtain h1 where h1: "conns s1 c = Some h1" using quiet_live [OF q] by auto
    define r where "r = (if ok1 then recv_data pl c (packet_buffer d) (length d) s1 else (False, s1))"
    have "settled pl c s1 r"
      using recv_data_settled [OF sok h1 pl len [OF Some], of "packet_buffer d"]
        settled_quiet [OF sok quiet_refl, of c False] h1 by (simp add: r_def)
    moreover have "httpd_recv pl c p s = (if fst r then snd r else httpd_conn_abort c (snd r))"
      using \<open>conns s c = Some h\<close> Some
      by (simp add: httpd_recv_def r_def s1_def ok1_def Let_def split_beta)
    ultimately show ?thesis using quiet_ram [OF q, of pl]
      by (auto simp: settled_def safe_def intro: ram_frame_trans)
  qed
qed (simp add: httpd_recv_def safe_refl [OF ok])

text \<open>The TCP window of the port is smaller than 64 kB, and so is every packet.\<close>

fun event_ok :: "event \<Rightarrow> bool" where
  "event_ok (Recv c (Some d)) = (length d < 65536)"
| "event_ok _ = True"

lemma callback_safe:
  assumes "server_ok pl s" and "platform_ok pl" and "event_ok e"
  shows "safe pl s (callback pl e s)"
proof (cases e)
  case (Recv c p)
  have "length d < 65536" if "p = Some d" for d using assms(3) Recv that by simp
  then show ?thesis using Recv recv_safe [OF assms(1,2)] by simp
qed (use assms in \<open>simp_all add: accept_safe sent_safe err_safe poll_cb_safe\<close>)

text \<open>The chunk reader of the poll function, with the callbacks that run while it waits.\<close>

lemma callbacks_safe:
  assumes "server_ok pl s" and "platform_ok pl" and "list_all event_ok es"
  shows "safe pl s (fold (callback pl) es s)"
  using assms
proof (induction es arbitrary: s)
  case (Cons e es)
  have "safe pl s (callback pl e s)" using Cons.prems by (intro callback_safe) simp_all
  then show ?case using Cons.IH [of "callback pl e s"] Cons.prems by (auto intro: safe_trans)
qed (simp add: safe_refl)

lemma chunk_next_safe:
  assumes ok: "server_ok pl s" and pl: "platform_ok pl"
    and wait: "\<And>s. server_ok pl s \<Longrightarrow> safe pl s (wait s)"
  shows "safe pl s (backup_chunk_next pl wait s)"
proof -
  define cs where "cs = (if ucast (ram_avail pl) < total_remaining (backup s) then ram_avail pl
      else ucast (total_remaining (backup s)))"
  obtain rd detail s1 where r: "read_chunk pl (part_name (backup s)) (chunk_offset (backup s)) cs
      (raw (backup s)) (flash_type (backup s)) s = (rd, detail, s1)" by (metis prod_cases3)
  have cs: "unat cs \<le> unat (ram_avail pl)" unfolding cs_def by (rule chunk_len_bound)
  note rc = read_chunk_frame [OF pl cs r]
  obtain m where s1: "s1 = s\<lparr>ram := m\<rparr>" using rc by auto
  have bk: "server_ok pl (s'\<lparr>backup := b\<rparr>) = server_ok pl s'" "ram_frame pl s (s'\<lparr>backup := b\<rparr>) = ram_frame pl s s'" for s' b
    by (simp_all add: server_ok_def owner_ok_def uploads_ok_def armed_ok_def receiving_def ram_frame_def)
  have ok1: "server_ok pl s1" using ok by (simp add: s1 ram_ok)
  have fr1: "ram_frame pl s s1" using rc by simp
  have own: "live g s'" if "server_ok pl s'" "hs_global s' = Some g" for s' g
    using that by (auto simp: server_ok_def owner_ok_def)
  have snd_ok: "safe pl s' (httpd_send_data g (upd g (\<lambda>h. h\<lparr>dataptr := p, hs_upload := n\<rparr>) s'))"
    if "server_ok pl s'" "hs_global s' = Some g" for s' g p n
    using own [OF that] by (intro safe_quiet [OF that(1), of g] quiet_send_data quiet_upd quiet_refl) (simp_all add: conn_step_def)
  show ?thesis
  proof (cases "rd \<noteq> None \<and> rd \<noteq> Some 0")
    case True
    define b where "b = chunk_account pl (of_nat (the rd)) (backup s)"
    have e: "backup_chunk_next pl wait s = send_chunk (wait (s1\<lparr>backup := b\<rparr>))"
      using r True by (auto simp: backup_chunk_next_def Let_def cs_def b_def)
    define s2 where "s2 = wait (s1\<lparr>backup := b\<rparr>)"
    have "safe pl (s1\<lparr>backup := b\<rparr>) s2" unfolding s2_def by (rule wait) (simp add: bk ok1)
    then have w: "server_ok pl s2" "ram_frame pl s s2"
      using fr1 by (auto simp: safe_def ram_frame_def)
    show ?thesis
    proof (cases "hs_global s2")
      case None
      then show ?thesis using w by (simp add: e send_chunk_def Let_def s2_def [symmetric] safe_def bk)
    next
      case (Some g)
      note sd = snd_ok [OF w(1) Some]
      show ?thesis
        using sd w Some unfolding e s2_def [symmetric] send_chunk_def Let_def safe_def
        by (simp add: bk) (auto intro: ram_frame_trans)
    qed
  next
    case False
    define s2 where "s2 = s1\<lparr>backup := (backup s1)\<lparr>chunk_busy := False, chunked := False, total_remaining := 0\<rparr>\<rparr>"
    have "backup_chunk_next pl wait s = (case hs_global s2 of Some g \<Rightarrow> httpd_close_conn g s2 | None \<Rightarrow> s2)"
      using r False unfolding s2_def by (auto simp: backup_chunk_next_def Let_def cs_def split: option.split)
    moreover have "server_ok pl s2" "ram_frame pl s s2" using ok1 fr1 by (simp_all add: s2_def bk)
    ultimately show ?thesis using close_conn_ok(1) [of pl s2] own [of s2]
      by (auto simp: safe_def ram_frame_def split: option.split)
  qed
qed

section \<open>Runs of the server\<close>

text \<open>What reaches the server between two upgrades: callbacks, and turns of the chunk reader.\<close>

datatype input = Event event | Chunk "event list"

fun input_ok :: "input \<Rightarrow> bool" where
  "input_ok (Event e) = event_ok e"
| "input_ok (Chunk es) = list_all event_ok es"

fun serve :: "platform \<Rightarrow> input \<Rightarrow> httpd \<Rightarrow> httpd" where
  "serve pl (Event e) s = callback pl e s"
| "serve pl (Chunk es) s =
     (if chunked (backup s) \<and> chunk_busy (backup s) \<and> 0 < total_remaining (backup s)
      then backup_chunk_next pl (httpd_poll_wait pl es) s else s)"

lemma serve_safe:
  assumes "server_ok pl s" and "platform_ok pl" and "input_ok i"
  shows "safe pl s (serve pl i s)"
proof (cases i)
  case (Event e)
  then show ?thesis using callback_safe [of pl s e] assms by simp
next
  case (Chunk es)
  then have "safe pl s' (httpd_poll_wait pl es s')" if "server_ok pl s'" for s'
    using callbacks_safe [OF that assms(2)] assms(3) by (simp add: httpd_poll_wait_def)
  then show ?thesis using Chunk chunk_next_safe [OF assms(1,2)] safe_refl [OF assms(1)] by simp
qed

interpretation server: invariant_machine
  "\<lambda>i s. if input_ok i then serve pl i s else s"
  "\<lambda>s. platform_ok pl \<longrightarrow> server_ok pl s \<and> ram_frame pl s0 s" for pl s0
  by unfold_locales (use serve_safe in \<open>auto simp: safe_def intro: ram_frame_trans\<close>)

lemma fold_valid_inputs:
  "list_all input_ok is \<Longrightarrow> fold (\<lambda>i s. if input_ok i then serve pl i s else s) is s = fold (serve pl) is s"
  by (induction "is" arbitrary: s) simp_all

lemma server_run_safe:
  assumes "platform_ok pl" and "server_ok pl s" and "list_all input_ok is"
  shows "server_ok pl (fold (serve pl) is s) \<and> ram_frame pl s (fold (serve pl) is s)"
  using server.run_inv [of pl s s "is"] assms by (simp add: fold_valid_inputs ram_frame_refl)

end
