(* ===== verification/UploadProofs.thy ===== *)
theory UploadProofs
  imports ServerProofs
begin

text \<open>
  Reassembly of an upload: whatever way TCP cuts the body of the request into packets, the image
  arrives in RAM unchanged. \<open>filling\<close> is the state after \<open>k\<close> bytes of the image and its
  trailing boundary have been received; \<open>holding\<close> is what it says about RAM.
\<close>

lemma of_nat_u32_inject: "m < 2 ^ 32 \<Longrightarrow> n < 2 ^ 32 \<Longrightarrow> (of_nat m :: u32) = of_nat n \<longleftrightarrow> m = n"
  by (metis unat_of_nat_u32)

section \<open>A partly received image\<close>

definition fits :: "platform \<Rightarrow> string \<Rightarrow> string \<Rightarrow> bool" where
  "fits pl file tail \<longleftrightarrow> unat (upload_ram pl) + length file \<le> unat (sdram_end pl)
     \<and> length file + length tail < 2 ^ 32"

definition holding :: "platform \<Rightarrow> nat \<Rightarrow> string \<Rightarrow> string \<Rightarrow> nat \<Rightarrow> httpd \<Rightarrow> bool" where
  "holding pl c file tail j s \<longleftrightarrow>
     (\<exists>h bv. conns s c = Some h \<and> http_state h = STATE_UPLOAD_REQUEST \<and> owns_global h
        \<and> upload_total h = of_nat (length file) \<and> boundary_value s = Some bv \<and> length tail = strlen bv + 6)
     \<and> j \<le> length file \<and> ram_end (upload s) = sdram_end pl
     \<and> webfailsafe_data_pointer s = upload_ram pl + of_nat j
     \<and> ram_bytes (ram s) (upload_ram pl) j = take j file \<and> \<not> failed (upload s)"

definition filling :: "platform \<Rightarrow> nat \<Rightarrow> string \<Rightarrow> string \<Rightarrow> nat \<Rightarrow> httpd \<Rightarrow> bool" where
  "filling pl c file tail k s \<longleftrightarrow> holding pl c file tail (min k (length file)) s
     \<and> hs_upload (conn_of c s) = of_nat k \<and> data_start_found (upload s)"

text \<open>The outside world, the kind of image and what is left to find stay as they are.\<close>

definition same_job :: "nat \<Rightarrow> httpd \<Rightarrow> httpd \<Rightarrow> bool" where
  "same_job c s s' \<longleftrightarrow> orc s' = orc s \<and> webfailsafe_upgrade_type s' = webfailsafe_upgrade_type s
     \<and> hs_upload (conn_of c s') = hs_upload (conn_of c s)
     \<and> data_start_found (upload s') = data_start_found (upload s)"

lemma same_job_refl [simp]: "same_job c s s"
  by (simp add: same_job_def)

lemma same_job_trans: "same_job c a b \<Longrightarrow> same_job c b d \<Longrightarrow> same_job c a d"
  by (simp add: same_job_def)

lemma progress_job: "live c s \<Longrightarrow> same_job c s (httpd_upload_progress pl c s)"
  by (simp add: httpd_upload_progress_def Let_def HttpdState.get_timer_def same_job_def led_def conn_of_def)

lemma progress_holding:
  assumes "holding pl c file tail j s" shows "holding pl c file tail j (httpd_upload_progress pl c s)"
proof -
  have l: "live c s" using assms by (auto simp: holding_def)
  note p = progress_same [OF l, of pl]
  have "boundary_value (httpd_upload_progress pl c s) = boundary_value s"
    "ram_end (upload (httpd_upload_progress pl c s)) = ram_end (upload s)"
    using p(1) by (simp_all add: upsame_def)
  then show ?thesis using assms p by (simp add: holding_def)
qed

lemma holding_upd: "holding pl c file tail j s \<Longrightarrow>
    holding pl c file tail j (upd c (\<lambda>h. h\<lparr>hs_upload := f (hs_upload h)\<rparr>) s)"
  by (auto simp: holding_def upd_def)

text \<open>Storing the next bytes of the image.\<close>

lemma store_chunk_holding:
  assumes f: "holding pl c file tail k s" and fits: "fits pl file tail"
    and bs: "bs = take b (drop k file)" "k + b \<le> length file"
  shows "fst (store_chunk bs s)" and "holding pl c file tail (k + b) (snd (store_chunk bs s))"
    and "same_job c s (snd (store_chunk bs s))"
proof -
  define a where "a = upload_ram pl"
  have len: "length bs = b" using bs by simp
  have p: "webfailsafe_data_pointer s = a + of_nat k" "ram_end (upload s) = sdram_end pl"
    using f bs by (simp_all add: holding_def a_def)
  have "unat a + (k + b) \<le> unat (sdram_end pl)" using fits bs by (simp add: fits_def a_def)
  then have "unat a + (k + b) < 4294967296" using unat_u32_less by (rule le_less_trans)
  then have u: "unat (a + of_nat k + of_nat b) = unat a + (k + b)"
    using unat_plus_small [of a "k + b"] by (simp add: add.assoc)
  have room: "\<not> ram_end (upload s) < webfailsafe_data_pointer s + of_nat (length bs)"
    using fits bs u by (simp add: p len word_less_nat_alt fits_def a_def)
  then show "fst (store_chunk bs s)" "same_job c s (snd (store_chunk bs s))"
    by (simp_all add: store_chunk_def same_job_def conn_of_def)
  define s' where "s' = snd (store_chunk bs s)"
  have s': "s' = s\<lparr>ram := ram_write (ram s) (a + of_nat k) bs, webfailsafe_data_pointer := a + of_nat k + of_nat b\<rparr>"
    using room by (simp add: s'_def store_chunk_def p len)
  have "k + length bs \<le> 2 ^ 32" using fits bs len by (simp add: fits_def)
  from ram_bytes_write_after [OF this, of "ram s" a]
  have "ram_bytes (ram s') a (k + b) = ram_bytes (ram s) a k @ bs" by (simp add: s' len)
  also have "ram_bytes (ram s) a k = take k file" using f by (simp add: holding_def a_def)
  also have "take k file @ bs = take (k + b) file" by (simp add: bs take_add)
  finally have "ram_bytes (ram s') a (k + b) = take (k + b) file" .
  then show "holding pl c file tail (k + b) (snd (store_chunk bs s))"
    unfolding s'_def [symmetric] using f bs(2) by (auto simp: holding_def s' a_def add.assoc)
qed

text \<open>A packet of the body: \<open>data\<close> starts with the next \<open>n\<close> bytes of image and boundary.\<close>

lemma upload_data_holding:
  assumes f: "holding pl c file tail (min k (length file)) s" and fits: "fits pl file tail"
    and p: "take n data = take n (drop k (file @ tail))" "k + n \<le> length file + length tail"
  shows "holding pl c file tail (min (k + n) (length file)) (httpd_handle_upload_data pl c data n s)
    \<and> same_job c s (httpd_handle_upload_data pl c data n s)"
proof -
  define T where "T = length file"
  have T: "T < 2 ^ 32" using fits by (simp add: fits_def T_def)
  obtain h where h: "conns s c = Some h" "upload_total h = of_nat T" using f by (auto simp: holding_def T_def)
  have live: "live c s" using h by simp
  have tot: "upload_total (conn_of c s) = of_nat T" using h by (simp add: conn_of_def)
  have dw: "webfailsafe_data_pointer s - upload_ram pl = of_nat (min k T)" using f by (simp add: holding_def T_def)
  have ord: "((of_nat T :: u32) < of_nat (min k T)) = False" "((of_nat (min k T) :: u32) = of_nat T) = (T \<le> k)"
    "unat (of_nat T :: u32) = T" "unat (of_nat (min k T) :: u32) = min k T"
    using T of_nat_u32_inject [of "min k T" T] by (auto simp: word_less_nat_alt unat_of_nat_u32 min_def)
  show ?thesis
  proof (cases "T \<le> k")
    case True
    then have "httpd_handle_upload_data pl c data n s = httpd_upload_progress pl c s"
      by (simp add: httpd_handle_upload_data_def Let_def tot dw ord)
    moreover have "min k (length file) = min (k + n) (length file)" using True by (simp add: T_def)
    ultimately show ?thesis using progress_holding [OF f] progress_job [OF live] by simp
  next
    case False
    define b where "b = min n (T - k)"
    have mk: "min k T = k" "of_nat k \<noteq> (of_nat T :: u32)" using False ord(2) by (simp_all add: min_def)
    have "(if T < k + n then T - k else n) = b" using False by (auto simp: b_def)
    moreover have "unat (of_nat T - of_nat k :: u32) = T - k"
      using False T by (simp add: unat_sub word_le_nat_alt unat_of_nat_u32)
    ultimately have e: "httpd_handle_upload_data pl c data n s =
        httpd_upload_progress pl c (if 0 < b then snd (store_chunk (take b data) s) else s)"
      using ord by (cases "T < k + n") (simp_all add: httpd_handle_upload_data_def Let_def tot dw mk)
    have "take b data = take b (take n data)" by (simp add: b_def min_def)
    also have "\<dots> = take b (drop k file)" using False by (simp add: p(1) b_def T_def)
    finally have d: "take b data = take b (drop k file)" .
    have kb: "k + b \<le> length file" "min (k + n) (length file) = k + b" using False by (auto simp: b_def T_def)
    have f': "holding pl c file tail k s" using f mk(1) by (simp add: T_def)
    note st = store_chunk_holding [OF f' fits d kb(1)]
    have l2: "live c (snd (store_chunk (take b data) s))" using st(2) by (auto simp: holding_def)
    show ?thesis
      using st f' progress_holding [OF st(2)] progress_holding [OF f'] progress_job [OF live] progress_job [OF l2]
      by (cases "0 < b") (auto simp: e kb(2) intro: same_job_trans)
  qed
qed

lemma recv_upload_filling:
  assumes f: "filling pl c file tail k s" and fits: "fits pl file tail"
    and p: "take n data = take n (drop k (file @ tail))" "k + n \<le> length file + length tail"
    and s1: "s1 = (let s' = upd c (\<lambda>h. h\<lparr>hs_upload := hs_upload h + of_nat n\<rparr>) s in httpd_handle_upload_data pl c data n s')"
  shows "filling pl c file tail (k + n) s1 \<and> orc s1 = orc s \<and> webfailsafe_upgrade_type s1 = webfailsafe_upgrade_type s"
    and "recv_upload pl c data n s = (True, snd (httpd_check_upload_complete c s1))"
proof -
  define s0 where "s0 = upd c (\<lambda>h. h\<lparr>hs_upload := hs_upload h + of_nat n\<rparr>) s"
  have h0: "holding pl c file tail (min k (length file)) s" using f by (simp add: filling_def)
  then obtain h where h: "conns s c = Some h" by (auto simp: holding_def)
  have h1: "holding pl c file tail (min k (length file)) s0"
    unfolding s0_def using holding_upd [OF h0, of "\<lambda>x. x + of_nat n"] .
  have j0: "orc s0 = orc s" "webfailsafe_upgrade_type s0 = webfailsafe_upgrade_type s"
    "hs_upload (conn_of c s0) = of_nat (k + n)" "upload s0 = upload s"
    using f h by (simp_all add: s0_def upd_def filling_def conn_of_def)
  have s1': "s1 = httpd_handle_upload_data pl c data n s0" by (simp add: s1 s0_def Let_def)
  show "filling pl c file tail (k + n) s1 \<and> orc s1 = orc s \<and> webfailsafe_upgrade_type s1 = webfailsafe_upgrade_type s"
    using upload_data_holding [OF h1 fits p] j0 f by (simp add: s1' filling_def same_job_def)
  show "recv_upload pl c data n s = (True, snd (httpd_check_upload_complete c s1))"
    using f j0 by (simp add: recv_upload_def Let_def s1' filling_def holding_def flip: s0_def)
qed

text \<open>The end of the body is noticed exactly when the last byte has arrived.\<close>

lemma check_complete_filling:
  assumes f: "filling pl c file tail k s" and fits: "fits pl file tail" and k: "k \<le> length file + length tail"
  shows "fst (httpd_check_upload_complete c s) = (k = length file + length tail)"
    and "k < length file + length tail \<Longrightarrow> snd (httpd_check_upload_complete c s) = s"
proof -
  obtain h bv where h: "conns s c = Some h" "boundary_value s = Some bv" "upload_total h = of_nat (length file)"
      "length tail = strlen bv + 6" "hs_upload h = of_nat k"
    using f by (auto simp: filling_def holding_def conn_of_def)
  have "unat (of_nat (length file) :: u32) = length file" "unat (of_nat k :: u32) = k"
    using fits k by (simp_all add: fits_def unat_of_nat_u32)
  then show "fst (httpd_check_upload_complete c s) = (k = length file + length tail)"
    "k < length file + length tail \<Longrightarrow> snd (httpd_check_upload_complete c s) = s"
    using h k by (auto simp: httpd_check_upload_complete_def Let_def conn_of_def)
qed

definition received :: "platform \<Rightarrow> nat \<Rightarrow> string \<Rightarrow> httpd \<Rightarrow> bool" where
  "received pl c file s \<longleftrightarrow> ram_bytes (ram s) (upload_ram pl) (length file) = file
     \<and> unat (net_boot_file_size s) = length file \<and> upload_pending s \<and> upload_hs s = Some c
     \<and> upload_done (upload s) \<and> \<not> failed (upload s)
     \<and> (\<exists>h. conns s c = Some h \<and> http_state h = STATE_FILE_REQUEST)"

lemma send_static_frame:
  assumes "conns s c = Some h"
  shows "ram (httpd_send_static c p n s) = ram s" "upload (httpd_send_static c p n s) = upload s"
    "net_boot_file_size (httpd_send_static c p n s) = net_boot_file_size s"
    "upload_pending (httpd_send_static c p n s) = upload_pending s"
    "upload_hs (httpd_send_static c p n s) = upload_hs s"
    "webfailsafe_upgrade_type (httpd_send_static c p n s) = webfailsafe_upgrade_type s"
    "orc (httpd_send_static c p n s) = orc s"
    "\<exists>h. conns (httpd_send_static c p n s) c = Some h \<and> http_state h = STATE_FILE_REQUEST"
  using assms by (simp_all add: httpd_send_static_def httpd_send_data_def upd_def Let_def split_beta)

lemma complete_received:
  assumes f: "filling pl c file tail (length file + length tail) s" and fits: "fits pl file tail"
  shows "received pl c file (snd (httpd_check_upload_complete c s))"
    and "webfailsafe_upgrade_type (snd (httpd_check_upload_complete c s)) = webfailsafe_upgrade_type s"
proof -
  obtain h where h: "conns s c = Some h" "upload_total h = of_nat (length file)"
    using f by (auto simp: filling_def holding_def)
  have ram: "ram_bytes (ram s) (upload_ram pl) (length file) = file" and nf: "\<not> failed (upload s)"
    using f by (simp_all add: filling_def holding_def)
  define s1 where "s1 = httpd_upload_complete c s"
  define s2 where "s2 = httpd_state_reset c s1"
  have 1: "conns s1 c = Some h" "ram s1 = ram s" "upload_pending s1" "upload_hs s1 = Some c"
    "upload_done (upload s1)" "\<not> failed (upload s1)" "net_boot_file_size s1 = of_nat (length file)"
    "webfailsafe_upgrade_type s1 = webfailsafe_upgrade_type s"
    using h nf by (simp_all add: s1_def httpd_upload_complete_def led_def Let_def conn_of_def)
  note r = state_reset_facts [OF 1(1) s2_def]
  obtain h2 where h2: "conns s2 c = Some h2" using r(1) by auto
  have "fst (httpd_check_upload_complete c s)"
    using check_complete_filling(1) [OF f fits] by simp
  then have e: "snd (httpd_check_upload_complete c s) = httpd_send_static c (Const resp_ok) (of_nat (length resp_ok)) s2"
    using 1 r by (auto simp: httpd_check_upload_complete_def Let_def s1_def [symmetric] s2_def [symmetric] split: if_splits)
  have "unat (of_nat (length file) :: u32) = length file" using fits by (simp add: fits_def unat_of_nat_u32)
  then show "received pl c file (snd (httpd_check_upload_complete c s))"
    "webfailsafe_upgrade_type (snd (httpd_check_upload_complete c s)) = webfailsafe_upgrade_type s"
    unfolding e received_def using send_static_frame [OF h2] 1 r ram by simp_all
qed

section \<open>The packets of the body\<close>

lemma filling_touch:
  assumes "filling pl c file tail k s"
  shows "filling pl c file tail k ((upd c (\<lambda>h. h\<lparr>last_activity := t\<rparr>) s)\<lparr>reads := n\<rparr>)"
  using assms by (auto simp: filling_def holding_def upd_def conn_of_def)

lemma touch_facts [simp]:
  "orc ((upd c f s)\<lparr>reads := n\<rparr>) = orc s"
  "webfailsafe_upgrade_type ((upd c f s)\<lparr>reads := n\<rparr>) = webfailsafe_upgrade_type s"
  by (simp_all add: upd_def split: option.split)

text \<open>What \<^verbatim>\<open>httpd_recv\<close> does before it looks at a packet, when memory is available.\<close>

definition touched :: "nat \<Rightarrow> httpd \<Rightarrow> httpd" where
  "touched c s = (upd c (\<lambda>h. h\<lparr>last_activity := timer (orc s) (reads s)\<rparr>) s)\<lparr>reads := Suc (Suc (reads s))\<rparr>"

lemma recv_touched:
  assumes "conns s c = Some h" and "\<And>i. malloc_ok (orc s) i"
  shows "httpd_recv pl c (Some d) s =
    (let r = recv_data pl c (packet_buffer d) (length d) (touched c s)
     in if fst r then snd r else httpd_conn_abort c (snd r))"
proof -
  have "upd c f (s\<lparr>reads := n\<rparr>) = (upd c f s)\<lparr>reads := n\<rparr>" for f n using assms(1) by (simp add: upd_def)
  then show ?thesis using assms
    by (simp add: httpd_recv_def malloc_def HttpdState.get_timer_def Let_def split_beta touched_def upd_def)
qed

lemma recv_filling:
  assumes f: "filling pl c file tail k s" and fits: "fits pl file tail" and m: "\<And>i. malloc_ok (orc s) i"
    and p: "p = take (length p) (drop k (file @ tail))" "k + length p \<le> length file + length tail"
    and s': "s' = httpd_recv pl c (Some p) s"
  shows "if k + length p < length file + length tail
    then filling pl c file tail (k + length p) s' \<and> orc s' = orc s
      \<and> webfailsafe_upgrade_type s' = webfailsafe_upgrade_type s
    else received pl c file s' \<and> webfailsafe_upgrade_type s' = webfailsafe_upgrade_type s"
proof -
  define s0 where "s0 = touched c s"
  have f0: "filling pl c file tail k s0" unfolding s0_def touched_def by (rule filling_touch [OF f])
  have c0: "orc s0 = orc s" "webfailsafe_upgrade_type s0 = webfailsafe_upgrade_type s"
    by (simp_all add: s0_def touched_def)
  obtain h where h: "conns s c = Some h" using f by (auto simp: filling_def holding_def)
  obtain h0 where h0: "conns s0 c = Some h0" "http_state h0 = STATE_UPLOAD_REQUEST"
    using f0 by (auto simp: filling_def holding_def)
  define s1 where "s1 = (let s' = upd c (\<lambda>h. h\<lparr>hs_upload := hs_upload h + of_nat (length p)\<rparr>) s0
      in httpd_handle_upload_data pl c (packet_buffer p) (length p) s')"
  have d: "take (length p) (packet_buffer p) = take (length p) (drop k (file @ tail))"
    using p(1) by (simp add: packet_buffer_def)
  note r = recv_upload_filling [OF f0 fits d p(2) s1_def]
  have e: "s' = snd (httpd_check_upload_complete c s1)"
    using recv_touched [OF h m] r(2) h0 by (simp add: s' s0_def [symmetric] recv_data_def conn_of_def Let_def)
  have f1: "filling pl c file tail (k + length p) s1" using r(1) by simp
  show ?thesis
  proof (cases "k + length p < length file + length tail")
    case True
    then show ?thesis using check_complete_filling(2) [OF f1 fits p(2) True] r(1) c0 by (simp add: e)
  next
    case False
    then have "filling pl c file tail (length file + length tail) s1" using p(2) f1 by simp
    then show ?thesis using complete_received [OF _ fits] r(1) c0 False by (simp add: e)
  qed
qed

lemma upload_body_received:
  assumes f: "filling pl c file tail k s" and fits: "fits pl file tail" and m: "\<And>i. malloc_ok (orc s) i"
    and ps: "concat ps = drop k (file @ tail)" "[] \<notin> set ps" and k: "k < length file + length tail"
  shows "received pl c file (fold (\<lambda>p. httpd_recv pl c (Some p)) ps s)
    \<and> webfailsafe_upgrade_type (fold (\<lambda>p. httpd_recv pl c (Some p)) ps s) = webfailsafe_upgrade_type s"
  using f m ps k
proof (induction ps arbitrary: k s)
  case (Cons p ps)
  define s' where "s' = httpd_recv pl c (Some p) s"
  have len: "length (drop k (file @ tail)) = length p + length (concat ps)" using Cons.prems(3) by (metis concat.simps(2) length_append)
  have pp: "p = take (length p) (drop k (file @ tail))" using Cons.prems(3) by (metis append_eq_conv_conj concat.simps(2))
  have rest: "concat ps = drop (k + length p) (file @ tail)"
    using Cons.prems(3) by (metis append_eq_conv_conj concat.simps(2) drop_drop add.commute)
  have le: "k + length p \<le> length file + length tail" using len Cons.prems(5) by simp
  note r = recv_filling [OF Cons.prems(1) fits Cons.prems(2) pp le s'_def]
  show ?case
  proof (cases "k + length p < length file + length tail")
    case True
    with r have "filling pl c file tail (k + length p) s'" "orc s' = orc s"
      "webfailsafe_upgrade_type s' = webfailsafe_upgrade_type s" by simp_all
    then show ?thesis using Cons.IH [of "k + length p" s'] Cons.prems(2,4) rest True by (simp add: s'_def)
  next
    case False
    then have "concat ps = []" using rest le by simp
    then have "ps = []" using Cons.prems(4) by (cases ps) auto
    then show ?thesis using r False by (simp add: s'_def)
  qed
qed auto

section \<open>The first chunk\<close>

text \<open>
  A packet with the multipart header: the image data of type \<open>t\<close> starts at \<open>e\<close>, and
  \<open>ov\<close> bytes of the announced length are boundaries and headers.
\<close>

definition part_header :: "string \<Rightarrow> string \<Rightarrow> nat \<Rightarrow> upgrade_type \<Rightarrow> nat \<Rightarrow> string \<Rightarrow> bool" where
  "part_header bv data n t ov e \<longleftrightarrow>
     (\<exists>start name e0. strstr data bv = Some start \<and> find_type upload_types start = Some (name, t)
        \<and> strstr (the (strstr start name)) crlf2 = Some e0 \<and> length data - length e0 < n
        \<and> e = drop 4 e0 \<and> ov = length start - length e + strlen bv + 6)"

text \<open>An upload whose first byte is still to come.\<close>

definition awaiting :: "platform \<Rightarrow> nat \<Rightarrow> string \<Rightarrow> nat \<Rightarrow> httpd \<Rightarrow> bool" where
  "awaiting pl c bv tot s \<longleftrightarrow>
     (\<exists>h. conns s c = Some h \<and> http_state h = STATE_UPLOAD_REQUEST \<and> owns_global h \<and> upload_total h = of_nat tot)
     \<and> boundary_value s = Some bv \<and> ram_end (upload s) = sdram_end pl
     \<and> webfailsafe_data_pointer s = upload_ram pl \<and> \<not> failed (upload s) \<and> \<not> file_too_big (upload s)"

definition image_ok :: "platform \<Rightarrow> upgrade_type \<Rightarrow> string \<Rightarrow> bool" where
  "image_ok pl t file \<longleftrightarrow> (case max_size pl t of Some m \<Rightarrow> length file \<le> unat m | None \<Rightarrow> True)
     \<and> (if t = CDT then 184 else 10240) \<le> length file"

lemma store_first_filling:
  assumes a: "awaiting pl c bv (ov + length file) s" and fits: "fits pl file tail"
    and ov: "ov + length file < 2 ^ 32" and img: "image_ok pl t file"
    and tail: "length tail = strlen bv + 6"
    and e: "take r e = take r (file @ tail)" "r \<le> length file + length tail"
    and res: "store_first pl c t ov e r s = (ok, s')"
  shows "ok" and "holding pl c file tail (min r (length file)) s'" and "hs_upload (conn_of c s') = of_nat r"
    and "orc s' = orc s" and "webfailsafe_upgrade_type s' = webfailsafe_upgrade_type s"
proof -
  define T where "T = length file"
  obtain h where h: "conns s c = Some h" "upload_total h = of_nat (ov + T)" "http_state h = STATE_UPLOAD_REQUEST"
      "owns_global h" using a by (auto simp: awaiting_def T_def)
  have small: "T < 2 ^ 32" "r < 2 ^ 32" using fits e(2) by (simp_all add: fits_def T_def)
  have tot: "\<not> unat (upload_total (conn_of c s)) < ov"
    using ov h unat_of_nat_u32 [of "ov + T"] by (simp add: conn_of_def T_def)
  define s1 where "s1 = upd c (\<lambda>h. h\<lparr>upload_total := upload_total h - of_nat ov\<rparr>) s"
  have t1: "upload_total (conn_of c s1) = of_nat T" using h by (simp add: s1_def upd_def conn_of_def)
  define s3 where "s3 = upd c (\<lambda>h. h\<lparr>hs_upload := of_nat r\<rparr>) s1"
  have nb: "\<not> file_too_big (upload s3)" using a h by (simp add: s3_def s1_def upd_def awaiting_def)
  have h3: "hs_upload (conn_of c s3) = of_nat r" "upload_total (conn_of c s3) = of_nat T"
    using h t1 by (simp_all add: s3_def s1_def upd_def conn_of_def)
  have ho: "holding pl c file tail 0 s3"
    using a h tail by (auto simp: s3_def s1_def upd_def holding_def awaiting_def T_def ram_bytes_def)
  define b where "b = min r T"
  have fd: "unat (min (of_nat r) (of_nat T) :: u32) = b"
    using small by (auto simp: b_def min_def word_le_nat_alt unat_of_nat_u32)
  have "take b e = take b (take r e)" by (simp add: b_def min_def)
  also have "\<dots> = take b (drop 0 file)" by (simp add: e(1) b_def T_def min_def)
  finally have tb: "take b e = take b (drop 0 file)" .
  note st = store_chunk_holding [OF ho fits tb]
  have bl: "0 + b \<le> length file" by (simp add: b_def T_def)
  define s4 where "s4 = snd (store_chunk (take b e) s3)"
  have h4: "holding pl c file tail b s4" using st(2) [OF bl] by (simp add: s4_def)
  define s5 where "s5 = s4\<lparr>reads := Suc (reads s4), upload := (upload s4)\<lparr>start_time := timer (orc s4) (reads s4)\<rparr>\<rparr>"
  have h5: "holding pl c file tail b s5" using h4 by (simp add: s5_def holding_def)
  have mx: "(case max_size pl t of Some m \<Rightarrow> if m < ucast (upload_total (conn_of c s1)) then fail_upload True s1 else s1
      | None \<Rightarrow> s1) = s1"
    using img small by (auto simp: image_ok_def t1 word_less_nat_alt unsigned_ucast_eq unat_of_nat_u32
        take_bit_nat_eq_self T_def split: option.split)
  have r: "store_first pl c t ov e r s = (True, httpd_upload_progress pl c s5)"
    using tot mx nb st(1) [OF bl]
    by (simp add: store_first_def Let_def s1_def [symmetric] s3_def [symmetric] h3 fd split_beta
        s4_def [symmetric] HttpdState.get_timer_def s5_def)
  have l5: "live c s5" using h5 by (auto simp: holding_def)
  have j: "same_job c s3 s5" using st(3) [OF bl] by (simp add: s5_def s4_def same_job_def conn_of_def)
  note fin = progress_holding [OF h5] progress_job [OF l5, of pl] j
  have s3s: "orc s3 = orc s" "webfailsafe_upgrade_type s3 = webfailsafe_upgrade_type s"
    using h by (simp_all add: s3_def s1_def upd_def)
  show "ok" "holding pl c file tail (min r (length file)) s'" "hs_upload (conn_of c s') = of_nat r"
    "orc s' = orc s" "webfailsafe_upgrade_type s' = webfailsafe_upgrade_type s"
    using fin r res h3 s3s by (auto simp: same_job_def b_def T_def)
qed

lemma awaiting_set_type: "awaiting pl c bv tot s \<Longrightarrow> awaiting pl c bv tot (set_upgrade_type t st s)"
  by (auto simp: awaiting_def set_upgrade_type_def)

lemma firstchunk_filling:
  assumes a: "awaiting pl c bv (ov + length file) s" and fits: "fits pl file tail"
    and ov: "ov + length file < 2 ^ 32" and img: "image_ok pl t file" and tail: "length tail = strlen bv + 6"
    and hd: "part_header bv data n t ov e" and r: "r = n - (length data - length e)"
    and e: "take r e = take r (file @ tail)" "r \<le> length file + length tail"
    and res: "httpd_findandstore_firstchunk pl c data n s = (ok, s1)"
    and s2: "s2 = set_data_start_found True s1"
  shows "ok" and "filling pl c file tail r s2" and "orc s2 = orc s" and "webfailsafe_upgrade_type s2 = t"
    and "httpd_check_upload_size c s2"
proof -
  obtain start name e0 where hdr: "strstr data bv = Some start" "find_type upload_types start = Some (name, t)"
      "strstr (the (strstr start name)) crlf2 = Some e0" "length data - length e0 < n" "e = drop 4 e0"
      "ov = length start - length e + strlen bv + 6"
    using hd by (auto simp: part_header_def)
  define s0 where "s0 = set_upgrade_type t start s"
  have a0: "awaiting pl c bv (ov + length file) s0" unfolding s0_def by (rule awaiting_set_type [OF a])
  have j0: "orc s0 = orc s" "webfailsafe_upgrade_type s0 = t" by (simp_all add: s0_def set_upgrade_type_def)
  have bv: "boundary_value s = Some bv" using a by (simp add: awaiting_def)
  have "store_first pl c t ov e r s0 = (ok, s1)"
    using res hdr bv r by (simp add: httpd_findandstore_firstchunk_def Let_def s0_def)
  note f = store_first_filling [OF a0 fits ov img tail e this]
  show "ok" by (rule f(1))
  show 2: "filling pl c file tail r s2"
    using f(2,3) by (simp add: filling_def s2 set_data_start_found_def holding_def conn_of_def)
  show 3: "orc s2 = orc s" "webfailsafe_upgrade_type s2 = t"
    using f(4,5) j0 by (simp_all add: s2 set_data_start_found_def)
  have "upload_total (conn_of c s2) = of_nat (length file)" using 2 by (auto simp: filling_def holding_def conn_of_def)
  moreover have "unat (of_nat (length file) :: u32) = length file" using fits by (simp add: fits_def unat_of_nat_u32)
  ultimately show "httpd_check_upload_size c s2"
    using img 3 by (auto simp: httpd_check_upload_size_def Let_def image_ok_def word_less_nat_alt split: if_splits)
qed

text \<open>The packet that carries the first chunk, as either case of \<^verbatim>\<open>httpd_recv\<close> treats it.\<close>

lemma first_packet_filling:
  assumes f: "filling pl c file tail r s2" and fits: "fits pl file tail" and le: "r \<le> length file + length tail"
  shows "if r < length file + length tail
    then snd (httpd_check_upload_complete c s2) = s2
    else received pl c file (snd (httpd_check_upload_complete c s2))
      \<and> webfailsafe_upgrade_type (snd (httpd_check_upload_complete c s2)) = webfailsafe_upgrade_type s2"
proof (cases "r < length file + length tail")
  case True
  then show ?thesis using check_complete_filling(2) [OF f fits le] by simp
next
  case False
  then have "filling pl c file tail (length file + length tail) s2" using f le by simp
  then show ?thesis using complete_received [OF _ fits] False by simp
qed

text \<open>All packets from the one with the multipart header on.\<close>

lemma packets_received:
  assumes s': "s' = snd (httpd_check_upload_complete c s2)"
    and f: "filling pl c file tail r s2" and fits: "fits pl file tail" and le: "r \<le> length file + length tail"
    and m: "\<And>i. malloc_ok (orc s2) i" and ps: "concat ps = drop r (file @ tail)" "[] \<notin> set ps"
  shows "received pl c file (fold (\<lambda>p. httpd_recv pl c (Some p)) ps s')
    \<and> webfailsafe_upgrade_type (fold (\<lambda>p. httpd_recv pl c (Some p)) ps s') = webfailsafe_upgrade_type s2"
proof (cases "r < length file + length tail")
  case True
  then have "s' = s2" using first_packet_filling [OF f fits le] s' by simp
  with upload_body_received [OF f fits m ps True] show ?thesis by simp
next
  case False
  then have "concat ps = []" using ps le by simp
  then have "ps = []" using ps(2) by (cases ps) auto
  with False first_packet_filling [OF f fits le] s' show ?thesis by simp
qed

lemma awaiting_touch: "awaiting pl c bv tot s \<Longrightarrow> awaiting pl c bv tot (touched c s)"
  by (auto simp: awaiting_def touched_def upd_def)

text \<open>The multipart header in a packet of its own, after the POST request.\<close>

lemma upload_after_post:
  assumes a: "awaiting pl c bv (ov + length file) s" "\<not> data_start_found (upload s)" and fits: "fits pl file tail"
    and ov: "ov + length file < 2 ^ 32" and img: "image_ok pl t file" and tail: "length tail = strlen bv + 6"
    and m: "\<And>i. malloc_ok (orc s) i"
    and hd: "part_header bv (packet_buffer p) (length p) t ov e" and r: "r = length p - (length (packet_buffer p) - length e)"
    and e: "take r e = take r (file @ tail)" "r \<le> length file + length tail"
    and ps: "concat ps = drop r (file @ tail)" "[] \<notin> set ps"
    and s': "s' = fold (\<lambda>p. httpd_recv pl c (Some p)) (p # ps) s"
  shows "received pl c file s' \<and> webfailsafe_upgrade_type s' = t"
proof -
  define s0 where "s0 = touched c s"
  have a0: "awaiting pl c bv (ov + length file) s0" unfolding s0_def by (rule awaiting_touch [OF a(1)])
  have o0: "orc s0 = orc s" "\<not> data_start_found (upload s0)"
    using a by (auto simp: s0_def touched_def upd_def split: option.split)
  obtain ok s1 where fc: "httpd_findandstore_firstchunk pl c (packet_buffer p) (length p) s0 = (ok, s1)"
    by (cases "httpd_findandstore_firstchunk pl c (packet_buffer p) (length p) s0") auto
  define s2 where "s2 = set_data_start_found True s1"
  note f = firstchunk_filling [OF a0 fits ov img tail hd r e fc s2_def]
  obtain h h0 where h: "conns s c = Some h" and h0: "conns s0 c = Some h0" "http_state h0 = STATE_UPLOAD_REQUEST"
    using a a0 by (auto simp: awaiting_def)
  have "httpd_recv pl c (Some p) s = snd (httpd_check_upload_complete c s2)"
    using recv_touched [OF h m] fc f(1,5) h0 o0
    by (simp add: s0_def [symmetric] recv_data_def conn_of_def Let_def recv_upload_def s2_def)
  from packets_received [OF this f(2) fits e(2) _ ps] m f(3,4) o0 show ?thesis by (simp add: s')
qed

section \<open>The request\<close>

text \<open>The POST request that announces \<open>tot\<close> bytes of body with boundary \<open>b\<close>.\<close>

definition upload_request :: "string \<Rightarrow> nat \<Rightarrow> string \<Rightarrow> bool" where
  "upload_request data tot b \<longleftrightarrow>
     strncmp data ''POST'' 4 = 0 \<and> is_http_method_separator (at data 4)
     \<and> strncmp (drop 5 data) ''/webterm'' 8 \<noteq> 0 \<and> strncmp (drop 5 data) ''/env_set'' 8 \<noteq> 0
     \<and> strncmp (drop 5 data) ''/mac_set'' 8 \<noteq> 0
     \<and> content_length data = Some (of_nat tot) \<and> tot < 2 ^ 32 \<and> boundary_text data = Some b"

text \<open>A connection that has sent nothing yet, on a server that is free.\<close>

definition free_for :: "nat \<Rightarrow> httpd \<Rightarrow> bool" where
  "free_for c s \<longleftrightarrow> (\<exists>h. conns s c = Some h \<and> http_state h = STATE_NONE)
     \<and> \<not> upload_pending s \<and> (hs_global s = None \<or> hs_global s = Some c)"

lemma ucast_of_nat_u32: "tot < 2 ^ 32 \<Longrightarrow> (ucast (of_nat tot :: u64) :: u32) = of_nat tot"
  by (simp add: word_unat_eq_iff unsigned_ucast_eq unsigned_of_nat take_bit_nat_eq_self)

lemma post_awaiting:
  assumes fr: "free_for c s" and rq: "upload_request data tot b" and ram: "upload_ram pl \<noteq> 0"
    and m: "\<And>i. malloc_ok (orc s) i"
  obtains s1 where "awaiting pl c (''--'' @ b) tot s1" and "orc s1 = orc s"
    and "recv_data pl c data n s = (let (found, s2) = httpd_findandstore_firstchunk pl c data n s1
       in if found then
            let s3 = set_data_start_found True s2
            in if \<not> httpd_check_upload_size c s3 then (False, s3) else (True, snd (httpd_check_upload_complete c s3))
          else (True, set_data_start_found False s2))"
proof -
  obtain h where h: "conns s c = Some h" "http_state h = STATE_NONE" using fr by (auto simp: free_for_def)
  define s0 where "s0 = (upd c (\<lambda>h. h\<lparr>http_state := STATE_UPLOAD_REQUEST, owns_global := True\<rparr>)
      (upd c (\<lambda>h. h\<lparr>upload_total := of_nat tot\<rparr>) (httpd_reset_upload_state s)))\<lparr>hs_global := Some c\<rparr>"
  define s1 where "s1 = (led (Led_Off ''blink_led'') s0)\<lparr>reads := Suc (reads s0), boundary_value := Some (''--'' @ b)\<rparr>"
  define s2 where "s2 = snd (httpd_init_upload_ram pl s1)"
  have i: "httpd_init_upload_ram pl s1 = (0, s2)" using ram by (simp add: s2_def httpd_init_upload_ram_def Let_def)
  have k: "upd c f (upd c g (httpd_reset_upload_state s)) = (httpd_reset_upload_state s)\<lparr>conns := (conns s)(c \<mapsto> f (g h))\<rparr>" for f g
    using h by (simp add: upd_def httpd_reset_upload_state_def)
  have o: "orc s0 = orc s" unfolding s0_def k by (simp add: httpd_reset_upload_state_def)
  have cl: "httpd_parse_content_length c data (httpd_reset_upload_state s) = (0, upd c (\<lambda>h. h\<lparr>upload_total := of_nat tot\<rparr>) (httpd_reset_upload_state s))"
    using rq by (simp add: httpd_parse_content_length_def upload_request_def ucast_of_nat_u32)
  have bd: "httpd_parse_boundary data (led (Led_Off ''blink_led'') s0) = (0, s1)"
    using rq m o by (simp add: httpd_parse_boundary_def upload_request_def malloc_def s1_def led_def)
  have post: "recv_post_upload pl c data n s = (let (found, s3) = httpd_findandstore_firstchunk pl c data n s2
       in if found then
            let s4 = set_data_start_found True s3
            in if \<not> httpd_check_upload_size c s4 then (False, s4) else (True, snd (httpd_check_upload_complete c s4))
          else (True, set_data_start_found False s3))"
    using fr by (elim free_for_def [THEN iffD1, elim_format] conjE disjE)
      (simp_all add: recv_post_upload_def cl s0_def [symmetric] bd i Let_def)
  have ge: "strncmp data ''GET'' 3 \<noteq> 0" 
  proof -
    have "strncmp data ''POST'' 4 = 0 \<longleftrightarrow> prefix ''POST'' data" "strncmp data ''GET'' 3 = 0 \<longleftrightarrow> prefix ''GET'' data"
      using strncmp_eq_prefix [of "''POST''" data] strncmp_eq_prefix [of "''GET''" data]
      by (simp_all add: eval_nat_numeral del: strncmp.simps)
    then show ?thesis using rq by (auto simp: upload_request_def prefix_def simp del: strncmp.simps)
  qed
  have "recv_data pl c data n s = recv_post_upload pl c data n s"
    using rq h ge by (simp add: recv_data_def conn_of_def recv_post_def upload_request_def Let_def)
  moreover have "awaiting pl c (''--'' @ b) tot s2" "orc s2 = orc s"
    unfolding s2_def s1_def s0_def k
    by (simp_all add: awaiting_def httpd_init_upload_ram_def led_def Let_def httpd_reset_upload_state_def empty_upload_def)
  ultimately show thesis using that post by simp
qed

text \<open>Every packet of an upload whose request carries the multipart header.\<close>

lemma upload_with_post:
  assumes fr: "free_for c s" and rq: "upload_request (packet_buffer p) (ov + length file) b"
    and ram: "upload_ram pl \<noteq> 0" and m: "\<And>i. malloc_ok (orc s) i"
    and fits: "fits pl file tail" and img: "image_ok pl t file" and tail: "length tail = strlen (''--'' @ b) + 6"
    and hd: "part_header (''--'' @ b) (packet_buffer p) (length p) t ov e"
    and r: "r = length p - (length (packet_buffer p) - length e)"
    and e: "take r e = take r (file @ tail)" "r \<le> length file + length tail"
    and ps: "concat ps = drop r (file @ tail)" "[] \<notin> set ps"
    and s': "s' = fold (\<lambda>p. httpd_recv pl c (Some p)) (p # ps) s"
  shows "received pl c file s' \<and> webfailsafe_upgrade_type s' = t"
proof -
  define s0 where "s0 = touched c s"
  obtain h where h: "conns s c = Some h" using fr by (auto simp: free_for_def)
  have fr0: "free_for c s0" using fr by (auto simp: s0_def touched_def free_for_def upd_def)
  have o0: "orc s0 = orc s" by (simp add: s0_def touched_def)
  have m0: "malloc_ok (orc s0) i" for i by (simp add: o0 m)
  obtain s1 where a1: "awaiting pl c (''--'' @ b) (ov + length file) s1" and o1: "orc s1 = orc s0"
    and d: "recv_data pl c (packet_buffer p) (length p) s0 = (let (found, s2) = httpd_findandstore_firstchunk pl c (packet_buffer p) (length p) s1
       in if found then
            let s3 = set_data_start_found True s2
            in if \<not> httpd_check_upload_size c s3 then (False, s3) else (True, snd (httpd_check_upload_complete c s3))
          else (True, set_data_start_found False s2))"
    by (rule post_awaiting [OF fr0 rq ram m0])
  obtain ok s2 where fc: "httpd_findandstore_firstchunk pl c (packet_buffer p) (length p) s1 = (ok, s2)"
    by (cases "httpd_findandstore_firstchunk pl c (packet_buffer p) (length p) s1") auto
  define s3 where "s3 = set_data_start_found True s2"
  have ov: "ov + length file < 2 ^ 32" using rq by (simp add: upload_request_def)
  note f = firstchunk_filling [OF a1 fits ov img tail hd r e fc s3_def]
  have "httpd_recv pl c (Some p) s = snd (httpd_check_upload_complete c s3)"
    using recv_touched [OF h m] fc f(1,5) by (simp add: d s0_def [symmetric] Let_def s3_def)
  from packets_received [OF this f(2) fits e(2) _ ps] m f(3,4) o0 o1 show ?thesis by (simp add: s')
qed

text \<open>A request packet that ends before the multipart header.\<close>

lemma post_alone:
  assumes fr: "free_for c s" and rq: "upload_request (packet_buffer p) tot b" and ram: "upload_ram pl \<noteq> 0"
    and m: "\<And>i. malloc_ok (orc s) i" and no: "strstr (packet_buffer p) (''--'' @ b) = None"
    and s': "s' = httpd_recv pl c (Some p) s"
  shows "awaiting pl c (''--'' @ b) tot s' \<and> \<not> data_start_found (upload s') \<and> orc s' = orc s"
proof -
  define s0 where "s0 = touched c s"
  obtain h where h: "conns s c = Some h" using fr by (auto simp: free_for_def)
  have fr0: "free_for c s0" using fr by (auto simp: s0_def touched_def free_for_def upd_def)
  have o0: "orc s0 = orc s" by (simp add: s0_def touched_def)
  have m0: "malloc_ok (orc s0) i" for i by (simp add: o0 m)
  obtain s1 where a1: "awaiting pl c (''--'' @ b) tot s1" and o1: "orc s1 = orc s0"
    and d: "recv_data pl c (packet_buffer p) (length p) s0 = (let (found, s2) = httpd_findandstore_firstchunk pl c (packet_buffer p) (length p) s1
       in if found then
            let s3 = set_data_start_found True s2
            in if \<not> httpd_check_upload_size c s3 then (False, s3) else (True, snd (httpd_check_upload_complete c s3))
          else (True, set_data_start_found False s2))"
    by (rule post_awaiting [OF fr0 rq ram m0])
  have "httpd_findandstore_firstchunk pl c (packet_buffer p) (length p) s1 = (False, s1)"
    using no a1 by (simp add: httpd_findandstore_firstchunk_def awaiting_def)
  then have "s' = set_data_start_found False s1"
    using recv_touched [OF h m] by (simp add: s' d s0_def [symmetric] Let_def)
  then show ?thesis using a1 o0 o1 by (simp add: awaiting_def set_data_start_found_def)
qed

end
