(* ===== verification/Interference.thy ===== *)
theory Interference
  imports UploadProofs
begin

text \<open>
  What the connections of the server do to each other: while one connection owns the upload area,
  or an image waits to be flashed, the other connections are only answered.
\<close>

definition blocked :: "nat \<Rightarrow> httpd \<Rightarrow> bool" where
  "blocked d s \<longleftrightarrow> upload_pending s \<or> (hs_global s \<noteq> None \<and> hs_global s \<noteq> Some d)"

lemma blocked_backup: "blocked d s \<Longrightarrow> live d s \<Longrightarrow> quiet d s (httpd_handle_backup pl d data s)"
  unfolding httpd_handle_backup_def blocked_def by (simp add: quiet_send_const quiet_refl del: not_None_eq)

lemma blocked_post_upload: "blocked d s \<Longrightarrow> recv_post_upload pl d data n s = (True, send_const d busy_resp s)"
  unfolding recv_post_upload_def blocked_def by (simp del: not_None_eq)

lemma recv_data_blocked:
  assumes b: "blocked d s" and l: "conns s d = Some k" "http_state k \<noteq> STATE_UPLOAD_REQUEST"
  shows "quiet d s (snd (recv_data pl d data n s))"
proof -
  have lv: "live d s" using l by simp
  have g: "quiet d s (snd (recv_get pl d data n s))"
    using quiet [OF lv] blocked_backup [OF b lv]
    by (simp add: recv_get_def Let_def split_beta quiet_send_buffer quiet_refl [OF lv])
  have p: "quiet d s (snd (recv_post pl d data n s))"
    using quiet [OF lv] blocked_post_upload [OF b]
    by (simp add: recv_post_def Let_def quiet_send_const quiet_refl [OF lv])
  show ?thesis
    using g p l quiet_refl [OF lv] by (simp add: recv_data_def conn_of_Some split: http_state.split)
qed

text \<open>Ending a connection that owns nothing.\<close>

definition parted :: "nat \<Rightarrow> httpd \<Rightarrow> httpd \<Rightarrow> bool" where
  "parted d s s' \<longleftrightarrow> same_upload s s' \<and> (\<forall>e. e \<noteq> d \<longrightarrow> conns s' e = conns s e)"

lemma quiet_parted: "quiet d s s' \<Longrightarrow> parted d s s'"
  by (simp add: quiet_def parted_def)

lemma parted_trans: "parted d a b \<Longrightarrow> parted d b e \<Longrightarrow> parted d a e"
  by (auto simp: parted_def intro: same_upload_trans)

lemma close_parted:
  assumes "conns s d = Some k" and "\<not> owns_global k"
  shows "parted d s (httpd_close_conn d s)" "parted d s (httpd_conn_abort d s)"
    "parted d s (free_conn d (httpd_state_reset d s))"
  using assms
  by (auto simp: parted_def same_upload_def httpd_close_conn_def httpd_conn_abort_def free_conn_def pcb_end_def
      httpd_state_reset_def upd_def conn_of_def Let_def HttpdState.get_timer_def split_beta)

lemma parted_refl: "parted d s s"
  by (simp add: parted_def same_upload_def)

lemma quiet_not_owner: "quiet d s s' \<Longrightarrow> conns s d = Some k \<Longrightarrow> \<not> owns_global k \<Longrightarrow>
    \<exists>k'. conns s' d = Some k' \<and> \<not> owns_global k'"
  by (auto simp: quiet_def conn_step_def)

text \<open>Events of other connections while \<open>c\<close> is uploading.\<close>

fun event_conn :: "event \<Rightarrow> nat" where
  "event_conn (Accept c) = c"
| "event_conn (Recv c p) = c"
| "event_conn (Sent c) = c"
| "event_conn (Err c) = c"
| "event_conn (Poll c) = c"

lemma quiet_touch:
  assumes "live d s"
  shows "quiet d s ((upd d (\<lambda>h. h\<lparr>last_activity := t\<rparr>) s)\<lparr>reads := n\<rparr>)"
  using assms by (simp add: quiet_upd quiet_refl conn_step_def)

lemma other_recv_parted:
  assumes u: "upl pl c s" and d: "d \<noteq> c" "conns s d = Some k"
  shows "parted d s (httpd_recv pl d p s)"
proof -
  have g: "hs_global s = Some c" by (rule upl_owner [OF u])
  have ok: "server_ok pl s" using u by (simp add: upl_def)
  have no: "\<not> owns_global k" using ok g d by (auto simp: server_ok_def owner_ok_def)
  have st: "http_state k \<noteq> STATE_UPLOAD_REQUEST" using ok no d by (auto simp: server_ok_def uploads_ok_def)
  have nd: "\<not> upload_done (upload s)" using upl_receiving [OF u] by (simp add: receiving_def)
  show ?thesis
  proof (cases p)
    case None
    have "arm_upgrade d s = s" using nd by (simp add: arm_upgrade_def)
    with None d close_parted(1) [OF d(2) no] show ?thesis by (simp add: httpd_recv_def)
  next
    case (Some x)
    define s1 where "s1 = (upd d (\<lambda>h. h\<lparr>last_activity := timer (orc s) (reads s)\<rparr>) s)\<lparr>reads := Suc (Suc (reads s))\<rparr>"
    have q1: "quiet d s s1" unfolding s1_def using d by (intro quiet_touch) simp
    obtain k1 where k1: "conns s1 d = Some k1" "\<not> owns_global k1" "http_state k1 \<noteq> STATE_UPLOAD_REQUEST"
      using d no st by (simp add: s1_def upd_def)
    have "blocked d s1" using q1 g d by (simp add: blocked_def quiet_def same_upload_def)
    note q2 = recv_data_blocked [OF this k1(1,3)]
    define r where "r = recv_data pl d (packet_buffer x) (length x) s1"
    obtain k2 where k2: "conns (snd r) d = Some k2" "\<not> owns_global k2"
      using quiet_not_owner [OF q2 k1(1,2)] unfolding r_def by blast
    have "parted d s (snd r)"
      using parted_trans [OF quiet_parted [OF q1] quiet_parted [OF q2]] by (simp add: r_def)
    moreover have "upd d f (s\<lparr>reads := n\<rparr>) = (upd d f s)\<lparr>reads := n\<rparr>" for f n using d by (simp add: upd_def)
    then have "httpd_recv pl d p s = (if malloc_ok (orc s) (Suc (reads s)) then if fst r then snd r else httpd_conn_abort d (snd r)
        else httpd_conn_abort d s1)"
      using d Some by (simp add: httpd_recv_def malloc_def HttpdState.get_timer_def Let_def split_beta r_def s1_def upd_def)
    ultimately show ?thesis
      using close_parted(2) [OF k2] close_parted(2) [OF k1(1,2)] quiet_parted [OF q1]
      by (auto intro: parted_trans)
  qed
qed

lemma other_event_parted:
  assumes u: "upl pl c s" and d: "event_conn e \<noteq> c"
  shows "parted (event_conn e) s (callback pl e s)"
proof -
  define d where "d = event_conn e"
  have g: "hs_global s = Some c" by (rule upl_owner [OF u])
  have ok: "server_ok pl s" using u by (simp add: upl_def)
  have nd: "\<not> upload_done (upload s)" "upload_hs s = None" using upl_receiving [OF u] by (simp_all add: receiving_def)
  show ?thesis
  proof (cases "conns s d")
    case None
    then show ?thesis
      using parted_refl by (cases e) (auto simp: d_def httpd_accept_def httpd_recv_def httpd_sent_def httpd_err_def
          httpd_poll_cb_def malloc_def HttpdState.get_timer_def Let_def parted_def same_upload_def)
  next
    case (Some k)
    have no: "\<not> owns_global k" using ok g d Some by (auto simp: server_ok_def owner_ok_def d_def)
    have lv: "live d s" using Some by simp
    show ?thesis
    proof (cases e)
      case (Accept x)
      then show ?thesis using Some parted_refl by (simp add: httpd_accept_def d_def)
    next
      case (Recv x p)
      then show ?thesis using other_recv_parted [OF u, of d k p] Some d by (simp add: d_def)
    next
      case (Err x)
      have "hs_global s \<noteq> Some d" using g d by (simp add: d_def)
      then show ?thesis using Err Some close_parted(3) [OF Some no] nd by (simp add: httpd_err_def d_def)
    next
      case (Poll x)
      define s1 where "s1 = s\<lparr>reads := Suc (reads s)\<rparr>"
      have "hs_global s \<noteq> Some d" using g d by (simp add: d_def)
      moreover have p1: "parted d s s1" by (simp add: s1_def parted_def same_upload_def)
      moreover have "conns s1 d = Some k" using Some by (simp add: s1_def)
      note cl = close_parted(2) [OF this no]
      moreover have "quiet d s1 (httpd_send_data d s1)" by (rule quiet_send_data [OF quiet_refl]) (simp add: s1_def Some)
      ultimately show ?thesis using Poll Some nd parted_trans [OF p1] quiet_parted
        by (auto simp: httpd_poll_cb_def d_def HttpdState.get_timer_def conn_of_def Let_def s1_def)
    next
      case (Sent x)
      define s1 where "s1 = (upd d (\<lambda>h. h\<lparr>last_activity := timer (orc s) (reads s)\<rparr>) s)\<lparr>reads := Suc (reads s)\<rparr>"
      have q1: "quiet d s s1" unfolding s1_def by (rule quiet_touch [OF lv])
      obtain k1 where k1: "conns s1 d = Some k1" "\<not> owns_global k1" using quiet_not_owner [OF q1 Some no] by blast
      have "arm_upgrade d s1 = s1" using q1 nd by (simp add: arm_upgrade_def quiet_def same_upload_def)
      moreover have "quiet d s1 (httpd_send_data d s1)" by (rule quiet_send_data [OF quiet_refl]) (simp add: k1)
      moreover have "upd d f (s\<lparr>reads := n\<rparr>) = (upd d f s)\<lparr>reads := n\<rparr>" for f n using Some by (simp add: upd_def)
      then have "httpd_sent d s = (if hs_upload k1 = 0 then httpd_close_conn d (arm_upgrade d s1) else httpd_send_data d s1)"
        using Some k1 by (simp add: httpd_sent_def HttpdState.get_timer_def Let_def conn_of_def s1_def)
      ultimately show ?thesis
        using Sent parted_trans [OF quiet_parted [OF q1]] close_parted(1) [OF k1] quiet_parted by (simp add: d_def)
    qed
  qed
qed

section \<open>The image that waits to be flashed\<close>

definition kept :: "httpd \<Rightarrow> httpd \<Rightarrow> bool" where
  "kept s s' \<longleftrightarrow> ram s' = ram s \<and> net_boot_file_size s' = net_boot_file_size s
     \<and> webfailsafe_upgrade_type s' = webfailsafe_upgrade_type s
     \<and> env s' ''fileaddr'' = env s ''fileaddr'' \<and> env s' ''filesize'' = env s ''filesize''"

lemma kept_trans: "kept a b \<Longrightarrow> kept b d \<Longrightarrow> kept a d"
  by (simp add: kept_def)

lemma quiet_kept: "quiet d s s' \<Longrightarrow> kept s s'"
  by (simp add: quiet_def same_upload_def kept_def)

lemma kept_simps [simp]:
  "kept s s" "kept s (upd c f s') = kept s s'" "kept s (s'\<lparr>reads := n\<rparr>) = kept s s'"
  "kept s (s'\<lparr>hs_global := g\<rparr>) = kept s s'" "kept s (s'\<lparr>backup := b\<rparr>) = kept s s'"
  "kept s (httpd_discard_pending_upload s') = kept s s'" "kept s (arm_upgrade c s') = kept s s'"
  "kept s (httpd_state_reset c s') = kept s s'" "kept s (free_conn c s') = kept s s'"
  "kept s (pcb_end c x s') = kept s s'" "kept s (s'\<lparr>conns := k\<rparr>) = kept s s'"
  "kept s (s'\<lparr>pcb_gone := pg\<rparr>) = kept s s'" "kept s (s'\<lparr>tx := q\<rparr>) = kept s s'"
  by (auto simp: kept_def upd_def httpd_discard_pending_upload_def arm_upgrade_def Let_def httpd_state_reset_def
      free_conn_def pcb_end_def HttpdState.get_timer_def led_def split: option.split)

lemma kept_close [simp]: "kept s (httpd_close_conn c s') = kept s s'" "kept s (httpd_conn_abort c s') = kept s s'"
  by (simp_all add: httpd_close_conn_def httpd_conn_abort_def)

lemma kept_send [simp]: "kept s (httpd_send_data c s') = kept s s'"
  by (simp add: httpd_send_data_def Let_def split_beta)

lemma pending_recv_kept:
  assumes ok: "server_ok pl s" and p: "upload_pending s" and k: "conns s d = Some k"
  shows "kept s (httpd_recv pl d x s)"
proof (cases x)
  case None
  then show ?thesis using k by (simp add: httpd_recv_def)
next
  case (Some y)
  have st: "http_state k \<noteq> STATE_UPLOAD_REQUEST" using ok k p by (auto simp: server_ok_def uploads_ok_def receiving_def)
  define s1 where "s1 = (upd d (\<lambda>h. h\<lparr>last_activity := timer (orc s) (reads s)\<rparr>) s)\<lparr>reads := Suc (Suc (reads s))\<rparr>"
  have "quiet d s s1" unfolding s1_def using k by (intro quiet_touch) simp
  then have "blocked d s1" using p by (simp add: blocked_def quiet_def same_upload_def)
  moreover obtain k1 where "conns s1 d = Some k1" "http_state k1 \<noteq> STATE_UPLOAD_REQUEST"
    using k st by (simp add: s1_def upd_def)
  ultimately have "kept s1 (snd (recv_data pl d (packet_buffer y) (length y) s1))"
    by (rule quiet_kept [OF recv_data_blocked])
  moreover have s1: "kept s s1" by (simp add: s1_def)
  ultimately have "kept s (snd (recv_data pl d (packet_buffer y) (length y) s1))" by (simp add: kept_def)
  then show ?thesis
    using Some k s1 by (simp add: httpd_recv_def malloc_def HttpdState.get_timer_def Let_def split_beta s1_def upd_def)
qed

lemma pending_kept:
  assumes ok: "server_ok pl s" and p: "upload_pending s"
  shows "kept s (callback pl e s)"
proof (cases e)
  case (Recv d x)
  then show ?thesis using pending_recv_kept [OF ok p, of d] by (cases "conns s d") (simp_all add: httpd_recv_def)
qed (simp_all add: httpd_accept_def malloc_def HttpdState.get_timer_def Let_def httpd_sent_def httpd_err_def httpd_poll_cb_def)

end
