(* ===== verification/HttpdProps.thy ===== *)
theory HttpdProps
  imports Interference
begin

text \<open>
  The properties of the recovery web server: its invariant, reassembly of uploads, isolation of
  connections, responses, backups and settings, each with a concrete instance on a sample board.
\<close>

section \<open>A sample board and server\<close>

definition board :: platform where
  "board = \<lparr>sdram_end = 0x60000000, upload_ram = 0x44000000, uboot_size = 0x100000,
     max_size = (\<lambda>t. if t = CDT then Some 0x400 else None),
     flashread = (\<lambda>part off len rw ft. (Some (replicate (min (unat len) 4) CHR ''x''), [])),
     flash = \<lparr>current_flash_type = Some 6, spi_size = 8, has_nand = False, has_mmc = False, nand_chip = None,
       which_flash_param = (\<lambda>p. 0), smem_part_size = (\<lambda>p. None), mmc_dev = None\<rparr>,
     gpio_max = 80, gpio_config = (\<lambda>i. 0), gpio_value = (\<lambda>i. 1), gpio_skip = (\<lambda>i. False),
     macaddr_modify = (\<lambda>w m i. 0), fs_files = [(''/index.html'', ''<p>'')], index_file = ''/index.html'',
     not_found_file = ''/404.html'', term_command = (\<lambda>cmd w. w), about_text = (\<lambda>s. []),
     mac_info_text = [], partitions_text = []\<rparr>"

definition idle :: httpd where
  "idle = \<lparr>conns = Map.empty, uaf = False, boundary_value = None, upload = empty_upload, backup = empty_backup,
     upgrade_status = 0, bufs = (\<lambda>b. []), hs_global = None, upload_pending = False, upload_hs = None,
     flashread_yield_set = False, webfailsafe_data_pointer = 0, webfailsafe_upgrade_type = FIRMWARE,
     webfailsafe_img_flash = 0, webfailsafe_backup_avail_enabled = False, webfailsafe_auto_reboot_enabled = True,
     webfailsafe_ready_for_upgrade = False, net_boot_file_size = 0, ram = (\<lambda>a. NUL), leds = [],
     env = Map.empty, saved_env = Map.empty, reset_gpio_cached = False, mac_writes = [], webterm = boot_term,
     null_deref = False, webfailsafe_is_running = True, httpd_progress_start_done = False, listening = True,
     rebooted = False, tx = (\<lambda>c. []), pcb_gone = (\<lambda>c. None),
     orc = \<lparr>timer = (\<lambda>n. of_nat n), sndbuf = (\<lambda>n. 1000), write_ok = (\<lambda>n. True), malloc_ok = (\<lambda>n. True)\<rparr>,
     reads = 0\<rparr>"

lemma board_ok: "platform_ok board"
  by (simp add: platform_ok_def board_def)

lemma board_simps [simp]: "sdram_end board = 0x60000000" "upload_ram board = 0x44000000"
  "max_size board t = (if t = CDT then Some 0x400 else None)" "gpio_max board = 80"
  by (simp_all add: board_def)

section \<open>The invariant\<close>

text \<open>A server without connections, as \<^verbatim>\<open>failsafe_httpd_stop\<close> leaves it.\<close>

definition at_rest :: "httpd \<Rightarrow> bool" where
  "at_rest s \<longleftrightarrow> conns s = Map.empty \<and> hs_global s = None \<and> upload s = empty_upload
     \<and> \<not> upload_pending s \<and> \<not> webfailsafe_ready_for_upgrade s \<and> \<not> uaf s"

lemma at_rest_ok: "at_rest s \<Longrightarrow> server_ok pl s"
  by (simp add: at_rest_def server_ok_def owner_ok_def uploads_ok_def armed_ok_def empty_upload_def)



section \<open>Uploads\<close>

text \<open>
  C3: An image sent in a multipart POST request arrives unchanged: however TCP cuts the bytes after
  the multipart header into packets, the upload area then holds exactly the image, its length and
  type are recorded, and the image is pending for the flashing code. The request must fit the
  announced length, the size limits of its type and the RAM, and memory for the packets must be
  available.
\<close>

theorem upload_reassembled:
  assumes "free_for c s" and "upload_request (packet_buffer p) (ov + length file) b"
    and "upload_ram pl \<noteq> 0" and "\<And>i. malloc_ok (orc s) i"
    and "fits pl file tail" and "image_ok pl t file" and "length tail = strlen (''--'' @ b) + 6"
    and "part_header (''--'' @ b) (packet_buffer p) (length p) t ov e"
    and "r = length p - (length (packet_buffer p) - length e)"
    and "take r e = take r (file @ tail)" and "r \<le> length file + length tail"
    and "concat ps = drop r (file @ tail)" and "[] \<notin> set ps"
    and "s' = fold (\<lambda>p. httpd_recv pl c (Some p)) (p # ps) s"
  shows "ram_bytes (ram s') (upload_ram pl) (length file) = file \<and> unat (net_boot_file_size s') = length file
    \<and> webfailsafe_upgrade_type s' = t \<and> upload_pending s' \<and> upload_hs s' = Some c
    \<and> upload_done (upload s') \<and> \<not> failed (upload s')"
  using upload_with_post [OF assms] by (simp add: received_def)

definition sample_part :: string where
  "sample_part = ''--B'' @ crlf @ ''Content-Disposition: form-data; name=\"cdt\"'' @ crlf2"

definition sample_post :: string where
  "sample_post = ''POST /up HTTP/1.1'' @ crlf @ ''Content-Length: 244'' @ crlf @ ''Content-Type: m; boundary=B'' @ crlf2"

lemma sample_request: "upload_request (packet_buffer (sample_post @ sample_part)) 244 ''B''"
proof -
  define d where "d = packet_buffer (sample_post @ sample_part)"
  have "strncmp d ''POST'' 4 = 0" "is_http_method_separator (at d 4)"
    "strncmp (drop 5 d) ''/webterm'' 8 \<noteq> 0" "strncmp (drop 5 d) ''/env_set'' 8 \<noteq> 0"
    "strncmp (drop 5 d) ''/mac_set'' 8 \<noteq> 0" "content_length d = Some 244" "boundary_text d = Some ''B''"
    unfolding d_def by code_simp+
  then show ?thesis unfolding d_def [symmetric] by (simp add: upload_request_def)
qed

lemma sample_header:
  "part_header ''--B'' (packet_buffer (sample_post @ sample_part)) (length (sample_post @ sample_part)) CDT 60 [NUL]"
proof -
  define d where "d = packet_buffer (sample_post @ sample_part)"
  have "strstr d ''--B'' = Some (sample_part @ [NUL])"
    "find_type upload_types (sample_part @ [NUL]) = Some (''name=\"cdt\"'', CDT)"
    "strstr (the (strstr (sample_part @ [NUL]) ''name=\"cdt\"'')) crlf2 = Some (crlf2 @ [NUL])"
    "length d - length (crlf2 @ [NUL]) < length (sample_post @ sample_part)"
    "length (sample_part @ [NUL]) - length [NUL] + strlen ''--B'' + 6 = 60"
    unfolding d_def by code_simp+
  then show ?thesis unfolding part_header_def d_def [symmetric]
    by (intro exI [of _ "sample_part @ [NUL]"] exI [of _ "''name=\"cdt\"''"] exI [of _ "crlf2 @ [NUL]"]) simp
qed

lemma idle_free: "free_for 7 (httpd_accept 7 idle)" "malloc_ok (orc (httpd_accept 7 idle)) i"
  by (simp_all add: free_for_def httpd_accept_def idle_def malloc_def HttpdState.get_timer_def fresh_conn_def)

theorem upload_reassembled_witness:
  "ram_bytes (ram (fold (\<lambda>p. httpd_recv board 7 (Some p))
      [sample_post @ sample_part, replicate 100 (CHR ''a''), replicate 84 (CHR ''b'') @ ''tail12345'']
      (httpd_accept 7 idle))) 0x44000000 184 = replicate 100 (CHR ''a'') @ replicate 84 (CHR ''b'')"
proof -
  define img where "img = replicate 100 (CHR ''a'') @ replicate 84 (CHR ''b'')"
  have len: "length img = 184" by (simp add: img_def)
  have z: "length (sample_post @ sample_part) - (length (packet_buffer (sample_post @ sample_part)) - length [NUL]) = 0"
    by code_simp
  have "strlen ''--B'' = 3" by code_simp
  then have *: "fits board img ''tail12345''" "image_ok board CDT img" "length ''tail12345'' = strlen (''--'' @ ''B'') + 6"
    by (simp_all add: fits_def image_ok_def len)
  have "upload_request (packet_buffer (sample_post @ sample_part)) (60 + length img) ''B''"
    using sample_request by (simp add: len)
  from upload_reassembled [OF idle_free(1) this _ idle_free(2) *, of "[NUL]" 0
      "[replicate 100 (CHR ''a''), replicate 84 (CHR ''b'') @ ''tail12345'']", OF _ _ z [symmetric] _ _ _ _ refl]
  show ?thesis using sample_header by (simp add: len) (simp add: img_def)
qed

text \<open>
  The same holds when the request header comes in a packet of its own and the multipart header
  in the next one, the way browsers send it.
\<close>

theorem upload_reassembled_split:
  assumes "free_for c s" and "upload_request (packet_buffer p0) (ov + length file) b"
    and "strstr (packet_buffer p0) (''--'' @ b) = None" and "upload_ram pl \<noteq> 0" and "\<And>i. malloc_ok (orc s) i"
    and "fits pl file tail" and "image_ok pl t file" and "length tail = strlen (''--'' @ b) + 6"
    and "part_header (''--'' @ b) (packet_buffer p) (length p) t ov e"
    and "r = length p - (length (packet_buffer p) - length e)"
    and "take r e = take r (file @ tail)" and "r \<le> length file + length tail"
    and "concat ps = drop r (file @ tail)" and "[] \<notin> set ps"
    and "s' = fold (\<lambda>p. httpd_recv pl c (Some p)) (p0 # p # ps) s"
  shows "ram_bytes (ram s') (upload_ram pl) (length file) = file \<and> unat (net_boot_file_size s') = length file
    \<and> webfailsafe_upgrade_type s' = t \<and> upload_pending s' \<and> upload_hs s' = Some c
    \<and> upload_done (upload s') \<and> \<not> failed (upload s')"
proof -
  define s0 where "s0 = httpd_recv pl c (Some p0) s"
  have a: "awaiting pl c (''--'' @ b) (ov + length file) s0" "\<not> data_start_found (upload s0)" and o: "orc s0 = orc s"
    using post_alone [OF assms(1,2,4,5,3) s0_def] by simp_all
  have ov: "ov + length file < 2 ^ 32" using assms(2) by (simp add: upload_request_def)
  have m: "malloc_ok (orc s0) i" for i by (simp add: o assms(5))
  have "s' = fold (\<lambda>p. httpd_recv pl c (Some p)) (p # ps) s0" by (simp add: assms(15) s0_def)
  from upload_after_post [OF a assms(6) ov assms(7,8) m assms(9,10,11,12,13,14) this]
  show ?thesis by (simp add: received_def)
qed

lemma sample_post_alone: "upload_request (packet_buffer sample_post) 244 ''B''"
  "strstr (packet_buffer sample_post) ''--B'' = None"
proof -
  define d where "d = packet_buffer sample_post"
  have "strncmp d ''POST'' 4 = 0" "is_http_method_separator (at d 4)"
    "strncmp (drop 5 d) ''/webterm'' 8 \<noteq> 0" "strncmp (drop 5 d) ''/env_set'' 8 \<noteq> 0"
    "strncmp (drop 5 d) ''/mac_set'' 8 \<noteq> 0" "content_length d = Some 244" "boundary_text d = Some ''B''"
    unfolding d_def by code_simp+
  then show "upload_request (packet_buffer sample_post) 244 ''B''"
    unfolding d_def [symmetric] by (simp add: upload_request_def)
  show "strstr (packet_buffer sample_post) ''--B'' = None" by code_simp
qed

definition part_tail :: string where
  "part_tail = replicate (64 - length sample_part) NUL"

lemma sample_header_alone:
  "part_header ''--B'' (packet_buffer sample_part) (length sample_part) CDT 60 part_tail"
proof -
  define d where "d = packet_buffer sample_part"
  have "strstr d ''--B'' = Some (sample_part @ part_tail)"
    "find_type upload_types (sample_part @ part_tail) = Some (''name=\"cdt\"'', CDT)"
    "strstr (the (strstr (sample_part @ part_tail) ''name=\"cdt\"'')) crlf2 = Some (crlf2 @ part_tail)"
    "length d - length (crlf2 @ part_tail) < length sample_part"
    "length (sample_part @ part_tail) - length part_tail + strlen ''--B'' + 6 = 60"
    unfolding d_def by code_simp+
  then show ?thesis unfolding part_header_def d_def [symmetric]
    by (intro exI [of _ "sample_part @ part_tail"] exI [of _ "''name=\"cdt\"''"] exI [of _ "crlf2 @ part_tail"]) simp
qed

theorem upload_reassembled_split_witness:
  "upload_pending (fold (\<lambda>p. httpd_recv board 7 (Some p))
      [sample_post, sample_part, replicate 184 (CHR ''a'') @ ''tail12345''] (httpd_accept 7 idle))"
proof -
  define img where "img = replicate 184 (CHR ''a'')"
  have len: "length img = 184" by (simp add: img_def)
  have z: "length sample_part - (length (packet_buffer sample_part) - length part_tail) = 0" by code_simp
  have "strlen ''--B'' = 3" by code_simp
  then have *: "fits board img ''tail12345''" "image_ok board CDT img" "length ''tail12345'' = strlen (''--'' @ ''B'') + 6"
    by (simp_all add: fits_def image_ok_def len)
  have "upload_request (packet_buffer sample_post) (60 + length img) ''B''" using sample_post_alone(1) by (simp add: len)
  from upload_reassembled_split [OF idle_free(1) this _ _ idle_free(2) *, of sample_part part_tail 0
      "[replicate 184 (CHR ''a'') @ ''tail12345'']", OF _ _ _ z [symmetric] _ _ _ _ refl]
  show ?thesis using sample_header_alone sample_post_alone(2) by (simp add: len) (simp add: img_def)
qed

section \<open>Connections do not interfere\<close>

text \<open>
  C7: While connection \<open>c\<close> uploads, no event of another connection, whatever it requests and
  however it ends, changes the upload: neither its RAM, its write position, its boundary and
  progress, nor the connection itself.
\<close>

theorem upload_undisturbed:
  assumes "server_ok pl s" and "conns s c = Some h" and "http_state h = STATE_UPLOAD_REQUEST"
    and "event_conn e \<noteq> c" and "s' = callback pl e s"
  shows "ram s' = ram s \<and> upload s' = upload s \<and> boundary_value s' = boundary_value s
    \<and> webfailsafe_data_pointer s' = webfailsafe_data_pointer s \<and> hs_global s' = Some c
    \<and> webfailsafe_upgrade_type s' = webfailsafe_upgrade_type s \<and> conns s' c = Some h"
proof -
  have u: "upl pl c s" using assms(1-3) by (auto simp: upl_def)
  show ?thesis
    using other_event_parted [OF u assms(4)] upl_owner [OF u] assms(2,4,5)
    by (simp add: parted_def same_upload_def)
qed

definition uploading :: httpd where
  "uploading = idle\<lparr>conns := [7 \<mapsto> fresh_conn\<lparr>http_state := STATE_UPLOAD_REQUEST, owns_global := True\<rparr>, 8 \<mapsto> fresh_conn],
     hs_global := Some 7, boundary_value := Some ''--B'', webfailsafe_data_pointer := 0x44000000,
     upload := empty_upload\<lparr>ram_end := 0x60000000\<rparr>\<rparr>"

lemma uploading_ok: "server_ok board uploading"
  by (simp add: server_ok_def owner_ok_def uploads_ok_def armed_ok_def receiving_def uploading_def idle_def
      fresh_conn_def empty_upload_def)

theorem upload_undisturbed_witness:
  "hs_global (callback board (Recv 8 (Some ''POST /x'')) uploading) = Some 7"
  using upload_undisturbed [OF uploading_ok _ _ _ refl, of 7
      "fresh_conn\<lparr>http_state := STATE_UPLOAD_REQUEST, owns_global := True\<rparr>" "Recv 8 (Some ''POST /x'')"]
  by (simp add: uploading_def)


definition waiting :: httpd where
  "waiting = idle\<lparr>conns := [7 \<mapsto> fresh_conn], upload_pending := True, webfailsafe_ready_for_upgrade := True\<rparr>"


section \<open>Responses\<close>

lemma send_conserves:
  assumes "conns s c = Some h" and "s' = httpd_send_data c s" and "conns s' c = Some h'"
  shows "tx s' c @ ptr_read (bufs s') (ram s') (dataptr h') (unat (hs_upload h'))
      = tx s c @ ptr_read (bufs s) (ram s) (dataptr h) (unat (hs_upload h))
    \<and> unat (hs_upload h') \<le> unat (hs_upload h)"
proof -
  obtain p l n x where l: "send_loop (orc s) (ptr_read (bufs s) (ram s)) (dataptr h) (hs_upload h) (reads s) [] = (p, l, n, x)"
    by (metis prod_cases4)
  have "h' = h\<lparr>dataptr := p, hs_upload := l\<rparr>" "tx s' c = tx s c @ x" "bufs s' = bufs s" "ram s' = ram s"
    using assms l by (auto simp: httpd_send_data_def conn_of_def upd_def)
  then show ?thesis using send_loop_conserves [OF l] by simp
qed

text \<open>
  However much the send buffer takes and however often \<^verbatim>\<open>tcp_write\<close> fails,
  \<^verbatim>\<open>httpd_send_data\<close> neither loses, repeats nor reorders a byte of a response: what it queued
  and what the connection still points to make up exactly what it pointed to before.
\<close>

theorem send_data_conserves:
  assumes "conns s c = Some h" and "s' = httpd_send_data c s" and "conns s' c = Some h'"
  shows "tx s' c @ ptr_read (bufs s') (ram s') (dataptr h') (unat (hs_upload h'))
      = tx s c @ ptr_read (bufs s) (ram s) (dataptr h) (unat (hs_upload h))
    \<and> unat (hs_upload h') \<le> unat (hs_upload h)"
  by (rule send_conserves [OF assms])

theorem send_data_conserves_witness:
  "tx (httpd_send_data 7 (idle\<lparr>conns := [7 \<mapsto> fresh_conn\<lparr>dataptr := Const ''ok'', hs_upload := 2\<rparr>]\<rparr>)) 7 = ''ok''"
proof -
  define s where "s = idle\<lparr>conns := [7 \<mapsto> fresh_conn\<lparr>dataptr := Const ''ok'', hs_upload := 2\<rparr>]\<rparr>"
  have l: "send_loop (orc s) (ptr_read (bufs s) (ram s)) (Const ''ok'') 2 0 [] = (Const [], 0, 2, ''ok'')"
    by (simp add: s_def idle_def send_loop.simps [of _ _ _ 2] send_loop.simps [of _ _ _ 0] pad_def Let_def)
  have "conns (httpd_send_data 7 s) 7 = Some (fresh_conn\<lparr>dataptr := Const [], hs_upload := 0\<rparr>)"
    using l by (simp add: httpd_send_data_def s_def conn_of_def upd_def idle_def)
  from send_data_conserves [OF _ refl this, of "fresh_conn\<lparr>dataptr := Const ''ok'', hs_upload := 2\<rparr>"]
  show ?thesis unfolding s_def [symmetric] by (simp add: s_def pad_def idle_def)
qed

text \<open>
  The redirect for old CGI addresses is sent without its last byte: 44 bytes of a text of 45, so
  the header block is never closed by a second line feed.
\<close>

theorem cgi_redirect_cut_short:
  assumes "13 \<le> n" and "memcmp (drop 4 data) ''/cgi-bin/'' 9 = 0" and "conns s c = Some h"
    and "s' = snd (httpd_handle_file_request pl c data n s)" and "conns s' c = Some h'"
  shows "tx s' c @ ptr_read (bufs s') (ram s') (dataptr h') (unat (hs_upload h')) = tx s c @ butlast cgi_redirect
    \<and> last cgi_redirect = LF"
proof -
  define s0 where "s0 = upd c (\<lambda>h. h\<lparr>http_state := STATE_FILE_REQUEST, dataptr := Const cgi_redirect, hs_upload := 44\<rparr>) s"
  have "s' = httpd_send_data c s0"
    using assms(1,2,4) by (simp add: httpd_handle_file_request_def httpd_send_static_def s0_def)
  moreover have "conns s0 c = Some (h\<lparr>http_state := STATE_FILE_REQUEST, dataptr := Const cgi_redirect, hs_upload := 44\<rparr>)"
    "tx s0 = tx s" using assms(3) by (simp_all add: s0_def upd_def)
  moreover have "pad 44 cgi_redirect = butlast cgi_redirect" "last cgi_redirect = LF"
    by (simp_all add: cgi_redirect_def pad_def)
  ultimately show ?thesis using send_conserves [OF _ _ assms(5)] by fastforce
qed

theorem cgi_redirect_cut_short_witness:
  "last cgi_redirect = LF \<and> (\<exists>h'. conns (snd (httpd_handle_file_request board 8 ''GET /cgi-bin/luci'' 17 uploading)) 8 = Some h')"
proof -
  have m: "memcmp (drop 4 ''GET /cgi-bin/luci'') ''/cgi-bin/'' 9 = 0" by code_simp
  have u: "conns uploading 8 = Some fresh_conn" by (simp add: uploading_def)
  have "\<exists>h'. conns (snd (httpd_handle_file_request board 8 ''GET /cgi-bin/luci'' 17 uploading)) 8 = Some h'"
    using quiet_file [where c = 8 and s = uploading and pl = board and data = "''GET /cgi-bin/luci''" and n = 17] u
    by (auto simp: quiet_def)
  then show ?thesis using cgi_redirect_cut_short [OF _ m u refl, of 17 board] by fastforce
qed

section \<open>Backups\<close>

text \<open>The accounting of a backup of \<open>tot\<close> bytes: what was read so far has been sent.\<close>

definition account_ok :: "backup_t \<Rightarrow> bool" where
  "account_ok b \<longleftrightarrow> total_sent b \<le> total_size b \<and> total_remaining b = total_size b - total_sent b
     \<and> chunk_offset b = total_sent b"

text \<open>The reader delivers the requested part of \<open>img\<close>, or what is left of it.\<close>

definition reads_image :: "platform \<Rightarrow> backup_t \<Rightarrow> string \<Rightarrow> bool" where
  "reads_image pl b img \<longleftrightarrow> (\<forall>off len. 0 < len \<and> unat off < length img \<longrightarrow>
     fst (flashread pl (part_name b) off len (raw b) (flash_type b)) = Some (take (unat len) (drop (unat off) img)))"

lemma chunk_account_ok:
  assumes a: "account_ok b" and n: "unat n \<le> unat (total_remaining b)"
  shows "account_ok (chunk_account pl n b)" and "data_size (chunk_account pl n b) = n"
    and "unat (total_sent (chunk_account pl n b)) = unat (total_sent b) + unat n"
    and "total_size (chunk_account pl n b) = total_size b"
proof -
  have r: "unat (total_remaining b) = unat (total_size b) - unat (total_sent b)"
    using a by (simp add: account_ok_def unat_sub)
  have le: "unat (total_sent b) \<le> unat (total_size b)" using a by (simp add: account_ok_def word_le_nat_alt)
  have "unat n < 2 ^ 64" by (rule less_trans [OF unat_u32_less]) simp
  then have u: "unat (ucast n :: u64) = unat n" by (simp add: unsigned_ucast_eq take_bit_nat_eq_self)
  have s: "unat (total_sent b + ucast n) = unat (total_sent b) + unat n"
  proof -
    have "unat (total_size b) < 2 ^ LENGTH(64)" by (rule unsigned_less)
    then show ?thesis using n r le by (simp add: unat_word_ariths u)
  qed
  then have over: "\<not> total_size b < total_sent b + ucast n" using n r le by (simp add: word_less_nat_alt)
  then show "account_ok (chunk_account pl n b)" "data_size (chunk_account pl n b) = n"
    "unat (total_sent (chunk_account pl n b)) = unat (total_sent b) + unat n"
    "total_size (chunk_account pl n b) = total_size b"
    using a s by (auto simp: chunk_account_def Let_def account_ok_def)
qed

lemma chunk_size_le: "unat (if ucast (a :: u32) < (r :: u64) then a else ucast r) \<le> unat r"
proof -
  have "unat a < 2 ^ 64" by (rule less_trans [OF unat_u32_less]) simp
  then show ?thesis
    by (auto simp: word_less_nat_alt unsigned_ucast_eq take_bit_nat_eq_self take_bit_nat_less_eq_self)
qed

lemma chunk_size_pos:
  assumes "0 < (a :: u32)" and "0 < (r :: u64)" shows "0 < unat (if ucast a < r then a else ucast r)"
proof (cases "ucast a < r")
  case False
  have "unat a < 2 ^ 64" by (rule less_trans [OF unat_u32_less]) simp
  then have "unat r \<le> unat a" using False by (simp add: word_less_nat_alt unsigned_ucast_eq take_bit_nat_eq_self)
  then have "unat r < 4294967296" using unat_u32_less by (rule le_less_trans)
  then have "unat (ucast r :: u32) = unat r" by (simp add: unsigned_ucast_eq take_bit_nat_eq_self)
  with False assms show ?thesis by (simp add: word_less_nat_alt)
qed (use assms in \<open>simp add: word_less_nat_alt\<close>)

text \<open>
  A backup too large for RAM is read and sent in chunks that fit together: if the reader delivers
  the requested part of the partition, each turn of the chunk reader sends exactly the bytes that
  follow those already sent, at least one, and keeps the accounting (offset, sent and remaining
  bytes) exact.
\<close>

lemma backup_chunk_correct:
  assumes "account_ok (backup s)" and "reads_image pl (backup s) img" and "unat (total_size (backup s)) \<le> length img"
    and "0 < total_remaining (backup s)" and "0 < ram_avail pl"
    and "hs_global s = Some g" and "conns s g = Some h"
    and "s' = backup_chunk_next pl (\<lambda>s. s) s" and "conns s' g = Some h'"
  shows "account_ok (backup s') \<and> (\<exists>n > 0. unat (total_sent (backup s')) = unat (total_sent (backup s)) + n
    \<and> tx s' g @ ptr_read (bufs s') (ram s') (dataptr h') (unat (hs_upload h'))
      = tx s g @ take n (drop (unat (total_sent (backup s))) img))"
proof -
  define b where "b = backup s"
  define cs where "cs = (if ucast (ram_avail pl) < total_remaining b then ram_avail pl else ucast (total_remaining b))"
  define bytes where "bytes = take (unat cs) (drop (unat (total_sent b)) img)"
  have off: "chunk_offset b = total_sent b" using assms(1) by (simp add: account_ok_def b_def)
  have rem: "unat (total_remaining b) = unat (total_size b) - unat (total_sent b)" "total_sent b \<le> total_size b"
    using assms(1) by (simp_all add: account_ok_def b_def unat_sub)
  have cle: "unat cs \<le> unat (total_remaining b)" unfolding cs_def by (rule chunk_size_le)
  have cpos: "0 < unat cs" unfolding cs_def by (rule chunk_size_pos) (use assms(4,5) in \<open>simp_all add: b_def\<close>)
  have len: "length bytes = unat cs" using cle rem assms(3) by (simp add: bytes_def b_def)
  have "0 < cs" "unat (total_sent b) < length img" using cpos rem(1) assms(3,4) by (auto simp: b_def word_less_nat_alt)
  then obtain d where fr: "flashread pl (part_name b) (chunk_offset b) cs (raw b) (flash_type b) = (Some bytes, d)"
    using assms(2) off unfolding reads_image_def bytes_def b_def by (metis prod.collapse)
  define s1 where "s1 = s\<lparr>ram := ram_write (ram s) (upload_ram pl) bytes\<rparr>"
  define b' where "b' = chunk_account pl cs b"
  have sc: "s' = send_chunk (s1\<lparr>backup := b'\<rparr>)"
    using assms(8) fr len cpos by (simp add: backup_chunk_next_def Let_def read_chunk_def b_def [symmetric]
        cs_def [symmetric] s1_def b'_def)
  note acc = chunk_account_ok [OF assms(1) [folded b_def] cle, of pl, folded b'_def]
  define s2 where "s2 = upd g (\<lambda>h. h\<lparr>dataptr := Ram (upload_ram pl), hs_upload := cs\<rparr>) (s1\<lparr>backup := b'\<rparr>)"
  define s3 where "s3 = httpd_send_data g s2"
  have "data_addr b' = upload_ram pl" by (simp add: b'_def chunk_account_def Let_def)
  with sc acc(2) assms(6) have s': "s' = s3\<lparr>backup := (backup s3)\<lparr>chunk_busy := False\<rparr>\<rparr>"
    by (simp add: send_chunk_def s1_def s2_def s3_def Let_def)
  have s2: "conns s2 g = Some (h\<lparr>dataptr := Ram (upload_ram pl), hs_upload := cs\<rparr>)" "tx s2 = tx s" "backup s2 = b'"
    "ram s2 = ram_write (ram s) (upload_ram pl) bytes"
    using assms(7) by (simp_all add: s2_def s1_def upd_def)
  have s3: "backup s3 = b'" using s2 by (simp add: s3_def httpd_send_data_def Let_def split_beta upd_def)
  have "conns s3 g = Some h'" using assms(9) by (simp add: s')
  from send_conserves [OF s2(1) s3_def this] have
    "tx s' g @ ptr_read (bufs s') (ram s') (dataptr h') (unat (hs_upload h')) = tx s g @ ram_bytes (ram s2) (upload_ram pl) (unat cs)"
    by (simp add: s' s2)
  moreover have "unat cs \<le> 2 ^ 32" using unat_u32_less [of cs] by (simp add: less_imp_le)
  then have "ram_bytes (ram s2) (upload_ram pl) (unat cs) = bytes"
    using ram_bytes_write [of bytes "ram s" "upload_ram pl"] len by (simp add: s2)
  moreover have "account_ok (backup s')" "unat (total_sent (backup s')) = unat (total_sent b) + unat cs"
    using acc s3 by (simp_all add: s' account_ok_def)
  ultimately show ?thesis using cpos unfolding b_def bytes_def by auto
qed

section \<open>Settings\<close>

fun number :: "nat \<Rightarrow> string \<Rightarrow> nat" where
  "number acc [] = acc"
| "number acc (c # cs) = number (acc * 10 + (of_char c - 48)) cs"

lemma number_mono: "acc \<le> number acc cs"
proof (induction cs arbitrary: acc)
  case (Cons c cs)
  have "acc \<le> acc * 10 + (of_char c - 48)" by simp
  also have "\<dots> \<le> number (acc * 10 + (of_char c - 48)) cs" by (rule Cons.IH)
  finally show ?case by simp
qed simp

lemma reset_key_loop_number:
  assumes "NUL \<notin> set v" and "0 < g" and "acc < g"
  shows "reset_key_loop g acc v \<longleftrightarrow> list_all isdigit v \<and> number acc v < g"
  using assms(1,3)
proof (induction v arbitrary: acc)
  case (Cons c cs)
  define n where "n = acc * 10 + (of_char c - 48 :: nat)"
  have big: "g \<le> n" if "(g - 1) div 10 < acc" using that assms(2) by (simp add: n_def)
  have "number n cs < g \<Longrightarrow> n < g" using number_mono [of n cs] by simp
  with Cons big show ?case by (auto simp: n_def [symmetric] Let_def not_le)
qed simp

text \<open>
  The reset button is accepted exactly when the value is a decimal number below the number of
  GPIO lines; the loop that checks it neither overflows nor accepts anything else.
\<close>

theorem reset_key_checked:
  assumes "env_field data = Some (''reset_key'', v)" and "v \<noteq> []" and "NUL \<notin> set v" and "0 < gpio_max pl"
  shows "saved_env (httpd_handle_env_set pl c data s) =
    (if list_all isdigit v \<and> number 0 v < gpio_max pl then (env s)(''reset_key'' \<mapsto> v) else saved_env s)"
proof -
  have sv: "saved_env (send_buffer c b x s') = saved_env s'" for b x s'
    by (simp add: send_buffer_def httpd_send_static_def httpd_send_data_def upd_def Let_def split_beta split: option.split)
  have "strcmp ''reset_key'' ''reset_key'' = 0" by code_simp
  then show ?thesis
    using assms by (simp add: httpd_handle_env_set_def Let_def sv saveenv_def setenv_def reset_key_loop_number)
qed

theorem reset_key_checked_witness:
  "saved_env (httpd_handle_env_set board 7 (''POST /env_set'' @ crlf2 @ ''reset_key=42'') idle) = [''reset_key'' \<mapsto> ''42'']"
proof -
  have e: "env_field (''POST /env_set'' @ crlf2 @ ''reset_key=42'') = Some (''reset_key'', ''42'')" by code_simp
  have "list_all isdigit ''42''" "number 0 ''42'' = 42" by code_simp+
  then show ?thesis using reset_key_checked [OF e, of board 7 idle] by (simp add: idle_def)
qed

section \<open>The flash type of a backup\<close>

text \<open>A \<open>flash=\<close> field: at the start of the query or after a separator.\<close>

definition exact_field :: "string \<Rightarrow> string \<Rightarrow> bool" where
  "exact_field query q \<longleftrightarrow> (\<exists>pre. query = pre @ q \<and> NUL \<notin> set pre \<and> prefix ''flash='' q
     \<and> (pre = [] \<or> last pre = CHR ''?'' \<or> last pre = CHR ''&''))"

lemma strstr_flash: "strstr p ''flash='' = find_sub p ''flash=''"
  by (rule strstr_find_sub) simp_all

lemma sublist_cstr:
  assumes "NUL \<notin> set x" and "prefix pat q" and "NUL \<notin> set pat" shows "sublist pat (cstr (x @ q))"
proof -
  obtain z where "q = pat @ z" using assms(2) by (auto simp: prefix_def)
  then have "cstr (x @ q) = x @ pat @ cstr z" using assms(1,3)
    by (simp add: cstr_def takeWhile_append)
  then show ?thesis by (auto simp: sublist_def)
qed

lemma exact_suffix:
  assumes "exact_field query q'" and "query = pre @ p" and "length q' \<le> length p"
  obtains x where "p = x @ q'" and "NUL \<notin> set x"
proof -
  obtain y where y: "query = y @ q'" "NUL \<notin> set y" using assms(1) by (auto simp: exact_field_def)
  moreover have "length pre + length p = length y + length q'" using assms(2) y(1) by (metis length_append)
  ultimately have "p = drop (length pre) y @ q'"
    using assms(2,3) by (auto simp: append_eq_append_conv_if)
  then show thesis using that y(2) in_set_dropD by metis
qed

lemma flash_field_exact:
  assumes "query = pre @ p" and "NUL \<notin> set pre"
  shows "case flash_field query p of
      Some q \<Rightarrow> exact_field query q \<and> (\<forall>q'. exact_field query q' \<and> length q' \<le> length p \<longrightarrow> length q' \<le> length q)
    | None \<Rightarrow> (\<forall>q'. exact_field query q' \<longrightarrow> length p < length q')"
  using assms
proof (induction query p arbitrary: pre rule: flash_field.induct)
  case (1 query p)
  show ?case
  proof (cases "strstr p ''flash=''")
    case None
    have "length p < length q'" if e: "exact_field query q'" for q'
    proof (rule ccontr)
      assume "\<not> length p < length q'"
      then obtain x where x: "p = x @ q'" "NUL \<notin> set x"
        by (metis exact_suffix [OF e 1(2)] not_less)
      moreover have "prefix ''flash='' q'" using e by (auto simp: exact_field_def)
      ultimately have "sublist ''flash='' (cstr p)" using sublist_cstr [of x "''flash=''" q'] by simp
      then show False using None find_sub_None_iff [of "''flash=''" p] by (simp add: strstr_flash)
    qed
    then show ?thesis using None by (subst flash_field.simps) simp
  next
    case (Some q)
    obtain y where y: "p = y @ q" "NUL \<notin> set y" "prefix ''flash='' q"
      "\<And>u u'. p = u @ u' \<Longrightarrow> length u < length y \<Longrightarrow> \<not> prefix ''flash='' u'"
      using find_sub_Some [of p "''flash=''" q] Some by (auto simp: strstr_flash)
    define ok where "ok = (length q = length query \<or> query ! (length query - length q - 1) = CHR ''?''
        \<or> query ! (length query - length q - 1) = CHR ''&'')"
    have q: "query = (pre @ y) @ q" "NUL \<notin> set (pre @ y)" using 1(2,3) y by simp_all
    have prev: "query ! (length query - length q - 1) = last (pre @ y)" if "pre @ y \<noteq> []"
      using that q(1) by (simp add: last_conv_nth nth_append del: append_assoc)
    have okq: "ok \<longleftrightarrow> exact_field query q"
    proof -
      have "ok \<longleftrightarrow> pre @ y = [] \<or> last (pre @ y) = CHR ''?'' \<or> last (pre @ y) = CHR ''&''"
        using q(1) prev by (cases "pre @ y = []") (auto simp: ok_def)
      then show ?thesis unfolding exact_field_def using q y(3) by (metis append_same_eq)
    qed
    have up: "length q' \<le> length q" if e: "exact_field query q'" "length q' \<le> length p" for q'
    proof (rule ccontr)
      assume l: "\<not> length q' \<le> length q"
      obtain x where x: "p = x @ q'" "NUL \<notin> set x" using exact_suffix [OF e(1) 1(2) e(2)] by blast
      then have "length x < length y" using l y(1) by (metis length_append add_less_cancel_right not_le add_mono_thms_linordered_field(3) nat_neq_iff less_irrefl add.commute)
      then show False using y(4) x(1) e(1) by (auto simp: exact_field_def)
    qed
    show ?thesis
    proof (cases ok)
      case True
      then have "flash_field query p = Some q" using Some by (subst flash_field.simps) (auto simp: ok_def Let_def)
      then show ?thesis using True okq up by simp
    next
      case False
      then have e: "flash_field query p = flash_field query (drop 1 q)"
        using Some by (subst flash_field.simps) (auto simp: ok_def Let_def)
      obtain z where z: "q = CHR ''f'' # z" using y(3) by (cases q) auto
      have "case flash_field query (drop 1 q) of
          Some r \<Rightarrow> exact_field query r \<and> (\<forall>q'. exact_field query q' \<and> length q' \<le> length (drop 1 q) \<longrightarrow> length q' \<le> length r)
        | None \<Rightarrow> (\<forall>q'. exact_field query q' \<longrightarrow> length (drop 1 q) < length q')"
        by (rule 1(1) [OF Some refl _, of "pre @ y @ [CHR ''f'']"]) (use False q z in \<open>auto simp: ok_def\<close>)
      moreover have "length q' \<le> length (drop 1 q)" if "exact_field query q'" "length q' \<le> length p" for q'
      proof -
        have "q' \<noteq> q" using that False okq by auto
        then have "length q' \<noteq> length q" using that(1) q(1) unfolding exact_field_def by (metis append_eq_append_conv)
        then show ?thesis using up [OF that] by simp
      qed
      ultimately show ?thesis unfolding e by (auto split: option.splits) (metis leD le_less_linear)
    qed
  qed
qed

text \<open>
  The backup handler finds the flash type exactly: it takes the first field of the query whose
  whole name is \<^verbatim>\<open>flash\<close>, and reports none only if there is no such field, so a field such as
  \<^verbatim>\<open>notflash\<close> is never mistaken for it.
\<close>

theorem flash_field_is_exact:
  assumes "NUL \<notin> set query"
  shows "case flash_field query query of
      Some q \<Rightarrow> exact_field query q \<and> (\<forall>q'. exact_field query q' \<longrightarrow> length q' \<le> length q)
    | None \<Rightarrow> (\<nexists>q. exact_field query q)"
proof -
  have "length q' \<le> length query" if "exact_field query q'" for q' using that by (auto simp: exact_field_def)
  then show ?thesis using flash_field_exact [of query "[]" query] by (fastforce split: option.splits)
qed

theorem flash_field_is_exact_witness:
  "flash_field ''?part=a&notflash=nor&flash=nand'' ''?part=a&notflash=nor&flash=nand'' = Some ''flash=nand''
   \<and> exact_field ''?part=a&notflash=nor&flash=nand'' ''flash=nand''"
proof -
  have "flash_field ''?part=a&notflash=nor&flash=nand'' ''?part=a&notflash=nor&flash=nand'' = Some ''flash=nand''"
    by code_simp
  then show ?thesis using flash_field_is_exact [of "''?part=a&notflash=nor&flash=nand''"] by simp
qed

section \<open>MAC addresses\<close>

lemma mac_writes_send: "mac_writes (send_buffer c b x s) = mac_writes s"
  by (simp add: send_buffer_def httpd_send_static_def httpd_send_data_def upd_def Let_def split_beta split: option.split)

text \<open>
  A request to change a MAC address hands the board code at most one address, and only one that
  was written as six pairs of hexadecimal digits and is a unicast address that is not zero.
\<close>

theorem mac_set_writes_valid:
  assumes "s' = httpd_handle_mac_set pl c data s"
  shows "mac_writes s' = mac_writes s \<or>
    (\<exists>wifi index text. mac_writes s' = mac_writes s @ [(wifi, eth_parse_enetaddr text, index)]
      \<and> mac_string_valid text \<and> is_valid_ethaddr (eth_parse_enetaddr text))"
proof -
  show ?thesis
    unfolding assms by (simp add: httpd_handle_mac_set_def Let_def mac_writes_send split: option.split form_result.split prod.split) blast
qed

definition sample_mac_body :: string where
  "sample_mac_body = ''iface=eth1&mac=02:11:22:33:44:5a''"

theorem mac_set_writes_valid_witness:
  "mac_writes (httpd_handle_mac_set board 7 (''POST /mac_set'' @ crlf2 @ sample_mac_body) idle)
     = [(False, [2, 0x11, 0x22, 0x33, 0x44, 0x5A], 1)]
   \<and> is_valid_ethaddr [2, 0x11, 0x22, 0x33, 0x44, 0x5A]"
proof -
  define d where "d = ''POST /mac_set'' @ crlf2 @ sample_mac_body"
  have f: "strstr d crlf2 = Some (crlf2 @ sample_mac_body)" "httpd_form_value sample_mac_body ''iface'' 16 = Found ''eth1''"
    "httpd_form_value sample_mac_body ''mac'' 32 = Found ''02:11:22:33:44:5a''" "mac_iface ''eth1'' = Some (False, 1)"
    "mac_string_valid ''02:11:22:33:44:5a''" "eth_parse_enetaddr ''02:11:22:33:44:5a'' = [2, 0x11, 0x22, 0x33, 0x44, 0x5A]"
    "is_valid_ethaddr [2, 0x11, 0x22, 0x33, 0x44, 0x5A]"
    unfolding d_def by code_simp+
  have w: "mac_writes (httpd_handle_mac_set board 7 d idle) = [(False, [2, 0x11, 0x22, 0x33, 0x44, 0x5A], 1)]"
    using f by (simp add: httpd_handle_mac_set_def Let_def mac_writes_send) (simp add: idle_def)
  show ?thesis
    using mac_set_writes_valid [OF refl, of board 7 d idle] w unfolding d_def by (auto simp: idle_def)
qed

end
