(* ===== verification/MacArt.thy ===== *)
theory MacArt
  imports WebForm FlashInfo
begin

text \<open>
  MAC addresses in the ART partition, \<^verbatim>\<open>board/qca/arm/common/macaddr_modify.c\<close>: reading and
  writing the partition on each kind of flash, the calibration checksum, the functions the web
  server and the \<^verbatim>\<open>mac\<close> command call, and the command.

  The flash is an array of bytes. A driver call (and \<^verbatim>\<open>memalign\<close>) may report an error, for a driver a negative
  result: \<open>drv_fail\<close> says which call does, counted from the start. Build options are fields of \<open>art_board\<close>:
  \<open>ath10k\<close> for \<^verbatim>\<open>CONFIG_IPQ40XX\<close> or \<^verbatim>\<open>CONFIG_IPQ806X\<close>, \<open>mmc_build\<close> for
  \<^verbatim>\<open>CONFIG_QCA_MMC\<close>, \<open>nand_build\<close> for \<^verbatim>\<open>CONFIG_CMD_NAND\<close>. Sector and erase sizes are powers
  of two, so the masks of the code are roundings.
\<close>

section \<open>State\<close>

datatype errno = EINVAL | ENOMEM | ENODEV | ENOENT | EIO | ENODATA | ENOSYS | EDRIVER

record art_board =
  ath10k :: bool
  no_macs :: nat
  mmc_build :: bool
  nand_build :: bool
  smem_flash_type :: int
  mmc_blksz :: "nat option"
  mmc_art_start :: "nat option"
  smem_art_start :: "nat option"
  flash_block_size :: nat
  nor_sector_size :: "nat option"
  nand_erasesize :: nat
  drv_fail :: "nat \<Rightarrow> bool"

record art =
  cells :: "nat \<Rightarrow> u8"
  calls :: nat

abbreviation (input) SMEM_BOOT_NOR_FLASH :: int where "SMEM_BOOT_NOR_FLASH \<equiv> 1"

text \<open>One driver call: whether it succeeds.\<close>

definition drv :: "art_board \<Rightarrow> art \<Rightarrow> bool \<times> art" where
  "drv bd s = (\<not> drv_fail bd (calls s), s\<lparr>calls := Suc (calls s)\<rparr>)"

section \<open>The checksum\<close>

definition le16 :: "u8 \<Rightarrow> u8 \<Rightarrow> u16" where
  "le16 a b = ucast a OR push_bit 8 (ucast b)"

fun xor16_loop :: "u16 \<Rightarrow> u8 list \<Rightarrow> u16" where
  "xor16_loop cs (a # b # p) = xor16_loop (cs XOR le16 a b) p"
| "xor16_loop cs _ = cs"

definition xor16_checksum :: "u8 list \<Rightarrow> u16" where
  "xor16_checksum buf = xor16_loop 0 buf"

definition store_le16 :: "u8 list \<Rightarrow> nat \<Rightarrow> u16 \<Rightarrow> u8 list" where
  "store_le16 buf off v = put buf off [ucast v, ucast (drop_bit 8 v)]"

definition art_cal_size :: "u8 list \<Rightarrow> nat" where
  "art_cal_size hdr = (if hdr ! 9 = 0x80 then 0x20000 else 0x10000)"

definition is_nor_flash :: "int \<Rightarrow> bool" where
  "is_nor_flash t = (t = SMEM_BOOT_NOR_FLASH \<or> t = SMEM_BOOT_SPI_FLASH
     \<or> t = SMEM_BOOT_NORPLUSNAND \<or> t = SMEM_BOOT_NORPLUSEMMC)"

definition is_nand_flash :: "int \<Rightarrow> bool" where
  "is_nand_flash t = (t = SMEM_BOOT_NAND_FLASH \<or> t = SMEM_BOOT_QSPI_NAND_FLASH)"

section \<open>The partition\<close>

definition art_part_offset :: "art_board \<Rightarrow> nat option" where
  "art_part_offset bd = map_option (\<lambda>start_blocks. flash_block_size bd * start_blocks) (smem_art_start bd)"

text \<open>The block loop of \<^verbatim>\<open>art_read\<close>: \<open>k\<close> blocks from the \<open>i\<close>-th on.\<close>

fun mmc_read_loop :: "art_board \<Rightarrow> nat \<Rightarrow> nat \<Rightarrow> nat \<Rightarrow> nat \<Rightarrow> nat \<Rightarrow> nat \<Rightarrow> u8 list \<Rightarrow> art
    \<Rightarrow> (errno + u8 list) \<times> art" where
  "mmc_read_loop bd bs blk_off intra sz i 0 buf s = (Inr buf, s)"
| "mmc_read_loop bd bs blk_off intra sz i (Suc k) buf s =
     (let skip = (if i = 0 then intra else 0);
          dst_off = (if i = 0 then 0 else i * bs - intra);
          copy_len = min (sz - dst_off) (bs - skip);
          (ok, s) = drv bd s
      in if \<not> ok then (Inl EDRIVER, s)
         else
           let blk_buf = cells_read (cells s) ((blk_off + i) * bs) bs
           in mmc_read_loop bd bs blk_off intra sz (Suc i) k
                (put buf dst_off (take copy_len (drop skip blk_buf))) s)"

definition art_read :: "art_board \<Rightarrow> nat \<Rightarrow> nat \<Rightarrow> art \<Rightarrow> (errno + u8 list) \<times> art" where
  "art_read bd offset sz s =
     (if mmc_build bd \<and> smem_flash_type bd = SMEM_BOOT_MMC_FLASH then
        case mmc_blksz bd of
          None \<Rightarrow> (Inl ENODEV, s)
        | Some bs \<Rightarrow>
            (case mmc_art_start bd of
               None \<Rightarrow> (Inl EDRIVER, s)
             | Some start \<Rightarrow>
                 let intra = offset mod bs;
                     blk_off = start + offset div bs;
                     blk_cnt = (intra + sz + bs - 1) div bs;
                     (ok, s) = drv bd s
                 in if \<not> ok then (Inl ENOMEM, s)
                    else mmc_read_loop bd bs blk_off intra sz 0 blk_cnt (replicate sz 0) s)
      else case art_part_offset bd of
        None \<Rightarrow> (Inl ENOENT, s)
      | Some base \<Rightarrow>
          if is_nor_flash (smem_flash_type bd) then
            (case nor_sector_size bd of
               None \<Rightarrow> (Inl ENODEV, s)
             | Some ss \<Rightarrow>
                 let (ok, s) = drv bd s
                 in (if ok then Inr (cells_read (cells s) (base + offset) sz) else Inl EDRIVER, s))
          else if is_nand_flash (smem_flash_type bd) \<and> nand_build bd then
            let (ok, s) = drv bd s
            in (if ok then Inr (cells_read (cells s) (base + offset) sz) else Inl EIO, s)
          else (Inl EINVAL, s))"

fun mmc_write_loop :: "art_board \<Rightarrow> nat \<Rightarrow> nat \<Rightarrow> nat \<Rightarrow> u8 list \<Rightarrow> nat \<Rightarrow> nat \<Rightarrow> art
    \<Rightarrow> (errno + unit) \<times> art" where
  "mmc_write_loop bd bs blk_off sz buf i 0 s = (Inr (), s)"
| "mmc_write_loop bd bs blk_off sz buf i (Suc k) s =
     (let byte_off = i * bs;
          copy_len = min (sz - byte_off) bs;
          blk_buf = put (replicate bs 0xFF) 0 (take copy_len (drop byte_off buf));
          (ok, s) = drv bd s
      in if \<not> ok then (Inl EDRIVER, s)
         else mmc_write_loop bd bs blk_off sz buf (Suc i) k
                (s\<lparr>cells := cells_write (cells s) ((blk_off + i) * bs) blk_buf\<rparr>))"

text \<open>Rewriting the erase blocks that hold the bytes from \<open>start\<close> to \<open>stop\<close>.\<close>

function nand_write_loop :: "art_board \<Rightarrow> nat \<Rightarrow> nat \<Rightarrow> nat \<Rightarrow> nat \<Rightarrow> u8 list \<Rightarrow> nat \<Rightarrow> art
    \<Rightarrow> (errno + unit) \<times> art" where
  "nand_write_loop bd es base start stop buf block_off s =
     (if es = 0 \<or> stop \<le> block_off then (Inr (), s)
      else
        let data_start = max start block_off;
            within = data_start - block_off;
            chunk = stop - data_start
        in if block_off < base \<or> es - within < chunk then (Inl EINVAL, s)
           else
             let (ok, s) = drv bd s in
             if \<not> ok then (Inl EIO, s)
             else
               let block = put (cells_read (cells s) block_off es) within (take chunk (drop (data_start - start) buf));
                   (ok, s) = drv bd s
               in if \<not> ok then (Inl EDRIVER, s)
                  else
                    let s = s\<lparr>cells := cells_write (cells s) block_off (replicate es 0xFF)\<rparr>;
                        (ok, s) = drv bd s
                    in if \<not> ok then (Inl EIO, s)
                       else nand_write_loop bd es base start stop buf (block_off + es)
                              (s\<lparr>cells := cells_write (cells s) block_off block\<rparr>))"
  by pat_completeness auto
termination by (relation "measure (\<lambda>(bd, es, base, start, stop, buf, block_off, s). stop - block_off)") auto

declare nand_write_loop.simps [simp del]

definition art_write :: "art_board \<Rightarrow> nat \<Rightarrow> nat \<Rightarrow> u8 list \<Rightarrow> art \<Rightarrow> (errno + unit) \<times> art" where
  "art_write bd offset sz buf s =
     (if mmc_build bd \<and> smem_flash_type bd = SMEM_BOOT_MMC_FLASH then
        case mmc_blksz bd of
          None \<Rightarrow> (Inl ENODEV, s)
        | Some bs \<Rightarrow>
            (case mmc_art_start bd of
               None \<Rightarrow> (Inl EDRIVER, s)
             | Some start \<Rightarrow>
                 let blk_off = start + offset div bs;
                     blk_cnt = (sz + bs - 1) div bs;
                     (ok, s) = drv bd s
                 in if \<not> ok then (Inl ENOMEM, s)
                    else mmc_write_loop bd bs blk_off sz buf 0 blk_cnt s)
      else case art_part_offset bd of
        None \<Rightarrow> (Inl ENOENT, s)
      | Some base \<Rightarrow>
          if is_nor_flash (smem_flash_type bd) then
            (case nor_sector_size bd of
               None \<Rightarrow> (Inl ENODEV, s)
             | Some ss \<Rightarrow>
                 let erase_size = (sz + ss - 1) div ss * ss;
                     (ok, s) = drv bd s
                 in if \<not> ok then (Inl EDRIVER, s)
                    else
                      let s = s\<lparr>cells := cells_write (cells s) (base + offset) (replicate erase_size 0xFF)\<rparr>;
                          (ok, s) = drv bd s
                      in if \<not> ok then (Inl EDRIVER, s)
                         else (Inr (), s\<lparr>cells := cells_write (cells s) (base + offset) (take sz buf)\<rparr>))
          else if is_nand_flash (smem_flash_type bd) \<and> nand_build bd then
            let es = nand_erasesize bd; start = base + offset
            in if es = 0 then (Inl EINVAL, s)
               else
                 let (ok, s) = drv bd s
                 in if \<not> ok then (Inl ENOMEM, s)
                    else nand_write_loop bd es base start (start + sz) buf (start div es * es) s
          else (Inl EINVAL, s))"

section \<open>Addresses of the wired interfaces\<close>

definition macaddr_read_base :: "art_board \<Rightarrow> int \<Rightarrow> art \<Rightarrow> (errno + u8 list) \<times> art" where
  "macaddr_read_base bd mac_index s =
     (if mac_index < 0 \<or> int (no_macs bd) \<le> mac_index then (Inl EINVAL, s)
      else
        let (ok, s) = drv bd s in
        if \<not> ok then (Inl ENOMEM, s)
        else
          (case art_read bd 0 0x1000 s of
             (Inl e, s) \<Rightarrow> (Inl e, s)
           | (Inr buf, s) \<Rightarrow> (Inr (take 6 (drop (nat mac_index * 6) buf)), s)))"

definition macaddr_modify_base :: "art_board \<Rightarrow> u8 list \<Rightarrow> int \<Rightarrow> art \<Rightarrow> (errno + unit) \<times> art" where
  "macaddr_modify_base bd new_mac mac_index s =
     (if \<not> is_valid_ethaddr new_mac \<or> mac_index < 0 \<or> int (no_macs bd) \<le> mac_index then (Inl EINVAL, s)
      else
        let (ok, s) = drv bd s in
        if \<not> ok then (Inl ENOMEM, s)
        else
          (case art_read bd 0 0x1000 s of
             (Inl e, s) \<Rightarrow> (Inl e, s)
           | (Inr buf, s) \<Rightarrow> art_write bd 0 0x1000 (put buf (nat mac_index * 6) new_mac) s))"

section \<open>Addresses of the radios\<close>

definition cal_offset :: "art_board \<Rightarrow> int \<Rightarrow> nat" where
  "cal_offset bd wifi_index =
     (if ath10k bd then [0x1000, 0x5000, 0x9000] ! nat wifi_index
      else [0x1000, 0x26800, 0x4C000] ! nat (wifi_index div 2))"

definition wifi_max :: "art_board \<Rightarrow> nat" where
  "wifi_max bd = (if ath10k bd then 3 else 6)"

definition mac_off :: "art_board \<Rightarrow> int \<Rightarrow> nat" where
  "mac_off bd wifi_index = (if ath10k bd then 6 else 0x0E + nat (wifi_index mod 2) * 6)"

text \<open>
  The size of the calibration block that a header announces, and whether it is one at all: the
  \<^verbatim>\<open>ath10k\<close> variant checks the announced size and then uses a fixed one.
\<close>

definition cal_header :: "art_board \<Rightarrow> u8 list \<Rightarrow> errno + nat" where
  "cal_header bd hdr =
     (if ath10k bd then
        let cal_size = unat (le16 (hdr ! 0) (hdr ! 1))
        in if cal_size = 0xFFFF \<or> cal_size = 0 \<or> 0x10000 < cal_size then Inl ENODATA else Inr cal_size
      else if hdr ! 0 \<noteq> 0x01 then Inl ENOSYS else Inr (art_cal_size hdr))"

definition macaddr_read_wifi :: "art_board \<Rightarrow> int \<Rightarrow> art \<Rightarrow> (errno + u8 list) \<times> art" where
  "macaddr_read_wifi bd wifi_index s =
     (if wifi_index < 0 \<or> int (wifi_max bd) \<le> wifi_index then (Inl EINVAL, s)
      else
        let cal_off = cal_offset bd wifi_index in
        case art_read bd cal_off (if ath10k bd then 2 else 16) s of
          (Inl e, s) \<Rightarrow> (Inl e, s)
        | (Inr hdr, s) \<Rightarrow>
            (case cal_header bd hdr of
               Inl e \<Rightarrow> (Inl e, s)
             | Inr cal_size \<Rightarrow>
                 let (ok, s) = drv bd s in
                 if \<not> ok then (Inl ENOMEM, s)
                 else
                   (case art_read bd cal_off cal_size s of
                      (Inl e, s) \<Rightarrow> (Inl e, s)
                    | (Inr cal, s) \<Rightarrow> (Inr (take 6 (drop (mac_off bd wifi_index) cal)), s))))"

definition crc_off :: "art_board \<Rightarrow> nat" where
  "crc_off bd = (if ath10k bd then 0x02 else 0x0A)"

text \<open>
  The calibration block with a new address and checksum. The \<^verbatim>\<open>ath10k\<close> variant sums over a
  checksum field of all ones and stores the sum, the other one sums over a field of zeros and
  stores the complement. The first component is the sum that is compared with 0xFFFF to warn.
\<close>

definition patch_cal :: "art_board \<Rightarrow> u8 list \<Rightarrow> int \<Rightarrow> u8 list \<Rightarrow> u16 \<times> u8 list" where
  "patch_cal bd new_mac wifi_index cal =
     (if ath10k bd then
        let warn = xor16_checksum cal;
            cal = put cal 6 new_mac;
            cal = store_le16 cal (crc_off bd) 0xFFFF;
            cs = xor16_checksum cal
        in (warn, store_le16 cal (crc_off bd) cs)
      else
        let cal = put cal (crc_off bd) [0, 0];
            warn = xor16_checksum cal;
            cal = put cal (mac_off bd wifi_index) new_mac;
            cal = put cal (crc_off bd) [0, 0];
            cs = xor16_checksum cal
        in (warn, store_le16 cal (crc_off bd) (cs XOR 0xFFFF)))"

definition macaddr_modify_wifi :: "art_board \<Rightarrow> u8 list \<Rightarrow> int \<Rightarrow> art \<Rightarrow> (errno + unit) \<times> art" where
  "macaddr_modify_wifi bd new_mac wifi_index s =
     (if \<not> is_valid_ethaddr new_mac \<or> wifi_index < 0 \<or> int (wifi_max bd) \<le> wifi_index then (Inl EINVAL, s)
      else
        let cal_off = cal_offset bd wifi_index in
        case art_read bd cal_off (if ath10k bd then 2 else 16) s of
          (Inl e, s) \<Rightarrow> (Inl e, s)
        | (Inr hdr, s) \<Rightarrow>
            (case cal_header bd hdr of
               Inl e \<Rightarrow> (Inl e, s)
             | Inr announced \<Rightarrow>
                 let cal_size = (if ath10k bd then 12064 else announced);
                     (ok, s) = drv bd s
                 in if \<not> ok then (Inl ENOMEM, s)
                    else
                      (case art_read bd cal_off cal_size s of
                         (Inl e, s) \<Rightarrow> (Inl e, s)
                       | (Inr cal, s) \<Rightarrow>
                           art_write bd cal_off cal_size (snd (patch_cal bd new_mac wifi_index cal)) s)))"

definition macaddr_wifi_offset :: "art_board \<Rightarrow> int \<Rightarrow> nat" where
  "macaddr_wifi_offset bd wifi_index =
     (if wifi_index < 0 \<or> int (wifi_max bd) \<le> wifi_index then 0
      else cal_offset bd wifi_index + mac_off bd wifi_index)"

definition macaddr_wifi_cs_offset :: "art_board \<Rightarrow> int \<Rightarrow> nat" where
  "macaddr_wifi_cs_offset bd wifi_index =
     (if wifi_index < 0 \<or> int (wifi_max bd) \<le> wifi_index then 0
      else if ath10k bd then cal_offset bd wifi_index
      else cal_offset bd wifi_index + 0x0A)"

text \<open>The checksum bytes as they are shown, most significant first.\<close>

definition macaddr_wifi_checksum :: "art_board \<Rightarrow> int \<Rightarrow> art \<Rightarrow> u16 \<times> art" where
  "macaddr_wifi_checksum bd wifi_index s =
     (if wifi_index < 0 \<or> int (wifi_max bd) \<le> wifi_index then (0, s)
      else case art_read bd (macaddr_wifi_cs_offset bd wifi_index) 2 s of
             (Inl e, s) \<Rightarrow> (0, s)
           | (Inr buf, s) \<Rightarrow> (push_bit 8 (ucast (buf ! 0)) OR ucast (buf ! 1), s))"

text \<open>The table is read before the index is checked; the value is not used when the check fails.\<close>

definition macaddr_wifi_cs_valid :: "art_board \<Rightarrow> int \<Rightarrow> art \<Rightarrow> bool \<times> art" where
  "macaddr_wifi_cs_valid bd wifi_index s =
     (if wifi_index < 0 \<or> int (wifi_max bd) \<le> wifi_index then (False, s)
      else
        let cal_off = cal_offset bd wifi_index in
        if ath10k bd then
          let (ok, s) = drv bd s in
          if \<not> ok then (False, s)
          else (case art_read bd cal_off 12064 s of
                  (Inl e, s) \<Rightarrow> (False, s)
                | (Inr cal, s) \<Rightarrow> (xor16_checksum cal = 0xFFFF, s))
        else
          (case art_read bd cal_off 16 s of
             (Inl e, s) \<Rightarrow> (False, s)
           | (Inr hdr, s) \<Rightarrow>
               if hdr ! 0 \<noteq> 0x01 then (False, s)
               else
                 let (ok, s) = drv bd s in
                 if \<not> ok then (False, s)
                 else (case art_read bd cal_off (art_cal_size hdr) s of
                         (Inl e, s) \<Rightarrow> (False, s)
                       | (Inr cal, s) \<Rightarrow> (xor16_checksum cal = 0xFFFF, s))))"

section \<open>The command\<close>

definition mac_arg_valid :: "string \<Rightarrow> bool" where
  "mac_arg_valid s = (strlen s = 17 \<and> mac_string_valid_loop s 0 17)"

text \<open>Wireless or not, and the index.\<close>

definition parse_iface :: "string \<Rightarrow> (bool \<times> int) option" where
  "parse_iface arg =
     (if strncmp arg ''eth'' 3 = 0 \<and> isdigit (at arg 3)
        \<or> strncmp arg ''wifi'' 4 = 0 \<and> isdigit (at arg 4) then
        let wifi = (deref arg \<noteq> CHR ''e'')
        in Some (wifi, sint (fst (simple_strtoul (drop (if wifi then 4 else 3) arg) 0)))
      else None)"

datatype cmd_ret = CMD_RET_SUCCESS | CMD_RET_FAILURE | CMD_RET_USAGE

text \<open>Listing all addresses only reads; \<open>args\<close> are the arguments after the command name.\<close>

definition do_mac :: "art_board \<Rightarrow> string list \<Rightarrow> art \<Rightarrow> cmd_ret \<times> art" where
  "do_mac bd args s =
     (case args of
        [] \<Rightarrow>
          let s = fold (\<lambda>i s. snd (macaddr_read_base bd (int i) s)) [0..<no_macs bd] s;
              s = fold (\<lambda>i s. snd (macaddr_read_wifi bd (int i) s)) [0..<wifi_max bd] s
          in (CMD_RET_USAGE, s)
      | [_] \<Rightarrow> (CMD_RET_USAGE, s)
      | op # arg # rest \<Rightarrow>
          (case parse_iface arg of
             None \<Rightarrow> (CMD_RET_USAGE, s)
           | Some (wifi, index) \<Rightarrow>
               if strcmp op ''w'' = 0 then
                 (case rest of
                    [text] \<Rightarrow>
                      let mac = eth_parse_enetaddr text
                      in if \<not> mac_arg_valid text \<or> \<not> is_valid_ethaddr mac then (CMD_RET_FAILURE, s)
                         else
                           let (r, s) = (if wifi then macaddr_modify_wifi bd mac index s
                                         else macaddr_modify_base bd mac index s)
                           in (case r of Inl e \<Rightarrow> CMD_RET_FAILURE | Inr _ \<Rightarrow> CMD_RET_SUCCESS, s)
                  | _ \<Rightarrow> (CMD_RET_USAGE, s))
               else if strcmp op ''r'' = 0 then
                 let (r, s) = (if wifi then macaddr_read_wifi bd index s else macaddr_read_base bd index s)
                 in (case r of Inl e \<Rightarrow> CMD_RET_FAILURE | Inr _ \<Rightarrow> CMD_RET_SUCCESS, s)
               else (CMD_RET_USAGE, s)))"

end
