(* ===== verification/MacArtProofs.thy ===== *)
theory MacArtProofs
  imports MacArt
begin

text \<open>
  The ART partition as an array of bytes: on every kind of flash, reading delivers the bytes of the
  partition and writing stores them (\<open>byte_store\<close>, interpreted as \<open>art_part\<close> on
  \<^verbatim>\<open>art_read\<close> and \<^verbatim>\<open>art_write\<close>), and the algebra of the XOR checksum.
\<close>

lemma drv_cells [simp]: "cells (snd (drv bd s)) = cells s"
  by (simp add: drv_def)

section \<open>The checksum\<close>

lemma xor16_loop_acc: "xor16_loop cs p = cs XOR xor16_loop 0 p"
proof (induction p arbitrary: cs rule: induct_list012)
  case (3 a b p)
  have "xor16_loop (cs XOR le16 a b) p = (cs XOR le16 a b) XOR xor16_loop 0 p" by (rule "3.IH"(1))
  moreover have "xor16_loop (le16 a b) p = le16 a b XOR xor16_loop 0 p" by (rule "3.IH"(1))
  ultimately show ?case by (simp add: xor.assoc)
qed simp_all

lemma xor16_append: "even (length xs) \<Longrightarrow> xor16_checksum (xs @ ys) = xor16_checksum xs XOR xor16_checksum ys"
proof (induction xs rule: induct_list012)
  case (3 a b xs)
  then show ?case
    using xor16_loop_acc [of "le16 a b" "xs @ ys"] xor16_loop_acc [of "le16 a b" xs]
    by (simp add: xor16_checksum_def xor.assoc)
qed (simp_all add: xor16_checksum_def)

lemma le16_split: "le16 (ucast v) (ucast (drop_bit 8 v)) = v"
  by (rule bit_word_eqI) (auto simp: le16_def bit_simps)

lemma xor16_word: "xor16_checksum [ucast v, ucast (drop_bit 8 v)] = v"
  by (simp add: xor16_checksum_def le16_split)

lemma xor16_zero: "xor16_checksum [0, 0] = 0"
  by (simp add: xor16_checksum_def le16_def)

text \<open>Replacing the checksum field replaces its share of the sum.\<close>

lemma xor16_put:
  assumes "even off" and "even (length xs)" and "off + length xs \<le> length buf"
  shows "xor16_checksum (put buf off xs) = xor16_checksum (take off buf) XOR xor16_checksum xs
    XOR xor16_checksum (drop (off + length xs) buf)"
  using assms by (simp add: put_def xor16_append xor.assoc)

lemma xor16_store_again:
  assumes "even off" and "off + 2 \<le> length buf" and "length xs = 2"
  shows "xor16_checksum (store_le16 (put buf off xs) off v) = xor16_checksum (put buf off xs) XOR xor16_checksum xs XOR v"
proof -
  have "take off (put buf off xs) = take off buf" "drop (off + 2) (put buf off xs) = drop (off + 2) buf"
    using assms by (simp_all add: put_def)
  moreover have "length (put buf off xs) = length buf" using assms by (simp add: length_put)
  moreover have "a XOR v XOR b = (a XOR x XOR b) XOR x XOR v" for a b x :: u16
    by (rule bit_word_eqI) (auto simp: bit_simps)
  ultimately show ?thesis
    using xor16_put [of off "[ucast v, ucast (drop_bit 8 v)]" "put buf off xs"] xor16_put [of off xs buf] assms
    by (simp add: store_le16_def xor16_word)
qed

section \<open>The partition as an array of bytes\<close>

definition on_mmc :: "art_board \<Rightarrow> bool" where
  "on_mmc bd \<longleftrightarrow> mmc_build bd \<and> smem_flash_type bd = SMEM_BOOT_MMC_FLASH"

text \<open>Where the partition starts on the device, and the offsets its blocks can be written at.\<close>

definition origin :: "art_board \<Rightarrow> nat" where
  "origin bd = (if on_mmc bd then the (mmc_art_start bd) * the (mmc_blksz bd) else the (art_part_offset bd))"

definition aligned :: "art_board \<Rightarrow> nat \<Rightarrow> bool" where
  "aligned bd off \<longleftrightarrow> on_mmc bd \<longrightarrow> the (mmc_blksz bd) dvd off"

definition view :: "art_board \<Rightarrow> art \<Rightarrow> nat \<Rightarrow> u8" where
  "view bd s i = cells s (origin bd + i)"

lemma mmc_read_loop_cells:
  assumes "0 < bs" and "intra < bs" and "length buf = sz"
    and "mmc_read_loop bd bs blk_off intra sz i k buf s = (Inr b, s')"
  shows "cells s' = cells s \<and> length b = sz \<and> (\<forall>j < sz. b ! j =
    (if i * bs - intra \<le> j \<and> j < (i + k) * bs - intra then cells s (blk_off * bs + intra + j) else buf ! j))"
  using assms(3,4)
proof (induction k arbitrary: i buf s)
  case 0
  then show ?case by auto
next
  case (Suc k)
  define skip where "skip = (if i = 0 then intra else 0)"
  define dst where "dst = i * bs - intra"
  have dst: "(if i = 0 then 0 else i * bs - intra) = dst" by (simp add: dst_def)
  define n where "n = min (sz - dst) (bs - skip)"
  define xs where "xs = take n (drop skip (cells_read (cells s) ((blk_off + i) * bs) bs))"
  have lx: "length xs = n" by (simp add: xs_def n_def)
  have fit: "dst + length xs \<le> length buf \<or> xs = []" using Suc.prems(1) lx by (cases "dst \<le> sz") (auto simp: n_def)
  have l1: "length (put buf dst xs) = sz" using fit Suc.prems(1) by (auto simp: length_put put_def)
  have r: "mmc_read_loop bd bs blk_off intra sz (Suc i) k (put buf dst xs) (snd (drv bd s)) = (Inr b, s')"
    using Suc.prems(2) by (simp add: Let_def split_beta skip_def [symmetric] dst n_def [symmetric] xs_def split: if_splits)
  note ih = Suc.IH [OF l1 r]
  have isk: "i * bs + skip = dst + intra" using assms(2) by (cases i) (auto simp: skip_def dst_def)
  moreover have "skip \<le> bs" using assms(2) by (simp add: skip_def)
  ultimately have top: "Suc i * bs - intra = dst + (bs - skip)" by simp
  have x: "put buf dst xs ! j = (if dst \<le> j \<and> j < dst + (bs - skip) then cells s (blk_off * bs + intra + j) else buf ! j)"
    if "j < sz" for j
  proof (cases "dst \<le> j \<and> j < dst + (bs - skip)")
    case True
    then have "j < dst + n" using that by (auto simp: n_def min_def)
    moreover from isk have "(blk_off + i) * bs + (skip + (j - dst)) = blk_off * bs + intra + j"
      using True by (simp add: add_mult_distrib)
    moreover have "j - dst < n" "skip + (j - dst) < bs" using True calculation(1) by linarith+
    then have "xs ! (j - dst) = cells s ((blk_off + i) * bs + (skip + (j - dst)))" by (simp add: xs_def)
    moreover have "put buf dst xs ! j = xs ! (j - dst)"
      using nth_put [OF fit, of j] True calculation(1) that Suc.prems(1) lx by simp
    ultimately show ?thesis using True by simp
  next
    case False
    then show ?thesis using that fit Suc.prems(1) lx by (auto simp: nth_put n_def)
  qed
  have mono: "(i + Suc k) * bs - intra = (Suc i + k) * bs - intra" by simp
  have ge: "dst + (bs - skip) \<le> (Suc i + k) * bs - intra"
    unfolding top [symmetric] by (intro diff_le_mono mult_le_mono1) simp
  show ?case
    using ih x ge unfolding mono top by (auto simp: dst_def [symmetric])
qed

lemma mmc_write_loop_cells:
  assumes "0 < bs" and "length buf = sz"
    and "mmc_write_loop bd bs blk_off sz buf i k s = (Inr u, s')"
  shows "cells s' x = (if (blk_off + i) * bs \<le> x \<and> x < (blk_off + i + k) * bs
    then if x - blk_off * bs < sz then buf ! (x - blk_off * bs) else 0xFF else cells s x)"
  using assms(3)
proof (induction k arbitrary: i s)
  case 0
  then show ?case by auto
next
  case (Suc k)
  define n where "n = min (sz - i * bs) bs"
  define blk where "blk = put (replicate bs 0xFF) 0 (take n (drop (i * bs) buf))"
  have lt: "length (take n (drop (i * bs) buf)) = n" using assms(2) by (simp add: n_def)
  have lb: "length blk = bs" using lt by (simp add: blk_def length_put n_def)
  define s1 where "s1 = (snd (drv bd s))\<lparr>cells := cells_write (cells s) ((blk_off + i) * bs) blk\<rparr>"
  have r: "mmc_write_loop bd bs blk_off sz buf (Suc i) k s1 = (Inr u, s')"
    using Suc.prems by (simp add: Let_def split_beta n_def [symmetric] blk_def [symmetric] s1_def split: if_splits)
  have nb: "blk ! j = (if i * bs + j < sz then buf ! (i * bs + j) else 0xFF)" if "j < bs" for j
    using that lt assms(2) by (auto simp: blk_def nth_put n_def)
  have c1: "cells s1 x = (if (blk_off + i) * bs \<le> x \<and> x < (blk_off + i) * bs + bs
      then blk ! (x - (blk_off + i) * bs) else cells s x)"
    by (simp add: s1_def cells_write_def lb)
  show ?case
  proof (cases "(blk_off + i) * bs \<le> x \<and> x < (blk_off + i) * bs + bs")
    case True
    define y where "y = x - (blk_off + i) * bs"
    have y: "i * bs + y = x - blk_off * bs" "y < bs" using True by (simp_all add: y_def add_mult_distrib less_diff_conv2)
    have out: "((blk_off + Suc i) * bs \<le> x) = False" "(x < (blk_off + i + Suc k) * bs) = True"
      using True by (simp_all add: add_mult_distrib)
    have "cells s' x = cells s1 x" using Suc.IH [OF r] by (simp only: out simp_thms if_False)
    also have "\<dots> = blk ! y" using c1 True by (simp only: y_def simp_thms if_True)
    also have "\<dots> = (if x - blk_off * bs < sz then buf ! (x - blk_off * bs) else 0xFF)"
      using nb [OF y(2)] by (simp only: y(1))
    finally show ?thesis using True by (simp only: out simp_thms if_True)
  next
    case False
    have e: "(blk_off + Suc i) * bs = (blk_off + i) * bs + bs" "(blk_off + Suc i + k) * bs = (blk_off + i + Suc k) * bs"
      by simp_all
    have "((blk_off + i) * bs \<le> x \<and> x < (blk_off + i + Suc k) * bs)
        = ((blk_off + Suc i) * bs \<le> x \<and> x < (blk_off + Suc i + k) * bs)"
      unfolding e using False by linarith
    then show ?thesis using Suc.IH [OF r] c1 False by simp
  qed
qed

text \<open>A NAND write that succeeds fits one erase block and leaves the rest of it as it was.\<close>

lemma nand_write_cells:
  assumes es: "0 < es" and len: "length buf = sz" and pos: "0 < sz"
    and w: "nand_write_loop bd es base start (start + sz) buf (start div es * es) s = (Inr u, s')"
  shows "cells s' x = (if start \<le> x \<and> x < start + sz then buf ! (x - start) else cells s x)"
    and "start mod es + sz \<le> es"
proof -
  define b where "b = start div es * es"
  have b: "b \<le> start" "start - b = start mod es" "start mod es < es"
    using es by (simp_all add: b_def minus_div_mult_eq_mod)
  have bs: "b + start mod es = start" using b by simp
  define blk where "blk = put (cells_read (cells s) b es) (start mod es) buf"
  define s1 where "s1 = snd (drv bd s)"
  define s2 where "s2 = snd (drv bd s1)"
  define s3 where "s3 = snd (drv bd (s2\<lparr>cells := cells_write (cells s2) b (replicate es 0xFF)\<rparr>))"
  have "\<not> start + sz \<le> b" "max start b = start" using pos b by simp_all
  then have ok: "\<not> es - start mod es < sz"
    and r: "nand_write_loop bd es base start (start + sz) buf (b + es) (s3\<lparr>cells := cells_write (cells s3) b blk\<rparr>) = (Inr u, s')"
    using w es len b unfolding b_def [symmetric]
    by (subst (asm) nand_write_loop.simps;
        simp add: Let_def split_beta blk_def s1_def [symmetric] s2_def [symmetric] s3_def [symmetric] split: if_splits;
        simp add: s1_def s2_def s3_def)+
  show fit: "start mod es + sz \<le> es" using ok b(3) by simp
  then have "start + sz \<le> b + es" using bs by linarith
  then have s': "s' = s3\<lparr>cells := cells_write (cells s3) b blk\<rparr>"
    using r by (subst (asm) nand_write_loop.simps) simp
  have lb: "length blk = es" using fit len by (simp add: blk_def length_put)
  have c3: "cells s3 = cells_write (cells s) b (replicate es 0xFF)" by (simp add: s3_def s2_def s1_def)
  show "cells s' x = (if start \<le> x \<and> x < start + sz then buf ! (x - start) else cells s x)"
  proof (cases "b \<le> x \<and> x < b + es")
    case True
    then have xb: "x - b < es" by linarith
    have "cells s' x = blk ! (x - b)" using True by (simp add: s' cells_write_def lb)
    also have "\<dots> = (if start mod es \<le> x - b \<and> x - b < start mod es + sz then buf ! (x - b - start mod es) else cells s x)"
      using True fit len xb by (simp add: blk_def nth_put)
    finally show ?thesis using True bs by (auto simp: le_diff_conv2 less_diff_conv2)
  next
    case False
    then show ?thesis using \<open>start + sz \<le> b + es\<close> b(1) lb by (auto simp: s' cells_write_def c3)
  qed
qed

text \<open>
  What the functions above rely on: reads deliver the contents and change nothing, and after a
  write the contents are what was written. \<open>ready\<close> says that the device has a block size,
  \<open>good\<close> which offsets may be written at.
\<close>

locale byte_store =
  fixes rd :: "nat \<Rightarrow> nat \<Rightarrow> 's \<Rightarrow> (errno + u8 list) \<times> 's"
    and wr :: "nat \<Rightarrow> nat \<Rightarrow> u8 list \<Rightarrow> 's \<Rightarrow> (errno + unit) \<times> 's"
    and contents :: "'s \<Rightarrow> nat \<Rightarrow> u8"
    and ready :: bool
    and good :: "nat \<Rightarrow> bool"
  assumes rd_ok: "ready \<Longrightarrow> rd off n s = (Inr b, s') \<Longrightarrow> b = cells_read (contents s) off n \<and> contents s' = contents s"
    and wr_ok: "ready \<Longrightarrow> good off \<Longrightarrow> 0 < n \<Longrightarrow> length buf = n \<Longrightarrow> wr off n buf s = (Inr u, s')
      \<Longrightarrow> cells_read (contents s') off n = buf"
begin

lemma read_back:
  assumes "ready" and "good off" and "0 < n" and "length buf = n" and "wr off n buf s = (Inr u, s1)"
    and "contents s2 = contents s1" and "rd off n s2 = (Inr b, s3)"
  shows "b = buf" and "contents s3 = contents s1"
  using rd_ok [OF assms(1,7)] wr_ok [OF assms(1-5)] assms(6) by simp_all

text \<open>Reading a part of what was written.\<close>

lemma read_part_back:
  assumes "ready" and "good off" and "0 < n" and "length buf = n" and "wr off n buf s = (Inr u, s1)"
    and "contents s2 = contents s1" and "k + m \<le> n" and "rd (off + k) m s2 = (Inr b, s3)"
  shows "b = take m (drop k buf)" and "contents s3 = contents s1"
proof -
  have "b = cells_read (contents s1) (off + k) m" "contents s3 = contents s1"
    using rd_ok [OF assms(1,8)] assms(6) by simp_all
  then show "b = take m (drop k buf)" "contents s3 = contents s1"
    using wr_ok [OF assms(1-5)] take_drop_cells_read [OF assms(7), of "contents s1" off] by simp_all
qed

text \<open>Read, change some bytes, write back.\<close>

lemma patch:
  assumes "ready" and "good off" and "0 < n" and "k + length xs \<le> n" and "rd off n s = (Inr b, s1)"
    and "wr off n (put b k xs) s1 = (Inr u, s2)"
  shows "cells_read (contents s2) off n = put (cells_read (contents s) off n) k xs"
proof -
  have b: "b = cells_read (contents s) off n" using rd_ok [OF assms(1,5)] by simp
  then have "length (put b k xs) = n" using assms(4) by (simp add: length_put)
  with wr_ok [OF assms(1-3) _ assms(6)] show ?thesis by (simp add: b)
qed

end

lemma cells_read_origin: "cells_read (view bd s) off n = cells_read (cells s) (origin bd + off) n"
  by (simp add: cells_read_def view_def add.assoc)

definition mmc_ready :: "art_board \<Rightarrow> bool" where
  "mmc_ready bd \<longleftrightarrow> on_mmc bd \<longrightarrow> 0 < the (mmc_blksz bd)"

lemma art_read_cells:
  assumes rdy: "mmc_ready bd" and r: "art_read bd off n s = (Inr b, s')"
  shows "b = cells_read (view bd s) off n \<and> view bd s' = view bd s"
proof (cases "on_mmc bd")
  case True
  then obtain bs start where c: "mmc_blksz bd = Some bs" "mmc_art_start bd = Some start"
    using r by (auto simp: art_read_def on_mmc_def split: option.splits)
  have bs: "0 < bs" using rdy True c by (simp add: mmc_ready_def)
  define intra where "intra = off mod bs"
  define cnt where "cnt = (intra + n + bs - 1) div bs"
  have lp: "mmc_read_loop bd bs (start + off div bs) intra n 0 cnt (replicate n 0) (snd (drv bd s)) = (Inr b, s')"
    using r True c by (simp add: art_read_def on_mmc_def Let_def split_beta intra_def cnt_def split: if_splits)
  have enough: "n \<le> (0 + cnt) * bs - intra"
  proof -
    have "intra + n + bs - 1 < (cnt + 1) * bs" using bs dividend_less_div_times [of bs "intra + n + bs - 1"] by (simp add: cnt_def)
    then show ?thesis using bs by simp
  qed
  have "intra < bs" using bs by (simp add: intra_def)
  from mmc_read_loop_cells [OF bs this _ lp]
  have m: "cells s' = cells s" "length b = n" "\<And>j. j < n \<Longrightarrow> b ! j = cells s ((start + off div bs) * bs + intra + j)"
    using enough by auto
  have "(start + off div bs) * bs + intra = origin bd + off"
    using True c by (simp add: origin_def intra_def add_mult_distrib)
  then show ?thesis using m by (auto simp: view_def fun_eq_iff add.assoc intro!: nth_equalityI)
next
  case False
  then obtain base where base: "art_part_offset bd = Some base"
    using r by (auto simp: art_read_def on_mmc_def split: option.splits)
  have "cells s' = cells s \<and> b = cells_read (cells s) (base + off) n"
    using r False base by (auto simp: art_read_def on_mmc_def Let_def split_beta split: option.splits if_splits)
  then show ?thesis using False base by (simp add: cells_read_origin origin_def view_def fun_eq_iff)
qed

lemma art_write_cells:
  assumes rdy: "mmc_ready bd" and al: "aligned bd off" and n: "0 < n" "length buf = n"
    and w: "art_write bd off n buf s = (Inr u, s')"
  shows "cells_read (view bd s') off n = buf"
proof (cases "on_mmc bd")
  case True
  then obtain bs start where c: "mmc_blksz bd = Some bs" "mmc_art_start bd = Some start"
    using w by (auto simp: art_write_def on_mmc_def split: option.splits)
  have bs: "0 < bs" using rdy True c by (simp add: mmc_ready_def)
  define cnt where "cnt = (n + bs - 1) div bs"
  have lp: "mmc_write_loop bd bs (start + off div bs) n buf 0 cnt (snd (drv bd s)) = (Inr u, s')"
    using w True c by (simp add: art_write_def on_mmc_def Let_def split_beta cnt_def split: if_splits)
  have "n + bs - 1 < (cnt + 1) * bs" using bs dividend_less_div_times [of bs "n + bs - 1"] by (simp add: cnt_def)
  then have enough: "n \<le> cnt * bs" using bs by simp
  have o: "(start + off div bs) * bs = origin bd + off"
    using True c al by (simp add: origin_def add_mult_distrib aligned_def)
  have "cells s' (origin bd + off + j) = buf ! j" if "j < n" for j
    using mmc_write_loop_cells [OF bs n(2) lp, of "origin bd + off + j"] that enough o
    by (simp add: add_mult_distrib)
  then show ?thesis using n(2) by (auto simp: view_def add.assoc intro!: nth_equalityI)
next
  case False
  then obtain base where base: "art_part_offset bd = Some base"
    using w by (auto simp: art_write_def on_mmc_def split: option.splits)
  have "cells s' (base + off + j) = buf ! j" if j: "j < n" for j
  proof (cases "is_nor_flash (smem_flash_type bd)")
    case True
    then show ?thesis using w False base j n(2)
      by (auto simp: art_write_def on_mmc_def Let_def split_beta cells_write_def split: option.splits if_splits)
  next
    case nn: False
    then have "nand_write_loop bd (nand_erasesize bd) base (base + off) (base + off + n) buf
        ((base + off) div nand_erasesize bd * nand_erasesize bd) (snd (drv bd s)) = (Inr u, s')" "0 < nand_erasesize bd"
      using w False base by (auto simp: art_write_def on_mmc_def Let_def split_beta split: if_splits)
    from nand_write_cells(1) [OF this(2) n(2,1) this(1), of "base + off + j"] j show ?thesis by simp
  qed
  then show ?thesis using False base n(2) by (auto simp: view_def origin_def add.assoc intro!: nth_equalityI)
qed

interpretation art_part: byte_store "art_read bd" "art_write bd" "view bd" "mmc_ready bd" "aligned bd" for bd
proof
  show "b = cells_read (view bd s) off n \<and> view bd s' = view bd s"
    if "mmc_ready bd" "art_read bd off n s = (Inr b, s')" for off n s b s'
    using art_read_cells [OF that] .
  show "cells_read (view bd s') off n = buf"
    if "mmc_ready bd" "aligned bd off" "0 < n" "length buf = n" "art_write bd off n buf s = (Inr u, s')" for off n buf s u s'
    using art_write_cells [OF that] .
qed

end
