(* ===== verification/MacArtProps.thy ===== *)
theory MacArtProps
  imports MacArtProofs
begin

text \<open>
  What the MAC functions promise: the addresses of the wired interfaces and of the radios are read
  back as they were written, other addresses and the calibration data are kept where the flash
  allows it, and the calibration checksum stays right.
\<close>

section \<open>Wired interfaces\<close>

lemma modify_base_steps:
  assumes m: "macaddr_modify_base bd mac i s = (Inr u, s')"
  obtains buf s1 where "art_read bd 0 0x1000 (snd (drv bd s)) = (Inr buf, s1)"
    and "art_write bd 0 0x1000 (put buf (nat i * 6) mac) s1 = (Inr u, s')"
    and "0 \<le> i" and "i < int (no_macs bd)"
proof -
  obtain r s1 where rd: "art_read bd 0 0x1000 (snd (drv bd s)) = (r, s1)" by (cases "art_read bd 0 0x1000 (snd (drv bd s))") auto
  show thesis
    by (rule that [of "projr r" s1]; use m rd in \<open>cases r; simp add: macaddr_modify_base_def Let_def split_beta split: if_splits\<close>)
qed

lemma modify_base_view:
  assumes rdy: "mmc_ready bd" and mac: "length mac = 6" and idx: "nat i * 6 + 6 \<le> 0x1000"
    and m: "macaddr_modify_base bd mac i s = (Inr u, s')"
  shows "cells_read (view bd s') 0 0x1000 = put (cells_read (view bd s) 0 0x1000) (nat i * 6) mac"
proof -
  define s0 where "s0 = snd (drv bd s)"
  obtain buf s1 where rd: "art_read bd 0 0x1000 s0 = (Inr buf, s1)"
    and w: "art_write bd 0 0x1000 (put buf (nat i * 6) mac) s1 = (Inr u, s')"
    using modify_base_steps [OF m] unfolding s0_def by blast
  have al: "aligned bd 0" by (simp add: aligned_def)
  have "view bd s0 = view bd s" by (simp add: view_def s0_def fun_eq_iff)
  then show ?thesis
    using art_part.patch [OF rdy al _ _ rd w] mac idx by simp
qed

lemma read_base_view:
  assumes rdy: "mmc_ready bd" and r: "macaddr_read_base bd j s = (Inr m, s')"
  shows "m = take 6 (drop (nat j * 6) (cells_read (view bd s) 0 0x1000))"
proof -
  define s0 where "s0 = snd (drv bd s)"
  obtain r0 s1 where "art_read bd 0 0x1000 s0 = (r0, s1)" by (cases "art_read bd 0 0x1000 s0") auto
  then obtain buf where rd: "art_read bd 0 0x1000 s0 = (Inr buf, s1)" "m = take 6 (drop (nat j * 6) buf)"
    using r by (cases r0) (auto simp: macaddr_read_base_def Let_def split_beta s0_def split: if_splits)
  moreover have "view bd s0 = view bd s" by (simp add: view_def s0_def fun_eq_iff)
  ultimately show ?thesis using art_part.rd_ok [OF rdy rd(1)] by simp
qed

lemma put_other:
  assumes "length xs = l" and "l + k \<le> length b" and "j + l \<le> k \<or> k + l \<le> j"
  shows "take l (drop j (put b k xs)) = take l (drop j b)"
proof (rule nth_equalityI)
  show "length (take l (drop j (put b k xs))) = length (take l (drop j b))" using assms by (simp add: length_put)
  fix n assume "n < length (take l (drop j (put b k xs)))"
  then show "take l (drop j (put b k xs)) ! n = take l (drop j b) ! n"
    using assms by (auto simp: length_put nth_put)
qed

lemma put_same: "k + length xs \<le> length b \<Longrightarrow> take (length xs) (drop k (put b k xs)) = xs"
  by (simp add: put_def)

text \<open>
  Changing the MAC address of a wired interface changes that address and no other: reading any
  interface afterwards gives the new address for the changed one and the old one for the others, on
  every kind of flash.
\<close>

theorem base_mac_roundtrip:
  assumes "mmc_ready bd" and "length mac = 6" and "no_macs bd * 6 \<le> 0x1000" and "0 \<le> i" and "0 \<le> j"
    and "macaddr_modify_base bd mac i s = (Inr u, s')" and "macaddr_read_base bd j s' = (Inr m, s'')"
    and "macaddr_read_base bd j s = (Inr old, s0)"
  shows "m = (if j = i then mac else old)"
proof -
  have "i < int (no_macs bd)" "j < int (no_macs bd)"
    using assms(6,7) by (auto simp: macaddr_modify_base_def macaddr_read_base_def split: if_splits)
  then have "nat i < no_macs bd" "nat j < no_macs bd" using assms(4,5) by auto
  then have "nat i * 6 + 6 \<le> 0x1000" "nat j * 6 + 6 \<le> 0x1000" using assms(3) by linarith+
  note idx = this
  define b where "b = cells_read (view bd s) 0 0x1000"
  have m: "m = take 6 (drop (nat j * 6) (put b (nat i * 6) mac))"
    using read_base_view [OF assms(1,7)] modify_base_view [OF assms(1,2) idx(1) assms(6)] by (simp add: b_def)
  show ?thesis
  proof (cases "j = i")
    case True
    then show ?thesis using m put_same [of "nat i * 6" mac b] idx assms(2) by (simp add: b_def)
  next
    case False
    then have "nat j * 6 + 6 \<le> nat i * 6 \<or> nat i * 6 + 6 \<le> nat j * 6" using assms(4,5) by linarith
    then have "m = take 6 (drop (nat j * 6) b)"
      using m put_other [of mac 6 "nat i * 6" b "nat j * 6"] assms(2) idx by (simp add: b_def)
    then show ?thesis using False read_base_view [OF assms(1,8)] by (simp add: b_def)
  qed
qed

text \<open>
  C40: On NOR flash with sectors larger than the 4 KB that hold the wired addresses, changing such an
  address erases the rest of the sector, where the calibration data of the first radio lies, and
  does not write it back.
\<close>

theorem nor_mac_change_erases_calibration:
  assumes "\<not> on_mmc bd" and "is_nor_flash (smem_flash_type bd)" and "art_part_offset bd = Some base"
    and "nor_sector_size bd = Some ss" and "0x1000 < ss"
    and "macaddr_modify_base bd mac i s = (Inr u, s')" and "length mac = 6" and "nat i * 6 + 6 \<le> 0x1000"
    and "0x1000 \<le> x" and "x < ss"
  shows "view bd s' x = 0xFF"
proof -
  define s0 where "s0 = snd (drv bd s)"
  obtain buf s1 where rd: "art_read bd 0 0x1000 s0 = (Inr buf, s1)"
    and w: "art_write bd 0 0x1000 (put buf (nat i * 6) mac) s1 = (Inr u, s')"
    using modify_base_steps [OF assms(6)] unfolding s0_def by blast
  have "length buf = 0x1000"
    using rd assms(1-4) by (auto simp: art_read_def on_mmc_def Let_def split_beta split: if_splits)
  then have l: "length (put buf (nat i * 6) mac) = 0x1000" using assms(7,8) by (simp add: length_put)
  have "(0x1000 + ss - 1) div ss = 1" using assms(5) by (simp add: div_nat_eqI)
  then show ?thesis
    using w assms(1-4,9,10) l unfolding view_def origin_def
    by (auto simp: art_write_def on_mmc_def Let_def split_beta cells_write_def split: if_splits)
qed

text \<open>
  On NAND flash the same change rewrites one erase block and leaves every other byte of the
  flash, the calibration data included, as it was.
\<close>

theorem nand_mac_change_is_local:
  assumes "\<not> on_mmc bd" and "is_nand_flash (smem_flash_type bd)" and "art_part_offset bd = Some base"
    and "macaddr_modify_base bd mac i s = (Inr u, s')" and "length mac = 6" and "nat i * 6 + 6 \<le> 0x1000"
    and "x < base + nat i * 6 \<or> base + nat i * 6 + 6 \<le> x"
  shows "cells s' x = cells s x"
proof -
  define s0 where "s0 = snd (drv bd s)"
  obtain buf s1 where rd: "art_read bd 0 0x1000 s0 = (Inr buf, s1)"
    and w: "art_write bd 0 0x1000 (put buf (nat i * 6) mac) s1 = (Inr u, s')"
    using modify_base_steps [OF assms(4)] unfolding s0_def by blast
  have nn: "\<not> is_nor_flash (smem_flash_type bd)" using assms(2) by (auto simp: is_nor_flash_def is_nand_flash_def)
  have b: "buf = cells_read (cells s) base 0x1000" "cells s1 = cells s"
    using rd assms(1-3) nn by (auto simp: art_read_def on_mmc_def Let_def split_beta s0_def split: if_splits)
  have l: "length (put buf (nat i * 6) mac) = 0x1000" using assms(5,6) by (simp add: length_put b)
  have "nand_write_loop bd (nand_erasesize bd) base base (base + 0x1000) (put buf (nat i * 6) mac)
      (base div nand_erasesize bd * nand_erasesize bd) (snd (drv bd s1)) = (Inr u, s')" "0 < nand_erasesize bd"
    using w assms(1-3) nn by (auto simp: art_write_def on_mmc_def Let_def split_beta split: if_splits)
  from nand_write_cells(1) [OF this(2) l _ this(1), of x] show ?thesis
    using assms(5-7) b by (auto simp: nth_put)
qed

section \<open>Radios\<close>

lemma mac_off_cases: "0 \<le> i \<Longrightarrow> mac_off bd i = (if ath10k bd then 6 else if i mod 2 = 0 then 14 else 20)"
  by (auto simp: mac_off_def)

lemma xor16_ones: "xor16_checksum [0xFF, 0xFF] = 0xFFFF"
  by code_simp

lemma store_ones: "store_le16 b k 0xFFFF = put b k [0xFF, 0xFF]"
proof -
  have "(ucast (0xFFFF :: u16) :: u8) = 0xFF" "(ucast (drop_bit 8 (0xFFFF :: u16)) :: u8) = 0xFF" by code_simp+
  then show ?thesis by (simp only: store_le16_def)
qed

lemma patch_cal_form:
  assumes n: "26 \<le> length cal" and mac: "length mac = 6" and i: "0 \<le> i"
  obtains B xs v where "snd (patch_cal bd mac i cal) = store_le16 (put B (crc_off bd) xs) (crc_off bd) v"
    and "length xs = 2" and "length B = length cal" and "xor16_checksum (put B (crc_off bd) xs) XOR xor16_checksum xs XOR v = 0xFFFF"
    and "\<And>k. k < length cal \<Longrightarrow> \<not> (crc_off bd \<le> k \<and> k < crc_off bd + 2) \<Longrightarrow>
      B ! k = (if mac_off bd i \<le> k \<and> k < mac_off bd i + 6 then mac ! (k - mac_off bd i) else cal ! k)"
proof (cases "ath10k bd")
  case True
  define B where "B = put cal 6 mac"
  define cs where "cs = xor16_checksum (put B 2 [0xFF, 0xFF])"
  show thesis
  proof (rule that [of B "[0xFF, 0xFF]" cs])
    show "snd (patch_cal bd mac i cal) = store_le16 (put B (crc_off bd) [0xFF, 0xFF]) (crc_off bd) cs"
      using True by (simp add: patch_cal_def Let_def crc_off_def store_ones B_def cs_def)
    show "xor16_checksum (put B (crc_off bd) [0xFF, 0xFF]) XOR xor16_checksum [0xFF, 0xFF] XOR cs = 0xFFFF"
    proof -
      have "cs XOR 0xFFFF XOR cs = 0xFFFF" by (rule bit_word_eqI) (auto simp: bit_simps)
      then show ?thesis using True by (simp add: crc_off_def cs_def [symmetric] xor16_ones)
    qed
    show "B ! k = (if mac_off bd i \<le> k \<and> k < mac_off bd i + 6 then mac ! (k - mac_off bd i) else cal ! k)"
      if "k < length cal" for k using True that n mac by (simp add: B_def nth_put mac_off_def)
  qed (use n mac in \<open>simp_all add: B_def length_put\<close>)
next
  case False
  define A where "A = put cal 10 [0, 0]"
  define B where "B = put A (mac_off bd i) mac"
  define cs where "cs = xor16_checksum (put B 10 [0, 0])"
  have lA: "length A = length cal" using n by (simp add: A_def length_put)
  show thesis
  proof (rule that [of B "[0, 0]" "cs XOR 0xFFFF"])
    show "snd (patch_cal bd mac i cal) = store_le16 (put B (crc_off bd) [0, 0]) (crc_off bd) (cs XOR 0xFFFF)"
      using False by (simp add: patch_cal_def Let_def crc_off_def A_def B_def cs_def)
    show "xor16_checksum (put B (crc_off bd) [0, 0]) XOR xor16_checksum [0, 0] XOR (cs XOR 0xFFFF) = 0xFFFF"
      using False by (simp add: crc_off_def cs_def [symmetric] xor16_zero)
    show "length B = length cal" using n mac lA mac_off_cases [OF i, of bd] False by (simp add: B_def length_put)
    show "B ! k = (if mac_off bd i \<le> k \<and> k < mac_off bd i + 6 then mac ! (k - mac_off bd i) else cal ! k)"
      if "k < length cal" "\<not> (crc_off bd \<le> k \<and> k < crc_off bd + 2)" for k
      using False that n mac lA mac_off_cases [OF i, of bd] by (auto simp: B_def A_def nth_put crc_off_def)
  qed simp
qed

lemma patch_cal_facts:
  assumes n: "26 \<le> length cal" and mac: "length mac = 6" and i: "0 \<le> i" and c: "cal' = snd (patch_cal bd mac i cal)"
  shows "length cal' = length cal" and "xor16_checksum cal' = 0xFFFF"
    and "take 6 (drop (mac_off bd i) cal') = mac"
    and "\<And>k. k < length cal \<Longrightarrow> \<not> (mac_off bd i \<le> k \<and> k < mac_off bd i + 6)
      \<Longrightarrow> \<not> (crc_off bd \<le> k \<and> k < crc_off bd + 2) \<Longrightarrow> cal' ! k = cal ! k"
proof -
  obtain B xs v where f: "cal' = store_le16 (put B (crc_off bd) xs) (crc_off bd) v" "length xs = 2"
    "length B = length cal" "xor16_checksum (put B (crc_off bd) xs) XOR xor16_checksum xs XOR v = 0xFFFF"
    and B: "\<And>k. k < length cal \<Longrightarrow> \<not> (crc_off bd \<le> k \<and> k < crc_off bd + 2) \<Longrightarrow>
      B ! k = (if mac_off bd i \<le> k \<and> k < mac_off bd i + 6 then mac ! (k - mac_off bd i) else cal ! k)"
    using patch_cal_form [OF n mac i, of bd] unfolding c by metis
  have cr: "even (crc_off bd)" "crc_off bd + 2 \<le> length B" using n f(3) by (simp_all add: crc_off_def)
  have lp: "length (put B (crc_off bd) xs) = length B" using cr f(2) by (simp add: length_put)
  show len: "length cal' = length cal" using cr f lp by (simp add: store_le16_def length_put)
  show "xor16_checksum cal' = 0xFFFF" using xor16_store_again [OF cr f(2), of v] f(1,4) by simp
  have nth: "cal' ! k = B ! k" if "k < length cal" "\<not> (crc_off bd \<le> k \<and> k < crc_off bd + 2)" for k
    using that cr f lp by (auto simp: store_le16_def nth_put)
  then show "cal' ! k = cal ! k" if "k < length cal" "\<not> (mac_off bd i \<le> k \<and> k < mac_off bd i + 6)"
      "\<not> (crc_off bd \<le> k \<and> k < crc_off bd + 2)" for k
    using that B [of k] by auto
  have mo: "mac_off bd i + 6 \<le> length cal" "crc_off bd + 2 \<le> mac_off bd i"
    using mac_off_cases [OF i, of bd] n by (auto simp: crc_off_def)
  show "take 6 (drop (mac_off bd i) cal') = mac"
  proof (rule nth_equalityI)
    show "length (take 6 (drop (mac_off bd i) cal')) = length mac" using len mo mac by simp
    fix k assume "k < length (take 6 (drop (mac_off bd i) cal'))"
    then have k: "k < 6" using len mo by simp
    then have "cal' ! (mac_off bd i + k) = mac ! k" using nth [of "mac_off bd i + k"] B [of "mac_off bd i + k"] mo by simp
    then show "take 6 (drop (mac_off bd i) cal') ! k = mac ! k" using k len mo by simp
  qed
qed


lemma modify_wifi_steps:
  assumes m: "macaddr_modify_wifi bd mac i s = (Inr u, s')"
  obtains hdr s1 n cal s2 where "art_read bd (cal_offset bd i) (if ath10k bd then 2 else 16) s = (Inr hdr, s1)"
    and "cal_header bd hdr = Inr n"
    and "art_read bd (cal_offset bd i) (if ath10k bd then 12064 else n) (snd (drv bd s1)) = (Inr cal, s2)"
    and "art_write bd (cal_offset bd i) (if ath10k bd then 12064 else n) (snd (patch_cal bd mac i cal)) s2 = (Inr u, s')"
    and "0 \<le> i" and "i < int (wifi_max bd)"
proof -
  obtain r s1 where rd: "art_read bd (cal_offset bd i) (if ath10k bd then 2 else 16) s = (r, s1)"
    by (cases "art_read bd (cal_offset bd i) (if ath10k bd then 2 else 16) s") auto
  obtain r2 s2 where rd2: "art_read bd (cal_offset bd i) (if ath10k bd then 12064 else projr (cal_header bd (projr r)))
      (snd (drv bd s1)) = (r2, s2)"
    by (cases "art_read bd (cal_offset bd i) (if ath10k bd then 12064 else projr (cal_header bd (projr r))) (snd (drv bd s1))") auto
  show thesis
    by (rule that [of "projr r" s1 "projr (cal_header bd (projr r))" "projr r2" s2];
      use m rd rd2 in \<open>cases r; cases "cal_header bd (projr r)"; cases r2;
        simp add: macaddr_modify_wifi_def Let_def split_beta split: if_splits\<close>)
qed

text \<open>The block that is rewritten.\<close>

definition cal_len :: "art_board \<Rightarrow> u8 list \<Rightarrow> nat" where
  "cal_len bd hdr = (if ath10k bd then 12064 else art_cal_size hdr)"

lemma modify_wifi_view:
  assumes rdy: "mmc_ready bd" and al: "aligned bd (cal_offset bd i)"
    and m: "macaddr_modify_wifi bd mac i s = (Inr u, s')" and mac: "length mac = 6"
    and n: "n = cal_len bd (cells_read (view bd s) (cal_offset bd i) 16)"
    and b: "b = cells_read (view bd s) (cal_offset bd i) n"
  shows "cells_read (view bd s') (cal_offset bd i) n = snd (patch_cal bd mac i b)" and "0 \<le> i"
    and "i < int (wifi_max bd)" and "26 \<le> n" and "ath10k bd \<or> b ! 0 = 1"
proof -
  obtain hdr s1 k cal s2 where st: "art_read bd (cal_offset bd i) (if ath10k bd then 2 else 16) s = (Inr hdr, s1)"
    "cal_header bd hdr = Inr k"
    "art_read bd (cal_offset bd i) (if ath10k bd then 12064 else k) (snd (drv bd s1)) = (Inr cal, s2)"
    "art_write bd (cal_offset bd i) (if ath10k bd then 12064 else k) (snd (patch_cal bd mac i cal)) s2 = (Inr u, s')"
    and i: "0 \<le> i" "i < int (wifi_max bd)"
    using modify_wifi_steps [OF m] by metis
  show "0 \<le> i" "i < int (wifi_max bd)" by fact+
  have h: "hdr = cells_read (view bd s) (cal_offset bd i) (if ath10k bd then 2 else 16)" "view bd s1 = view bd s"
    using art_part.rd_ok [OF rdy st(1)] by simp_all
  have k: "(if ath10k bd then 12064 else k) = n"
    using st(2) h(1) by (auto simp: n cal_len_def cal_header_def split: if_splits)
  show ge: "26 \<le> n" by (simp add: n cal_len_def art_cal_size_def)
  show "ath10k bd \<or> b ! 0 = 1"
    using st(2) h(1) ge by (auto simp: cal_header_def b split: if_splits)
  have "view bd (snd (drv bd s1)) = view bd s" using h(2) by (simp add: view_def fun_eq_iff)
  then have c: "cal = b" using art_part.rd_ok [OF rdy st(3)] by (simp add: b k)
  have "length (snd (patch_cal bd mac i b)) = n" using patch_cal_facts(1) [of b mac i, OF _ mac i(1)] ge by (simp add: b)
  then show "cells_read (view bd s') (cal_offset bd i) n = snd (patch_cal bd mac i b)"
    using art_part.wr_ok [OF rdy al _ _ st(4)] k c ge by simp
qed

section \<open>Without driver faults\<close>

lemma mmc_read_loop_total:
  "(\<And>k. \<not> drv_fail bd k) \<Longrightarrow> \<exists>b s'. mmc_read_loop bd bs blk_off intra sz i k buf s = (Inr b, s')"
  by (induction k arbitrary: i buf s) (auto simp: Let_def drv_def)

text \<open>Where one read succeeds, every read does.\<close>

lemma art_read_total:
  assumes "\<And>k. \<not> drv_fail bd k" and "art_read bd off n s = (Inr b, s1)"
  obtains b' s2 where "art_read bd off' n' s' = (Inr b', s2)"
proof -
  have "\<exists>b' s2. art_read bd off' n' s' = (Inr b', s2)"
    using assms mmc_read_loop_total [OF assms(1)]
    by (auto simp: art_read_def drv_def Let_def split: if_splits option.splits)
  with that show thesis by blast
qed


text \<open>
  After a successful change, and with a driver that does not fail, the validity check of the web
  page accepts the block, and reading the radio's address gives the new one (on the \<open>ath10k\<close>
  variants, where the block announces at least the twelve bytes up to the end of the address).
\<close>

theorem wifi_mac_roundtrip:
  assumes "mmc_ready bd" and "aligned bd (cal_offset bd i)" and "length mac = 6" and "\<And>k. \<not> drv_fail bd k"
    and "macaddr_modify_wifi bd mac i s = (Inr u, s')"
    and "ath10k bd \<longrightarrow> 12 \<le> unat (le16 (view bd s (cal_offset bd i)) (view bd s (cal_offset bd i + 1)))"
  shows "fst (macaddr_wifi_cs_valid bd i s') \<and> fst (macaddr_read_wifi bd i s') = Inr mac"
proof -
  define off n where "off = cal_offset bd i" and "n = cal_len bd (cells_read (view bd s) (cal_offset bd i) 16)"
  define old where "old = cells_read (view bd s) off n"
  note v = modify_wifi_view [OF assms(1,2,5,3) n_def old_def [unfolded off_def], folded off_def]
  have l: "26 \<le> length old" "length old = n" using v(4) old_def by simp_all
  define new where "new = snd (patch_cal bd mac i old)"
  note f = patch_cal_facts [OF l(1) assms(3) v(2) new_def]
  have new: "cells_read (view bd s') off n = new" using v(1) by (simp add: new_def)
  have same: "view bd s' (off + k) = view bd s (off + k)" if "k < 10" "\<not> ath10k bd \<or> k < 2" for k
  proof -
    have "new ! k = old ! k" using f(4) [of k] that l mac_off_cases [OF v(2), of bd] by (auto simp: crc_off_def split: if_splits)
    moreover have "k < n" using that v(4) by simp
    ultimately show ?thesis using nth_cells_read [of k n "view bd s'" off] nth_cells_read [of k n "view bd s" off]
      by (simp only: new old_def)
  qed
  obtain hdr s1 h where ar: "art_read bd off (if ath10k bd then 2 else 16) s = (Inr hdr, s1)" "cal_header bd hdr = Inr h"
    using modify_wifi_steps [OF assms(5), folded off_def] by metis
  have hdr: "hdr = cells_read (view bd s) off (if ath10k bd then 2 else 16)" using art_part.rd_ok [OF assms(1) ar(1)] by simp
  have rd: "\<exists>s2. art_read bd o' n' t = (Inr (cells_read (view bd t) o' n'), s2) \<and> view bd s2 = view bd t" for o' n' t
    using art_read_total [OF assms(4) ar(1), of o' n' t] art_part.rd_ok [OF assms(1)] by metis
  have ok: "fst (drv bd t)" "view bd (snd (drv bd t)) = view bd t" for t
    using assms(4) by (simp_all add: drv_def view_def fun_eq_iff)
  have sub: "take 6 (drop (mac_off bd i) (cells_read (view bd s') off k)) = mac" if "mac_off bd i + 6 \<le> k" for k
  proof -
    have "mac_off bd i + 6 \<le> n" using l mac_off_cases [OF v(2), of bd] by auto
    then show ?thesis using f(3) that new take_drop_cells_read by metis
  qed
  define h' where "h' = cells_read (view bd s') off (if ath10k bd then 2 else 16)"
  have idx: "\<not> (i < 0 \<or> int (wifi_max bd) \<le> i)" using v(2,3) by simp
  have hd: "cal_header bd h' = Inr h" and hn: "mac_off bd i + 6 \<le> h" and hv: "\<not> ath10k bd \<longrightarrow> h' ! 0 = 1 \<and> art_cal_size h' = n"
    using ar(2) same [of 0] same [of 1] same [of 9] assms(6) mac_off_cases [OF v(2), of bd]
    by (auto simp: cal_header_def Let_def h'_def hdr off_def n_def cal_len_def art_cal_size_def numeral_2_eq_2 split: if_splits)
  have n12: "ath10k bd \<Longrightarrow> n = 12064" by (simp add: n_def cal_len_def)
  obtain s1 where r1: "art_read bd off (if ath10k bd then 2 else 16) s' = (Inr h', s1)" "view bd s1 = view bd s'"
    using rd [of off "if ath10k bd then 2 else 16" s'] by (auto simp: h'_def)
  obtain s2 where r2: "art_read bd off h (snd (drv bd s1)) = (Inr (cells_read (view bd s') off h), s2)"
    using rd [of off h "snd (drv bd s1)"] by (auto simp: ok r1(2))
  have "fst (macaddr_read_wifi bd i s') = Inr mac"
    using idx r1 hd ok(1) [of s1] r2 sub [OF hn]
    by (simp add: macaddr_read_wifi_def Let_def off_def [symmetric] split_beta)
  moreover have "fst (macaddr_wifi_cs_valid bd i s')"
  proof (cases "ath10k bd")
    case True
    obtain s3 where "art_read bd off n (snd (drv bd s')) = (Inr new, s3)"
      using rd [of off n "snd (drv bd s')"] by (auto simp: ok new)
    then show ?thesis
      using True idx ok(1) [of s'] f(2) n12
      by (simp add: macaddr_wifi_cs_valid_def Let_def off_def [symmetric] split_beta)
  next
    case False
    obtain s3 where "art_read bd off n (snd (drv bd s1)) = (Inr new, s3)"
      using rd [of off n "snd (drv bd s1)"] by (auto simp: ok new r1(2))
    then show ?thesis
      using False idx ok(1) [of s1] f(2) hv r1(1)
      by (simp add: macaddr_wifi_cs_valid_def Let_def off_def [symmetric] split_beta)
  qed
  ultimately show ?thesis by simp
qed


text \<open>
  The variant for the newer chips clears the checksum field before it checks the old data, so it
  reports a mismatch for every block that is valid and whose checksum field is not zero.
\<close>

theorem valid_calibration_is_reported_as_mismatch:
  assumes "\<not> ath10k bd" and "12 \<le> length cal" and "xor16_checksum cal = 0xFFFF" and "le16 (cal ! 10) (cal ! 11) \<noteq> 0"
  shows "fst (patch_cal bd mac i cal) \<noteq> 0xFFFF"
proof
  assume w: "fst (patch_cal bd mac i cal) = 0xFFFF"
  have "drop 10 cal = [cal ! 10, cal ! 11] @ drop 12 cal"
    using assms(2) Cons_nth_drop_Suc [of 10 cal] Cons_nth_drop_Suc [of 11 cal] by simp
  then have c: "put cal 10 [cal ! 10, cal ! 11] = cal"
    using append_take_drop_id [of 10 cal] by (simp add: put_def)
  have "xor16_checksum cal = xor16_checksum (take 10 cal) XOR le16 (cal ! 10) (cal ! 11) XOR xor16_checksum (drop 12 cal)"
    using xor16_put [of 10 "[cal ! 10, cal ! 11]" cal] assms(2) by (simp add: c xor16_checksum_def)
  moreover have "xor16_checksum (put cal 10 [0, 0]) = xor16_checksum (take 10 cal) XOR xor16_checksum (drop 12 cal)"
    using xor16_put [of 10 "[0, 0]" cal] assms(2) by (simp add: xor16_zero)
  moreover have "xor16_checksum (put cal 10 [0, 0]) = 0xFFFF" using w assms(1) by (simp add: patch_cal_def Let_def crc_off_def)
  moreover have "v = 0" if "a XOR v XOR b = a XOR b" for a v b :: u16
  proof (rule bit_word_eqI)
    fix n assume n: "n < LENGTH(16)"
    have "bit (a XOR v XOR b) n = bit (a XOR b) n" using that by simp
    then show "bit v n = bit 0 n" by (auto simp: bit_simps)
  qed
  ultimately show False using assms(3,4) by metis
qed

section \<open>Examples\<close>

text \<open>A NOR board with 64 KB sectors, and a NAND board; the calibration block of the first radio starts with 1.\<close>

definition nor_board :: art_board where
  "nor_board = \<lparr>ath10k = False, no_macs = 4, mmc_build = True, nand_build = True, smem_flash_type = SMEM_BOOT_SPI_FLASH,
     mmc_blksz = None, mmc_art_start = None, smem_art_start = Some 23, flash_block_size = 0x10000,
     nor_sector_size = Some 0x10000, nand_erasesize = 0x20000, drv_fail = (\<lambda>_. False)\<rparr>"

definition nand_board :: art_board where
  "nand_board = nor_board\<lparr>smem_flash_type := SMEM_BOOT_NAND_FLASH, smem_art_start := Some 2\<rparr>"

definition sample_art :: art where
  "sample_art = \<lparr>cells = (\<lambda>x. if x = 0x21000 then 1 else 0), calls = 0\<rparr>"

definition sample_mac :: "u8 list" where
  "sample_mac = [2, 0x11, 0x22, 0x33, 0x44, 0x55]"

lemma sample_mac_facts: "length sample_mac = 6" "is_valid_ethaddr sample_mac"
  by (simp add: sample_mac_def) code_simp

lemmas art_board_simps = nor_board_def nand_board_def on_mmc_def mmc_ready_def aligned_def is_nor_flash_def is_nand_flash_def
  art_part_offset_def

lemma nor_example:
  "macaddr_modify_base nor_board sample_mac 1 s = (Inr (), snd (macaddr_modify_base nor_board sample_mac 1 s))"
  "fst (macaddr_read_base nor_board 1 s) = Inr (take 6 (drop 6 (cells_read (cells s) 0x170000 0x1000)))"
  using sample_mac_facts
  by (simp_all add: macaddr_modify_base_def macaddr_read_base_def art_board_simps art_read_def art_write_def drv_def Let_def)

theorem base_mac_roundtrip_witness:
  "macaddr_modify_base nor_board sample_mac 1 sample_art = (Inr (), snd (macaddr_modify_base nor_board sample_mac 1 sample_art))
   \<and> fst (macaddr_read_base nor_board 1 (snd (macaddr_modify_base nor_board sample_mac 1 sample_art))) = Inr sample_mac"
proof -
  define s' where "s' = snd (macaddr_modify_base nor_board sample_mac 1 sample_art)"
  have m: "macaddr_modify_base nor_board sample_mac 1 sample_art = (Inr (), s')" unfolding s'_def by (rule nor_example(1))
  have r: "macaddr_read_base nor_board 1 t = (Inr (take 6 (drop 6 (cells_read (cells t) 0x170000 0x1000))), snd (macaddr_read_base nor_board 1 t))"
    for t using nor_example(2) [of t] by (simp add: prod_eq_iff)
  have f: "mmc_ready nor_board" "no_macs nor_board * 6 \<le> 0x1000" "(0 :: int) \<le> 1" by (simp_all add: art_board_simps)
  have "take 6 (drop 6 (cells_read (cells s') 0x170000 0x1000)) = sample_mac"
    using base_mac_roundtrip [OF f(1) sample_mac_facts(1) f(2,3,3) m r r] by simp
  then show ?thesis using m nor_example(2) [of s'] by (simp add: s'_def [symmetric])
qed

theorem nor_mac_change_erases_calibration_witness:
  "view nor_board (snd (macaddr_modify_base nor_board sample_mac 1 sample_art)) 0x1000 = 0xFF"
proof (rule nor_mac_change_erases_calibration [OF _ _ _ _ _ nor_example(1)])
  show "art_part_offset nor_board = Some 0x170000" "nor_sector_size nor_board = Some 0x10000"
    by (simp_all add: art_board_simps)
qed (simp_all add: art_board_simps sample_mac_facts)

lemma nand_write_one:
  assumes "\<And>k. \<not> drv_fail bd k" and "0 < es" and "start mod es + sz \<le> es" and "base \<le> start div es * es"
  shows "fst (nand_write_loop bd es base start (start + sz) buf (start div es * es) s) = Inr ()"
proof -
  define b where "b = start div es * es"
  have b: "b + start mod es = start" by (simp add: b_def)
  then have "max start b = start" "start - b = start mod es" "start + sz \<le> b + es" using assms(3) by linarith+
  then show ?thesis
    using assms unfolding b_def [symmetric]
    by (subst nand_write_loop.simps) (auto simp: drv_def Let_def nand_write_loop.simps [of _ _ _ _ _ _ "b + es"])
qed

lemma nand_example:
  "macaddr_modify_base nand_board sample_mac 1 s = (Inr (), snd (macaddr_modify_base nand_board sample_mac 1 s))"
  "macaddr_modify_wifi nand_board sample_mac 0 sample_art = (Inr (), snd (macaddr_modify_wifi nand_board sample_mac 0 sample_art))"
proof -
  have r: "art_read nand_board off n t = (Inr (cells_read (cells t) (0x20000 + off) n), t\<lparr>calls := Suc (calls t)\<rparr>)" for off n t
    by (simp add: art_read_def art_board_simps drv_def)
  have "(0x20000 + off) mod 0x20000 = off" "(0x20000 + off) div 0x20000 = 1" if "off + n \<le> 0x20000" "0 < n" for off n :: nat
    using that by (simp_all add: mod_add_self1 div_add_self1)
  then have w: "fst (art_write nand_board off n buf t) = Inr ()" if "off + n \<le> 0x20000" "0 < n" for off n buf t
    using that nand_write_one [where bd = nand_board and es = "0x20000" and start = "0x20000 + off" and sz = n and base = "0x20000"]
    by (simp add: art_write_def art_board_simps drv_def Let_def)
  show "macaddr_modify_base nand_board sample_mac 1 s = (Inr (), snd (macaddr_modify_base nand_board sample_mac 1 s))"
    using sample_mac_facts w by (simp add: prod_eq_iff macaddr_modify_base_def r drv_def) (simp add: art_board_simps)
  show "macaddr_modify_wifi nand_board sample_mac 0 sample_art = (Inr (), snd (macaddr_modify_wifi nand_board sample_mac 0 sample_art))"
    using sample_mac_facts w
    by (simp add: prod_eq_iff macaddr_modify_wifi_def r drv_def Let_def cal_header_def art_cal_size_def sample_art_def cal_offset_def wifi_max_def)
      (simp add: art_board_simps)
qed

theorem nand_mac_change_is_local_witness:
  "cells (snd (macaddr_modify_base nand_board sample_mac 1 sample_art)) 0x21000 = 1"
proof -
  have "cells (snd (macaddr_modify_base nand_board sample_mac 1 sample_art)) 0x21000 = cells sample_art 0x21000"
    by (rule nand_mac_change_is_local [OF _ _ _ nand_example(1), of "0x20000"])
      (simp_all add: art_board_simps sample_mac_facts)
  then show ?thesis by (simp add: sample_art_def)
qed


theorem wifi_mac_roundtrip_witness:
  "fst (macaddr_wifi_cs_valid nand_board 0 (snd (macaddr_modify_wifi nand_board sample_mac 0 sample_art)))
   \<and> fst (macaddr_read_wifi nand_board 0 (snd (macaddr_modify_wifi nand_board sample_mac 0 sample_art))) = Inr sample_mac"
  by (rule wifi_mac_roundtrip [OF _ _ sample_mac_facts(1) _ nand_example(2)]) (simp_all add: art_board_simps)

theorem valid_calibration_is_reported_as_mismatch_witness:
  "xor16_checksum (replicate 10 0 @ [0xFF, 0xFF]) = 0xFFFF \<and>
   fst (patch_cal nor_board sample_mac 0 (replicate 10 0 @ [0xFF, 0xFF])) \<noteq> 0xFFFF"
proof
  show v: "xor16_checksum (replicate 10 0 @ [0xFF, 0xFF]) = 0xFFFF" by code_simp
  show "fst (patch_cal nor_board sample_mac 0 (replicate 10 0 @ [0xFF, 0xFF])) \<noteq> 0xFFFF"
  proof (rule valid_calibration_is_reported_as_mismatch [OF _ _ v])
    show "le16 ((replicate 10 0 @ [0xFF, 0xFF]) ! 10) ((replicate 10 0 @ [0xFF, 0xFF]) ! 11) \<noteq> 0" by code_simp
  qed (simp_all add: art_board_simps)
qed

end
