(* ===== verification/Sysupgrade.thy ===== *)
theory Sysupgrade
  imports FlashInfo "HOL-Library.Monad_Syntax"
begin

text \<open>
  Parsing an OpenWrt sysupgrade image, \<^verbatim>\<open>lib/sysupgrade_parser.c\<close>: a tar archive (with or without
  ten bytes in front of it) whose members are the kernel and the root file system, or a kernel
  followed by a squashfs.

  The image is the list of the bytes that were uploaded. Every read goes through \<open>rd\<close>,
  which has no value outside the image, so a result of \<open>parse_sysupgrade\<close> other than \<open>None\<close>
  says that no such read happens. Positions are offsets into the image; the image lies below the
  end of the address space, so the sums of the code do not wrap.
\<close>

section \<open>State\<close>

record fw_parts =
  kernel_data :: nat
  kernel_size :: nat
  rootfs_data :: nat
  rootfs_size :: nat

definition no_parts :: fw_parts where
  "no_parts = \<lparr>kernel_data = 0, kernel_size = 0, rootfs_data = 0, rootfs_size = 0\<rparr>"

definition sysupgrade_parts_valid :: "fw_parts \<Rightarrow> bool" where
  "sysupgrade_parts_valid p \<longleftrightarrow> kernel_data p \<noteq> 0 \<or> rootfs_data p \<noteq> 0"

definition rd :: "string \<Rightarrow> nat \<Rightarrow> nat \<Rightarrow> string option" where
  "rd img off n = (if off + n \<le> length img then Some (take n (drop off img)) else None)"

section \<open>The tar archive\<close>

text \<open>The size field: octal digits between blanks or NULs; all ones stand for an error.\<close>

fun tar_size_loop :: "u64 \<Rightarrow> bool \<Rightarrow> string \<Rightarrow> u64" where
  "tar_size_loop val seen [] = val"
| "tar_size_loop val seen (c # s) =
     (if c = CHR '' '' \<or> c = NUL then (if seen then val else tar_size_loop val seen s)
      else if (of_char c :: nat) < 48 \<or> 55 < (of_char c :: nat) then -1
      else if val > (-1 - 7) div 8 then -1
      else tar_size_loop (val * 8 + of_nat (of_char c - 48)) True s)"

definition tar_parse_size :: "string \<Rightarrow> u64" where
  "tar_parse_size s = tar_size_loop 0 False s"

definition tar_is_kernel_name :: "string \<Rightarrow> bool" where
  "tar_is_kernel_name name \<longleftrightarrow>
     strstr name ''kernel'' \<noteq> None \<or> strstr name ''hlos'' \<noteq> None \<or> strstr name ''fit'' \<noteq> None"

definition tar_is_rootfs_name :: "string \<Rightarrow> bool" where
  "tar_is_rootfs_name name \<longleftrightarrow> strstr name ''root'' \<noteq> None \<or> strstr name ''squashfs'' \<noteq> None"

text \<open>A member of \<open>fsize\<close> bytes at \<open>data\<close> becomes the kernel or the root file system.\<close>

definition take_member :: "string \<Rightarrow> nat \<Rightarrow> nat \<Rightarrow> fw_parts \<Rightarrow> fw_parts" where
  "take_member name data fsize parts =
     (if 0 < fsize \<and> kernel_data parts = 0 \<and> tar_is_kernel_name name
      then parts\<lparr>kernel_data := data, kernel_size := fsize\<rparr>
      else if 0 < fsize \<and> rootfs_data parts = 0 \<and> tar_is_rootfs_name name
      then parts\<lparr>rootfs_data := data, rootfs_size := fsize\<rparr>
      else parts)"

text \<open>
  The loop over the members, with the number of turns left; the flag of the result is
  \<open>invalid\<close>. The image starts at the address \<open>a\<close>.
\<close>

fun tar_loop :: "nat \<Rightarrow> nat \<Rightarrow> string \<Rightarrow> nat \<Rightarrow> fw_parts \<Rightarrow> (fw_parts \<times> bool) option" where
  "tar_loop 0 a img pos parts = Some (parts, False)"
| "tar_loop (Suc k) a img pos parts =
     (if length img \<le> pos \<or> length img - pos < 512 then Some (parts, False)
      else do {
        first \<leftarrow> rd img pos 1;
        if deref first = NUL then Some (parts, False)
        else do {
          magic \<leftarrow> rd img (pos + 257) 5;
          if memcmp magic ''ustar'' 5 \<noteq> 0 then Some (parts, False)
          else do {
            name \<leftarrow> rd img pos 100;
            field \<leftarrow> rd img (pos + 124) 12;
            let fsize = tar_parse_size field;
            let data = pos + 512;
            if fsize = -1 \<or> length img < data \<or> length img - data < unat fsize then Some (parts, True)
            else do {
              let padded = (fsize + 511) AND NOT 511;
              if length img - data < unat padded then Some (parts, True)
              else tar_loop k a img (data + unat padded) (take_member name (a + data) (unat fsize) parts)
            }
          }
        }
      })"

section \<open>Kernel and squashfs\<close>

definition le64 :: "string \<Rightarrow> u64" where
  "le64 bs = fold (\<lambda>j v. v OR push_bit (j * 8) (of_char (bs ! j))) [0..<8] 0"

function squash_loop :: "nat \<Rightarrow> string \<Rightarrow> nat \<Rightarrow> nat \<Rightarrow> (fw_parts \<times> bool) option" where
  "squash_loop a img header_off i =
     (if length img < i + 4 then Some (no_parts, False)
      else do {
        magic \<leftarrow> rd img i 4;
        if magic = ''hsqs'' then
          if length img < i + 48 then Some (no_parts, True)
          else do {
            let parts = no_parts\<lparr>kernel_data := a + header_off, kernel_size := i - header_off, rootfs_data := a + i\<rparr>;
            sb \<leftarrow> rd img (i + 40) 8;
            let bytes_used = le64 sb;
            if bytes_used = 0 \<or> length img - i < unat bytes_used then Some (parts, True)
            else Some (parts\<lparr>rootfs_size := unat bytes_used\<rparr>, False)
          }
        else squash_loop a img header_off (i + 4)
      })"
  by pat_completeness auto
termination by (relation "measure (\<lambda>(a, img, header_off, i). length img + 4 - i)") auto

declare squash_loop.simps [simp del]

section \<open>The parser\<close>

definition finish_parts :: "fw_parts \<times> bool \<Rightarrow> fw_parts" where
  "finish_parts r = (case r of (parts, invalid) \<Rightarrow>
     if invalid \<or> kernel_data parts = 0 \<or> kernel_size parts = 0 \<or> rootfs_data parts = 0 \<or> rootfs_size parts = 0
     then no_parts else parts)"

definition parse_sysupgrade :: "nat \<Rightarrow> string \<Rightarrow> fw_parts option" where
  "parse_sysupgrade a img =
     (if a = 0 \<or> length img < 512 then Some no_parts
      else do {
        m0 \<leftarrow> (if 262 \<le> length img then rd img 257 5 else Some []);
        let header_off = (if 262 \<le> length img \<and> memcmp m0 ''ustar'' 5 = 0 then 0 else 10);
        if length img < header_off + 512 then Some no_parts
        else do {
          m1 \<leftarrow> rd img (header_off + 257) 5;
          m2 \<leftarrow> rd img 257 5;
          r \<leftarrow> (if memcmp m1 ''ustar'' 5 = 0 \<or> memcmp m2 ''ustar'' 5 = 0
                 then tar_loop 32 a img header_off no_parts
                 else squash_loop a img header_off header_off);
          Some (finish_parts r)
        }
      })"

end
