(* ===== verification/SysupgradeProofs.thy ===== *)
theory SysupgradeProofs
  imports Sysupgrade
begin

text \<open>
  The parser of sysupgrade images is safe on every input and finds the members of an archive: reads
  stay inside the image, the size field is an octal number, and the parts are the contents of the
  members.
\<close>

section \<open>Reads stay inside, parts lie inside\<close>

definition part_in :: "nat \<Rightarrow> string \<Rightarrow> nat \<Rightarrow> nat \<Rightarrow> bool" where
  "part_in a img data sz \<longleftrightarrow> a < data + sz \<and> a \<le> data \<and> data + sz \<le> a + length img \<and> 0 < sz"

definition parts_in :: "nat \<Rightarrow> string \<Rightarrow> fw_parts \<Rightarrow> bool" where
  "parts_in a img p \<longleftrightarrow> (kernel_data p = 0 \<or> part_in a img (kernel_data p) (kernel_size p))
     \<and> (rootfs_data p = 0 \<or> part_in a img (rootfs_data p) (rootfs_size p))"

lemma rd_Some: "rd img off n = Some b \<longleftrightarrow> off + n \<le> length img \<and> b = take n (drop off img)"
  by (auto simp: rd_def)

lemma take_member_in:
  "parts_in a img p \<Longrightarrow> a \<le> data \<Longrightarrow> data + n \<le> a + length img \<Longrightarrow> parts_in a img (take_member name data n p)"
  by (auto simp: take_member_def parts_in_def part_in_def)

lemma tar_loop_in:
  assumes "parts_in a img p"
  shows "\<exists>r. tar_loop k a img pos p = Some r \<and> parts_in a img (fst r)"
  using assms
proof (induction k arbitrary: pos p)
  case (Suc k)
  define n where "n = unat (tar_parse_size (take 12 (drop (pos + 124) img)))"
  have IH: "pos + 512 \<le> length img \<Longrightarrow> \<not> length img - (pos + 512) < n \<Longrightarrow>
    \<exists>r. tar_loop k a img pos' (take_member name (a + (pos + 512)) n p) = Some r \<and> parts_in a img (fst r)" for pos' name
    by (rule Suc.IH) (use Suc.prems in \<open>auto intro!: take_member_in\<close>)
  then show ?case
    using Suc.prems by (auto simp: rd_def Let_def n_def [symmetric] add.assoc)
qed simp

lemma squash_loop_in:
  assumes "header_off \<le> i" and "0 < a"
  shows "\<exists>r. squash_loop a img header_off i = Some r \<and> (snd r \<or> kernel_size (fst r) = 0 \<or> parts_in a img (fst r))"
  using assms
proof (induction a img header_off i rule: squash_loop.induct)
  case (1 a img header_off i)
  consider "length img < i + 4" | "i + 4 \<le> length img" "take 4 (drop i img) \<noteq> ''hsqs''"
    | "i + 4 \<le> length img" "take 4 (drop i img) = ''hsqs''" by linarith
  then show ?case
  proof cases
    case 1
    then show ?thesis by (subst squash_loop.simps) (simp add: no_parts_def)
  next
    case 2
    then have "squash_loop a img header_off i = squash_loop a img header_off (i + 4)"
      by (subst squash_loop.simps) (simp add: rd_def)
    then show ?thesis using "1.IH" [of "take 4 (drop i img)"] "1.prems" 2 by (simp add: rd_def)
  next
    case 3
    define bytes where "bytes = le64 (take 8 (drop (i + 40) img))"
    define parts where "parts = no_parts\<lparr>kernel_data := a + header_off, kernel_size := i - header_off, rootfs_data := a + i\<rparr>"
    have eq: "squash_loop a img header_off i = (if length img < i + 48 then Some (no_parts, True)
        else if bytes = 0 \<or> length img - i < unat bytes then Some (parts, True)
        else Some (parts\<lparr>rootfs_size := unat bytes\<rparr>, False))"
      using 3 by (subst squash_loop.simps) (simp only: rd_def bytes_def parts_def Let_def simp_thms if_True if_False bind.bind_lunit not_le
        split: if_split, simp)
    show ?thesis
    proof (cases "length img < i + 48 \<or> bytes = 0 \<or> length img - i < unat bytes")
      case True
      then show ?thesis unfolding eq by (cases "length img < i + 48") simp_all
    next
      case False
      have "kernel_size parts = 0 \<or> parts_in a img (parts\<lparr>rootfs_size := unat bytes\<rparr>)"
        using False "1.prems" unat_gt_0 [of bytes] by (simp add: parts_in_def part_in_def no_parts_def parts_def) linarith
      with False show ?thesis unfolding eq by simp
    qed
  qed
qed

lemma parse_in_image:
  "\<exists>p. parse_sysupgrade a img = Some p \<and> (p = no_parts
     \<or> a \<le> kernel_data p \<and> 0 < kernel_size p \<and> kernel_data p + kernel_size p \<le> a + length img
       \<and> a \<le> rootfs_data p \<and> 0 < rootfs_size p \<and> rootfs_data p + rootfs_size p \<le> a + length img)"
proof -
  have z: "parts_in a img no_parts" by (simp add: parts_in_def no_parts_def)
  have fin: "finish_parts r = no_parts \<or> 0 < kernel_size (fst r) \<and> 0 < rootfs_size (fst r) \<and> finish_parts r = fst r
      \<and> kernel_data (fst r) \<noteq> 0 \<and> rootfs_data (fst r) \<noteq> 0 \<and> \<not> snd r" for r
    by (auto simp: finish_parts_def split: prod.split)
  define off where "off = (if memcmp (take 5 (drop 257 img)) ''ustar'' 5 = 0 then 0 else 10 :: nat)"
  show ?thesis
  proof (cases "a = 0 \<or> length img < off + 512")
    case True
    then show ?thesis by (auto simp: parse_sysupgrade_def rd_def Let_def off_def)
  next
    case False
    obtain r where r: "(if memcmp (take 5 (drop (off + 257) img)) ''ustar'' 5 = 0 \<or> memcmp (take 5 (drop 257 img)) ''ustar'' 5 = 0
         then tar_loop 32 a img off no_parts else squash_loop a img off off) = Some r"
      "snd r \<or> kernel_size (fst r) = 0 \<or> parts_in a img (fst r)"
      using tar_loop_in [OF z, of 32 off] squash_loop_in [of off off a img] False
      by (metis (full_types) bot_nat_0.not_eq_extremum order_refl)
    have "parse_sysupgrade a img = Some (finish_parts r)"
      using False r(1) by (auto simp: parse_sysupgrade_def rd_def Let_def off_def split: if_splits)
    then show ?thesis using fin [of r] r(2) by (auto simp: parts_in_def part_in_def)
  qed
qed


text \<open>
  C6: The parser never reads outside the uploaded image, whatever its bytes are, and what it
  returns is either nothing or a kernel and a root file system that both are not empty and lie
  inside the image.
\<close>

theorem parser_stays_in_image:
  "\<exists>p. parse_sysupgrade a img = Some p \<and> (p = no_parts
     \<or> a \<le> kernel_data p \<and> 0 < kernel_size p \<and> kernel_data p + kernel_size p \<le> a + length img
       \<and> a \<le> rootfs_data p \<and> 0 < rootfs_size p \<and> rootfs_data p + rootfs_size p \<le> a + length img)"
  by (rule parse_in_image)

section \<open>The size field is an octal number\<close>

definition blank :: "char \<Rightarrow> bool" where
  "blank c \<longleftrightarrow> c = CHR '' '' \<or> c = NUL"

definition octal :: "char \<Rightarrow> bool" where
  "octal c \<longleftrightarrow> c \<in> set ''01234567''"

definition octal_value :: "string \<Rightarrow> nat" where
  "octal_value s = foldl (\<lambda>v c. v * 8 + (of_char c - 48)) 0 s"

definition octal_field :: "string \<Rightarrow> nat option" where
  "octal_field s = (let d = takeWhile (\<lambda>c. \<not> blank c) (dropWhile blank s)
     in if list_all octal d then Some (octal_value d) else None)"

lemma octal_code: "octal c \<longleftrightarrow> 48 \<le> (of_char c :: nat) \<and> (of_char c :: nat) \<le> 55"
proof
  assume "octal c"
  then show "48 \<le> (of_char c :: nat) \<and> (of_char c :: nat) \<le> 55" by (auto simp: octal_def)
next
  assume "48 \<le> (of_char c :: nat) \<and> (of_char c :: nat) \<le> 55"
  then have "(of_char c :: nat) \<in> {48, 49, 50, 51, 52, 53, 54, 55}" by auto
  then have "(of_char c :: nat) \<in> of_char ` set ''01234567''" by simp
  then obtain d where "d \<in> set ''01234567''" "(of_char c :: nat) = of_char d" by (rule imageE)
  moreover from this(2) have "c = d" by (simp only: of_char_eq_iff)
  ultimately show "octal c" by (simp only: octal_def)
qed

lemma tar_size_limit: "val > (-1 - 7) div (8 :: u64) \<longleftrightarrow> 2 ^ 61 - 1 < unat val"
proof -
  have "(-1 - 7) div (8 :: u64) = 0x1FFFFFFFFFFFFFFF" by simp
  then have "unat ((-1 - 7) div (8 :: u64)) = 2 ^ 61 - 1" by simp
  then show ?thesis by (metis word_less_nat_alt)
qed

lemma tar_size_loop_digits:
  assumes "unat val < 8 ^ j" and "j + length s \<le> 20"
  shows "tar_size_loop val True s = (let d = takeWhile (\<lambda>c. \<not> blank c) s
    in if list_all octal d then of_nat (foldl (\<lambda>v c. v * 8 + (of_char c - 48)) (unat val) d) else -1)"
  using assms
proof (induction s arbitrary: val j)
  case (Cons c s)
  show ?case
  proof (cases "blank c \<or> \<not> octal c")
    case True
    then show ?thesis by (auto simp: blank_def octal_code not_le Let_def)
  next
    case False
    define w where "w = val * 8 + of_nat (of_char c - 48)"
    have "(8 :: nat) ^ j \<le> 8 ^ 20" using Cons.prems(2) by (intro power_increasing) simp_all
    then have lim: "unat val < 2 ^ 60" using Cons.prems(1) by simp
    have dg: "of_char c - 48 < (8 :: nat)" using False by (auto simp: octal_code)
    have w: "unat w = unat val * 8 + (of_char c - 48)"
      using lim dg by (simp add: w_def unat_word_ariths unat_of_nat take_bit_eq_mod)
    then have "unat w < 8 ^ Suc j" using Cons.prems(1) dg by simp
    then have ih: "tar_size_loop w True s = (let d = takeWhile (\<lambda>c. \<not> blank c) s
        in if list_all octal d then of_nat (foldl (\<lambda>v c. v * 8 + (of_char c - 48)) (unat w) d) else -1)"
      using Cons.prems(2) by (intro Cons.IH [of w "Suc j"]) simp_all
    have "\<not> val > (-1 - 7) div 8" using lim by (simp only: tar_size_limit) simp
    then have "tar_size_loop val True (c # s) = tar_size_loop w True s"
      using False by (auto simp: blank_def octal_code not_less w_def)
    then show ?thesis using ih False w by simp
  qed
qed simp

lemma tar_size_loop_blanks: "tar_size_loop val False s = tar_size_loop val False (dropWhile blank s)"
  by (induction s) (auto simp: blank_def)

lemma tar_parse_size_octal:
  assumes "length s \<le> 20"
  shows "tar_parse_size s = (case octal_field s of Some n \<Rightarrow> of_nat n | None \<Rightarrow> -1)"
proof -
  define t where "t = dropWhile blank s"
  have l: "length t \<le> 20" using assms le_trans [OF length_dropWhile_le] by (simp add: t_def)
  have "tar_size_loop 0 False t = tar_size_loop 0 True t"
  proof (cases t)
    case (Cons c u)
    then have "\<not> blank c" unfolding t_def by (metis hd_dropWhile list.distinct(1) list.sel(1))
    then show ?thesis using Cons by (auto simp: blank_def)
  qed simp
  then show ?thesis
    using tar_size_loop_digits [of 0 0 t] l
    by (simp add: tar_parse_size_def tar_size_loop_blanks [of 0 s] t_def [symmetric] octal_field_def octal_value_def Let_def)
qed

lemma octal_value_bound: "list_all octal d \<Longrightarrow> octal_value d < 8 ^ length d"
proof (induction d rule: rev_induct)
  case (snoc c d)
  then have "octal_value d + 1 \<le> 8 ^ length d" "of_char c - 48 < (8 :: nat)" by (auto simp: octal_code)
  then show ?case by (simp add: octal_value_def)
qed (simp add: octal_value_def)

text \<open>
  The size of a tar member is read as the octal number its field holds, and any field that holds
  something else is an error; a field of twelve characters cannot overflow.
\<close>

lemma tar_size_is_octal:
  assumes "length s = 12"
  shows "case octal_field s of
      Some n \<Rightarrow> tar_parse_size s = of_nat n \<and> unat (tar_parse_size s) = n \<and> n < 2 ^ 36
    | None \<Rightarrow> tar_parse_size s = -1"
proof (cases "octal_field s")
  case (Some n)
  define d where "d = takeWhile (\<lambda>c. \<not> blank c) (dropWhile blank s)"
  have d: "list_all octal d" "n = octal_value d" using Some by (auto simp: octal_field_def d_def Let_def split: if_splits)
  have "length d \<le> 12" unfolding d_def assms [symmetric] by (rule le_trans [OF length_takeWhile_le length_dropWhile_le])
  then have "(8 :: nat) ^ length d \<le> 8 ^ 12" by (intro power_increasing) simp_all
  then have "n < 2 ^ 36" using octal_value_bound [OF d(1)] d(2) by simp
  then show ?thesis using Some tar_parse_size_octal [of s] assms by (simp add: unat_of_nat take_bit_eq_mod)
qed (use tar_parse_size_octal [of s] assms in simp)


section \<open>Archives\<close>

text \<open>
  A member of an archive: a header block, the contents, and what fills them up to whole blocks.
\<close>

type_synonym tar_member = "string \<times> string \<times> string"

fun member_ok :: "tar_member \<Rightarrow> bool" where
  "member_ok (h, c, p) \<longleftrightarrow> length h = 512 \<and> deref h \<noteq> NUL \<and> take 5 (drop 257 h) = ''ustar''
     \<and> octal_field (take 12 (drop 124 h)) = Some (length c) \<and> length c + length p = (length c + 511) div 512 * 512"

fun member_bytes :: "tar_member \<Rightarrow> string" where
  "member_bytes (h, c, p) = h @ c @ p"

definition archive :: "tar_member list \<Rightarrow> string \<Rightarrow> string" where
  "archive ms rest = concat (map member_bytes ms) @ rest"

text \<open>What may follow the last member: nothing, a short rest, or a block of zeros.\<close>

definition tar_ended :: "string \<Rightarrow> bool" where
  "tar_ended rest \<longleftrightarrow> length rest < 512 \<or> deref rest = NUL"

fun add_members :: "(string \<times> nat \<times> nat) list \<Rightarrow> fw_parts \<Rightarrow> fw_parts" where
  "add_members [] p = p"
| "add_members ((name, data, n) # xs) p = add_members xs (take_member name data n p)"

fun placed :: "nat \<Rightarrow> tar_member list \<Rightarrow> (string \<times> nat \<times> nat) list" where
  "placed a [] = []"
| "placed a ((h, c, p) # ms) = (take 100 h, a + 512, length c) # placed (a + 512 + length c + length p) ms"

lemma deref_take_1: "deref (take (Suc 0) xs) = deref xs"
  by (cases xs) simp_all

lemma memcmp_magic: "memcmp ''ustar'' ''ustar'' 5 = 0"
  by (simp add: memcmp_eq_0)

lemma round_512:
  assumes "n < 2 ^ 40"
  shows "unat ((of_nat n + 511 :: u64) AND NOT 511) = (n + 511) div 512 * 512"
proof -
  have m: "(NOT 511 :: u64) = NOT (mask 9)" by (simp add: mask_eq_exp_minus_1)
  have "unat ((w :: u64) AND NOT (mask 9)) = unat w div 2 ^ 9 * 2 ^ 9" for w
  proof -
    have "w AND NOT (mask 9) = push_bit 9 (drop_bit 9 w)" by (rule bit_word_eqI) (auto simp: bit_simps)
    moreover have "unat w < 2 ^ LENGTH(64)" by (rule unsigned_less)
    moreover from this have lt: "unat w < 18446744073709551616" by simp
    moreover have "unat (drop_bit 9 w) = unat w div 512" by (simp add: drop_bit_eq_div unat_div)
    moreover have "unat w div 512 * 512 < 18446744073709551616" using lt by linarith
    ultimately show ?thesis
      by (simp only: push_bit_eq_mult unat_word_ariths) (simp add: mult.commute)
  qed
  moreover have "unat (of_nat n + 511 :: u64) = n + 511"
    using assms by (simp add: unat_word_ariths unat_of_nat take_bit_eq_mod)
  ultimately show ?thesis unfolding m by simp
qed


lemma tar_loop_member:
  assumes ok: "member_ok (h, c, p)" and img: "img = pre @ h @ c @ p @ post"
  shows "tar_loop (Suc k) a img (length pre) q
    = tar_loop k a img (length (pre @ h @ c @ p)) (take_member (take 100 h) (a + length pre + 512) (length c) q)"
proof -
  have h: "length h = 512" "deref h \<noteq> NUL" "take 5 (drop 257 h) = ''ustar''" using ok by simp_all
  have sz: "length (take 12 (drop 124 h)) = 12" "octal_field (take 12 (drop 124 h)) = Some (length c)" using ok by simp_all
  have n: "tar_parse_size (take 12 (drop 124 h)) = of_nat (length c)" "length c < 2 ^ 36"
    "unat (of_nat (length c) :: u64) = length c"
    using tar_size_is_octal [OF sz(1)] unfolding sz(2) option.case by (elim conjE; simp)+
  have ne: "(of_nat (length c) :: u64) \<noteq> -1"
  proof
    assume "(of_nat (length c) :: u64) = -1"
    moreover have "(0xFFFFFFFFFFFFFFFF :: u64) = -1" by simp
    ultimately have "unat (of_nat (length c) :: u64) = unat (0xFFFFFFFFFFFFFFFF :: u64)" by (simp only:)
    then show False using n(2,3) by simp
  qed
  have pd: "unat ((of_nat (length c) + 511 :: u64) AND NOT 511) = length c + length p"
    using round_512 [of "length c"] n(2) ok by simp
  have r: "rd img (length pre + o') l = Some (take l (drop o' h))" if "o' + l \<le> 512" for o' l
    using that h(1) by (simp add: rd_def img)
  have r1: "rd img (length pre) 1 = Some (take 1 h)" "rd img (length pre) 100 = Some (take 100 h)"
    using r [of 0 1] r [of 0 100] by simp_all
  have big: "\<not> (length img \<le> length pre \<or> length img - length pre < 512)" "\<not> length img < length pre + 512"
    "\<not> length img - (length pre + 512) < length c" "\<not> length img - (length pre + 512) < length c + length p"
    using h(1) by (simp_all add: img)
  have d1: "deref (take 1 h) \<noteq> NUL" using h(2) by (simp add: deref_take_1)
  show ?thesis
    by (simp only: tar_loop.simps big r1 r [of 257 5, simplified] r [of 124 12, simplified] h(3) d1 memcmp_magic n ne pd
      bind.bind_lunit Let_def simp_thms if_False if_True) (simp add: h(1) add.assoc)
qed


lemma tar_loop_members:
  assumes "list_all member_ok ms" and "length ms < k \<or> length ms = k" and "tar_ended rest"
    and "img = pre @ archive ms rest"
  shows "tar_loop k a img (length pre) q
    = Some (add_members (placed (a + length pre) ms) q, False)"
  using assms
proof (induction ms arbitrary: k pre q)
  case Nil
  then have img: "img = pre @ rest" by (simp add: archive_def)
  show ?case
  proof (cases "k = 0 \<or> length rest < 512")
    case True
    then show ?thesis by (cases k) (auto simp: img)
  next
    case False
    then obtain j where k: "k = Suc j" by (cases k) auto
    have "deref rest = NUL" "rd img (length pre) 1 = Some (take 1 rest)"
      using False Nil.prems(3) by (auto simp: tar_ended_def img rd_def)
    then show ?thesis by (simp add: k img deref_take_1)
  qed
next
  case (Cons m ms)
  obtain h c p where m: "m = (h, c, p)" by (cases m)
  obtain j where k: "k = Suc j" "length ms < j \<or> length ms = j" using Cons.prems(2) by (cases k) auto
  have img: "img = pre @ h @ c @ p @ archive ms rest" using Cons.prems(4) by (simp add: archive_def m)
  have ok: "member_ok (h, c, p)" "list_all member_ok ms" using Cons.prems(1) m by simp_all
  have "length h = 512" using ok by simp
  then show ?case
    using tar_loop_member [OF ok(1) img, of j a q] Cons.IH [OF ok(2) k(2) Cons.prems(3), of "pre @ h @ c @ p"] img
    by (simp add: k(1) m add.assoc)
qed

text \<open>With names that are not both a kernel's and a root file system's, the first member of each kind is taken.\<close>

lemma take_member_kernel:
  "0 < n \<Longrightarrow> tar_is_kernel_name name \<Longrightarrow> kernel_data p = 0 \<Longrightarrow>
    kernel_data (take_member name data n p) = data \<and> kernel_size (take_member name data n p) = n"
  "\<not> (0 < n \<and> tar_is_kernel_name name) \<or> kernel_data p \<noteq> 0 \<Longrightarrow>
    kernel_data (take_member name data n p) = kernel_data p \<and> kernel_size (take_member name data n p) = kernel_size p"
  by (auto simp: take_member_def)

lemma take_member_rootfs:
  "0 < n \<Longrightarrow> tar_is_rootfs_name name \<Longrightarrow> \<not> tar_is_kernel_name name \<Longrightarrow> rootfs_data p = 0 \<Longrightarrow>
    rootfs_data (take_member name data n p) = data \<and> rootfs_size (take_member name data n p) = n"
  "\<not> (0 < n \<and> tar_is_rootfs_name name) \<or> rootfs_data p \<noteq> 0 \<Longrightarrow>
    rootfs_data (take_member name data n p) = rootfs_data p \<and> rootfs_size (take_member name data n p) = rootfs_size p"
  by (auto simp: take_member_def)

lemma add_members_kept:
  "kernel_data p \<noteq> 0 \<Longrightarrow> kernel_data (add_members xs p) = kernel_data p \<and> kernel_size (add_members xs p) = kernel_size p"
  "rootfs_data p \<noteq> 0 \<Longrightarrow> rootfs_data (add_members xs p) = rootfs_data p \<and> rootfs_size (add_members xs p) = rootfs_size p"
  by (induction xs p rule: add_members.induct) (simp_all add: take_member_kernel take_member_rootfs)

lemma add_members_kernel:
  assumes "\<forall>(name, data, n) \<in> set xs. data \<noteq> 0" and "kernel_data p = 0"
    and "find (\<lambda>(name, data, n). 0 < n \<and> tar_is_kernel_name name) xs = Some (kn, kd, ks)"
  shows "kernel_data (add_members xs p) = kd \<and> kernel_size (add_members xs p) = ks"
  using assms
proof (induction xs p rule: add_members.induct)
  case (2 name data n xs p)
  show ?case
  proof (cases "0 < n \<and> tar_is_kernel_name name")
    case True
    then have "kernel_data (take_member name data n p) = data \<and> kernel_size (take_member name data n p) = n"
      using take_member_kernel(1) "2.prems"(2) by blast
    then show ?thesis using True "2.prems" add_members_kept(1) [of "take_member name data n p" xs] by simp
  next
    case False
    then show ?thesis using "2.prems" "2.IH" take_member_kernel(2) [of n name p data] by auto
  qed
qed simp

lemma add_members_rootfs:
  assumes "\<forall>(name, data, n) \<in> set xs. data \<noteq> 0 \<and> \<not> (tar_is_kernel_name name \<and> tar_is_rootfs_name name)" and "rootfs_data p = 0"
    and "find (\<lambda>(name, data, n). 0 < n \<and> tar_is_rootfs_name name) xs = Some (rn, rda, rs)"
  shows "rootfs_data (add_members xs p) = rda \<and> rootfs_size (add_members xs p) = rs"
  using assms
proof (induction xs p rule: add_members.induct)
  case (2 name data n xs p)
  show ?case
  proof (cases "0 < n \<and> tar_is_rootfs_name name")
    case True
    then have "rootfs_data (take_member name data n p) = data \<and> rootfs_size (take_member name data n p) = n"
      using take_member_rootfs(1) "2.prems"(1,2) by auto
    then show ?thesis using True "2.prems" add_members_kept(2) [of "take_member name data n p" xs] by simp
  next
    case False
    then show ?thesis using "2.prems" "2.IH" take_member_rootfs(2) [of n name p data] by auto
  qed
qed simp

text \<open>The member found in the archive, and where its contents are.\<close>

lemma find_placed:
  assumes "list_all member_ok ms" and "img = pre @ archive ms rest"
    and "find (\<lambda>(h, c, p). 0 < length c \<and> P (take 100 h)) ms = Some (h, c, p)"
  shows "\<exists>name d. find (\<lambda>(name, data, n). 0 < n \<and> P name) (placed (a + length pre) ms) = Some (name, d, length c)
    \<and> a \<le> d \<and> take (length c) (drop (d - a) img) = c"
  using assms
proof (induction ms arbitrary: pre)
  case (Cons m ms)
  obtain h' c' p' where m: "m = (h', c', p')" by (cases m)
  have ok: "length h' = 512" "list_all member_ok ms" using Cons.prems(1) by (simp_all add: m)
  have img: "img = pre @ h' @ c' @ p' @ archive ms rest" using Cons.prems(2) by (simp add: archive_def m)
  show ?case
  proof (cases "0 < length c' \<and> P (take 100 h')")
    case True
    then have "c' = c" using Cons.prems(3) by (simp add: m)
    then show ?thesis using True ok(1) by (auto simp: m img)
  next
    case False
    then have "\<exists>name d. find (\<lambda>(name, data, n). 0 < n \<and> P name) (placed (a + length (pre @ h' @ c' @ p')) ms) = Some (name, d, length c)
        \<and> a \<le> d \<and> take (length c) (drop (d - a) img) = c"
      using Cons.prems(3) img by (intro Cons.IH [OF ok(2)]) (auto simp: m)
    then show ?thesis using False ok(1) by (auto simp: m add.assoc)
  qed
qed simp

lemma placed_addresses: "(name, d, n) \<in> set (placed a ms) \<Longrightarrow> d \<noteq> 0 \<and> (\<exists>(h, c, p) \<in> set ms. name = take 100 h)"
  by (induction a ms rule: placed.induct) auto


lemma memcmp_ustar: "memcmp (take 5 xs) ''ustar'' 5 = 0 \<longleftrightarrow> take 5 xs = ''ustar''"
proof
  assume "memcmp (take 5 xs) ''ustar'' 5 = 0"
  moreover have "length ''ustar'' = 5" "NUL \<notin> set ''ustar''" by simp_all
  ultimately have "prefix ''ustar'' (take 5 xs)" using memcmp_eq_prefix by metis
  then obtain zs where z: "take 5 xs = ''ustar'' @ zs" by (rule prefixE)
  then have "length (take 5 xs) = 5 + length zs" by (simp only: length_append) simp
  moreover have "length (take 5 xs) \<le> 5" by simp
  ultimately have "zs = []" by simp
  with z show "take 5 xs = ''ustar''" by (simp only: append_Nil2)
qed (simp only: memcmp_magic)

lemma parse_tar:
  assumes a: "0 < a" and ok: "list_all member_ok ms" "ms \<noteq> []" "length ms \<le> 32" "tar_ended rest"
    and img: "img = pre @ archive ms rest"
    and pre: "pre = [] \<or> length pre = 10 \<and> take 5 (drop 257 img) \<noteq> ''ustar''"
  shows "parse_sysupgrade a img = Some (finish_parts (add_members (placed (a + length pre) ms) no_parts, False))"
proof -
  obtain h c p ms' where ms: "ms = (h, c, p) # ms'" using ok(2) by (metis neq_Nil_conv surj_pair)
  then have h: "length h = 512" "take 5 (drop 257 h) = ''ustar''" using ok(1) by simp_all
  have i: "img = pre @ h @ c @ p @ archive ms' rest" by (simp add: img ms archive_def)
  have len: "length pre + 512 \<le> length img" using h(1) by (simp add: i)
  have m1: "take 5 (drop (length pre + 257) img) = ''ustar''" using h by (simp add: i)
  note cmp = memcmp_ustar
  have off: "(if 262 \<le> length img \<and> memcmp (take 5 (drop 257 img)) ''ustar'' 5 = 0 then 0 else 10) = length pre"
    using pre m1 len by (auto simp: cmp)
  have "tar_loop 32 a img (length pre) no_parts = Some (add_members (placed (a + length pre) ms) no_parts, False)"
    by (rule tar_loop_members [OF ok(1) _ ok(4) img]) (use ok(3) in auto)
  then show ?thesis
    using a len off m1 by (simp add: parse_sysupgrade_def rd_def Let_def cmp memcmp_magic)
qed

text \<open>
  C18: From a tar archive of at most 32 members, with or without ten bytes in front, the parser takes
  exactly the contents of the first member that is named like a kernel and of the first that is
  named like a root file system (no name being both).
\<close>

theorem tar_parts_found:
  assumes "0 < a" and "list_all member_ok ms" and "length ms \<le> 32" and "tar_ended rest"
    and "img = pre @ archive ms rest"
    and "pre = [] \<or> length pre = 10 \<and> take 5 (drop 257 img) \<noteq> ''ustar''"
    and "list_all (\<lambda>(h, c, p). \<not> (tar_is_kernel_name (take 100 h) \<and> tar_is_rootfs_name (take 100 h))) ms"
    and "find (\<lambda>(h, c, p). 0 < length c \<and> tar_is_kernel_name (take 100 h)) ms = Some (hk, kc, pk)"
    and "find (\<lambda>(h, c, p). 0 < length c \<and> tar_is_rootfs_name (take 100 h)) ms = Some (hr, rc, pr)"
  shows "\<exists>p. parse_sysupgrade a img = Some p
    \<and> take (kernel_size p) (drop (kernel_data p - a) img) = kc
    \<and> take (rootfs_size p) (drop (rootfs_data p - a) img) = rc"
proof -
  define xs where "xs = placed (a + length pre) ms"
  define q where "q = add_members xs no_parts"
  have addr: "data \<noteq> 0 \<and> \<not> (tar_is_kernel_name name \<and> tar_is_rootfs_name name)" if "(name, data, n) \<in> set xs" for name data n
    using placed_addresses [of name data n "a + length pre" ms] that assms(7) by (auto simp: xs_def list_all_iff)
  obtain kn kd where k: "find (\<lambda>(name, data, n). 0 < n \<and> tar_is_kernel_name name) xs = Some (kn, kd, length kc)"
    "a \<le> kd" "take (length kc) (drop (kd - a) img) = kc"
    using find_placed [OF assms(2,5,8), of a] by (auto simp: xs_def)
  obtain rn rda where r: "find (\<lambda>(name, data, n). 0 < n \<and> tar_is_rootfs_name name) xs = Some (rn, rda, length rc)"
    "a \<le> rda" "take (length rc) (drop (rda - a) img) = rc"
    using find_placed [OF assms(2,5,9), of a] by (auto simp: xs_def)
  have qk: "kernel_data q = kd" "kernel_size q = length kc"
    using add_members_kernel [OF _ _ k(1), of no_parts] addr by (auto simp: q_def no_parts_def)
  have qr: "rootfs_data q = rda" "rootfs_size q = length rc"
    using add_members_rootfs [OF _ _ r(1), of no_parts] addr by (auto simp: q_def no_parts_def)
  have pos: "0 < length kc" "0 < length rc" using k(1) r(1) by (auto simp: find_Some_iff)
  have "ms \<noteq> []" using assms(8) by auto
  then have "parse_sysupgrade a img = Some (finish_parts (q, False))"
    using parse_tar [OF assms(1,2) _ assms(3-6)] by (simp add: q_def xs_def)
  moreover have "finish_parts (q, False) = q" using qk qr pos k(2) r(2) assms(1) by (simp add: finish_parts_def)
  ultimately show ?thesis using k(3) r(3) qk qr by simp
qed


definition sample_member :: "string \<Rightarrow> char \<Rightarrow> tar_member" where
  "sample_member name c = (name @ replicate (124 - length name) NUL @ ''00000000001'' @ replicate 122 NUL @ ''ustar'' @ replicate 250 NUL,
     [c], replicate 511 NUL)"

lemma sample_members: "list_all member_ok [sample_member ''fw/kernel'' CHR ''K'', sample_member ''fw/root'' CHR ''R'']"
  by code_simp

theorem tar_parts_found_witness:
  "\<exists>p. parse_sysupgrade 0x4b000000 (archive [sample_member ''fw/kernel'' CHR ''K'', sample_member ''fw/root'' CHR ''R''] []) = Some p
    \<and> take (kernel_size p) (drop (kernel_data p - 0x4b000000)
        (archive [sample_member ''fw/kernel'' CHR ''K'', sample_member ''fw/root'' CHR ''R''] [])) = ''K''
    \<and> take (rootfs_size p) (drop (rootfs_data p - 0x4b000000)
        (archive [sample_member ''fw/kernel'' CHR ''K'', sample_member ''fw/root'' CHR ''R''] [])) = ''R''"
proof (rule tar_parts_found [OF _ sample_members, where pre = "[]" and rest = "[]"])
  show "list_all (\<lambda>(h, c, p). \<not> (tar_is_kernel_name (take 100 h) \<and> tar_is_rootfs_name (take 100 h)))
      [sample_member ''fw/kernel'' CHR ''K'', sample_member ''fw/root'' CHR ''R'']" by code_simp
  show "find (\<lambda>(h, c, p). 0 < length c \<and> tar_is_kernel_name (take 100 h))
      [sample_member ''fw/kernel'' CHR ''K'', sample_member ''fw/root'' CHR ''R'']
      = Some (fst (sample_member ''fw/kernel'' CHR ''K''), ''K'', replicate 511 NUL)" by code_simp
  show "find (\<lambda>(h, c, p). 0 < length c \<and> tar_is_rootfs_name (take 100 h))
      [sample_member ''fw/kernel'' CHR ''K'', sample_member ''fw/root'' CHR ''R'']
      = Some (fst (sample_member ''fw/root'' CHR ''R''), ''R'', replicate 511 NUL)" by code_simp
qed (simp_all add: tar_ended_def)

end
