(* ===== verification/Shell.thy ===== *)
theory Shell
  imports CString
begin

text \<open>
  Running commands. \<^verbatim>\<open>run_command\<close> hands a line to the command interpreter of the boot loader,
  whose commands work on the devices of the board: an \<open>interp\<close> gives the result of a line, the RAM
  and the devices after it, from the devices, the RAM and the line. The type \<open>'d\<close> of the devices is
  left open here; \<^verbatim>\<open>FlashDevice\<close> has flash chips and the commands of this repository for it.
  \<open>history\<close> logs the lines.

  Most lines are built with \<^verbatim>\<open>sprintf\<close> in an array on the stack: \<open>smashed\<close> records that one did
  not fit.
\<close>

type_synonym 'd interp = "'d \<Rightarrow> ram \<Rightarrow> string \<Rightarrow> int \<times> ram \<times> 'd"

record 'd shell =
  mem :: ram
  dev :: 'd
  history :: "string list"
  smashed :: bool

definition run_command :: "'d interp \<Rightarrow> string \<Rightarrow> 'd shell \<Rightarrow> int \<times> 'd shell" where
  "run_command ip cmd s =
     (let (r, m, d) = ip (dev s) (mem s) cmd in (r, s\<lparr>mem := m, dev := d, history := history s @ [cmd]\<rparr>))"

text \<open>\<^verbatim>\<open>sprintf\<close> into an array of \<open>cap\<close> bytes, then the command; \<^verbatim>\<open>snprintf\<close> cuts the text off.\<close>

definition sprintf_run :: "'d interp \<Rightarrow> nat \<Rightarrow> string \<Rightarrow> 'd shell \<Rightarrow> int \<times> 'd shell" where
  "sprintf_run ip cap cmd s = run_command ip cmd (s\<lparr>smashed := smashed s \<or> cap \<le> length cmd\<rparr>)"

definition snprintf :: "nat \<Rightarrow> string \<Rightarrow> string" where
  "snprintf cap text = take (cap - 1) text"

definition fmt_int :: "int \<Rightarrow> string" where
  "fmt_int i = (if i < 0 then CHR ''-'' # fmt_dec (nat (- i)) else fmt_dec (nat i))"

definition hex32 :: "u32 \<Rightarrow> string" where
  "hex32 w = fmt_0x (unat w)"

definition hex64 :: "u64 \<Rightarrow> string" where
  "hex64 w = fmt_0x (unat w)"

abbreviation then_cmd :: "string \<Rightarrow> string \<Rightarrow> string" where
  "then_cmd a b \<equiv> a @ '' && '' @ b"

section \<open>Facts\<close>

lemma history_run [simp]: "history (snd (run_command ip cmd s)) = history s @ [cmd]"
  by (simp add: run_command_def split_beta)

lemma smashed_run [simp]: "smashed (snd (run_command ip cmd s)) = smashed s"
  by (simp add: run_command_def split_beta)

lemma history_sprintf_run [simp]: "history (snd (sprintf_run ip cap cmd s)) = history s @ [cmd]"
  by (simp add: sprintf_run_def)

lemma smashed_sprintf_run [simp]: "smashed (snd (sprintf_run ip cap cmd s)) = (smashed s \<or> cap \<le> length cmd)"
  by (simp add: sprintf_run_def)

lemma length_digits_base: "2 \<le> b \<Longrightarrow> n < b ^ Suc k \<Longrightarrow> length (digits_base b n) \<le> Suc k"
proof (induction k arbitrary: n)
  case 0
  then show ?case by (subst digits_base.simps) simp
next
  case (Suc k)
  then have "n div b < b ^ Suc k" by (simp add: less_mult_imp_div_less mult.commute)
  then show ?case using Suc by (subst digits_base.simps) simp
qed

lemma length_hex32: "length (hex32 w) \<le> 10"
proof -
  have "unat w < 16 ^ Suc 7" using unat_u32_less [of w] by simp
  from length_digits_base [OF _ this] show ?thesis by (simp add: hex32_def fmt_0x_def fmt_hex_def)
qed

lemma length_hex64: "length (hex64 w) \<le> 18"
proof -
  have "unat w < 2 ^ LENGTH(64)" by (rule unsigned_less)
  then have "unat w < 16 ^ Suc 15" by simp
  from length_digits_base [OF _ this] show ?thesis by (simp add: hex64_def fmt_0x_def fmt_hex_def)
qed

end
