(* ===== verification/IpqApi.thy ===== *)
theory IpqApi
  imports FlashInfo
begin

text \<open>
  Firmware types and partition sizes, \<^verbatim>\<open>lib/ipq_api.c\<close>. An \<open>ipq_board\<close> is what the rest of the boot
  loader reports: \<open>flash_of\<close> (drivers and partition tables, see \<^verbatim>\<open>FlashInfo\<close>), the offsets of the
  partition table in shared memory, and the build options \<open>ipq40xx\<close>, \<open>emmc_build\<close>
  (\<^verbatim>\<open>CONFIG_EFI_PARTITION\<close>, \<^verbatim>\<open>CONFIG_PARTITIONS\<close> and \<^verbatim>\<open>CONFIG_CMD_MMC\<close>), \<open>ubi_build\<close>
  (\<^verbatim>\<open>CONFIG_CMD_UBI\<close>), \<open>ubi_vol_write\<close> (\<^verbatim>\<open>IPQ_UBI_VOL_WRITE_SUPPORT\<close>), \<open>mibib_reload\<close>
  (\<^verbatim>\<open>CONFIG_IPQ_MIBIB_RELOAD\<close>) and \<open>spi_build\<close> (\<^verbatim>\<open>CONFIG_SPI_FLASH\<close>).
\<close>

record ipq_board =
  flash_of :: flash_info
  smem_part_offset :: "string \<Rightarrow> u32"
  smem_rootfs_offset :: u64
  smem_rootfs_size :: u64
  ipq40xx :: bool
  emmc_build :: bool
  ubi_build :: bool
  ubi_vol_write :: bool
  mibib_reload :: bool
  spi_build :: bool
  nand_dev :: int
  msmparts :: "string option"
  spi_page_size :: "u32 option"
  smem_block_size :: u32
  smem_density :: u32
  sfi_flash_type :: int

definition UPLOAD_ADDR :: "ipq_board \<Rightarrow> u32" where
  "UPLOAD_ADDR bd = (if ipq40xx bd then 0x88000000 else 0x4b000000)"

definition RAM_BOOT_ADDR :: "ipq_board \<Rightarrow> u32" where
  "RAM_BOOT_ADDR bd = (if ipq40xx bd then 0x84000000 else 0x44000000)"

abbreviation flash_type_of :: "ipq_board \<Rightarrow> int option" where
  "flash_type_of bd \<equiv> current_flash_type (flash_of bd)"

section \<open>Firmware type\<close>

datatype firmware_type = FW_TYPE_FIT | FW_TYPE_GPT | FW_TYPE_QSDK | FW_TYPE_UBI | FW_TYPE_CDT
  | FW_TYPE_ELF | FW_TYPE_MIBIB | FW_TYPE_SYSUPGRADE | FW_TYPE_UNKNOWN

record fw_info =
  fw_type :: firmware_type
  hlos_bytes :: u32

text \<open>Where a squashfs starts: the first of the 512 KB steps from 2 MB to 16 MB that has its magic.\<close>

definition hlos_scan :: "ram \<Rightarrow> u32 \<Rightarrow> u32" where
  "hlos_scan m a =
     (case find (\<lambda>kb. ram_le32 m (a + of_nat kb * 1024) = 0x73717368) (map (\<lambda>i. 2048 + 512 * i) [0..<29]) of
        Some kb \<Rightarrow> of_nat kb * 1024
      | None \<Rightarrow> 16 * 1024 * 1024)"

definition check_fw_type_ex :: "ram \<Rightarrow> u32 \<Rightarrow> fw_info" where
  "check_fw_type_ex m a =
     \<lparr>fw_type =
        (if ram_le32 m (a + 0x5c) = 0x73616c46 then FW_TYPE_QSDK
         else if ram_le32 m a = 0x23494255 then FW_TYPE_UBI
         else if ram_le32 m a = 0xedfe0dd0 then FW_TYPE_FIT
         else if ram_le16 m (a + 0x1fe) = 0xaa55 \<or> ram_le32 m (a + 0x4000) = 0x20494645 then FW_TYPE_GPT
         else if ram_le32 m a = 0x00544443 then FW_TYPE_CDT
         else if ram_le32 m a = 0x464c457f then FW_TYPE_ELF
         else if ram_le32 m a = 0xfe569fac then FW_TYPE_MIBIB
         else if memcmp (ram_bytes m a 10) ''sysupgrade'' 10 = 0 then FW_TYPE_SYSUPGRADE
         else FW_TYPE_UNKNOWN),
      hlos_bytes = hlos_scan m a\<rparr>"

definition check_fw_type :: "ram \<Rightarrow> u32 \<Rightarrow> firmware_type" where
  "check_fw_type m a = fw_type (check_fw_type_ex m a)"

section \<open>Partitions\<close>

abbreviation ROOTFS_NAMES :: "string list" where
  "ROOTFS_NAMES \<equiv> [''rootfs'', ''rootfs1'', ''rootfs2'', ''rootfs_1'']"

definition get_smem_table_size_bytes :: "ipq_board \<Rightarrow> string \<Rightarrow> u64" where
  "get_smem_table_size_bytes bd name =
     (case part_size (flash_of bd) name of
        Some sz \<Rightarrow> sz
      | None \<Rightarrow>
          if emmc_build bd then
            (case flash_type_of bd of
               Some t \<Rightarrow>
                 if t = SMEM_BOOT_MMC_FLASH \<or> t = SMEM_BOOT_NORPLUSEMMC \<or> smem_rootfs_offset bd = 0xBAD0FF5E then
                   (case mmc_dev (flash_of bd) of
                      Some d \<Rightarrow> (case gpt_part_size d name of Some sz \<Rightarrow> sz * blksz d | None \<Rightarrow> 0)
                    | None \<Rightarrow> 0)
                 else 0
             | None \<Rightarrow> 0)
          else 0)"

definition get_smem_table_offset :: "ipq_board \<Rightarrow> string \<Rightarrow> u64" where
  "get_smem_table_offset bd name =
     (case smem_part_size (flash_of bd) name of Some _ \<Rightarrow> ucast (smem_part_offset bd name) | None \<Rightarrow> 0)"

definition get_firmware_size :: "ipq_board \<Rightarrow> u64" where
  "get_firmware_size bd =
     (let size = get_smem_table_size_bytes bd ''rootfs'' in
      if size > 0 then size else
      let size = get_smem_table_size_bytes bd ''rootfs1'' in
      if size > 0 then size else
      let size = get_smem_table_size_bytes bd ''rootfs2'' in
      if size > 0 then size else
      let size = get_smem_table_size_bytes bd ''rootfs_1'' in
      if size > 0 then size else get_smem_table_size_bytes bd ''rootfs'')"

definition get_hlos_size :: "ipq_board \<Rightarrow> u64" where
  "get_hlos_size bd = get_smem_table_size_bytes bd ''0:HLOS''"

definition get_rootfs_size :: "ipq_board \<Rightarrow> u64" where
  "get_rootfs_size bd = get_smem_table_size_bytes bd ''rootfs''"

definition get_nor_firmware_combined_size :: "ipq_board \<Rightarrow> u64" where
  "get_nor_firmware_combined_size bd =
     (let kernel = get_smem_table_size_bytes bd ''0:HLOS'';
          rootfs = get_smem_table_size_bytes bd ''rootfs'';
          rootfs = (if rootfs = 0 then get_firmware_size bd else rootfs)
      in kernel + rootfs)"

definition get_firmware_upgrade_max_size :: "ipq_board \<Rightarrow> u64" where
  "get_firmware_upgrade_max_size bd =
     (case flash_type_of bd of
        None \<Rightarrow> 0
      | Some t \<Rightarrow>
          if emmc_build bd \<and> (t = SMEM_BOOT_MMC_FLASH \<or> t = SMEM_BOOT_NORPLUSEMMC) then
            let rootfs = get_rootfs_size bd;
                rootfs = (if rootfs = 0 then get_firmware_size bd else rootfs)
            in get_hlos_size bd + rootfs
          else if t = 1 then get_nor_firmware_combined_size bd
          else if t = SMEM_BOOT_SPI_FLASH then
            if which_flash_param (flash_of bd) ''rootfs'' > 0 then get_firmware_size bd
            else get_nor_firmware_combined_size bd
          else get_firmware_size bd)"

definition get_bootconfig_offset_blocks :: "ipq_board \<Rightarrow> u64" where
  "get_bootconfig_offset_blocks bd = get_smem_table_offset bd ''0:BOOTCONFIG'' div 512"

definition get_bootconfig_size :: "ipq_board \<Rightarrow> u64" where
  "get_bootconfig_size bd = get_smem_table_size_bytes bd ''0:BOOTCONFIG''"

definition get_bootconfig_size_blocks :: "ipq_board \<Rightarrow> u64" where
  "get_bootconfig_size_blocks bd = get_bootconfig_size bd div 512"

definition emmc_calculate_firmware_distribution :: "u32 \<Rightarrow> u32 \<Rightarrow> u32 \<Rightarrow> u32 \<times> u32" where
  "emmc_calculate_firmware_distribution firmware_size hlos_max_size rootfs_max_size =
     (let hlos_part_size = (if firmware_size < hlos_max_size then firmware_size else hlos_max_size);
          remaining = (if firmware_size > hlos_part_size then firmware_size - hlos_part_size else 0)
      in (hlos_part_size, if remaining < rootfs_max_size then remaining else rootfs_max_size))"

section \<open>Facts\<close>

text \<open>The size of the root file system is the one of the first of the four names that has one.\<close>

lemma firmware_size_first_name:
  "get_firmware_size bd =
     (case find (\<lambda>name. get_smem_table_size_bytes bd name > 0) ROOTFS_NAMES of
        Some name \<Rightarrow> get_smem_table_size_bytes bd name | None \<Rightarrow> 0)"
  by (auto simp: get_firmware_size_def Let_def simp flip: word_neq_0_conv)

lemma ram_le32_cong:
  "m a = m' b \<Longrightarrow> m (a + 1) = m' (b + 1) \<Longrightarrow> m (a + 2) = m' (b + 2) \<Longrightarrow> m (a + 3) = m' (b + 3)
     \<Longrightarrow> ram_le32 m a = ram_le32 m' b"
  by (simp add: ram_le32_def)

lemma hlos_scan_bounds: "0x200000 \<le> unat (hlos_scan m a) \<and> unat (hlos_scan m a) \<le> 0x1000000"
proof (cases "find (\<lambda>kb. ram_le32 m (a + of_nat kb * 1024) = 0x73717368) (map (\<lambda>i. 2048 + 512 * i) [0..<29])")
  case (Some kb)
  then obtain i where i: "i < 29" "kb = 2048 + 512 * i" by (auto simp: find_Some_iff)
  have "unat (of_nat kb * 1024 :: u32) = kb * 1024"
    using i by (simp add: unat_word_ariths unat_of_nat take_bit_eq_mod)
  then show ?thesis using i by (simp add: hlos_scan_def Some)
qed (simp add: hlos_scan_def)

end
