(* ===== verification/UbiUpdate.thy ===== *)
theory UbiUpdate
  imports Sysupgrade Shell IpqApi
begin

text \<open>
  Writing the parts of a sysupgrade image to UBI volumes: \<^verbatim>\<open>sysupgrade_ubi_init\<close>,
  \<^verbatim>\<open>ubi_write_volume\<close> and \<^verbatim>\<open>sysupgrade_write_ubi_volumes\<close> of \<^verbatim>\<open>lib/sysupgrade_parser.c\<close>, and
  \<^verbatim>\<open>ubi_volume_can_replace\<close> of \<^verbatim>\<open>common/cmd_ubi.c\<close>.

  \<open>ubi\<close> gives the attached UBI device after the commands run so far (\<open>None\<close> when no device is
  attached). \<open>set_part\<close> stands for \<^verbatim>\<open>ubi_set_rootfs_part\<close>, which prepares the partition of
  the root file system; its result depends on the same history.
\<close>

record ubi_volume =
  vol_name :: string
  reserved_pebs :: nat

text \<open>Slots without a volume are left out; \<open>beb_rsvd\<close> is the level and what is held of it.\<close>

record ubi_device =
  volumes :: "ubi_volume list"
  avail_pebs :: nat
  leb_size :: nat
  beb_rsvd_level :: int
  beb_rsvd_pebs :: int

record ubi_env =
  ubi :: "string list \<Rightarrow> ubi_device option"
  set_part :: "string list \<Rightarrow> int"

text \<open>The blocks a volume can have once an old one of the same name is gone.\<close>

definition replace_avail :: "ubi_device \<Rightarrow> string \<Rightarrow> nat" where
  "replace_avail u name =
     (case find (\<lambda>v. strcmp (vol_name v) name = 0) (volumes u) of
        Some vol \<Rightarrow>
          let avail = avail_pebs u + reserved_pebs vol;
              reserve = beb_rsvd_level u - beb_rsvd_pebs u
          in if reserve > 0 then avail - nat reserve else avail
      | None \<Rightarrow> avail_pebs u)"

definition ubi_volume_can_replace :: "ubi_device option \<Rightarrow> string \<Rightarrow> nat \<Rightarrow> int" where
  "ubi_volume_can_replace ud name sz =
     (case ud of
        None \<Rightarrow> -1
      | Some u \<Rightarrow>
          let new_pebs = (sz + leb_size u - 1) div leb_size u
          in if new_pebs > replace_avail u name then -1 else 0)"

definition ubi_init_cmd :: "ipq_board \<Rightarrow> string" where
  "ubi_init_cmd bd =
     (let dev = fmt_int (nand_dev bd)
      in then_cmd (''nand device '' @ dev)
         (then_cmd (''setenv mtdids nand'' @ dev @ ''=nand'' @ dev)
          (''setenv mtdparts mtdparts=nand'' @ dev @ '':'' @ hex64 (smem_rootfs_size bd) @ ''@'' @ hex64 (smem_rootfs_offset bd)
           @ ''(fs)'' @ (case msmparts bd of None \<Rightarrow> '''' | Some p \<Rightarrow> '','' @ p))))"

definition sysupgrade_ubi_init :: "ipq_board \<Rightarrow> ubi_env \<Rightarrow> 'd interp \<Rightarrow> 'd shell \<Rightarrow> int \<times> 'd shell" where
  "sysupgrade_ubi_init bd e ip s =
     (if smem_rootfs_offset bd = 0xBAD0FF5E \<or> smem_rootfs_size bd = 0 then (-1, s)
      else if ubi_vol_write bd
        \<and> (sfi_flash_type bd = SMEM_BOOT_NAND_FLASH \<or> sfi_flash_type bd = SMEM_BOOT_QSPI_NAND_FLASH
           \<or> sfi_flash_type bd = SMEM_BOOT_SPI_FLASH \<and> which_flash_param (flash_of bd) ''rootfs'' > 0)
        \<and> set_part e (history s) = 0 then (0, s)
      else run_command ip (snprintf 256 (ubi_init_cmd bd)) s)"

definition ubi_remove_cmd :: "string \<Rightarrow> string" where
  "ubi_remove_cmd name = snprintf 64 (''ubi remove '' @ name)"

definition ubi_write_cmd :: "string \<Rightarrow> u32 \<Rightarrow> u32 \<Rightarrow> string" where
  "ubi_write_cmd name data sz = snprintf 256
     (then_cmd (''ubi create '' @ name @ '' '' @ hex32 sz)
        (''ubi write '' @ hex32 data @ '' '' @ name @ '' '' @ hex32 sz))"

definition ubi_write_volume :: "ubi_env \<Rightarrow> 'd interp \<Rightarrow> string \<Rightarrow> u32 \<Rightarrow> u32 \<Rightarrow> 'd shell \<Rightarrow> int \<times> 'd shell" where
  "ubi_write_volume e ip name data sz s =
     (if ubi_volume_can_replace (ubi e (history s)) name (unat sz) \<noteq> 0 then (-1, s)
      else
        let (_, s) = run_command ip (ubi_remove_cmd name) s;
            (r, s) = run_command ip (ubi_write_cmd name data sz) s
        in (if r \<noteq> 0 then -1 else 0, s))"

text \<open>Writing one part, when there is one.\<close>

definition write_part :: "ubi_env \<Rightarrow> 'd interp \<Rightarrow> string \<Rightarrow> nat \<Rightarrow> nat \<Rightarrow> 'd shell \<Rightarrow> int \<times> 'd shell" where
  "write_part e ip name data sz s =
     (if data \<noteq> 0 \<and> 0 < sz then ubi_write_volume e ip name (of_nat data) (of_nat sz) s else (0, s))"

definition write_volumes :: "ubi_env \<Rightarrow> 'd interp \<Rightarrow> fw_parts \<Rightarrow> bool \<Rightarrow> 'd shell \<Rightarrow> int \<times> 'd shell" where
  "write_volumes e ip parts backup_enabled s =
     (let (r, s) = write_part e ip ''kernel'' (kernel_data parts) (kernel_size parts) s in
      if r \<noteq> 0 then (-1, s)
      else
        let (r, s) = write_part e ip ''rootfs'' (rootfs_data parts) (rootfs_size parts) s in
        if r \<noteq> 0 then (-1, s)
        else if backup_enabled then
          let (_, s) = write_part e ip ''kernel_1'' (kernel_data parts) (kernel_size parts) s;
              (_, s) = write_part e ip ''rootfs_1'' (rootfs_data parts) (rootfs_size parts) s
          in (0, s)
        else (0, s))"

definition sysupgrade_write_ubi_volumes :: "ipq_board \<Rightarrow> ubi_env \<Rightarrow> 'd interp \<Rightarrow> fw_parts \<Rightarrow> bool \<Rightarrow> 'd shell \<Rightarrow> int \<times> 'd shell" where
  "sysupgrade_write_ubi_volumes bd e ip parts backup_enabled s =
     (let (r, s) = sysupgrade_ubi_init bd e ip s in
      if r \<noteq> 0 then (-1, s)
      else
        let (r, s) = run_command ip ''ubi part fs'' s in
        if r \<noteq> 0 then (-1, s)
        else
          let (_, s) = run_command ip ''ubi remove rootfs_data'' s;
              (ret, s) = write_volumes e ip parts backup_enabled s;
              (_, s) = run_command ip ''ubi create rootfs_data'' s
          in (ret, s))"

end
