(* ===== verification/UbiUpdateProofs.thy ===== *)
theory UbiUpdateProofs
  imports UbiUpdate
begin

text \<open>
  Updating UBI volumes: which commands are run, in which order, and what the result depends on, for
  every behaviour of the command interpreter.
\<close>

definition VOLUMES :: "string set" where
  "VOLUMES = {''kernel'', ''rootfs'', ''kernel_1'', ''rootfs_1''}"

text \<open>
  The commands \<open>new\<close>, run after \<open>h\<close>, remove a volume only when a new one fits, and write the new
  one next.
\<close>

definition safe_log :: "ubi_env \<Rightarrow> string list \<Rightarrow> string list \<Rightarrow> bool" where
  "safe_log e h new \<longleftrightarrow> (\<forall>i name. i < length new \<longrightarrow> name \<in> VOLUMES \<longrightarrow> new ! i = ubi_remove_cmd name \<longrightarrow>
     (\<exists>data sz. ubi_volume_can_replace (ubi e (h @ take i new)) name (unat sz) = 0
        \<and> Suc i < length new \<and> new ! Suc i = ubi_write_cmd name data sz))"

lemma safe_log_Nil [simp]: "safe_log e h []"
  by (simp add: safe_log_def)

lemma safe_logE:
  assumes "safe_log e h new" and "i < length new" and "name \<in> VOLUMES" and "new ! i = ubi_remove_cmd name"
  obtains data sz where "ubi_volume_can_replace (ubi e (h @ take i new)) name (unat sz) = 0"
    and "Suc i < length new" and "new ! Suc i = ubi_write_cmd name data sz"
  using assms unfolding safe_log_def by blast

lemma safe_log_append:
  assumes "safe_log e h xs" and "safe_log e (h @ xs) ys"
  shows "safe_log e h (xs @ ys)"
  unfolding safe_log_def
proof (intro allI impI)
  fix i name
  assume i: "i < length (xs @ ys)" and n: "name \<in> VOLUMES" and c: "(xs @ ys) ! i = ubi_remove_cmd name"
  show "\<exists>data sz. ubi_volume_can_replace (ubi e (h @ take i (xs @ ys))) name (unat sz) = 0
      \<and> Suc i < length (xs @ ys) \<and> (xs @ ys) ! Suc i = ubi_write_cmd name data sz"
  proof (cases "i < length xs")
    case True
    with c have "xs ! i = ubi_remove_cmd name" by (simp add: nth_append)
    then obtain data sz where "ubi_volume_can_replace (ubi e (h @ take i xs)) name (unat sz) = 0"
      "Suc i < length xs" "xs ! Suc i = ubi_write_cmd name data sz"
      using safe_logE [OF assms(1) True n] by blast
    then show ?thesis using True by (auto simp: nth_append)
  next
    case False
    define j where "j = i - length xs"
    have j: "i = length xs + j" "j < length ys" using False i by (simp_all add: j_def)
    with c have "ys ! j = ubi_remove_cmd name" by (simp add: nth_append)
    then obtain data sz where "ubi_volume_can_replace (ubi e ((h @ xs) @ take j ys)) name (unat sz) = 0"
      "Suc j < length ys" "ys ! Suc j = ubi_write_cmd name data sz"
      using safe_logE [OF assms(2) j(2) n] by blast
    then show ?thesis using j by (auto simp: nth_append)
  qed
qed

lemma remove_cmd_start: "take 5 (ubi_remove_cmd name) = ''ubi r''"
  by (simp add: ubi_remove_cmd_def snprintf_def)

lemma write_cmd_start: "take 5 (ubi_write_cmd name data sz) = ''ubi c''"
  by (simp add: ubi_write_cmd_def snprintf_def)

lemma safe_log_other: "(\<forall>name \<in> VOLUMES. c \<noteq> ubi_remove_cmd name) \<Longrightarrow> safe_log e h [c]"
  by (auto simp: safe_log_def)

lemma remove_cmd_inj: "name \<in> VOLUMES \<Longrightarrow> name' \<in> VOLUMES \<Longrightarrow> ubi_remove_cmd name = ubi_remove_cmd name' \<Longrightarrow> name = name'"
  by (auto simp: VOLUMES_def ubi_remove_cmd_def snprintf_def)

lemma write_not_remove: "ubi_write_cmd n d z \<noteq> ubi_remove_cmd name"
  using remove_cmd_start [of name] write_cmd_start [of n d z] by force

lemma safe_log_replace:
  assumes "name \<in> VOLUMES" and "ubi_volume_can_replace (ubi e h) name (unat sz) = 0"
  shows "safe_log e h [ubi_remove_cmd name, ubi_write_cmd name data sz]"
  unfolding safe_log_def
proof (intro allI impI)
  fix i name'
  assume a: "i < length [ubi_remove_cmd name, ubi_write_cmd name data sz]" "name' \<in> VOLUMES"
    "[ubi_remove_cmd name, ubi_write_cmd name data sz] ! i = ubi_remove_cmd name'"
  have "i = 0" using a(1,3) write_not_remove by (cases i) auto
  with a have "name' = name" using remove_cmd_inj [OF assms(1) a(2)] by simp
  then show "\<exists>da z. ubi_volume_can_replace (ubi e (h @ take i [ubi_remove_cmd name, ubi_write_cmd name data sz])) name' (unat z) = 0
      \<and> Suc i < length [ubi_remove_cmd name, ubi_write_cmd name data sz]
      \<and> [ubi_remove_cmd name, ubi_write_cmd name data sz] ! Suc i = ubi_write_cmd name' da z"
    using assms(2) \<open>i = 0\<close> by auto
qed

text \<open>What one part adds to the history.\<close>

lemma write_part_log:
  assumes "name \<in> VOLUMES"
  shows "\<exists>new. history (snd (write_part e ip name data sz s)) = history s @ new \<and> safe_log e (history s) new"
proof (cases "data \<noteq> 0 \<and> 0 < sz \<and> ubi_volume_can_replace (ubi e (history s)) name (unat (of_nat sz :: u32)) = 0")
  case True
  then show ?thesis
    using safe_log_replace [OF assms, of e "history s" "of_nat sz" "of_nat data"]
    by (auto simp: write_part_def ubi_write_volume_def split_beta Let_def)
next
  case False
  then show ?thesis by (auto simp: write_part_def ubi_write_volume_def intro!: exI [of _ "[]"])
qed

lemma safe_log_steps:
  "\<exists>new. history s1 = history s @ new \<and> safe_log e (history s) new \<Longrightarrow>
   \<exists>new. history s2 = history s1 @ new \<and> safe_log e (history s1) new \<Longrightarrow>
   \<exists>new. history s2 = history s @ new \<and> safe_log e (history s) new"
  by (metis append.assoc safe_log_append)

lemma write_volumes_log:
  "\<exists>new. history (snd (write_volumes e ip parts bk s)) = history s @ new \<and> safe_log e (history s) new"
proof -
  define s1 where "s1 = snd (write_part e ip ''kernel'' (kernel_data parts) (kernel_size parts) s)"
  define s2 where "s2 = snd (write_part e ip ''rootfs'' (rootfs_data parts) (rootfs_size parts) s1)"
  define s3 where "s3 = snd (write_part e ip ''kernel_1'' (kernel_data parts) (kernel_size parts) s2)"
  define s4 where "s4 = snd (write_part e ip ''rootfs_1'' (rootfs_data parts) (rootfs_size parts) s3)"
  have l1: "\<exists>new. history s1 = history s @ new \<and> safe_log e (history s) new" unfolding s1_def by (rule write_part_log) (simp add: VOLUMES_def)
  have l2: "\<exists>new. history s2 = history s @ new \<and> safe_log e (history s) new"
    by (rule safe_log_steps [OF l1]) (unfold s2_def, rule write_part_log, simp add: VOLUMES_def)
  have l3: "\<exists>new. history s3 = history s @ new \<and> safe_log e (history s) new"
    by (rule safe_log_steps [OF l2]) (unfold s3_def, rule write_part_log, simp add: VOLUMES_def)
  have l4: "\<exists>new. history s4 = history s @ new \<and> safe_log e (history s) new"
    by (rule safe_log_steps [OF l3]) (unfold s4_def, rule write_part_log, simp add: VOLUMES_def)
  have "snd (write_volumes e ip parts bk s) \<in> {s1, s2, s4}"
    by (simp add: write_volumes_def split_beta Let_def s1_def s2_def s3_def s4_def)
  then show ?thesis using l1 l2 l4 by auto
qed

text \<open>The whole update: the set-up, and then the volumes between the removal and creation of \<open>rootfs_data\<close>.\<close>

lemma update_log:
  obtains cs where "set cs \<subseteq> {snprintf 256 (ubi_init_cmd bd), ''ubi part fs''}"
    "history (snd (sysupgrade_write_ubi_volumes bd e ip parts bk s)) = history s @ cs"
    "fst (sysupgrade_write_ubi_volumes bd e ip parts bk s) = -1"
  | cs s1 where "set cs \<subseteq> {snprintf 256 (ubi_init_cmd bd), ''ubi part fs''}"
    "history s1 = history s @ cs @ [''ubi remove rootfs_data'']"
    "history (snd (sysupgrade_write_ubi_volumes bd e ip parts bk s))
       = history (snd (write_volumes e ip parts bk s1)) @ [''ubi create rootfs_data'']"
    "fst (sysupgrade_write_ubi_volumes bd e ip parts bk s) = fst (write_volumes e ip parts bk s1)"
proof -
  define s0 where "s0 = snd (sysupgrade_ubi_init bd e ip s)"
  define pre where "pre = drop (length (history s)) (history s0)"
  have h0: "history s0 = history s @ pre" "set pre \<subseteq> {snprintf 256 (ubi_init_cmd bd)}"
    by (auto simp: s0_def pre_def sysupgrade_ubi_init_def split: if_splits)
  show thesis
  proof (cases "fst (sysupgrade_ubi_init bd e ip s) = 0 \<and> fst (run_command ip ''ubi part fs'' s0) = 0")
    case True
    show thesis
    proof (rule that(2) [of "pre @ [''ubi part fs'']"
          "snd (run_command ip ''ubi remove rootfs_data'' (snd (run_command ip ''ubi part fs'' s0)))"])
    qed (use True h0 in \<open>auto simp: sysupgrade_write_ubi_volumes_def split_beta Let_def s0_def [symmetric]\<close>)
  next
    case False
    show thesis
    proof (cases "fst (sysupgrade_ubi_init bd e ip s) = 0")
      case True
      show thesis
        by (rule that(1) [of "pre @ [''ubi part fs'']"])
          (use True False h0 in \<open>auto simp: sysupgrade_write_ubi_volumes_def split_beta Let_def s0_def [symmetric]\<close>)
    next
      case nz: False
      show thesis
        by (rule that(1) [of pre])
          (use nz h0 in \<open>auto simp: sysupgrade_write_ubi_volumes_def split_beta Let_def s0_def [symmetric]\<close>)
    qed
  qed
qed


lemma setup_not_remove:
  assumes "c \<in> {snprintf 256 (ubi_init_cmd bd), ''ubi part fs''}"
  shows "c \<noteq> ubi_remove_cmd name" and "c \<noteq> ''ubi remove rootfs_data''"
proof -
  have "take 5 (snprintf 256 (ubi_init_cmd bd)) = ''nand ''"
    by (simp add: snprintf_def ubi_init_cmd_def Let_def)
  then have "take 5 c = ''nand '' \<or> take 5 c = ''ubi p''" using assms by auto
  then show "c \<noteq> ubi_remove_cmd name" "c \<noteq> ''ubi remove rootfs_data''" using remove_cmd_start [of name] by auto
qed

lemma rootfs_data_cmds: "name \<in> VOLUMES \<Longrightarrow> ''ubi remove rootfs_data'' \<noteq> ubi_remove_cmd name"
    "name \<in> VOLUMES \<Longrightarrow> ''ubi create rootfs_data'' \<noteq> ubi_remove_cmd name"
  by (auto simp: VOLUMES_def ubi_remove_cmd_def snprintf_def)

text \<open>
  Once the update has removed the configuration volume \<^verbatim>\<open>rootfs_data\<close>, it creates it again as its
  last command, whatever happened in between.
\<close>

theorem config_volume_recreated:
  assumes "history (snd (sysupgrade_write_ubi_volumes bd e ip parts bk s)) = history s @ new"
    and "''ubi remove rootfs_data'' \<in> set new"
  shows "last new = ''ubi create rootfs_data''"
proof (rule update_log [of bd e ip parts bk s])
  fix cs assume "set cs \<subseteq> {snprintf 256 (ubi_init_cmd bd), ''ubi part fs''}"
    "history (snd (sysupgrade_write_ubi_volumes bd e ip parts bk s)) = history s @ cs"
  then have False using assms setup_not_remove(2) by auto
  then show ?thesis ..
next
  fix cs s1 assume c: "history s1 = history s @ cs @ [''ubi remove rootfs_data'']"
    "history (snd (sysupgrade_write_ubi_volumes bd e ip parts bk s))
      = history (snd (write_volumes e ip parts bk s1)) @ [''ubi create rootfs_data'']"
  obtain w where "history (snd (write_volumes e ip parts bk s1)) = history s1 @ w" using write_volumes_log by blast
  with c assms(1) have "new = cs @ [''ubi remove rootfs_data''] @ w @ [''ubi create rootfs_data'']" by simp
  then show ?thesis by simp
qed

text \<open>
  C19: The update removes an old volume only when the device has room for the new one, and its next
  command creates and writes the new one.
\<close>

theorem old_volume_kept_unless_replaceable:
  assumes "history (snd (sysupgrade_write_ubi_volumes bd e ip parts bk s)) = history s @ new"
    and "i < length new" and "name \<in> {''kernel'', ''rootfs'', ''kernel_1'', ''rootfs_1''}" and "new ! i = ubi_remove_cmd name"
  shows "\<exists>data sz. ubi_volume_can_replace (ubi e (history s @ take i new)) name (unat sz) = 0
    \<and> Suc i < length new \<and> new ! Suc i = ubi_write_cmd name data sz"
proof -
  have su: "safe_log e h cs" if "set cs \<subseteq> {snprintf 256 (ubi_init_cmd bd), ''ubi part fs''}" for h cs
    using that
  proof (induction cs arbitrary: h)
    case (Cons c cs)
    have "safe_log e h [c]" using Cons.prems setup_not_remove(1) by (intro safe_log_other) (metis insert_subset list.simps(15))
    then show ?case using Cons safe_log_append [of e h "[c]" cs] by simp
  qed simp
  have "safe_log e (history s) new"
  proof (rule update_log [of bd e ip parts bk s])
    fix cs assume "set cs \<subseteq> {snprintf 256 (ubi_init_cmd bd), ''ubi part fs''}"
      "history (snd (sysupgrade_write_ubi_volumes bd e ip parts bk s)) = history s @ cs"
    then show ?thesis using assms(1) su by simp
  next
    fix cs s1 assume c: "set cs \<subseteq> {snprintf 256 (ubi_init_cmd bd), ''ubi part fs''}"
      "history s1 = history s @ cs @ [''ubi remove rootfs_data'']"
      "history (snd (sysupgrade_write_ubi_volumes bd e ip parts bk s))
        = history (snd (write_volumes e ip parts bk s1)) @ [''ubi create rootfs_data'']"
    obtain w where w: "history (snd (write_volumes e ip parts bk s1)) = history s1 @ w" "safe_log e (history s1) w"
      using write_volumes_log by blast
    have n: "new = cs @ [''ubi remove rootfs_data''] @ w @ [''ubi create rootfs_data'']" using c w(1) assms(1) by simp
    show ?thesis unfolding n
      by (intro safe_log_append su [OF c(1)] safe_log_other)
        (use c(2) w(2) in \<open>auto dest: rootfs_data_cmds\<close>)
  qed
  then show ?thesis using assms(2-4) unfolding safe_log_def VOLUMES_def by blast
qed

text \<open>
  Writing the backup volumes never changes the result of the update.
\<close>

theorem backup_never_fails_update:
  "fst (sysupgrade_write_ubi_volumes bd e ip parts True s) = fst (sysupgrade_write_ubi_volumes bd e ip parts False s)"
  by (simp add: sysupgrade_write_ubi_volumes_def write_volumes_def split_beta Let_def)


lemma write_part_ok:
  fixes ip :: "'d interp"
  assumes "fst (write_part e ip name d sz s) = 0" and "d \<noteq> 0" and "0 < sz"
  obtains t :: "'d shell" where "history (snd (write_part e ip name d sz s)) = history t @ [ubi_write_cmd name (of_nat d) (of_nat sz)]"
    and "history t = history s @ [ubi_remove_cmd name]"
    and "fst (ip (dev t) (mem t) (ubi_write_cmd name (of_nat d) (of_nat sz))) = 0"
proof -
  define s1 where "s1 = snd (run_command ip (ubi_remove_cmd name) s)"
  have h1: "history s1 = history s @ [ubi_remove_cmd name]" by (simp add: s1_def)
  show thesis
    using assms that [of s1] h1
    by (simp add: write_part_def ubi_write_volume_def split_beta Let_def s1_def [symmetric] split: if_splits)
      (simp add: run_command_def split_beta)
qed

lemma write_volumes_done:
  fixes ip :: "'d interp"
  assumes "fst (write_volumes e ip parts bk s) = 0"
    and "kernel_data parts \<noteq> 0" and "0 < kernel_size parts" and "rootfs_data parts \<noteq> 0" and "0 < rootfs_size parts"
    and "x = (''kernel'', kernel_data parts, kernel_size parts) \<or> x = (''rootfs'', rootfs_data parts, rootfs_size parts)"
    and "x = (name, d, sz)"
  shows "\<exists>t :: 'd shell. prefix (history t @ [ubi_write_cmd name (of_nat d) (of_nat sz)]) (history (snd (write_volumes e ip parts bk s)))
    \<and> fst (ip (dev t) (mem t) (ubi_write_cmd name (of_nat d) (of_nat sz))) = 0"
proof -
  define s1 where "s1 = snd (write_part e ip ''kernel'' (kernel_data parts) (kernel_size parts) s)"
  define s2 where "s2 = snd (write_part e ip ''rootfs'' (rootfs_data parts) (rootfs_size parts) s1)"
  have ok: "fst (write_part e ip ''kernel'' (kernel_data parts) (kernel_size parts) s) = 0"
    "fst (write_part e ip ''rootfs'' (rootfs_data parts) (rootfs_size parts) s1) = 0"
    using assms(1) by (auto simp: write_volumes_def split_beta Let_def s1_def split: if_splits)
  obtain t1 :: "'d shell" where k: "history s1 = history t1 @ [ubi_write_cmd ''kernel'' (of_nat (kernel_data parts)) (of_nat (kernel_size parts))]"
    "history t1 = history s @ [ubi_remove_cmd ''kernel'']"
    "fst (ip (dev t1) (mem t1) (ubi_write_cmd ''kernel'' (of_nat (kernel_data parts)) (of_nat (kernel_size parts)))) = 0"
    unfolding s1_def by (rule write_part_ok [OF ok(1) assms(2,3)])
  obtain t2 :: "'d shell" where r: "history s2 = history t2 @ [ubi_write_cmd ''rootfs'' (of_nat (rootfs_data parts)) (of_nat (rootfs_size parts))]"
    "history t2 = history s1 @ [ubi_remove_cmd ''rootfs'']"
    "fst (ip (dev t2) (mem t2) (ubi_write_cmd ''rootfs'' (of_nat (rootfs_data parts)) (of_nat (rootfs_size parts)))) = 0"
    unfolding s2_def by (rule write_part_ok [OF ok(2) assms(4,5)])
  have "prefix (history s2) (history (snd (write_volumes e ip parts bk s)))"
  proof (cases bk)
    case False
    then show ?thesis using ok by (simp add: write_volumes_def split_beta Let_def s1_def [symmetric] s2_def [symmetric])
  next
    case True
    define s3 where "s3 = snd (write_part e ip ''kernel_1'' (kernel_data parts) (kernel_size parts) s2)"
    define s4 where "s4 = snd (write_part e ip ''rootfs_1'' (rootfs_data parts) (rootfs_size parts) s3)"
    have "snd (write_volumes e ip parts bk s) = s4"
      using True ok by (simp add: write_volumes_def split_beta Let_def s1_def [symmetric] s2_def [symmetric] s3_def [symmetric] s4_def)
    moreover have "prefix (history s2) (history s3)" "prefix (history s3) (history s4)"
      using write_part_log [of "''kernel_1''" e ip "kernel_data parts" "kernel_size parts" s2]
        write_part_log [of "''rootfs_1''" e ip "rootfs_data parts" "rootfs_size parts" s3]
      by (auto simp: VOLUMES_def s3_def s4_def)
    ultimately show ?thesis by (metis prefix_order.trans)
  qed
  moreover have "prefix (history s1) (history s2)" using r(1,2) by simp
  ultimately have p: "prefix (history s1) (history (snd (write_volumes e ip parts bk s)))"
    "prefix (history s2) (history (snd (write_volumes e ip parts bk s)))"
    using prefix_order.trans by blast+
  show ?thesis using p(1) [unfolded k(1)] p(2) [unfolded r(1)] k(3) r(3) assms(6,7) by blast
qed


text \<open>
  When the update reports success, the kernel and the root file system of the image were each
  written to their volume by a command that succeeded.
\<close>

theorem update_success_wrote_parts:
  fixes ip :: "'d interp"
  assumes "fst (sysupgrade_write_ubi_volumes bd e ip parts bk s) = 0"
    and "kernel_data parts \<noteq> 0" and "0 < kernel_size parts" and "rootfs_data parts \<noteq> 0" and "0 < rootfs_size parts"
    and "(name, d, sz) \<in> {(''kernel'', kernel_data parts, kernel_size parts), (''rootfs'', rootfs_data parts, rootfs_size parts)}"
  shows "\<exists>t :: 'd shell. prefix (history t @ [ubi_write_cmd name (of_nat d) (of_nat sz)])
      (history (snd (sysupgrade_write_ubi_volumes bd e ip parts bk s)))
    \<and> fst (ip (dev t) (mem t) (ubi_write_cmd name (of_nat d) (of_nat sz))) = 0"
proof (rule update_log [of bd e ip parts bk s])
  assume "fst (sysupgrade_write_ubi_volumes bd e ip parts bk s) = -1"
  then show ?thesis using assms(1) by simp
next
  fix s1 assume c: "history (snd (sysupgrade_write_ubi_volumes bd e ip parts bk s))
      = history (snd (write_volumes e ip parts bk s1)) @ [''ubi create rootfs_data'']"
    "fst (sysupgrade_write_ubi_volumes bd e ip parts bk s) = fst (write_volumes e ip parts bk s1)"
  have ok: "fst (write_volumes e ip parts bk s1) = 0" using c(2) assms(1) by simp
  obtain t :: "'d shell" where "prefix (history t @ [ubi_write_cmd name (of_nat d) (of_nat sz)]) (history (snd (write_volumes e ip parts bk s1)))"
    "fst (ip (dev t) (mem t) (ubi_write_cmd name (of_nat d) (of_nat sz))) = 0"
    using write_volumes_done [OF ok assms(2-5) _ refl, of name d sz] assms(6) by blast
  then show ?thesis unfolding c(1) using prefix_prefix by blast
qed

section \<open>Examples\<close>

definition all_good :: "unit interp" where
  "all_good d m cmd = (0, m, d)"

definition roomy_ubi :: ubi_env where
  "roomy_ubi = \<lparr>ubi = (\<lambda>h. Some \<lparr>volumes = [], avail_pebs = 100, leb_size = 0x1f000, beb_rsvd_level = 0, beb_rsvd_pebs = 0\<rparr>),
     set_part = (\<lambda>h. 0)\<rparr>"

definition nand_ubi_board :: ipq_board where
  "nand_ubi_board = \<lparr>flash_of = \<lparr>current_flash_type = Some SMEM_BOOT_NAND_FLASH, spi_size = 0, has_nand = True, has_mmc = False,
       nand_chip = Some \<lparr>nand_size = 0x8000000, writesize = 0x800, oobsize = 0x40\<rparr>, which_flash_param = (\<lambda>_. 0),
       smem_part_size = (\<lambda>_. None), mmc_dev = None\<rparr>,
     smem_part_offset = (\<lambda>_. 0), smem_rootfs_offset = 0x1000000, smem_rootfs_size = 0x4000000, ipq40xx = False, emmc_build = True,
     ubi_build = True, ubi_vol_write = False, mibib_reload = False, spi_build = True, nand_dev = 0, msmparts = None,
     spi_page_size = None, smem_block_size = 0x20000, smem_density = 0x8000000, sfi_flash_type = SMEM_BOOT_NAND_FLASH\<rparr>"

definition fresh_shell :: "unit shell" where
  "fresh_shell = \<lparr>mem = (\<lambda>_. NUL), dev = (), history = [], smashed = False\<rparr>"

definition sample_parts :: fw_parts where
  "sample_parts = \<lparr>kernel_data = 0x4b000200, kernel_size = 0x300000, rootfs_data = 0x4b400000, rootfs_size = 0x500000\<rparr>"

lemmas ubi_sample = all_good_def roomy_ubi_def nand_ubi_board_def fresh_shell_def sample_parts_def

lemma ubi_example:
  "fst (sysupgrade_write_ubi_volumes nand_ubi_board roomy_ubi all_good sample_parts False fresh_shell) = 0"
  "history (snd (sysupgrade_write_ubi_volumes nand_ubi_board roomy_ubi all_good sample_parts False fresh_shell)) = history fresh_shell @
     [snprintf 256 (ubi_init_cmd nand_ubi_board), ''ubi part fs'', ''ubi remove rootfs_data'',
      ubi_remove_cmd ''kernel'', ubi_write_cmd ''kernel'' 0x4b000200 0x300000,
      ubi_remove_cmd ''rootfs'', ubi_write_cmd ''rootfs'' 0x4b400000 0x500000, ''ubi create rootfs_data'']"
  by (simp_all add: sysupgrade_write_ubi_volumes_def sysupgrade_ubi_init_def write_volumes_def write_part_def
      ubi_write_volume_def ubi_volume_can_replace_def replace_avail_def run_command_def ubi_sample Let_def)

theorem config_volume_recreated_witness:
  "last (history (snd (sysupgrade_write_ubi_volumes nand_ubi_board roomy_ubi all_good sample_parts False fresh_shell)))
     = ''ubi create rootfs_data''"
proof -
  have "last [snprintf 256 (ubi_init_cmd nand_ubi_board), ''ubi part fs'', ''ubi remove rootfs_data'',
      ubi_remove_cmd ''kernel'', ubi_write_cmd ''kernel'' 0x4b000200 0x300000,
      ubi_remove_cmd ''rootfs'', ubi_write_cmd ''rootfs'' 0x4b400000 0x500000, ''ubi create rootfs_data''] = ''ubi create rootfs_data''"
    by (rule config_volume_recreated [OF ubi_example(2)]) (simp only: list.set insert_iff simp_thms)
  then show ?thesis unfolding ubi_example(2) by (simp only: last_append) simp
qed

theorem old_volume_kept_unless_replaceable_witness:
  "\<exists>data sz. ubi_volume_can_replace (ubi roomy_ubi (take 3 (history (snd (sysupgrade_write_ubi_volumes nand_ubi_board roomy_ubi
       all_good sample_parts False fresh_shell))))) ''kernel'' (unat sz) = 0
    \<and> history (snd (sysupgrade_write_ubi_volumes nand_ubi_board roomy_ubi all_good sample_parts False fresh_shell)) ! 4
       = ubi_write_cmd ''kernel'' data sz"
  using old_volume_kept_unless_replaceable [OF ubi_example(2), of 3 "''kernel''"]
  unfolding ubi_example(2) by (simp add: fresh_shell_def numeral_3_eq_3 numeral_eq_Suc)

theorem update_success_wrote_parts_witness:
  "\<exists>t :: unit shell. prefix (history t @ [ubi_write_cmd ''rootfs'' 0x4b400000 0x500000])
      (history (snd (sysupgrade_write_ubi_volumes nand_ubi_board roomy_ubi all_good sample_parts False fresh_shell)))
    \<and> fst (all_good (dev t) (mem t) (ubi_write_cmd ''rootfs'' 0x4b400000 0x500000)) = 0"
  using update_success_wrote_parts [OF ubi_example(1), of "''rootfs''" "0x4b400000" "0x500000"]
  by (simp add: sample_parts_def)

end
