(* ===== verification/Upgrade.thy ===== *)
theory Upgrade
  imports UbiUpdate HttpdState
begin

text \<open>
  Writing an upload to flash: the upgrade handlers of \<^verbatim>\<open>net/httpd.c\<close>, from \<^verbatim>\<open>do_http_upgrade\<close>
  down to the command lines they run. The upload lies at \<open>UPLOAD_ADDR\<close> and has \<open>sz\<close> bytes.
  \<open>req\<close> holds what the upload form selected: whether to write backup partitions as well
  (\<^verbatim>\<open>webfailsafe_backup_avail_enabled\<close>) and the flash of a raw image
  (\<^verbatim>\<open>webfailsafe_img_flash\<close>). LEDs, checksums and messages on the console are left out.
\<close>

record request =
  backup_avail :: bool
  img_flash :: int

abbreviation (input) SMEM_NOR :: int where "SMEM_NOR \<equiv> 1"
abbreviation (input) IMG_FLASH_NOR :: int where "IMG_FLASH_NOR \<equiv> 1"
abbreviation (input) IMG_FLASH_NAND :: int where "IMG_FLASH_NAND \<equiv> 2"
abbreviation (input) IMG_FLASH_EMMC :: int where "IMG_FLASH_EMMC \<equiv> 3"
abbreviation (input) IMG_FLASH_NAND_RAW :: int where "IMG_FLASH_NAND_RAW \<equiv> 4"

abbreviation HLOS_NAME :: string where "HLOS_NAME \<equiv> ''hlos-0cc33b23252699d495d79a843032498bfa593aba''"
abbreviation ROOTFS_NAME :: string where "ROOTFS_NAME \<equiv> ''rootfs-f3c50b484767661151cfb641e2622703e45020fe''"
abbreviation WIFIFW_NAME :: string where "WIFIFW_NAME \<equiv> ''wififw-45b62ade000c18bfeeb23ae30e5a6811eac05e2f''"

definition flash_cmd :: "string \<Rightarrow> string" where
  "flash_cmd name = ''flash '' @ name"

definition flash_at :: "string \<Rightarrow> u32 \<Rightarrow> u64 \<Rightarrow> string" where
  "flash_at name addr n = ''flash '' @ name @ '' '' @ hex32 addr @ '' '' @ hex64 n"

definition flashread_cmd :: "string \<Rightarrow> u32 \<Rightarrow> u32 \<Rightarrow> string" where
  "flashread_cmd name addr n = ''flashread '' @ name @ '' '' @ hex32 addr @ '' '' @ hex32 n"

definition script_cmd :: "ipq_board \<Rightarrow> string" where
  "script_cmd bd = ''sf probe && source '' @ hex32 (UPLOAD_ADDR bd) @ '':script''"

section \<open>Reading back\<close>

definition verify_addr :: "ipq_board \<Rightarrow> u32" where
  "verify_addr bd = UPLOAD_ADDR bd + 0x200000"

definition verify_flashed_image :: "ipq_board \<Rightarrow> 'd interp \<Rightarrow> string \<Rightarrow> u32 \<Rightarrow> 'd shell \<Rightarrow> int \<times> 'd shell" where
  "verify_flashed_image bd ip part sz s =
     (if sz > 8 * 1024 * 1024 then (-1, s)
      else
        let (r, s) = run_command ip (snprintf 128 (flashread_cmd part (verify_addr bd) sz)) s
        in if r \<noteq> 0 then (-1, s)
           else (if memcmp (ram_bytes (mem s) (UPLOAD_ADDR bd) (unat sz)) (ram_bytes (mem s) (verify_addr bd) (unat sz)) (unat sz) \<noteq> 0
                 then -1 else 0, s))"

section \<open>Firmware\<close>

definition update_bootconfig :: "ipq_board \<Rightarrow> 'd interp \<Rightarrow> 'd shell \<Rightarrow> int \<times> 'd shell" where
  "update_bootconfig bd ip s =
     (let up = UPLOAD_ADDR bd;
          (r, s) = sprintf_run ip 256 (''mmc read '' @ hex32 up @ '' '' @ hex32 (ucast (get_bootconfig_offset_blocks bd))
                     @ '' '' @ hex32 (ucast (get_bootconfig_size_blocks bd))) s
      in if r \<noteq> 0 then (-1, s)
         else
           let (_, s) = sprintf_run ip 256 (then_cmd (''mw.b '' @ hex32 (up + 0x80) @ '' 0x00 0x1'')
                          (then_cmd (''mw.b '' @ hex32 (up + 0x94) @ '' 0x00 0x1'') (''mw.b '' @ hex32 (up + 0xA8) @ '' 0x00 0x1''))) s;
               bytes = hex32 (ucast (get_bootconfig_size bd));
               (r, s) = sprintf_run ip 256 (then_cmd (''flash 0:BOOTCONFIG '' @ hex32 up @ '' '' @ bytes)
                          (''flash 0:BOOTCONFIG1 '' @ hex32 up @ '' '' @ bytes)) s
           in (if r \<noteq> 0 then -1 else 0, s))"

text \<open>The size of the root file system partition, under any of its names.\<close>

definition rootfs_room :: "ipq_board \<Rightarrow> u64" where
  "rootfs_room bd = (if get_rootfs_size bd = 0 then get_firmware_size bd else get_rootfs_size bd)"

definition emmc_fit :: "ipq_board \<Rightarrow> request \<Rightarrow> 'd interp \<Rightarrow> u32 \<Rightarrow> 'd shell \<Rightarrow> int \<times> 'd shell" where
  "emmc_fit bd req ip sz s =
     (let up = UPLOAD_ADDR bd;
          hlos = ucast (hlos_bytes (check_fw_type_ex (mem s) up)) :: u64;
          rootfs = ucast sz - hlos
      in if get_hlos_size bd = 0 \<or> rootfs_room bd = 0 then (-1, s)
         else if hlos = 0 \<or> hlos \<ge> ucast sz then (-1, s)
         else if rootfs = 0 \<or> hlos > get_hlos_size bd \<or> rootfs > rootfs_room bd then (-1, s)
         else
           let (r, s) = sprintf_run ip 512 (then_cmd (flash_at ''0:HLOS'' up hlos) (flash_at ''rootfs'' (up + ucast hlos) rootfs)) s
           in if r \<noteq> 0 then (-1, s)
              else if backup_avail req \<and> hlos \<le> get_smem_table_size_bytes bd ''0:HLOS_1''
                   \<and> rootfs \<le> get_smem_table_size_bytes bd ''rootfs_1'' then
                (0, snd (sprintf_run ip 512 (then_cmd (flash_at ''0:HLOS_1'' up hlos) (flash_at ''rootfs_1'' (up + ucast hlos) rootfs)) s))
              else (0, s))"

definition flash_part :: "'d interp \<Rightarrow> string \<Rightarrow> nat \<Rightarrow> nat \<Rightarrow> 'd shell \<Rightarrow> int \<times> 'd shell" where
  "flash_part ip name data n s =
     (if data \<noteq> 0 \<and> 0 < n then sprintf_run ip 512 (flash_at name (of_nat data) (of_nat n)) s else (0, s))"

definition emmc_sysupgrade :: "ipq_board \<Rightarrow> request \<Rightarrow> 'd interp \<Rightarrow> fw_parts \<Rightarrow> 'd shell \<Rightarrow> int \<times> 'd shell" where
  "emmc_sysupgrade bd req ip parts s =
     (let kernel_n = of_nat (kernel_size parts) :: u64; rootfs_n = of_nat (rootfs_size parts) :: u64
      in if \<not> sysupgrade_parts_valid parts then (-1, s)
         else if get_hlos_size bd = 0 \<or> rootfs_room bd = 0 then (-1, s)
         else if kernel_n > get_hlos_size bd \<or> rootfs_room bd > 0 \<and> rootfs_n > rootfs_room bd then (-1, s)
         else if kernel_n = 0 \<and> rootfs_n = 0 then (-1, s)
         else
           let (r, s) = flash_part ip ''0:HLOS'' (kernel_data parts) (kernel_size parts) s in
           if r \<noteq> 0 then (-1, s)
           else
             let (r, s) = flash_part ip ''rootfs'' (rootfs_data parts) (rootfs_size parts) s in
             if r \<noteq> 0 then (-1, s)
             else if backup_avail req \<and> kernel_n \<le> get_smem_table_size_bytes bd ''0:HLOS_1''
                  \<and> rootfs_n \<le> get_smem_table_size_bytes bd ''rootfs_1'' then
               let (_, s) = flash_part ip ''0:HLOS_1'' (kernel_data parts) (kernel_size parts) s;
                   (_, s) = flash_part ip ''rootfs_1'' (rootfs_data parts) (rootfs_size parts) s
               in (0, s)
             else (0, s))"

definition qsdk_emmc_cmd :: "ipq_board \<Rightarrow> string" where
  "qsdk_emmc_cmd bd =
     (let up = hex32 (UPLOAD_ADDR bd)
      in ''imxtract '' @ up @ '' '' @ HLOS_NAME @ '' && flash 0:HLOS && imxtract '' @ up @ '' '' @ ROOTFS_NAME
         @ '' && flash rootfs && imxtract '' @ up @ '' '' @ WIFIFW_NAME @ '' && flash 0:WIFIFW'')"

definition uploaded_parts :: "ipq_board \<Rightarrow> u32 \<Rightarrow> 'd shell \<Rightarrow> fw_parts" where
  "uploaded_parts bd sz s =
     (case parse_sysupgrade (unat (UPLOAD_ADDR bd)) (ram_bytes (mem s) (UPLOAD_ADDR bd) (unat sz)) of
        Some parts \<Rightarrow> parts | None \<Rightarrow> no_parts)"

definition emmc_firmware :: "ipq_board \<Rightarrow> request \<Rightarrow> 'd interp \<Rightarrow> u32 \<Rightarrow> 'd shell \<Rightarrow> int \<times> 'd shell" where
  "emmc_firmware bd req ip sz s =
     (let t = check_fw_type (mem s) (UPLOAD_ADDR bd);
          (r, s) = (if t = FW_TYPE_FIT then emmc_fit bd req ip sz s
                    else if t = FW_TYPE_SYSUPGRADE then emmc_sysupgrade bd req ip (uploaded_parts bd sz s) s
                    else if t = FW_TYPE_QSDK then
                      let (r, s) = sprintf_run ip 512 (qsdk_emmc_cmd bd) s in (if r \<noteq> 0 then -1 else 0, s)
                    else (-1, s))
      in if r \<noteq> 0 then (-1, s)
         else update_bootconfig bd ip (snd (run_command ip ''flasherase rootfs_data'' s)))"

definition nor_cmd :: "ipq_board \<Rightarrow> u32 \<Rightarrow> string" where
  "nor_cmd bd sz =
     (let start = hex32 (ucast (get_smem_table_offset bd ''0:HLOS''))
      in ''sf probe && sf erase '' @ start @ '' '' @ hex32 (ucast (get_nor_firmware_combined_size bd))
         @ '' && sf write '' @ hex32 (UPLOAD_ADDR bd) @ '' '' @ start @ '' '' @ hex32 sz)"

definition nor_firmware :: "ipq_board \<Rightarrow> 'd interp \<Rightarrow> u32 \<Rightarrow> 'd shell \<Rightarrow> int \<times> 'd shell" where
  "nor_firmware bd ip sz s =
     (let t = check_fw_type (mem s) (UPLOAD_ADDR bd)
      in if t = FW_TYPE_FIT \<or> t = FW_TYPE_SYSUPGRADE then sprintf_run ip 512 (nor_cmd bd sz) s
         else if t = FW_TYPE_QSDK then sprintf_run ip 512 (script_cmd bd) s
         else (-1, s))"

definition ubi_cmd :: "request \<Rightarrow> string" where
  "ubi_cmd req =
     (if backup_avail req
      then ''flash rootfs && flash rootfs1 && flash rootfs2 && flash rootfs_1''
      else ''flash rootfs && flash rootfs1 && flash rootfs2'')"

text \<open>NAND; on SPI NOR with NAND for the root file system FIT images are refused.\<close>

definition nand_firmware :: "ipq_board \<Rightarrow> request \<Rightarrow> ubi_env \<Rightarrow> 'd interp \<Rightarrow> bool \<Rightarrow> u32 \<Rightarrow> 'd shell \<Rightarrow> int \<times> 'd shell" where
  "nand_firmware bd req e ip fit_allowed sz s =
     (let t = check_fw_type (mem s) (UPLOAD_ADDR bd)
      in if t = FW_TYPE_UBI then sprintf_run ip 512 (ubi_cmd req) s
         else if t = FW_TYPE_FIT \<and> fit_allowed then sprintf_run ip 512 (script_cmd bd) s
         else if t = FW_TYPE_SYSUPGRADE then
           let parts = uploaded_parts bd sz s
           in if \<not> sysupgrade_parts_valid parts then (-1, s)
              else if ubi_build bd then
                let (r, s) = sysupgrade_write_ubi_volumes bd e ip parts (backup_avail req) s
                in (if r \<noteq> 0 then -1 else 0, s)
              else (-1, s)
         else if t = FW_TYPE_QSDK then sprintf_run ip 512 (script_cmd bd) s
         else (-1, s))"

definition do_firmware_upgrade :: "ipq_board \<Rightarrow> request \<Rightarrow> ubi_env \<Rightarrow> 'd interp \<Rightarrow> u32 \<Rightarrow> 'd shell \<Rightarrow> int \<times> 'd shell" where
  "do_firmware_upgrade bd req e ip sz s =
     (case flash_type_of bd of
        None \<Rightarrow> (-1, s)
      | Some t \<Rightarrow>
          if emmc_build bd \<and> (t = SMEM_BOOT_MMC_FLASH \<or> t = SMEM_BOOT_NORPLUSEMMC) then emmc_firmware bd req ip sz s
          else if t = SMEM_BOOT_NAND_FLASH \<or> t = SMEM_BOOT_QSPI_NAND_FLASH \<or> t = SMEM_BOOT_NORPLUSNAND then
            nand_firmware bd req e ip True sz s
          else if t = SMEM_NOR then nor_firmware bd ip sz s
          else if t = SMEM_BOOT_SPI_FLASH then
            if which_flash_param (flash_of bd) ''rootfs'' > 0 then nand_firmware bd req e ip False sz s
            else nor_firmware bd ip sz s
          else (-1, s))"


section \<open>Boot loader, calibration data, partition tables\<close>

text \<open>The flash types that the handlers below name in their switches, apart from eMMC.\<close>

definition small_flash :: "int \<Rightarrow> bool" where
  "small_flash t \<longleftrightarrow> t \<in> {SMEM_BOOT_NAND_FLASH, SMEM_BOOT_SPI_FLASH, SMEM_NOR, SMEM_BOOT_QSPI_NAND_FLASH,
     SMEM_BOOT_NORPLUSEMMC, SMEM_BOOT_NORPLUSNAND}"

definition clear_tail_cmd :: "ipq_board \<Rightarrow> u32 \<Rightarrow> string" where
  "clear_tail_cmd bd sz = ''mw '' @ hex32 (UPLOAD_ADDR bd + sz) @ '' 0x00 0x200 && mmc dev 0''"

definition flash_verified :: "ipq_board \<Rightarrow> 'd interp \<Rightarrow> string \<Rightarrow> u32 \<Rightarrow> 'd shell \<Rightarrow> int \<times> 'd shell" where
  "flash_verified bd ip name sz s =
     (let (r, s) = sprintf_run ip 576 (flash_cmd name) s
      in if r \<noteq> 0 then (-1, s)
         else let (r, s) = verify_flashed_image bd ip name sz s in (if r \<noteq> 0 then -1 else 0, s))"

definition do_uboot_upgrade :: "ipq_board \<Rightarrow> request \<Rightarrow> 'd interp \<Rightarrow> u32 \<Rightarrow> 'd shell \<Rightarrow> int \<times> 'd shell" where
  "do_uboot_upgrade bd req ip sz s =
     (case flash_type_of bd of
        None \<Rightarrow> (-1, s)
      | Some t \<Rightarrow>
          if check_fw_type (mem s) (UPLOAD_ADDR bd) \<noteq> FW_TYPE_ELF then (-1, s)
          else if \<not> (t = SMEM_BOOT_MMC_FLASH \<or> small_flash t) then (-1, s)
          else
            let (r, s) = (if t = SMEM_BOOT_MMC_FLASH then sprintf_run ip 576 (clear_tail_cmd bd sz) s else (0, s))
            in if r \<noteq> 0 then (-1, s)
               else
                 let (r, s) = flash_verified bd ip ''0:APPSBL'' sz s
                 in if r \<noteq> 0 then (-1, s)
                    else if backup_avail req then flash_verified bd ip ''0:APPSBL_1'' sz s
                    else (0, s))"

definition do_art_upgrade :: "ipq_board \<Rightarrow> 'd interp \<Rightarrow> u32 \<Rightarrow> 'd shell \<Rightarrow> int \<times> 'd shell" where
  "do_art_upgrade bd ip sz s =
     (case flash_type_of bd of
        None \<Rightarrow> (-1, s)
      | Some t \<Rightarrow>
          if check_fw_type (mem s) (UPLOAD_ADDR bd) \<in> {FW_TYPE_CDT, FW_TYPE_ELF, FW_TYPE_GPT, FW_TYPE_MIBIB} then (-1, s)
          else if t = SMEM_BOOT_MMC_FLASH then sprintf_run ip 576 (then_cmd (clear_tail_cmd bd sz) (flash_cmd ''0:ART'')) s
          else if small_flash t then sprintf_run ip 576 (flash_cmd ''0:ART'') s
          else (-1, s))"

definition do_gpt_upgrade :: "ipq_board \<Rightarrow> request \<Rightarrow> 'd interp \<Rightarrow> u32 \<Rightarrow> 'd shell \<Rightarrow> int \<times> 'd shell" where
  "do_gpt_upgrade bd req ip sz s =
     (case flash_type_of bd of
        None \<Rightarrow> (-1, s)
      | Some t \<Rightarrow>
          if check_fw_type (mem s) (UPLOAD_ADDR bd) \<noteq> FW_TYPE_GPT then (-1, s)
          else if t = SMEM_BOOT_MMC_FLASH \<or> t = SMEM_BOOT_NORPLUSEMMC then
            let write = (\<lambda>name. ''flash '' @ name @ '' '' @ hex32 (UPLOAD_ADDR bd) @ '' '' @ hex32 sz)
            in sprintf_run ip 576 (if backup_avail req then then_cmd (write ''0:GPT'') (write ''0:GPTBACKUP'') else write ''0:GPT'') s
          else (-1, s))"

definition do_cdt_upgrade :: "ipq_board \<Rightarrow> request \<Rightarrow> 'd interp \<Rightarrow> u32 \<Rightarrow> 'd shell \<Rightarrow> int \<times> 'd shell" where
  "do_cdt_upgrade bd req ip sz s =
     (case flash_type_of bd of
        None \<Rightarrow> (-1, s)
      | Some t \<Rightarrow>
          if check_fw_type (mem s) (UPLOAD_ADDR bd) \<noteq> FW_TYPE_CDT then (-1, s)
          else
            let write = (if backup_avail req then then_cmd (flash_cmd ''0:CDT'') (flash_cmd ''0:CDT_1'') else flash_cmd ''0:CDT'')
            in if t = SMEM_BOOT_MMC_FLASH then sprintf_run ip 576 (then_cmd (clear_tail_cmd bd sz) write) s
               else if small_flash t then sprintf_run ip 576 write s
               else (-1, s))"

definition nand_writesize :: "ipq_board \<Rightarrow> u32" where
  "nand_writesize bd = (case nand_chip (flash_of bd) of Some n \<Rightarrow> writesize n | None \<Rightarrow> 0)"

definition do_mibib_reload_partition :: "ipq_board \<Rightarrow> 'd interp \<Rightarrow> int \<Rightarrow> 'd shell \<Rightarrow> int \<times> 'd shell" where
  "do_mibib_reload_partition bd ip t s =
     (let is_nand = (t = SMEM_BOOT_NAND_FLASH \<or> t = SMEM_BOOT_QSPI_NAND_FLASH);
          page_size =
            (if is_nand then if has_nand (flash_of bd) \<and> nand_dev bd \<ge> 0 then nand_writesize bd else 0
             else if t \<in> {SMEM_BOOT_SPI_FLASH, SMEM_NOR, SMEM_BOOT_NORPLUSEMMC, SMEM_BOOT_NORPLUSNAND} \<and> spi_build bd
             then (case spi_page_size bd of Some n \<Rightarrow> n | None \<Rightarrow> 0)
             else 0)
      in if page_size = 0 then (-1, s)
         else
           let (r, s) = sprintf_run ip 256 (''mibib_reload '' @ hex32 (if is_nand then 0 else 1) @ '' '' @ hex32 page_size @ '' ''
                          @ hex32 (smem_block_size bd) @ '' '' @ hex32 (smem_density bd)) s
           in (if r \<noteq> 0 then -1 else 0, s))"

text \<open>A failed write is tried once more after the partition table has been reloaded.\<close>

definition do_mibib_upgrade :: "ipq_board \<Rightarrow> 'd interp \<Rightarrow> 'd shell \<Rightarrow> int \<times> 'd shell" where
  "do_mibib_upgrade bd ip s =
     (case flash_type_of bd of
        None \<Rightarrow> (-1, s)
      | Some t \<Rightarrow>
          if check_fw_type (mem s) (UPLOAD_ADDR bd) \<noteq> FW_TYPE_MIBIB then (-1, s)
          else if \<not> small_flash t then (-1, s)
          else
            let (r, s) = sprintf_run ip 576 (flash_cmd ''0:MIBIB'') s
            in if r = 0 then (0, s)
               else if \<not> mibib_reload bd then (-1, s)
               else
                 let (r, s) = do_mibib_reload_partition bd ip t s
                 in if r \<noteq> 0 then (-1, s)
                    else let (r, s) = run_command ip (flash_cmd ''0:MIBIB'') s in (if r \<noteq> 0 then -1 else 0, s))"

definition do_ptable_upgrade :: "ipq_board \<Rightarrow> request \<Rightarrow> 'd interp \<Rightarrow> u32 \<Rightarrow> 'd shell \<Rightarrow> int \<times> 'd shell" where
  "do_ptable_upgrade bd req ip sz s =
     (let t = check_fw_type (mem s) (UPLOAD_ADDR bd)
      in if t \<noteq> FW_TYPE_GPT \<and> t \<noteq> FW_TYPE_MIBIB then (-1, s)
         else if t = FW_TYPE_GPT then do_gpt_upgrade bd req ip sz s
         else do_mibib_upgrade bd ip s)"

section \<open>Whole-device images\<close>

definition nor_image_cmd :: "ipq_board \<Rightarrow> u32 \<Rightarrow> string" where
  "nor_image_cmd bd sz =
     ''sf probe && sf erase 0x0 '' @ hex32 ((sz + 0xFFF) AND NOT 0xFFF) @ '' && sf write '' @ hex32 (UPLOAD_ADDR bd) @ '' 0x0 '' @ hex32 sz"

definition raw_total :: "nand_chip \<Rightarrow> u64" where
  "raw_total n = nand_size n div ucast (writesize n) * ucast (writesize n + oobsize n)"

definition do_nand_image :: "ipq_board \<Rightarrow> request \<Rightarrow> 'd interp \<Rightarrow> u32 \<Rightarrow> 'd shell \<Rightarrow> int \<times> 'd shell" where
  "do_nand_image bd req ip sz s =
     (let dev = ''nand device '' @ fmt_int (nand_dev bd) @ '' && nand erase.chip && '';
          plain = dev @ ''nand write '' @ hex32 (UPLOAD_ADDR bd) @ '' 0x0 '' @ hex32 sz
      in if nand_dev bd < 0 then (-1, s)
         else if \<not> has_nand (flash_of bd) then sprintf_run ip 256 plain s
         else
           (case nand_chip (flash_of bd) of
              None \<Rightarrow> (-1, s)
            | Some n \<Rightarrow>
                if nand_size n = 0 \<or> writesize n = 0 then (-1, s)
                else if img_flash req = IMG_FLASH_NAND_RAW then
                  if oobsize n = 0 \<or> raw_total n = 0 \<or> raw_total n > 0xFFFFFFFF \<or> ucast sz \<noteq> raw_total n then (-1, s)
                  else sprintf_run ip 256 (dev @ ''nand write.raw '' @ hex32 (UPLOAD_ADDR bd) @ '' 0x0 ''
                         @ fmt_hex (unat (sz div (writesize n + oobsize n)))) s
                else if ucast sz > nand_size n then (-1, s)
                else sprintf_run ip 256 plain s))"

definition do_img_upgrade :: "ipq_board \<Rightarrow> request \<Rightarrow> 'd interp \<Rightarrow> u32 \<Rightarrow> 'd shell \<Rightarrow> int \<times> 'd shell" where
  "do_img_upgrade bd req ip sz s =
     (if img_flash req = IMG_FLASH_NOR then sprintf_run ip 256 (nor_image_cmd bd sz) s
      else if img_flash req = IMG_FLASH_NAND \<or> img_flash req = IMG_FLASH_NAND_RAW then do_nand_image bd req ip sz s
      else if emmc_build bd \<and> img_flash req = IMG_FLASH_EMMC then
        let blocks = hex32 ((sz - 1) div 512 + 1)
        in sprintf_run ip 256 (''mmc dev 0 && mmc erase 0x0 '' @ blocks @ '' && mmc write '' @ hex32 (UPLOAD_ADDR bd) @ '' 0x0 '' @ blocks) s
      else do_gpt_upgrade bd req ip sz s)"

section \<open>Dispatch\<close>

definition do_initramfs_boot :: "ipq_board \<Rightarrow> 'd interp \<Rightarrow> 'd shell \<Rightarrow> int \<times> 'd shell" where
  "do_initramfs_boot bd ip s =
     (if check_fw_type (mem s) (RAM_BOOT_ADDR bd) \<noteq> FW_TYPE_FIT then (-1, s)
      else let (r, s) = sprintf_run ip 576 (''bootm '' @ hex32 (RAM_BOOT_ADDR bd)) s in (if r \<noteq> 0 then -1 else 0, s))"

text \<open>An upload has one of the eight types, so the default branch of the switch is never taken.\<close>

fun do_http_upgrade :: "ipq_board \<Rightarrow> request \<Rightarrow> ubi_env \<Rightarrow> 'd interp \<Rightarrow> u32 \<Rightarrow> upgrade_type \<Rightarrow> 'd shell \<Rightarrow> int \<times> 'd shell" where
  "do_http_upgrade bd req e ip sz FIRMWARE s = do_firmware_upgrade bd req e ip sz s"
| "do_http_upgrade bd req e ip sz UBOOT s = do_uboot_upgrade bd req ip sz s"
| "do_http_upgrade bd req e ip sz ART s = do_art_upgrade bd ip sz s"
| "do_http_upgrade bd req e ip sz IMG s = do_img_upgrade bd req ip sz s"
| "do_http_upgrade bd req e ip sz CDT s = do_cdt_upgrade bd req ip sz s"
| "do_http_upgrade bd req e ip sz MIBIB s = do_mibib_upgrade bd ip s"
| "do_http_upgrade bd req e ip sz PTABLE s = do_ptable_upgrade bd req ip sz s"
| "do_http_upgrade bd req e ip sz INITRAMFS s =
     do_initramfs_boot bd ip
       (s\<lparr>mem := ram_write (mem s) (RAM_BOOT_ADDR bd) (ram_bytes (mem s) (UPLOAD_ADDR bd) (unat sz))\<rparr>)"

end
