(* ===== verification/UpgradeProofs.thy ===== *)
theory UpgradeProofs
  imports UbiUpdateProofs SysupgradeProofs Upgrade
begin

text \<open>
  The upgrade handlers: what reaches the flash commands, the bounds of what is written, and the
  read-back check of the boot loader, for every behaviour of the command interpreter.
\<close>

section \<open>Types\<close>

fun type_ok :: "upgrade_type \<Rightarrow> firmware_type \<Rightarrow> bool" where
  "type_ok FIRMWARE t = (t \<in> {FW_TYPE_FIT, FW_TYPE_SYSUPGRADE, FW_TYPE_QSDK, FW_TYPE_UBI})"
| "type_ok UBOOT t = (t = FW_TYPE_ELF)"
| "type_ok ART t = (t \<notin> {FW_TYPE_CDT, FW_TYPE_ELF, FW_TYPE_GPT, FW_TYPE_MIBIB})"
| "type_ok CDT t = (t = FW_TYPE_CDT)"
| "type_ok MIBIB t = (t = FW_TYPE_MIBIB)"
| "type_ok PTABLE t = (t = FW_TYPE_GPT \<or> t = FW_TYPE_MIBIB)"
| "type_ok IMG t = True"
| "type_ok INITRAMFS t = True"


section \<open>Command lines fit their buffers\<close>

lemma length_fmt_int:
  assumes "- (2 ^ 31) \<le> i" and "i < 2 ^ 31"
  shows "length (fmt_int i) \<le> 11"
proof -
  have "nat \<bar>i\<bar> < 10 ^ Suc 9" using assms by simp
  from length_digits_base [OF _ this] have "length (fmt_dec (nat \<bar>i\<bar>)) \<le> 10" by (simp add: fmt_dec_def)
  then show ?thesis by (auto simp: fmt_int_def)
qed

lemma smashed_write_part [simp]: "smashed (snd (write_part e ip name d sz s)) = smashed s"
  by (simp add: write_part_def ubi_write_volume_def split_beta Let_def)

lemma smashed_write_volumes [simp]: "smashed (snd (write_volumes e ip parts bk s)) = smashed s"
  by (simp add: write_volumes_def split_beta Let_def)

lemma smashed_ubi_init [simp]: "smashed (snd (sysupgrade_ubi_init bd e ip s)) = smashed s"
  by (simp add: sysupgrade_ubi_init_def)

lemma smashed_ubi [simp]: "smashed (snd (sysupgrade_write_ubi_volumes bd e ip parts bk s)) = smashed s"
  by (simp add: sysupgrade_write_ubi_volumes_def split_beta Let_def)

lemma smashed_verify [simp]: "smashed (snd (verify_flashed_image bd ip name sz s)) = smashed s"
  by (simp add: verify_flashed_image_def split_beta Let_def)

lemma sprintf_run_fits: "length cmd < cap \<Longrightarrow> smashed (snd (sprintf_run ip cap cmd s)) = smashed s"
  by simp

lemma length_flash_at: "length (flash_at name a n) \<le> length name + 36"
  using length_hex32 [of a] length_hex64 [of n] by (simp add: flash_at_def)

lemma update_bootconfig_fits: "smashed (snd (update_bootconfig bd ip s)) = smashed s"
proof -
  define up where "up = UPLOAD_ADDR bd"
  have l: "length (hex32 a) \<le> 10" for a by (rule length_hex32)
  have "length (''mmc read '' @ hex32 a @ '' '' @ hex32 b @ '' '' @ hex32 c) < 256" for a b c
    using l [of a] l [of b] l [of c] by simp
  moreover have "length (then_cmd (''mw.b '' @ hex32 a @ '' 0x00 0x1'') (then_cmd (''mw.b '' @ hex32 b @ '' 0x00 0x1'') (''mw.b '' @ hex32 c @ '' 0x00 0x1''))) < 256"
    for a b c using l [of a] l [of b] l [of c] by simp
  moreover have "length (then_cmd (''flash 0:BOOTCONFIG '' @ hex32 a @ '' '' @ hex32 b) (''flash 0:BOOTCONFIG1 '' @ hex32 a @ '' '' @ hex32 b)) < 256"
    for a b using l [of a] l [of b] by simp
  ultimately show ?thesis by (simp only: update_bootconfig_def Let_def split_beta sprintf_run_fits snd_conv simp_thms split: if_split)
qed


lemma length_clear_tail: "length (clear_tail_cmd bd sz) \<le> 40"
  using length_hex32 [of "UPLOAD_ADDR bd + sz"] by (simp add: clear_tail_cmd_def)

lemma length_script: "length (script_cmd bd) \<le> 40"
  using length_hex32 [of "UPLOAD_ADDR bd"] by (simp add: script_cmd_def)

lemma emmc_fits:
  "smashed (snd (emmc_fit bd req ip sz s)) = smashed s"
  "smashed (snd (emmc_sysupgrade bd req ip parts s)) = smashed s"
proof -
  have "length (then_cmd (flash_at a x n) (flash_at b y k)) < 512" if "length a \<le> 10" "length b \<le> 10" for a b x y n k
    using that length_flash_at [of a x n] length_flash_at [of b y k] by simp
  then show "smashed (snd (emmc_fit bd req ip sz s)) = smashed s"
    by (simp add: emmc_fit_def Let_def split_beta sprintf_run_fits del: smashed_sprintf_run length_append)
  have f: "smashed (snd (flash_part ip a d n t)) = smashed t" if "length a \<le> 10" for a d n t
    using that length_flash_at [of a "of_nat d" "of_nat n"] by (simp add: flash_part_def)
  show "smashed (snd (emmc_sysupgrade bd req ip parts s)) = smashed s"
    by (simp add: emmc_sysupgrade_def Let_def split_beta f)
qed

lemma firmware_fits: "smashed (snd (do_firmware_upgrade bd req e ip sz s)) = smashed s"
proof -
  have "length (qsdk_emmc_cmd bd) < 512" using length_hex32 [of "UPLOAD_ADDR bd"] by (simp add: qsdk_emmc_cmd_def Let_def)
  then have em: "smashed (snd (emmc_firmware bd req ip sz s)) = smashed s"
    by (simp add: emmc_firmware_def Let_def split_beta update_bootconfig_fits emmc_fits)
  have sc: "length (script_cmd bd) < 512" using length_script [of bd] by simp
  have "length (nor_cmd bd sz) < 512"
    using length_hex32 [of "ucast (get_smem_table_offset bd ''0:HLOS'')"] length_hex32 [of "UPLOAD_ADDR bd"] length_hex32 [of sz]
      length_hex32 [of "ucast (get_nor_firmware_combined_size bd)"]
    by (simp add: nor_cmd_def Let_def)
  then have nor: "smashed (snd (nor_firmware bd ip sz s)) = smashed s" using sc by (simp add: nor_firmware_def Let_def)
  have "length (ubi_cmd req) < 512" by (simp add: ubi_cmd_def)
  then have "smashed (snd (nand_firmware bd req e ip fa sz s)) = smashed s" for fa
    using sc by (simp add: nand_firmware_def Let_def split_beta)
  then show ?thesis using em nor by (simp add: do_firmware_upgrade_def split: option.split)
qed

lemma tables_fit:
  "smashed (snd (do_uboot_upgrade bd req ip sz s)) = smashed s" "smashed (snd (do_art_upgrade bd ip sz s)) = smashed s"
  "smashed (snd (do_gpt_upgrade bd req ip sz s)) = smashed s" "smashed (snd (do_cdt_upgrade bd req ip sz s)) = smashed s"
  "smashed (snd (do_mibib_upgrade bd ip s)) = smashed s" "smashed (snd (do_initramfs_boot bd ip s)) = smashed s"
proof -
  have ct: "length (clear_tail_cmd bd sz) < 576" using length_clear_tail [of bd sz] by simp
  have fv: "smashed (snd (flash_verified bd ip name sz t)) = smashed t" if "length name < 500" for name t
    using that by (simp add: flash_verified_def split_beta Let_def flash_cmd_def)
  show "smashed (snd (do_uboot_upgrade bd req ip sz s)) = smashed s"
    using ct by (simp add: do_uboot_upgrade_def split_beta Let_def fv split: option.split)
  show "smashed (snd (do_art_upgrade bd ip sz s)) = smashed s" "smashed (snd (do_cdt_upgrade bd req ip sz s)) = smashed s"
    using length_clear_tail [of bd sz]
    by (auto simp: do_art_upgrade_def do_cdt_upgrade_def Let_def flash_cmd_def split: option.split)
  show "smashed (snd (do_gpt_upgrade bd req ip sz s)) = smashed s"
    using length_hex32 [of "UPLOAD_ADDR bd"] length_hex32 [of sz]
    by (auto simp: do_gpt_upgrade_def Let_def split: option.split)
  have "length (''mibib_reload '' @ hex32 a @ '' '' @ hex32 b @ '' '' @ hex32 c @ '' '' @ hex32 d) < 256" for a b c d
    using length_hex32 [of a] length_hex32 [of b] length_hex32 [of c] length_hex32 [of d] by simp
  then have "smashed (snd (do_mibib_reload_partition bd ip t u)) = smashed u" for t u
    by (simp add: do_mibib_reload_partition_def Let_def split_beta sprintf_run_fits del: smashed_sprintf_run length_append)
  then show "smashed (snd (do_mibib_upgrade bd ip s)) = smashed s"
    by (simp add: do_mibib_upgrade_def Let_def split_beta flash_cmd_def split: option.split)
  show "smashed (snd (do_initramfs_boot bd ip s)) = smashed s"
    using length_hex32 [of "RAM_BOOT_ADDR bd"] by (simp add: do_initramfs_boot_def split_beta Let_def)
qed


lemma image_fits:
  assumes "- (2 ^ 31) \<le> nand_dev bd" and "nand_dev bd < 2 ^ 31"
  shows "smashed (snd (do_img_upgrade bd req ip sz s)) = smashed s"
proof -
  note l = length_hex32 [of sz] length_hex32 [of "UPLOAD_ADDR bd"] length_fmt_int [OF assms]
  have hx: "length (fmt_hex (unat (w :: u32))) \<le> 8" for w
    using length_hex32 [of w] by (simp add: hex32_def fmt_0x_def)
  have raw: "length ((''nand device '' @ fmt_int (nand_dev bd) @ '' && nand erase.chip && '') @ ''nand write.raw ''
      @ hex32 (UPLOAD_ADDR bd) @ '' 0x0 '' @ fmt_hex (unat w)) < 256" for w :: u32
    using l hx [of w] by simp
  have plain: "length ((''nand device '' @ fmt_int (nand_dev bd) @ '' && nand erase.chip && '') @ ''nand write ''
      @ hex32 (UPLOAD_ADDR bd) @ '' 0x0 '' @ hex32 sz) < 256"
    using l by simp
  have "smashed (snd (do_nand_image bd req ip sz s)) = smashed s"
    unfolding do_nand_image_def Let_def
    by (simp only: sprintf_run_fits [OF raw] sprintf_run_fits [OF plain] snd_conv simp_thms split: if_split option.split)
  moreover have "length (nor_image_cmd bd sz) < 256"
    using l(1,2) length_hex32 [of "(sz + 0xFFF) AND NOT 0xFFF"] by (simp add: nor_image_cmd_def)
  ultimately show ?thesis
    using l(1,2) length_hex32 [of "(sz - 1) div 512 + 1"] tables_fit(3) [of bd req ip sz s]
    by (simp add: do_img_upgrade_def Let_def)
qed


text \<open>
  C22: Every command line that the upgrade handlers build fits the array it is built in, for all sizes,
  addresses and partition tables, so no \<^verbatim>\<open>sprintf\<close> of them writes beyond its buffer.
\<close>

theorem command_buffers_suffice:
  assumes "- (2 ^ 31) \<le> nand_dev bd" and "nand_dev bd < 2 ^ 31" and "\<not> smashed s"
  shows "\<not> smashed (snd (do_http_upgrade bd req e ip sz ty s))"
  using assms(3)
  by (cases ty) (simp_all add: do_ptable_upgrade_def Let_def firmware_fits image_fits [OF assms(1,2)] tables_fit)

theorem command_buffers_suffice_witness:
  "\<not> smashed (snd (do_http_upgrade nand_ubi_board \<lparr>backup_avail = True, img_flash = 4\<rparr> roomy_ubi all_good 0x8400000 IMG fresh_shell))"
  by (rule command_buffers_suffice) (simp_all add: nand_ubi_board_def fresh_shell_def)



section \<open>Reading back\<close>

text \<open>
  What the upgrade code relies on. \<open>contents d name n\<close> are the first \<open>n\<close> bytes of a partition, \<open>fits\<close>
  says that the file is not larger than the partition and \<open>ok\<close> is an invariant of the devices.
  \<^verbatim>\<open>flashread\<close> puts the contents at the address (an eMMC delivers whole sectors, so a little more) and
  changes no partition; \<^verbatim>\<open>flash\<close> changes no other partition, leaves RAM alone and succeeds only when
  the file fits. That it wrote the right bytes is not assumed: this is what the read-back is for.
\<close>

locale flash_shell =
  fixes ip :: "'d interp"
    and ok :: "'d \<Rightarrow> bool"
    and contents :: "'d \<Rightarrow> string \<Rightarrow> nat \<Rightarrow> string"
    and fits :: "string \<Rightarrow> bool"
    and names :: "string set"
    and up :: u32
    and sz :: u32
  assumes read_back: "ok d \<Longrightarrow> name \<in> names \<Longrightarrow> fits name \<Longrightarrow> ip d m (flashread_cmd name (up + 0x200000) sz) = (0, m', d')
      \<Longrightarrow> \<exists>c. m' = ram_write m (up + 0x200000) c \<and> unat sz \<le> length c \<and> length c \<le> unat sz + 0x1000
            \<and> take (unat sz) c = contents d name (unat sz) \<and> ok d' \<and> contents d' = contents d"
    and flash_keeps: "ok d \<Longrightarrow> name \<in> names \<Longrightarrow> ip d m (flash_cmd name) = (r, m', d')
      \<Longrightarrow> ok d' \<and> m' = m \<and> (\<forall>other \<in> names - {name}. contents d' other = contents d other) \<and> (r = 0 \<longrightarrow> fits name)"
    and clear_keeps: "ok d \<Longrightarrow> UPLOAD_ADDR bd = up \<Longrightarrow> ip d m (clear_tail_cmd bd sz) = (r, m', d')
      \<Longrightarrow> ok d' \<and> ram_bytes m' up (unat sz) = ram_bytes m up (unat sz) \<and> contents d' = contents d"

lemma memcmp_lists: "length xs = n \<Longrightarrow> length ys = n \<Longrightarrow> memcmp xs ys n = 0 \<longleftrightarrow> xs = ys"
  by (auto simp: memcmp_eq_0 at_nth list_eq_iff_nth_eq)

lemma ram_bytes_write_above:
  assumes "n \<le> d" and "length c + d < 2 ^ 32"
  shows "ram_bytes (ram_write m (a + of_nat d) c) a n = ram_bytes m a n"
proof (rule nth_equalityI)
  fix i assume "i < length (ram_bytes (ram_write m (a + of_nat d) c) a n)"
  then have i: "i < n" by simp
  have "unat (of_nat i - of_nat d :: u32) = 2 ^ 32 - (d - i)" using i assms by (intro unat_of_nat_diff_wrap) simp_all
  then have "length c \<le> unat (a + of_nat i - (a + of_nat d))" using assms i by simp
  then show "ram_bytes (ram_write m (a + of_nat d) c) a n ! i = ram_bytes m a n ! i" using i by (simp add: ram_write_miss)
qed simp

lemma verify_steps:
  assumes "unat sz \<le> 0x800000" and "length name \<le> 20"
  shows "verify_flashed_image bd ip name sz s = (let (r, s) = run_command ip (flashread_cmd name (verify_addr bd) sz) s in
    (if r = 0 \<and> ram_bytes (mem s) (UPLOAD_ADDR bd) (unat sz) = ram_bytes (mem s) (verify_addr bd) (unat sz) then 0 else -1, s))"
proof -
  have "snprintf 128 (flashread_cmd name (verify_addr bd) sz) = flashread_cmd name (verify_addr bd) sz"
    using assms(2) length_hex32 [of "verify_addr bd"] length_hex32 [of sz] by (simp add: snprintf_def flashread_cmd_def)
  moreover have "\<not> sz > 8 * 1024 * 1024" using assms(1) by (simp add: word_less_nat_alt)
  ultimately show ?thesis by (simp add: verify_flashed_image_def Let_def split_beta memcmp_lists)
qed

context flash_shell
begin

lemma flash_verified_ok:
  assumes d: "ok (dev s)" and bd: "UPLOAD_ADDR bd = up" and n: "unat sz \<le> 0x200000"
    and nm: "name \<in> names" "length name \<le> 20" and ret: "flash_verified bd ip name sz s = (0, s')"
  shows "contents (dev s') name (unat sz) = ram_bytes (mem s) up (unat sz) \<and> ok (dev s')
    \<and> ram_bytes (mem s') up (unat sz) = ram_bytes (mem s) up (unat sz)
    \<and> (\<forall>other \<in> names - {name}. contents (dev s') other = contents (dev s) other)"
proof -
  obtain r m1 d1 where f: "ip (dev s) (mem s) (flash_cmd name) = (r, m1, d1)" by (metis prod_cases3)
  define s1 where "s1 = snd (sprintf_run ip 576 (flash_cmd name) s)"
  have s1: "mem s1 = m1" "dev s1 = d1" using f by (simp_all add: s1_def sprintf_run_def run_command_def)
  have "fst (sprintf_run ip 576 (flash_cmd name) s) = r" using f by (simp add: sprintf_run_def run_command_def)
  then have v: "verify_flashed_image bd ip name sz s1 = (0, s')" and r0: "r = 0"
    using ret by (auto simp: flash_verified_def Let_def split_beta s1_def [symmetric] prod_eq_iff split: if_splits)
  note k = flash_keeps [OF d nm(1) f]
  obtain r2 m2 d2 where g: "ip d1 m1 (flashread_cmd name (verify_addr bd) sz) = (r2, m2, d2)" by (metis prod_cases3)
  have n8: "unat sz \<le> 0x800000" using n by simp
  have c2: "r2 = 0" "ram_bytes m2 up (unat sz) = ram_bytes m2 (verify_addr bd) (unat sz)" "mem s' = m2" "dev s' = d2"
    using v g by (auto simp: verify_steps [OF n8 nm(2)] run_command_def s1 bd split_beta Let_def split: if_splits)
  obtain c where c: "m2 = ram_write m1 (verify_addr bd) c" "unat sz \<le> length c" "length c \<le> unat sz + 0x1000"
    "take (unat sz) c = contents d1 name (unat sz)" "ok d2" "contents d2 = contents d1"
    using read_back [of d1 name m1 m2 d2] k r0 nm(1) g c2(1) bd by (auto simp: verify_addr_def)
  have up: "ram_bytes m2 up (unat sz) = ram_bytes m1 up (unat sz)"
    using ram_bytes_write_above [of "unat sz" "0x200000" c m1 up] n c(1,3) bd by (simp add: verify_addr_def)
  have "ram_bytes m2 (verify_addr bd) (unat sz) = take (unat sz) (ram_bytes m2 (verify_addr bd) (length c))"
    using c(2) by (simp add: ram_bytes_def take_map)
  also have "\<dots> = contents d1 name (unat sz)"
    using ram_bytes_write [of c m1 "verify_addr bd"] c n by simp
  finally show ?thesis using k up c c2 by auto
qed

text \<open>
  When a boot loader upgrade of at most 2 MB reports success, the boot loader partition holds exactly
  the uploaded image, and so does the backup partition when one was asked for.
\<close>

lemma uboot_flashed:
  assumes "ok (dev s)" and bd: "UPLOAD_ADDR bd = up" and "{''0:APPSBL'', ''0:APPSBL_1''} \<subseteq> names"
    and n: "unat sz \<le> 0x200000" and ret: "do_uboot_upgrade bd req ip sz s = (0, s')"
    and "part = ''0:APPSBL'' \<or> part = ''0:APPSBL_1'' \<and> backup_avail req"
  shows "contents (dev s') part (unat sz) = ram_bytes (mem s) up (unat sz)"
proof -
  define s0 where "s0 = (if the (flash_type_of bd) = SMEM_BOOT_MMC_FLASH then snd (sprintf_run ip 576 (clear_tail_cmd bd sz) s) else s)"
  obtain r m0 d0 where "ip (dev s) (mem s) (clear_tail_cmd bd sz) = (r, m0, d0)" by (metis prod_cases3)
  then have u0: "ram_bytes (mem s0) up (unat sz) = ram_bytes (mem s) up (unat sz)" "ok (dev s0)"
    using clear_keeps [OF assms(1) bd] assms(1) by (auto simp: s0_def sprintf_run_def run_command_def)
  obtain s1 where f1: "flash_verified bd ip ''0:APPSBL'' sz s0 = (0, s1)"
    and f2: "if backup_avail req then flash_verified bd ip ''0:APPSBL_1'' sz s1 = (0, s') else s' = s1"
    using ret by (cases "flash_verified bd ip ''0:APPSBL'' sz s0")
      (auto simp: do_uboot_upgrade_def Let_def split_beta s0_def split: option.splits if_splits)
  have names: "''0:APPSBL'' \<in> names" "''0:APPSBL_1'' \<in> names" "length ''0:APPSBL'' \<le> 20" "length ''0:APPSBL_1'' \<le> 20"
    using assms(3) by simp_all
  note a = flash_verified_ok [OF u0(2) bd n names(1,3) f1]
  show ?thesis
  proof (cases "backup_avail req")
    case True
    then have "flash_verified bd ip ''0:APPSBL_1'' sz s1 = (0, s')" using f2 by simp
    note b = flash_verified_ok [OF _ bd n names(2,4) this]
    then have "contents (dev s') ''0:APPSBL'' = contents (dev s1) ''0:APPSBL''" using a names by auto
    then show ?thesis using a b u0 assms(6) by auto
  qed (use a f2 u0 assms(6) in auto)
qed

end

text \<open>
  For an image between 2 MB and 8 MB the area that is read back overlaps the upload: the check
  fails although the partition holds the image, unless the image repeats itself every 2 MB.
\<close>

theorem large_image_fails_verification:
  assumes "0x200000 < unat sz" and "unat sz \<le> 0x800000" and "length part \<le> 20"
    and "ip (dev s) (mem s) (flashread_cmd part (verify_addr bd) sz) = (0, ram_write (mem s) (verify_addr bd) img, d')"
    and "img = ram_bytes (mem s) (UPLOAD_ADDR bd) (unat sz)"
    and "i + 0x200000 < unat sz"
    and "mem s (UPLOAD_ADDR bd + of_nat i) \<noteq> mem s (UPLOAD_ADDR bd + of_nat (i + 0x200000))"
  shows "fst (verify_flashed_image bd ip part sz s) = -1"
proof -
  define after where "after = ram_write (mem s) (verify_addr bd) img"
  have "ram_bytes after (UPLOAD_ADDR bd) (unat sz) ! (i + 0x200000) = after (verify_addr bd + of_nat i)"
    using assms(6) by (simp add: verify_addr_def add.commute add.left_commute)
  also have "\<dots> = img ! i" unfolding after_def using assms(2,5,6) by (intro ram_write_hit) simp_all
  also have "\<dots> = mem s (UPLOAD_ADDR bd + of_nat i)" using assms(5,6) by simp
  finally have "ram_bytes after (UPLOAD_ADDR bd) (unat sz) ! (i + 0x200000) \<noteq> img ! (i + 0x200000)"
    using assms(5-7) by simp
  then have "ram_bytes after (UPLOAD_ADDR bd) (unat sz) \<noteq> img" by metis
  moreover have "ram_bytes after (verify_addr bd) (unat sz) = img"
    using ram_bytes_write [of img "mem s" "verify_addr bd"] assms(2,5) by (simp add: after_def)
  ultimately show ?thesis
    using assms(4) by (simp add: verify_steps [OF assms(2,3)] run_command_def split_beta Let_def after_def)
qed


section \<open>What is written stays inside its partition\<close>

lemma unat_ucast_u64 [simp]: "unat (ucast (w :: u32) :: u64) = unat w"
  by (simp add: unsigned_ucast_eq take_bit_eq_mod) (rule mod_less, rule less_trans [OF unat_u32_less], simp)

text \<open>
  C20: On eMMC a FIT image is cut into a kernel and a root file system that together are the upload,
  each of them fits its partition, and the backup partitions are written only when they have room
  too; an image that does not fit runs no command.
\<close>

theorem fit_image_fits_partitions:
  assumes "emmc_fit bd req ip sz s = (r, s')" and "history s' = history s @ new" and "new \<noteq> []"
  shows "\<exists>h k. unat h + unat k = unat sz \<and> 0 < unat h \<and> 0 < unat k \<and> h \<le> get_hlos_size bd \<and> k \<le> rootfs_room bd
    \<and> hd new = then_cmd (flash_at ''0:HLOS'' (UPLOAD_ADDR bd) h) (flash_at ''rootfs'' (UPLOAD_ADDR bd + ucast h) k)
    \<and> (tl new = [] \<or> tl new = [then_cmd (flash_at ''0:HLOS_1'' (UPLOAD_ADDR bd) h) (flash_at ''rootfs_1'' (UPLOAD_ADDR bd + ucast h) k)]
        \<and> h \<le> get_smem_table_size_bytes bd ''0:HLOS_1'' \<and> k \<le> get_smem_table_size_bytes bd ''rootfs_1'')"
proof -
  define h :: u64 where "h = ucast (hlos_bytes (check_fw_type_ex (mem s) (UPLOAD_ADDR bd)))"
  define k :: u64 where "k = ucast sz - h"
  have c: "\<not> (h = 0 \<or> h \<ge> ucast sz)" "\<not> (k = 0 \<or> h > get_hlos_size bd \<or> k > rootfs_room bd)"
    using assms by (auto simp: emmc_fit_def Let_def h_def [symmetric] k_def [symmetric] split: if_splits)
  have hs: "unat h < unat sz" using c(1) by (simp add: word_le_nat_alt)
  then have "unat k = unat sz - unat h" unfolding k_def by (simp add: unat_sub word_le_nat_alt)
  then have s: "unat h + unat k = unat sz" "0 < unat h" "0 < unat k" using hs c(1) by (simp_all add: unat_gt_0)
  show ?thesis
    by (rule exI [of _ h], rule exI [of _ k])
      (use assms c s in \<open>auto simp: emmc_fit_def Let_def split_beta h_def [symmetric] k_def [symmetric] not_less not_le split: if_splits\<close>)
qed


definition part_cmds :: "string \<Rightarrow> nat \<Rightarrow> nat \<Rightarrow> string list" where
  "part_cmds name d n = (if d \<noteq> 0 \<and> 0 < n then [flash_at name (of_nat d) (of_nat n)] else [])"

lemma flash_part_log: "history (snd (flash_part ip name d n s)) = history s @ part_cmds name d n"
  by (simp add: flash_part_def part_cmds_def)

text \<open>The commands a sysupgrade image can lead to, and what was checked before.\<close>

lemma emmc_sysupgrade_commands:
  assumes "emmc_sysupgrade bd req ip p s = (r, s')" and "history s' = history s @ new" and "c \<in> set new"
  shows "of_nat (kernel_size p) \<le> get_hlos_size bd \<and> of_nat (rootfs_size p) \<le> rootfs_room bd
    \<and> (c \<in> set (part_cmds ''0:HLOS'' (kernel_data p) (kernel_size p)) \<union> set (part_cmds ''rootfs'' (rootfs_data p) (rootfs_size p))
      \<or> of_nat (kernel_size p) \<le> get_smem_table_size_bytes bd ''0:HLOS_1'' \<and> of_nat (rootfs_size p) \<le> get_smem_table_size_bytes bd ''rootfs_1''
        \<and> c \<in> set (part_cmds ''0:HLOS_1'' (kernel_data p) (kernel_size p)) \<union> set (part_cmds ''rootfs_1'' (rootfs_data p) (rootfs_size p)))"
proof -
  define s1 where "s1 = snd (flash_part ip ''0:HLOS'' (kernel_data p) (kernel_size p) s)"
  define s2 where "s2 = snd (flash_part ip ''rootfs'' (rootfs_data p) (rootfs_size p) s1)"
  define s3 where "s3 = snd (flash_part ip ''0:HLOS_1'' (kernel_data p) (kernel_size p) s2)"
  define s4 where "s4 = snd (flash_part ip ''rootfs_1'' (rootfs_data p) (rootfs_size p) s3)"
  define small where "small \<longleftrightarrow> of_nat (kernel_size p) \<le> get_smem_table_size_bytes bd ''0:HLOS_1''
    \<and> of_nat (rootfs_size p) \<le> get_smem_table_size_bytes bd ''rootfs_1''"
  have e: "s' = snd (emmc_sysupgrade bd req ip p s)" using assms(1) by simp
  have st: "s' = s \<or> (of_nat (kernel_size p) \<le> get_hlos_size bd \<and> of_nat (rootfs_size p) \<le> rootfs_room bd)
      \<and> (s' = s1 \<or> s' = s2 \<or> s' = s4 \<and> small)"
    unfolding e emmc_sysupgrade_def
    by (simp add: Let_def split_beta s1_def [symmetric] s2_def [symmetric] s3_def [symmetric] s4_def [symmetric] small_def not_less
        flip: word_neq_0_conv)
  have h: "history s1 = history s @ part_cmds ''0:HLOS'' (kernel_data p) (kernel_size p)"
    "history s2 = history s1 @ part_cmds ''rootfs'' (rootfs_data p) (rootfs_size p)"
    "history s3 = history s2 @ part_cmds ''0:HLOS_1'' (kernel_data p) (kernel_size p)"
    "history s4 = history s3 @ part_cmds ''rootfs_1'' (rootfs_data p) (rootfs_size p)"
    by (simp_all add: s1_def s2_def s3_def s4_def flash_part_log)
  have "s' \<noteq> s" using assms(2,3) by auto
  then show ?thesis using st h assms(2,3) unfolding small_def by auto
qed

lemma uploaded_parts_in:
  assumes "d \<noteq> 0" and "(d, n) = (kernel_data p, kernel_size p) \<or> (d, n) = (rootfs_data p, rootfs_size p)"
    and "p = uploaded_parts bd sz s"
  shows "unat (UPLOAD_ADDR bd) \<le> d \<and> d + n \<le> unat (UPLOAD_ADDR bd) + unat sz"
  using parse_in_image [of "unat (UPLOAD_ADDR bd)" "ram_bytes (mem s) (UPLOAD_ADDR bd) (unat sz)"] assms
  by (auto simp: uploaded_parts_def no_parts_def)

text \<open>
  C21: On eMMC every write of a sysupgrade image takes its bytes from inside the upload and is not larger
  than the partition it goes to.
\<close>

theorem sysupgrade_writes_fit:
  assumes "emmc_sysupgrade bd req ip (uploaded_parts bd sz s) s = (r, s')" and "history s' = history s @ new" and "c \<in> set new"
  shows "\<exists>name d n room. c = flash_at name (of_nat d) (of_nat n)
    \<and> (name, room) \<in> {(''0:HLOS'', get_hlos_size bd), (''rootfs'', rootfs_room bd),
        (''0:HLOS_1'', get_smem_table_size_bytes bd ''0:HLOS_1''), (''rootfs_1'', get_smem_table_size_bytes bd ''rootfs_1'')}
    \<and> unat (UPLOAD_ADDR bd) \<le> d \<and> d + n \<le> unat (UPLOAD_ADDR bd) + unat sz \<and> of_nat n \<le> room"
proof -
  define p where "p = uploaded_parts bd sz s"
  note w = emmc_sysupgrade_commands [OF assms, folded p_def]
  have part: ?thesis if "c \<in> set (part_cmds name d n)" "(name, room) \<in> {(''0:HLOS'', get_hlos_size bd), (''rootfs'', rootfs_room bd),
        (''0:HLOS_1'', get_smem_table_size_bytes bd ''0:HLOS_1''), (''rootfs_1'', get_smem_table_size_bytes bd ''rootfs_1'')}"
      "of_nat n \<le> room" "(d, n) = (kernel_data p, kernel_size p) \<or> (d, n) = (rootfs_data p, rootfs_size p)" for name room d n
  proof -
    have "d \<noteq> 0" "c = flash_at name (of_nat d) (of_nat n)" using that(1) by (simp_all add: part_cmds_def split: if_splits)
    then show ?thesis using that(2-4) uploaded_parts_in [OF _ that(4) p_def] by blast
  qed
  consider "c \<in> set (part_cmds ''0:HLOS'' (kernel_data p) (kernel_size p))" | "c \<in> set (part_cmds ''rootfs'' (rootfs_data p) (rootfs_size p))"
    | "c \<in> set (part_cmds ''0:HLOS_1'' (kernel_data p) (kernel_size p))" "of_nat (kernel_size p) \<le> get_smem_table_size_bytes bd ''0:HLOS_1''"
    | "c \<in> set (part_cmds ''rootfs_1'' (rootfs_data p) (rootfs_size p))" "of_nat (rootfs_size p) \<le> get_smem_table_size_bytes bd ''rootfs_1''"
    using w by blast
  then show ?thesis
  proof cases
    case 1 show ?thesis by (rule part [OF 1]) (use w in auto)
  next
    case 2 show ?thesis by (rule part [OF 2]) (use w in auto)
  next
    case 3 show ?thesis by (rule part [OF 3(1)]) (use 3(2) in auto)
  next
    case 4 show ?thesis by (rule part [OF 4(1)]) (use 4(2) in auto)
  qed
qed


text \<open>
  A whole-chip image erases the NAND only when it is of the right size: a raw image has exactly the
  size of the chip with its spare areas, any other image is not larger than the chip.
\<close>

theorem nand_image_fits_chip:
  assumes "do_img_upgrade bd req ip sz s = (r, s')" and "history s' \<noteq> history s"
    and "img_flash req = 2 \<or> img_flash req = 4" and "has_nand (flash_of bd)"
  shows "\<exists>n. nand_chip (flash_of bd) = Some n
    \<and> (if img_flash req = 4 then unat sz = unat (raw_total n) else unat sz \<le> unat (nand_size n))"
proof -
  have d: "do_nand_image bd req ip sz s = (r, s')" using assms(1,3) by (auto simp: do_img_upgrade_def)
  obtain n where n: "nand_chip (flash_of bd) = Some n"
    using d assms(2,4) by (auto simp: do_nand_image_def Let_def split: option.splits if_splits)
  have "if img_flash req = 4 then ucast sz = raw_total n else (ucast sz :: u64) \<le> nand_size n"
    using d assms(2-4) n by (auto simp: do_nand_image_def Let_def not_less split: if_splits)
  then have "if img_flash req = 4 then unat sz = unat (raw_total n) else unat sz \<le> unat (nand_size n)"
    using unat_ucast_u64 [of sz] by (metis word_le_nat_alt)
  then show ?thesis using n by blast
qed

text \<open>
  When the partition table in shared memory has no \<^verbatim>\<open>0:BOOTCONFIG\<close> (its size may still come from the
  GPT), the boot configuration is read from block 0 of the eMMC, where the partition table of the
  device is, and those bytes are then flashed to \<^verbatim>\<open>0:BOOTCONFIG\<close>.
\<close>

theorem bootconfig_read_from_block_zero:
  assumes "smem_part_size (flash_of bd) ''0:BOOTCONFIG'' = None"
  shows "\<exists>more. history (snd (update_bootconfig bd ip s)) = history s @ (''mmc read '' @ hex32 (UPLOAD_ADDR bd) @ '' 0x0 ''
    @ hex32 (ucast (get_bootconfig_size_blocks bd))) # more"
proof -
  have "hex32 (ucast (get_bootconfig_offset_blocks bd)) = ''0x0''"
    using assms by (simp add: get_bootconfig_offset_blocks_def get_smem_table_offset_def hex32_def fmt_0x_def fmt_hex_def
      digits_base.simps digit_char_def)
  then show ?thesis by (simp add: update_bootconfig_def Let_def split_beta)
qed


section \<open>Examples\<close>

definition emmc_board :: ipq_board where
  "emmc_board = nand_ubi_board\<lparr>flash_of := (flash_of nand_ubi_board)\<lparr>current_flash_type := Some SMEM_BOOT_MMC_FLASH,
     smem_part_size := (\<lambda>name. if name = ''0:BOOTCONFIG'' then None else Some 0x2000000)\<rparr>\<rparr>"

definition no_backup :: request where
  "no_backup = \<lparr>backup_avail = False, img_flash = 0\<rparr>"

lemma emmc_board_sizes: "get_hlos_size emmc_board = 0x2000000" "rootfs_room emmc_board = 0x2000000" "UPLOAD_ADDR emmc_board = 0x4b000000"
  by (simp_all add: get_hlos_size_def rootfs_room_def get_rootfs_size_def get_smem_table_size_bytes_def part_size_def
      emmc_board_def nand_ubi_board_def UPLOAD_ADDR_def)

theorem bootconfig_read_from_block_zero_witness:
  "\<exists>more. history (snd (update_bootconfig emmc_board all_good fresh_shell)) = history fresh_shell
    @ (''mmc read '' @ hex32 (UPLOAD_ADDR emmc_board) @ '' 0x0 '' @ hex32 (ucast (get_bootconfig_size_blocks emmc_board))) # more"
  by (rule bootconfig_read_from_block_zero) (simp add: emmc_board_def)

theorem nand_image_fits_chip_witness:
  "\<exists>n. nand_chip (flash_of nand_ubi_board) = Some n
    \<and> (if img_flash \<lparr>backup_avail = False, img_flash = 4\<rparr> = 4 then unat (0x8400000 :: u32) = unat (raw_total n)
       else unat (0x8400000 :: u32) \<le> unat (nand_size n))"
proof -
  define out where "out = do_img_upgrade nand_ubi_board \<lparr>backup_avail = False, img_flash = 4\<rparr> all_good 0x8400000 fresh_shell"
  have "history (snd out) \<noteq> history fresh_shell"
    by (simp add: out_def do_img_upgrade_def do_nand_image_def nand_ubi_board_def raw_total_def Let_def)
  then show ?thesis
    by (intro nand_image_fits_chip [of nand_ubi_board "\<lparr>backup_avail = False, img_flash = 4\<rparr>" all_good "0x8400000" fresh_shell "fst out" "snd out"])
      (simp_all add: out_def nand_ubi_board_def)
qed

lemma hlos_scan_blank: "hlos_scan (\<lambda>_. NUL) a = 0x1000000"
proof -
  have "find (\<lambda>kb. ram_le32 (\<lambda>_. NUL) (a + of_nat kb * 1024) = 0x73717368) xs = None" for xs
    by (induction xs) (simp_all add: ram_le32_def)
  then show ?thesis by (simp add: hlos_scan_def)
qed

lemma emmc_fit_example:
  "emmc_fit emmc_board no_backup all_good 0x1800000 fresh_shell = (0, snd (emmc_fit emmc_board no_backup all_good 0x1800000 fresh_shell))"
  "history (snd (emmc_fit emmc_board no_backup all_good 0x1800000 fresh_shell)) = history fresh_shell
    @ [then_cmd (flash_at ''0:HLOS'' 0x4b000000 0x1000000) (flash_at ''rootfs'' 0x4c000000 0x800000)]"
  using emmc_board_sizes
  by (simp_all add: emmc_fit_def check_fw_type_ex_def hlos_scan_blank fresh_shell_def no_backup_def sprintf_run_def
      run_command_def all_good_def Let_def)

theorem fit_image_fits_partitions_witness:
  "\<exists>h k. unat h + unat k = unat (0x1800000 :: u32) \<and> 0 < unat h \<and> 0 < unat k \<and> h \<le> get_hlos_size emmc_board
    \<and> k \<le> rootfs_room emmc_board
    \<and> hd (history (snd (emmc_fit emmc_board no_backup all_good 0x1800000 fresh_shell)))
       = then_cmd (flash_at ''0:HLOS'' (UPLOAD_ADDR emmc_board) h) (flash_at ''rootfs'' (UPLOAD_ADDR emmc_board + ucast h) k)"
  using fit_image_fits_partitions [OF emmc_fit_example] unfolding emmc_fit_example(2)
  by (auto simp: fresh_shell_def)


text \<open>An interpreter on which flashing succeeds and \<^verbatim>\<open>flashread\<close> delivers \<open>c\<close>.\<close>

definition reader :: "u32 \<Rightarrow> string \<Rightarrow> unit interp" where
  "reader a c d m cmd = (0, if take 9 cmd = ''flashread'' then ram_write m a c else m, d)"

definition elf_magic :: string where
  "elf_magic = [CHR 0x7F, CHR ''E'', CHR ''L'', CHR ''F'']"

lemma elf_magic_length: "length elf_magic = 4"
  by (simp add: elf_magic_def)

definition elf_shell :: "unit shell" where
  "elf_shell = fresh_shell\<lparr>mem := ram_write (\<lambda>_. NUL) 0x4b000000 elf_magic\<rparr>"

lemma elf_shell_type: "check_fw_type (mem elf_shell) 0x4b000000 = FW_TYPE_ELF"
  by (simp add: check_fw_type_def check_fw_type_ex_def elf_shell_def ram_le32_def ram_le16_def ram_write_def elf_magic_def)

lemma elf_upload: "ram_bytes (mem elf_shell) 0x4b000000 4 = elf_magic"
  using ram_bytes_write [of elf_magic "\<lambda>_. NUL" "0x4b000000"] by (simp add: elf_shell_def elf_magic_length)

definition marked_shell :: "unit shell" where
  "marked_shell = fresh_shell\<lparr>mem := (\<lambda>x. if x = 0x4b000000 then CHR ''A'' else NUL)\<rparr>"

theorem large_image_fails_verification_witness:
  "fst (verify_flashed_image nand_ubi_board (reader 0x4b200000 (ram_bytes (mem marked_shell) 0x4b000000 0x200001)) ''0:APPSBL''
     0x200001 marked_shell) = -1"
  by (rule large_image_fails_verification [where i = 0])
    (simp_all add: UPLOAD_ADDR_def verify_addr_def nand_ubi_board_def reader_def marked_shell_def flashread_cmd_def fresh_shell_def)


definition tar_image :: string where
  "tar_image = archive [sample_member ''fw/kernel'' CHR ''K'', sample_member ''fw/root'' CHR ''R''] []"

definition tar_shell :: "unit shell" where
  "tar_shell = fresh_shell\<lparr>mem := ram_write (\<lambda>_. NUL) 0x4b000000 tar_image\<rparr>"

lemma tar_names:
  "tar_is_kernel_name (take 100 (fst (sample_member ''fw/kernel'' c)))"
  "\<not> tar_is_kernel_name (take 100 (fst (sample_member ''fw/root'' c)))"
  "tar_is_rootfs_name (take 100 (fst (sample_member ''fw/root'' c)))"
  unfolding sample_member_def by code_simp+

lemma tar_upload: "uploaded_parts emmc_board 2048 tar_shell
  = \<lparr>kernel_data = 0x4b000200, kernel_size = 1, rootfs_data = 0x4b000600, rootfs_size = 1\<rparr>"
proof -
  define k r where "k = sample_member ''fw/kernel'' CHR ''K''" and "r = sample_member ''fw/root'' CHR ''R''"
  obtain hk hr where k: "k = (hk, [CHR ''K''], replicate 511 NUL)" "length hk = 512" "tar_is_kernel_name (take 100 hk)"
    and r: "r = (hr, [CHR ''R''], replicate 511 NUL)" "length hr = 512" "\<not> tar_is_kernel_name (take 100 hr)" "tar_is_rootfs_name (take 100 hr)"
    using sample_members tar_names by (auto simp: k_def r_def sample_member_def)
  have len: "length tar_image = 2048" using k(1,2) r(1,2) by (simp add: tar_image_def archive_def k_def [symmetric] r_def [symmetric])
  have "ram_bytes (mem tar_shell) (UPLOAD_ADDR emmc_board) 2048 = tar_image"
    using ram_bytes_write [of tar_image "\<lambda>_. NUL" "0x4b000000"] len by (simp add: tar_shell_def emmc_board_sizes)
  moreover have "parse_sysupgrade 0x4b000000 tar_image
      = Some (finish_parts (add_members (placed (0x4b000000 + length '''') [k, r]) no_parts, False))"
    using parse_tar [OF _ sample_members, of "0x4b000000" "[]" tar_image "[]"]
    by (simp add: tar_image_def k_def r_def tar_ended_def)
  ultimately show ?thesis
    using k r by (simp add: uploaded_parts_def emmc_board_sizes take_member_def no_parts_def finish_parts_def)
qed

lemma sysupgrade_example:
  "emmc_sysupgrade emmc_board no_backup all_good (uploaded_parts emmc_board 2048 tar_shell) tar_shell
     = (0, snd (emmc_sysupgrade emmc_board no_backup all_good (uploaded_parts emmc_board 2048 tar_shell) tar_shell))"
  "history (snd (emmc_sysupgrade emmc_board no_backup all_good (uploaded_parts emmc_board 2048 tar_shell) tar_shell))
     = history tar_shell @ [flash_at ''0:HLOS'' 0x4b000200 1, flash_at ''rootfs'' 0x4b000600 1]"
  unfolding tar_upload using emmc_board_sizes
  by (simp_all add: emmc_sysupgrade_def sysupgrade_parts_valid_def flash_part_def sprintf_run_def run_command_def all_good_def
      no_backup_def Let_def)

theorem sysupgrade_writes_fit_witness:
  "\<exists>name d n room. flash_at ''rootfs'' 0x4b000600 1 = flash_at name (of_nat d) (of_nat n)
    \<and> (name, room) \<in> {(''0:HLOS'', get_hlos_size emmc_board), (''rootfs'', rootfs_room emmc_board),
        (''0:HLOS_1'', get_smem_table_size_bytes emmc_board ''0:HLOS_1''), (''rootfs_1'', get_smem_table_size_bytes emmc_board ''rootfs_1'')}
    \<and> unat (UPLOAD_ADDR emmc_board) \<le> d \<and> d + n \<le> unat (UPLOAD_ADDR emmc_board) + unat (2048 :: u32) \<and> of_nat n \<le> room"
  by (rule sysupgrade_writes_fit [OF sysupgrade_example]) simp

end
