(* ===== verification/Recovery.thy ===== *)
theory Recovery
  imports DhcpdProofs Server
begin

text \<open>
  The \<^verbatim>\<open>httpd\<close> command of \<^verbatim>\<open>net/httpd.c\<close>: parsing the address, setting up the network, starting
  and stopping the DHCP server and the web server. The state joins the environment, the DHCP server
  and the web server; \<open>netif\<close> is the address and netmask of the interface that
  \<^verbatim>\<open>failsafe_lwip_init\<close> adds to lwIP. The answers of the network while the DHCP server waits for its
  first client (\<open>rx\<close>, as in \<^verbatim>\<open>Dhcpd\<close>) and of lwIP (\<open>tcp_ok\<close>, \<open>pcbs\<close>) are parameters.
\<close>

record recovery =
  renv :: env
  rdhcp :: dhcpd
  rweb :: httpd
  net_httpd_ip :: u32
  net_server_ip :: u32
  netif :: "(u32 \<times> u32) option"

abbreviation RECOVERY_NETMASK :: string where "RECOVERY_NETMASK \<equiv> ''255.255.255.0''"

section \<open>The address\<close>

text \<open>The loop over the four numbers: \<open>k\<close> are left; the numbers read so far, and packed.\<close>

fun parse_ipv4_loop :: "nat \<Rightarrow> string \<Rightarrow> u32 list \<Rightarrow> u32 \<Rightarrow> (u32 list \<times> u32) option" where
  "parse_ipv4_loop 0 p octets packed = Some (octets, packed)"
| "parse_ipv4_loop (Suc k) p octets packed =
     (if \<not> isdigit (deref p) then None
      else
        let (val, e) = simple_strtoul p 10
        in if val > 255 then None
           else if k \<noteq> 0 \<and> deref e \<noteq> CHR ''.'' then None
           else if k = 0 \<and> deref e \<noteq> NUL then None
           else parse_ipv4_loop k (if k \<noteq> 0 then tl e else p) (octets @ [val]) (push_bit 8 packed OR val))"

definition httpd_parse_ipv4 :: "string \<Rightarrow> (u32 list \<times> u32) option" where
  "httpd_parse_ipv4 ipaddr =
     (if deref ipaddr = NUL then None
      else
        case parse_ipv4_loop 4 ipaddr [] 0 of
          None \<Rightarrow> None
        | Some (octets, packed) \<Rightarrow>
            if packed = 0 \<or> octets ! 3 = 0 \<or> octets ! 3 = 255 then None else Some (octets, htonl packed))"

definition dotted :: "u32 list \<Rightarrow> string" where
  "dotted os = (case map (\<lambda>o'. fmt_dec (unat o')) os of
     [a, b, c, d] \<Rightarrow> a @ ''.'' @ b @ ''.'' @ c @ ''.'' @ d | _ \<Rightarrow> [])"

definition httpd_make_serverip :: "u32 list \<Rightarrow> string" where
  "httpd_make_serverip octets = dotted (take 3 octets @ [if octets ! 3 = 1 then 2 else 1])"

definition httpd_set_recovery_network :: "string \<Rightarrow> string \<Rightarrow> u32 \<Rightarrow> recovery \<Rightarrow> recovery" where
  "httpd_set_recovery_network ipaddr serverip httpd_ip s =
     s\<lparr>renv := (renv s)(''ipaddr'' := Some ipaddr, ''serverip'' := Some serverip, ''netmask'' := Some RECOVERY_NETMASK,
         ''gatewayip'' := None),
       net_httpd_ip := httpd_ip,
       rdhcp := (rdhcp s)\<lparr>net_ip := httpd_ip, net_gateway := 0, net_netmask := string_to_ip (Some RECOVERY_NETMASK)\<rparr>,
       net_server_ip := string_to_ip (Some serverip)\<rparr>"

section \<open>Start and stop\<close>

text \<open>\<open>None\<close> when the DHCP server does not return from waiting for its first client.\<close>

definition HttpdStart :: "(nat \<Rightarrow> int \<times> u8 list list) \<Rightarrow> nat \<Rightarrow> (env \<Rightarrow> env) \<Rightarrow> bool \<times> bool \<times> bool \<Rightarrow> recovery
    \<Rightarrow> recovery option" where
  "HttpdStart rx fuel env_default tcp_ok s =
     (let d = net_init (rdhcp s);
          (e, d) = dhcpd_ip_settings env_default (renv s) d
      in case dhcpd_request_nonblocking rx fuel env_default e d of
           None \<Rightarrow> None
         | Some (_, e, d) \<Rightarrow>
             Some (s\<lparr>renv := e,
                     rdhcp := d\<lparr>net_netmask := netmask (cfg d)\<rparr>,
                     netif := Some (server_ip (cfg d), netmask (cfg d)),
                     rweb := (failsafe_httpd_init tcp_ok (rweb s))\<lparr>webfailsafe_is_running := True\<rparr>\<rparr>))"

definition HttpdStop :: "nat list \<Rightarrow> recovery \<Rightarrow> recovery" where
  "HttpdStop pcbs s =
     s\<lparr>rweb := reset_webfailsafe_state (failsafe_httpd_stop pcbs (rweb s)), rdhcp := dhcpd_deinit_server (rdhcp s)\<rparr>"

datatype httpd_ret = CMD_SUCCESS | CMD_USAGE

text \<open>\<open>args\<close> are the arguments after the command name.\<close>

definition do_httpd :: "(nat \<Rightarrow> int \<times> u8 list list) \<Rightarrow> nat \<Rightarrow> (env \<Rightarrow> env) \<Rightarrow> bool \<times> bool \<times> bool \<Rightarrow> nat list \<Rightarrow> string list
    \<Rightarrow> recovery \<Rightarrow> (httpd_ret \<times> recovery) option" where
  "do_httpd rx fuel env_default tcp_ok pcbs args s =
     (let start = (\<lambda>s. map_option (Pair CMD_SUCCESS) (HttpdStart rx fuel env_default tcp_ok s))
      in if args \<noteq> [] \<and> strcmp (hd args) ''s'' = 0 then
           Some (CMD_SUCCESS, if webfailsafe_is_running (rweb s) then HttpdStop pcbs s else s)
         else if webfailsafe_is_running (rweb s) then Some (CMD_SUCCESS, s)
         else
           case args of
             ipaddr # _ \<Rightarrow>
               (case httpd_parse_ipv4 ipaddr of
                  None \<Rightarrow> Some (CMD_USAGE, s)
                | Some (octets, addr) \<Rightarrow> start (httpd_set_recovery_network ipaddr (httpd_make_serverip octets) addr s))
           | [] \<Rightarrow> start (httpd_set_recovery_network ''192.168.1.1'' ''192.168.1.2'' (string_to_ip (Some ''192.168.1.1'')) s))"

end
