(* ===== verification/RecoveryProps.thy ===== *)
theory RecoveryProps
  imports Recovery DhcpdProps HttpdProps
begin

text \<open>
  The \<^verbatim>\<open>httpd\<close> command: the address it accepts is the one the DHCP server and lwIP use, and stopping
  undoes starting.
\<close>

lemma and_255: "val \<le> 255 \<Longrightarrow> val AND 0xFF = (val :: u32)"
proof -
  assume "val \<le> 255"
  then have "unat val < 2 ^ 8" by (simp add: word_le_nat_alt)
  then have "take_bit 8 val = val" by (simp add: word_unat_eq_iff unsigned_take_bit_eq take_bit_nat_eq_self)
  then show ?thesis by (simp add: take_bit_eq_mask mask_eq_exp_minus_1)
qed

lemma parse_loops_agree:
  "parse_ipv4_loop k p os packed = Some (os', packed') \<Longrightarrow> string_to_ip_loop k packed p = packed'"
proof (induction k arbitrary: p os packed)
  case (Suc k)
  obtain val e where v: "simple_strtoul p 10 = (val, e)" by fastforce
  have c: "val \<le> 255" "k = 0 \<or> deref e = CHR ''.''"
    "parse_ipv4_loop k (if k \<noteq> 0 then tl e else p) (os @ [val]) (push_bit 8 packed OR val) = Some (os', packed')"
    using Suc.prems by (auto simp: v not_less split: if_splits)
  have "string_to_ip_loop (Suc k) packed p = string_to_ip_loop k (push_bit 8 packed OR val) (if deref e \<noteq> NUL then tl e else e)"
    by (simp add: v and_255 [OF c(1)])
  also have "\<dots> = string_to_ip_loop k (push_bit 8 packed OR val) (if k \<noteq> 0 then tl e else p)"
    using c(2) by (cases k) auto
  finally show ?case using Suc.IH [OF c(3)] by simp
qed simp

lemma accepted_address: "httpd_parse_ipv4 t = Some (os, a) \<Longrightarrow> string_to_ip (Some t) = a"
  by (auto simp: httpd_parse_ipv4_def string_to_ip_def dest: parse_loops_agree split: if_splits option.splits)

lemma nonblocking_settings:
  assumes "dhcpd_request_nonblocking rx fuel d e s0 = Some (r, e', s)"
  shows "cfg s = cfg (snd (dhcpd_ip_settings d e s0))"
proof -
  obtain e1 s1 where i: "dhcpd_init_server d e s0 = (e1, s1)" by fastforce
  from assms i obtain b n s2 x where l: "nonblocking_loop rx fuel 0 x x 0
      (s1\<lparr>dstate := DHCPD_STATE_RUNNING, ticks := Suc (ticks s1)\<rparr>) = Some (b, n, s2)" and s: "cfg s = cfg s2"
    by (auto simp: dhcpd_request_nonblocking_def get_timer_eq Let_def split: option.splits prod.splits if_splits)
  have "cfg s1 = cfg (snd (dhcpd_ip_settings d e s0))" using i by (auto simp: dhcpd_init_server_def Let_def split_beta)
  then show ?thesis using nonblocking_loop_steady [OF l] s by (simp add: steady_def)
qed

lemma settings_cfg:
  assumes "e ''ipaddr'' = Some t" and "e ''netmask'' = Some m"
  shows "fst (dhcpd_ip_settings d e s) = e" and "server_ip (cfg (snd (dhcpd_ip_settings d e s))) = string_to_ip (Some t)"
    and "netmask (cfg (snd (dhcpd_ip_settings d e s))) = string_to_ip (Some m)"
  using assms by (simp_all add: dhcpd_ip_settings_def Let_def split_beta)

text \<open>
  When \<^verbatim>\<open>httpd\<close> is started with an address it accepts, the web server runs, the DHCP server
  announces exactly that address and the netmask 255.255.255.0, and lwIP gets the same address and
  netmask; the two parsers of the address agree.
\<close>

theorem httpd_serves_given_address:
  assumes "do_httpd rx fuel env_default tcp_ok pcbs (t # rest) s = Some (ret, s')" and "\<not> webfailsafe_is_running (rweb s)"
    and "strcmp t ''s'' \<noteq> 0" and "httpd_parse_ipv4 t = Some (os, a)"
  shows "webfailsafe_is_running (rweb s') \<and> server_ip (cfg (rdhcp s')) = a
    \<and> netmask (cfg (rdhcp s')) = 0x00FFFFFF \<and> netif s' = Some (a, 0x00FFFFFF)"
proof -
  define s1 where "s1 = httpd_set_recovery_network t (httpd_make_serverip os) a s"
  have e: "renv s1 ''ipaddr'' = Some t" "renv s1 ''netmask'' = Some RECOVERY_NETMASK"
    by (simp_all add: s1_def httpd_set_recovery_network_def)
  have mask: "string_to_ip (Some RECOVERY_NETMASK) = 0x00FFFFFF" by code_simp
  have st: "HttpdStart rx fuel env_default tcp_ok s1 = Some s'"
    using assms by (auto simp: do_httpd_def s1_def Let_def)
  define d where "d = snd (dhcpd_ip_settings env_default (renv s1) (net_init (rdhcp s1)))"
  have di: "dhcpd_ip_settings env_default (renv s1) (net_init (rdhcp s1)) = (renv s1, d)"
    using settings_cfg(1) [OF e, of env_default "net_init (rdhcp s1)"] by (simp add: d_def prod_eq_iff)
  obtain r e' d' where nb: "dhcpd_request_nonblocking rx fuel env_default (renv s1) d = Some (r, e', d')"
    and s': "s' = s1\<lparr>renv := e', rdhcp := d'\<lparr>net_netmask := netmask (cfg d')\<rparr>,
       netif := Some (server_ip (cfg d'), netmask (cfg d')),
       rweb := (failsafe_httpd_init tcp_ok (rweb s1))\<lparr>webfailsafe_is_running := True\<rparr>\<rparr>"
    using st di by (auto simp: HttpdStart_def Let_def split: option.splits)
  have "server_ip (cfg d') = a" "netmask (cfg d') = 0x00FFFFFF"
    using nonblocking_settings [OF nb] settings_cfg(2,3) [OF e, of env_default d] accepted_address [OF assms(4)] mask by simp_all
  then show ?thesis using s' by simp
qed

text \<open>A number that wraps around 32 bits is accepted as the part below 2^32.\<close>

lemma wrapped_octet_accepted: "httpd_parse_ipv4 ''4294967297.0.0.1'' = Some ([1, 0, 0, 1], htonl 0x01000001)"
  by code_simp

lemma conn_abort_listening: "listening (httpd_conn_abort c s) = listening s"
proof -
  have u: "listening (upd c f t) = listening t" for f t by (simp add: upd_def split: option.split)
  have t: "listening (snd (HttpdState.get_timer n t)) = listening t" for n t by (simp add: HttpdState.get_timer_def)
  have "listening (httpd_state_reset c s) = listening s"
    by (simp add: httpd_state_reset_def led_def Let_def split_beta u t)
  then show ?thesis by (simp add: httpd_conn_abort_def pcb_end_def free_conn_def)
qed

text \<open>
  Stopping the recovery server after a start restores the UDP handler that was installed before,
  closes the listener and forgets every upload and upgrade request.
\<close>

theorem stop_undoes_start:
  assumes "HttpdStart rx fuel env_default tcp_ok s = Some s1"
  shows "udp_handler (rdhcp (HttpdStop pcbs s1)) = udp_handler (net_init (rdhcp s))
    \<and> \<not> webfailsafe_is_running (rweb (HttpdStop pcbs s1)) \<and> \<not> listening (rweb (HttpdStop pcbs s1))
    \<and> \<not> upload_pending (rweb (HttpdStop pcbs s1)) \<and> \<not> webfailsafe_ready_for_upgrade (rweb (HttpdStop pcbs s1))"
proof -
  define d where "d = snd (dhcpd_ip_settings env_default (renv s) (net_init (rdhcp s)))"
  have ud: "udp_handler d = udp_handler (net_init (rdhcp s))" by (simp add: d_def dhcpd_ip_settings_def Let_def split_beta)
  obtain e r e' d' where "dhcpd_request_nonblocking rx fuel env_default e d = Some (r, e', d')"
    and "udp_handler (rdhcp s1) = udp_handler d'" "original_udp_handler (rdhcp s1) = original_udp_handler d'"
    using assms by (auto simp: HttpdStart_def Let_def split_beta d_def split: option.splits)
  then have "original_udp_handler (rdhcp s1) = Some (udp_handler (net_init (rdhcp s)))"
    using nonblocking_handlers ud by simp
  moreover have "\<not> listening (failsafe_httpd_stop pcbs w)" for w
  proof -
    have "\<not> listening (abort_port_pcb pcbs v)" if "\<not> listening v" for v
      using that unfolding abort_port_pcb_def
      by (induction pcbs arbitrary: v) (auto simp: conn_abort_listening)
    then show ?thesis by (simp add: failsafe_httpd_stop_def Let_def)
  qed
  ultimately show ?thesis
    by (simp add: HttpdStop_def dhcpd_deinit_server_def reset_webfailsafe_state_def failsafe_httpd_stop_def Let_def)
qed


definition fresh_recovery :: recovery where
  "fresh_recovery = \<lparr>renv = Map.empty, rdhcp = coarse_server, rweb = idle\<lparr>webfailsafe_is_running := False, listening := False\<rparr>,
     net_httpd_ip = 0, net_server_ip = 0, netif = None\<rparr>"

lemma start_example:
  "\<exists>s'. do_httpd (\<lambda>k. (0, [])) 2 id (True, True, True) [] [''10.0.0.5''] fresh_recovery = Some (CMD_SUCCESS, s')"
proof -
  define s1 where "s1 = httpd_set_recovery_network ''10.0.0.5'' (httpd_make_serverip [10, 0, 0, 5]) (htonl 0x0A000005) fresh_recovery"
  define d where "d = snd (dhcpd_ip_settings id (renv s1) (net_init (rdhcp s1)))"
  have "clock d = clock coarse_server" "ticks d = ticks coarse_server"
    by (simp_all add: d_def s1_def httpd_set_recovery_network_def fresh_recovery_def dhcpd_ip_settings_def net_init_def Let_def split_beta)
  then have t: "ticks d = 0" "clock d 0 = 0" "0 < n \<Longrightarrow> clock d n = 20000" for n
    by (simp_all add: coarse_server_def idle_server_def)
  have "(10 * 1000 :: u32) \<le> 20000 - 0" by code_simp
  with t have c: "ticks d + 1 \<le> n \<Longrightarrow> 10 * 1000 \<le> clock d n - clock d (ticks d)" for n by simp
  have "\<exists>r. dhcpd_request_nonblocking (\<lambda>k. (0, [])) (1 + 1) id (renv s1) d = Some r"
    by (rule nonblocking_returns) (rule c)
  then obtain r where r: "dhcpd_request_nonblocking (\<lambda>k. (0, [])) 2 id (renv s1) d = Some r" unfolding one_add_one by blast
  have p: "httpd_parse_ipv4 ''10.0.0.5'' = Some ([10, 0, 0, 5], htonl 0x0A000005)" by code_simp
  have "dhcpd_ip_settings id (renv s1) (net_init (rdhcp s1)) = (renv s1, d)"
    by (simp add: d_def prod_eq_iff dhcpd_ip_settings_def Let_def split_beta)
  then have "\<exists>s'. HttpdStart (\<lambda>k. (0, [])) 2 id (True, True, True) s1 = Some s'"
    using r by (cases r) (simp add: HttpdStart_def)
  moreover have "strcmp ''10.0.0.5'' ''s'' \<noteq> 0" by code_simp
  ultimately show ?thesis by (auto simp: do_httpd_def p s1_def Let_def fresh_recovery_def)
qed

theorem httpd_serves_given_address_witness:
  "\<exists>s'. do_httpd (\<lambda>k. (0, [])) 2 id (True, True, True) [] [''10.0.0.5''] fresh_recovery = Some (CMD_SUCCESS, s')
    \<and> netif s' = Some (htonl 0x0A000005, 0x00FFFFFF)"
proof -
  obtain s' where r: "do_httpd (\<lambda>k. (0, [])) 2 id (True, True, True) [] [''10.0.0.5''] fresh_recovery = Some (CMD_SUCCESS, s')"
    using start_example by blast
  have "netif s' = Some (htonl 0x0A000005, 0x00FFFFFF)"
  proof (rule httpd_serves_given_address [OF r, THEN conjunct2, THEN conjunct2, THEN conjunct2])
    show "httpd_parse_ipv4 ''10.0.0.5'' = Some ([10, 0, 0, 5], htonl 0x0A000005)" by code_simp
    show "strcmp ''10.0.0.5'' ''s'' \<noteq> 0" by code_simp
  qed (simp add: fresh_recovery_def)
  with r show ?thesis by blast
qed

theorem stop_undoes_start_witness:
  "\<exists>s0 s1. HttpdStart (\<lambda>k. (0, [])) 2 id (True, True, True) s0 = Some s1
    \<and> udp_handler (rdhcp (HttpdStop [] s1)) = udp_handler (net_init (rdhcp s0))"
proof -
  obtain s0 s1 where "HttpdStart (\<lambda>k. (0, [])) 2 id (True, True, True) s0 = Some s1"
    using start_example by (auto simp: do_httpd_def Let_def fresh_recovery_def split: if_splits option.splits)
  with stop_undoes_start [OF this] show ?thesis by blast
qed

end
