(* ===== verification/Smem.thy ===== *)
theory Smem
  imports FlashInfo
begin

text \<open>
  The flash partitions of a board: the partition table in shared memory and its lookups
  (\<^verbatim>\<open>arch/arm/cpu/armv7/qca/common/smem.c\<close>), the flash type and the root file system entry
  (\<^verbatim>\<open>board/qca/arm/common/board_init.c\<close>) and the lookups in the GPT of an eMMC
  (\<^verbatim>\<open>disk/part_efi.c\<close>). A \<open>soc\<close> holds what these functions read: the table, the structure
  \<^verbatim>\<open>qca_smem_flash_info\<close>, the chips the drivers found, and the build options. All board
  configurations of the repository set \<^verbatim>\<open>CONFIG_CMD_NAND\<close>, \<^verbatim>\<open>CONFIG_QCA_MMC\<close> and
  \<^verbatim>\<open>CONFIG_LWIP_HTTPD\<close> and none sets \<^verbatim>\<open>CONFIG_SYS_64BIT_LBA\<close>, so these are fixed.
\<close>

abbreviation (input) SMEM_BOOT_NOR_FLASH :: int where "SMEM_BOOT_NOR_FLASH \<equiv> 1"

section \<open>The board\<close>

record smem_ptn =
  ptn_name :: string
  ptn_start :: u32
  ptn_size :: u32
  ptn_attr :: u32

record mtd_info =
  mtd_size :: u64
  mtd_writesize :: u32
  mtd_oobsize :: u32
  mtd_erasesize :: u32

record gpt_part =
  gpt_name :: string
  gpt_start :: u32
  gpt_sectors :: u32

text \<open>
  The eMMC: \<open>gpt_table\<close> is \<open>None\<close> when neither GPT is valid, otherwise its entries in order, \<open>None\<close>
  for one that is not in use.
\<close>

record blk_dev =
  dev_blksz :: u32
  dev_lba :: u32
  gpt_table :: "gpt_part option list option"

text \<open>
  \<open>ptable_parts\<close> are the 32 entries of \<^verbatim>\<open>smem_ptable.parts\<close>. Nothing bounds \<^verbatim>\<open>smem_ptable.len\<close>:
  \<open>beyond_parts\<close> is what lies in memory after the array, read as entries.
\<close>

record soc =
  build_ipq40xx :: bool
  build_ipq806x :: bool
  build_ubi_vol :: bool
  ptable_len :: u32
  ptable_parts :: "smem_ptn list"
  beyond_parts :: "nat \<Rightarrow> smem_ptn"
  boot_flash_type :: "int option"
  dual_boot :: "(string \<times> u32) list option"
  fl_type :: int
  fl_block_size :: u32
  fl_density :: u32
  fl_secondary :: int
  hlos_entry :: "u64 \<times> u64"
  rootfs_entry :: "u64 \<times> u64"
  spi_nand :: nat
  spi_info_idx :: nat
  spi_chip_size :: u32
  nand_infos :: "nat \<Rightarrow> mtd_info"
  mmc_blk :: "blk_dev option"

definition nand_idx :: "soc \<Rightarrow> nat" where
  "nand_idx b = (if build_ipq40xx b then spi_nand b else 0)"

abbreviation the_nand :: "soc \<Rightarrow> mtd_info" where
  "the_nand b \<equiv> nand_infos b (nand_idx b)"

abbreviation BAD_OFFSET :: u64 where "BAD_OFFSET \<equiv> 0xBAD0FF5E"

section \<open>The partition table\<close>

definition ptable :: "soc \<Rightarrow> smem_ptn list" where
  "ptable b = map (\<lambda>i. if i < 32 then ptable_parts b ! i else beyond_parts b (i - 32)) [0..<unat (ptable_len b)]"

text \<open>An entry as it lies in memory, and the text that starts at the name of the first of them.\<close>

definition le32_bytes :: "u32 \<Rightarrow> string" where
  "le32_bytes w = map (\<lambda>i. char_of (unat (drop_bit (8 * i) w) mod 256)) [0..<4]"

definition ptn_bytes :: "smem_ptn \<Rightarrow> string" where
  "ptn_bytes p = ptn_name p @ le32_bytes (ptn_start p) @ le32_bytes (ptn_size p) @ le32_bytes (ptn_attr p)"

abbreviation ptn_text :: "smem_ptn list \<Rightarrow> string" where
  "ptn_text ps \<equiv> concat (map ptn_bytes ps)"

definition part_which_flash :: "smem_ptn \<Rightarrow> u32" where
  "part_which_flash p = drop_bit 24 (ptn_attr p AND 0xff000000)"

definition get_part_block_size :: "soc \<Rightarrow> smem_ptn \<Rightarrow> u32" where
  "get_part_block_size b p =
     (if part_which_flash p = 1 then mtd_erasesize (nand_infos b (spi_nand b)) else fl_block_size b)"

definition get_device_id_by_part :: "soc \<Rightarrow> smem_ptn \<Rightarrow> nat" where
  "get_device_id_by_part b p = (if part_which_flash p = 1 then spi_nand b else spi_info_idx b)"

text \<open>The first entry with the name, compared up to 16 characters.\<close>

fun find_ptn :: "smem_ptn list \<Rightarrow> string \<Rightarrow> smem_ptn option" where
  "find_ptn [] name = None"
| "find_ptn (p # ps) name = (if strncmp (ptn_text (p # ps)) name 16 = 0 then Some p else find_ptn ps name)"

text \<open>Start and size in blocks; \<^verbatim>\<open>~0u\<close> is a partition that reaches to the end of the device.\<close>

definition smem_getpart :: "soc \<Rightarrow> string \<Rightarrow> (u32 \<times> u32) option" where
  "smem_getpart b name =
     (case find_ptn (ptable b) name of
        None \<Rightarrow> None
      | Some p \<Rightarrow>
          let bsize = get_part_block_size b p
          in Some (ptn_start p,
               if ptn_size p = - 1
               then ucast (mtd_size (nand_infos b (get_device_id_by_part b p)) div ucast bsize) - ptn_start p
               else ptn_size p))"

text \<open>Offset and size in bytes, with the block size of the flash the partition is on.\<close>

definition getpart_offset_size :: "soc \<Rightarrow> string \<Rightarrow> (u32 \<times> u32) option" where
  "getpart_offset_size b name =
     (case find_ptn (ptable b) name of
        None \<Rightarrow> None
      | Some p \<Rightarrow>
          let bsize = get_part_block_size b p
          in Some (ptn_start p * bsize,
               if ptn_size p = - 1
               then ucast (mtd_size (nand_infos b (get_device_id_by_part b p)) - ucast (ptn_start p) * ucast bsize)
               else ptn_size p * bsize))"

text \<open>The last entry with the name, compared to its end.\<close>

fun which_loop :: "smem_ptn list \<Rightarrow> string \<Rightarrow> u32 \<Rightarrow> u32" where
  "which_loop [] name v = v"
| "which_loop (p # ps) name v =
     which_loop ps name (if strcmp (ptn_text (p # ps)) name = 0 then part_which_flash p else v)"

definition get_which_flash_param :: "soc \<Rightarrow> string \<Rightarrow> u32" where
  "get_which_flash_param b name = which_loop (ptable b) name 0"

section \<open>Reading a table from RAM\<close>

definition ptn_at :: "ram \<Rightarrow> u32 \<Rightarrow> smem_ptn" where
  "ptn_at m a = \<lparr>ptn_name = ram_bytes m a 16, ptn_start = ram_le32 m (a + 16), ptn_size = ram_le32 m (a + 20),
     ptn_attr = ram_le32 m (a + 24)\<rparr>"

text \<open>\<^verbatim>\<open>mibib_ptable_init\<close>: \<open>None\<close> when the magic is wrong.\<close>

definition mibib_ptable_init :: "ram \<Rightarrow> u32 \<Rightarrow> soc \<Rightarrow> soc option" where
  "mibib_ptable_init m a b =
     (if ram_le32 m a \<noteq> 0x55ee73aa \<or> ram_le32 m (a + 4) \<noteq> 0xe35ebddb then None
      else Some (b\<lparr>ptable_len := ram_le32 m (a + 12), ptable_parts := map (\<lambda>i. ptn_at m (a + 16 + 28 * of_nat i)) [0..<32]\<rparr>))"

section \<open>Flash type and root file system\<close>

fun active_loop :: "(string \<times> u32) list \<Rightarrow> u32" where
  "active_loop [] = 0"
| "active_loop ((name, primaryboot) # es) = (if strncmp ''rootfs'' name 16 = 0 then primaryboot else active_loop es)"

text \<open>\<^verbatim>\<open>smem_bootconfig_info() == 0 ? get_rootfs_active_partition() : 0\<close>\<close>

definition get_rootfs_active_partition :: "soc \<Rightarrow> u32" where
  "get_rootfs_active_partition b = (case dual_boot b of Some es \<Rightarrow> active_loop es | None \<Rightarrow> 0)"

definition get_current_flash_type :: "soc \<Rightarrow> int option" where
  "get_current_flash_type b =
     (case (case boot_flash_type b of
              Some t \<Rightarrow> Some t
            | None \<Rightarrow> if fl_type b \<noteq> SMEM_BOOT_NO_FLASH then Some (fl_type b) else None) of
        None \<Rightarrow> None
      | Some t \<Rightarrow>
          let t = (if t = SMEM_BOOT_NO_FLASH \<and> fl_type b \<noteq> SMEM_BOOT_NO_FLASH then fl_type b else t)
          in Some (if t = SMEM_BOOT_SPI_FLASH then
               if get_which_flash_param b ''rootfs'' > 0 \<or> fl_secondary b = SMEM_BOOT_NAND_FLASH
                  \<or> fl_secondary b = SMEM_BOOT_QSPI_NAND_FLASH
               then SMEM_BOOT_NORPLUSNAND
               else if fst (rootfs_entry b) = BAD_OFFSET \<or> fl_secondary b = SMEM_BOOT_MMC_FLASH
               then SMEM_BOOT_NORPLUSEMMC
               else t
             else t))"

definition get_flash_block_size :: "soc \<Rightarrow> string \<Rightarrow> u32" where
  "get_flash_block_size b name =
     (if get_which_flash_param b name = 1 then mtd_erasesize (nand_infos b (spi_nand b)) else fl_block_size b)"

definition qca_set_part_entry :: "soc \<Rightarrow> string \<Rightarrow> u32 \<Rightarrow> u32 \<Rightarrow> u64 \<times> u64" where
  "qca_set_part_entry b name start n =
     (ucast start * ucast (get_flash_block_size b name), ucast n * ucast (get_flash_block_size b name))"

text \<open>\<^verbatim>\<open>set_flash_secondary_type\<close>, called for a partition that is missing, is the board's own: \<open>second\<close>.\<close>

definition part_entry :: "soc \<Rightarrow> string \<Rightarrow> u64 \<times> u64" where
  "part_entry b name = (case smem_getpart b name of
      None \<Rightarrow> (BAD_OFFSET, BAD_OFFSET) | Some (start, n) \<Rightarrow> qca_set_part_entry b name start n)"

definition get_kernel_fs_part_details :: "(int \<Rightarrow> int) \<Rightarrow> soc \<Rightarrow> soc" where
  "get_kernel_fs_part_details second b =
     (let b1 = b\<lparr>hlos_entry := part_entry b ''0:HLOS'',
           fl_secondary := (if smem_getpart b ''0:HLOS'' = None then second (fl_secondary b) else fl_secondary b)\<rparr>
      in b1\<lparr>rootfs_entry := part_entry b1 ''rootfs'',
           fl_secondary := (if smem_getpart b1 ''rootfs'' = None then second (fl_secondary b1) else fl_secondary b1)\<rparr>)"

section \<open>GPT\<close>

text \<open>\<^verbatim>\<open>get_partition_info_efi\<close> for entry \<open>i\<close>, counted from 1.\<close>

definition get_partition_info_efi :: "blk_dev \<Rightarrow> nat \<Rightarrow> gpt_part option" where
  "get_partition_info_efi d i =
     (case gpt_table d of
        None \<Rightarrow> None
      | Some es \<Rightarrow> if i < 1 \<or> length es < i then None else es ! (i - 1))"

text \<open>By name: the search ends at the first entry that is not in use, and before entry 128.\<close>

fun efi_name_loop :: "blk_dev \<Rightarrow> string \<Rightarrow> nat list \<Rightarrow> gpt_part option" where
  "efi_name_loop d name [] = None"
| "efi_name_loop d name (i # is) =
     (case get_partition_info_efi d i of
        None \<Rightarrow> None
      | Some p \<Rightarrow> if strcmp name (gpt_name p) = 0 then Some p else efi_name_loop d name is)"

definition get_partition_info_efi_by_name :: "blk_dev \<Rightarrow> string \<Rightarrow> gpt_part option" where
  "get_partition_info_efi_by_name d name = efi_name_loop d name [1..<128]"

definition get_partition_count_efi :: "blk_dev \<Rightarrow> nat" where
  "get_partition_count_efi d = (case gpt_table d of None \<Rightarrow> 0 | Some es \<Rightarrow> length es)"

section \<open>The answers as the web server uses them\<close>

definition flash_info_of :: "soc \<Rightarrow> flash_info" where
  "flash_info_of b =
     \<lparr>current_flash_type = get_current_flash_type b, spi_size = spi_chip_size b, has_nand = True, has_mmc = True,
      nand_chip = Some \<lparr>nand_size = mtd_size (the_nand b), writesize = mtd_writesize (the_nand b), oobsize = mtd_oobsize (the_nand b)\<rparr>,
      which_flash_param = (\<lambda>name. int (unat (get_which_flash_param b name))),
      smem_part_size = (\<lambda>name. map_option snd (getpart_offset_size b name)),
      mmc_dev = map_option (\<lambda>d. \<lparr>blksz = ucast (dev_blksz d), lba = ucast (dev_lba d),
        gpt_part_size = (\<lambda>name. map_option (\<lambda>p. ucast (gpt_sectors p)) (get_partition_info_efi_by_name d name))\<rparr>) (mmc_blk b)\<rparr>"

end
