(* ===== verification/LeFields.thy ===== *)
theory LeFields
  imports CString
begin

text \<open>
  Little-endian fields in byte buffers, as \<^verbatim>\<open>le32_to_cpu\<close>, \<^verbatim>\<open>cpu_to_le32\<close> and their 64-bit forms
  read and write them in a packed structure.
\<close>

fun le_val :: "string \<Rightarrow> 'a::len word" where
  "le_val [] = 0"
| "le_val (c # cs) = of_char c + 256 * le_val cs"

fun le_chars :: "nat \<Rightarrow> 'a::len word \<Rightarrow> string" where
  "le_chars 0 w = []"
| "le_chars (Suc n) w = char_of (unat w mod 256) # le_chars n (drop_bit 8 w)"

definition get_le :: "nat \<Rightarrow> string \<Rightarrow> nat \<Rightarrow> 'a::len word" where
  "get_le n buf off = le_val (take n (drop off buf))"

definition put_le :: "nat \<Rightarrow> string \<Rightarrow> nat \<Rightarrow> 'a::len word \<Rightarrow> string" where
  "put_le n buf off w = put buf off (le_chars n w)"

section \<open>Facts\<close>

lemma length_le_chars [simp]: "length (le_chars n w) = n"
  by (induction n w rule: le_chars.induct) simp_all

lemma unat_drop_8: "unat (drop_bit 8 w) = unat (w :: 'a::len word) div 256"
proof -
  have "unat (drop_bit 8 w) = drop_bit 8 (unat w)" by (rule unat_drop_bit_eq)
  then show ?thesis by (simp add: drop_bit_eq_div)
qed

lemma le_val_chars: "(le_val (le_chars n w) :: 'a::len word) = of_nat (unat w mod 256 ^ n)"
proof (induction n w rule: le_chars.induct)
  case (2 n w)
  have "(of_char (char_of (unat w mod 256) :: char) :: 'a word) = of_nat (unat w mod 256)"
    by (metis mod_mod_trivial of_char_of of_nat_of_char)
  then have "(le_val (le_chars (Suc n) w) :: 'a word) = of_nat (256 * (unat w div 256 mod 256 ^ n) + unat w mod 256)"
    using 2 by (simp add: unat_drop_8)
  then show ?case by (simp only: mod_mult2_eq power_Suc)
qed simp

lemma le_val_le_chars [simp]: "LENGTH('a) \<le> 8 * n \<Longrightarrow> le_val (le_chars n w) = (w :: 'a::len word)"
proof -
  assume "LENGTH('a) \<le> 8 * n"
  then have "(2 :: nat) ^ LENGTH('a) \<le> 2 ^ (8 * n)" by (intro power_increasing) simp_all
  also have "\<dots> = 256 ^ n" by (simp add: power_mult)
  finally have "unat w < 256 ^ n" using unsigned_less [of w] by (rule order_less_le_trans [rotated])
  then show ?thesis by (simp add: le_val_chars)
qed

lemma length_put_le [simp]: "off + n \<le> length buf \<Longrightarrow> length (put_le n buf off w) = length buf"
  by (simp add: put_le_def length_put)

lemma get_put_le: "LENGTH('a) \<le> 8 * n \<Longrightarrow> off + n \<le> length buf \<Longrightarrow> get_le n (put_le n buf off w) off = (w :: 'a::len word)"
  by (simp add: get_le_def put_le_def put_def)

lemma take_drop_put:
  assumes "off + length xs \<le> length buf" and "k + n \<le> off \<or> off + length xs \<le> k"
  shows "take n (drop k (put buf off xs)) = take n (drop k buf)"
proof (rule nth_equalityI)
  show "length (take n (drop k (put buf off xs))) = length (take n (drop k buf))" using assms by (simp add: length_put)
  fix i assume "i < length (take n (drop k (put buf off xs)))"
  then have "i < n" "k + i < length buf" using assms by (auto simp: length_put)
  then show "take n (drop k (put buf off xs)) ! i = take n (drop k buf) ! i"
    using assms by (auto simp: nth_put length_put)
qed

lemma get_put_le_other:
  "off + m \<le> length buf \<Longrightarrow> k + n \<le> off \<or> off + m \<le> k \<Longrightarrow> get_le n (put_le m buf off w) k = get_le n buf k"
  by (simp add: get_le_def put_le_def take_drop_put)

lemma unat_of_nat_len: "n < 2 ^ LENGTH('a) \<Longrightarrow> unat (of_nat n :: 'a::len word) = n"
  by (simp add: unat_of_nat take_bit_nat_eq_self)

lemma le_val_bound:
  assumes "8 * length cs \<le> LENGTH('a)"
  shows "unat (le_val cs :: 'a::len word) < 256 ^ length cs
    \<and> (\<forall>c. 8 * Suc (length cs) \<le> LENGTH('a) \<longrightarrow> unat (le_val (c # cs) :: 'a word) = of_char c + 256 * unat (le_val cs :: 'a word))"
  using assms
proof (induction cs)
  case Nil
  have "(of_char c :: 'a word) = of_nat (of_char c)" for c :: char by (simp only: of_nat_of_char)
  moreover have "unat (of_nat (of_char c) :: 'a word) = of_char c" if "8 \<le> LENGTH('a)" for c :: char
  proof -
    have "(256 :: nat) \<le> 2 ^ LENGTH('a)" using power_increasing [OF that, of "2 :: nat"] by simp
    then show ?thesis by (intro unat_of_nat_len order_less_le_trans [OF nat_of_char_less_256])
  qed
  ultimately show ?case by simp
next
  case (Cons a cs)
  define v where "v = (le_val (a # cs) :: 'a word)"
  have "8 * length cs \<le> LENGTH('a)" using Cons.prems by simp
  from Cons.IH [OF this] have v: "unat v = of_char a + 256 * unat (le_val cs :: 'a word)" "unat (le_val cs :: 'a word) < 256 ^ length cs"
    using Cons.prems by (auto simp: v_def simp del: le_val.simps)
  then have b: "unat v < 256 ^ Suc (length cs)"
    using nat_of_char_less_256 [of a] unfolding power_Suc by linarith
  have "unat (le_val (c # a # cs) :: 'a word) = of_char c + 256 * unat v" if "8 * Suc (length (a # cs)) \<le> LENGTH('a)" for c
  proof -
    have "(256 :: nat) ^ Suc (Suc (length cs)) = 2 ^ (8 * Suc (length (a # cs)))"
      unfolding power_mult by (simp only: list.size) simp
    also have "\<dots> \<le> 2 ^ LENGTH('a)" using that by (intro power_increasing) simp_all
    finally have "of_char c + 256 * unat v < 2 ^ LENGTH('a)" using b nat_of_char_less_256 [of c] unfolding power_Suc by linarith
    then have "unat (of_nat (of_char c + 256 * unat v) :: 'a word) = of_char c + 256 * unat v" by (rule unat_of_nat_len)
    moreover have "(of_nat (of_char c + 256 * unat v) :: 'a word) = of_char c + 256 * v" by (simp add: of_nat_of_char)
    ultimately show ?thesis unfolding le_val.simps(2) [of c] v_def by simp
  qed
  with b show ?case by (simp add: v_def del: le_val.simps)
qed

lemma le_chars_le_val: "8 * length cs \<le> LENGTH('a) \<Longrightarrow> le_chars (length cs) (le_val cs :: 'a::len word) = cs"
proof (induction cs)
  case (Cons c cs)
  have u: "unat (le_val (c # cs) :: 'a word) = of_char c + 256 * unat (le_val cs :: 'a word)"
    using le_val_bound [of cs, where 'a = 'a] Cons.prems by simp
  have "char_of (unat (le_val (c # cs) :: 'a word) mod 256) = c" unfolding u by simp
  moreover have "drop_bit 8 (le_val (c # cs) :: 'a word) = le_val cs"
    using u nat_of_char_less_256 [of c] by (intro word_unat_eq_iff [THEN iffD2]) (simp add: unat_drop_8 del: le_val.simps)
  ultimately show ?case using Cons by (simp del: le_val.simps)
qed simp

lemma le_val_inj:
  assumes "8 * n \<le> LENGTH('a)" and "length xs = n" and "length ys = n"
  shows "(le_val xs :: 'a::len word) = le_val ys \<longleftrightarrow> xs = ys"
  using assms le_chars_le_val [of xs, where 'a = 'a] le_chars_le_val [of ys, where 'a = 'a] by metis

end
