(* ===== verification/Gpt.thy ===== *)
theory Gpt
  imports LeFields
begin

text \<open>
  GUID partition tables in \<^verbatim>\<open>common/cmd_flashwrite.c\<close>: the CRC, the checks of a header and of the entry
  array, and the headers and sectors that are written. A header is the text of one sector; its
  fields are at the offsets of \<^verbatim>\<open>struct gpt_header\<close> in \<^verbatim>\<open>include/part_efi.h\<close>.
\<close>

section \<open>CRC\<close>

fun crc_bits :: "nat \<Rightarrow> u32 \<Rightarrow> u32" where
  "crc_bits 0 crc = crc"
| "crc_bits (Suc n) crc = crc_bits n (drop_bit 1 crc XOR (0xEDB88320 AND - (crc AND 1)))"

fun crc_loop :: "u32 \<Rightarrow> string \<Rightarrow> u32" where
  "crc_loop crc [] = crc"
| "crc_loop crc (c # cs) = crc_loop (crc_bits 8 (crc XOR of_char c)) cs"

definition efi_crc32 :: "string \<Rightarrow> u32" where
  "efi_crc32 buf = crc_loop 0xFFFFFFFF buf XOR 0xFFFFFFFF"

section \<open>Header\<close>

abbreviation header_size :: "string \<Rightarrow> u32" where "header_size h \<equiv> get_le 4 h 12"
abbreviation header_crc :: "string \<Rightarrow> u32" where "header_crc h \<equiv> get_le 4 h 16"
abbreviation my_lba :: "string \<Rightarrow> u64" where "my_lba h \<equiv> get_le 8 h 24"
abbreviation alternate_lba :: "string \<Rightarrow> u64" where "alternate_lba h \<equiv> get_le 8 h 32"
abbreviation last_usable_lba :: "string \<Rightarrow> u64" where "last_usable_lba h \<equiv> get_le 8 h 48"
abbreviation partition_entry_lba :: "string \<Rightarrow> u64" where "partition_entry_lba h \<equiv> get_le 8 h 72"
abbreviation num_partition_entries :: "string \<Rightarrow> u32" where "num_partition_entries h \<equiv> get_le 4 h 80"
abbreviation sizeof_partition_entry :: "string \<Rightarrow> u32" where "sizeof_partition_entry h \<equiv> get_le 4 h 84"
abbreviation entry_array_crc :: "string \<Rightarrow> u32" where "entry_array_crc h \<equiv> get_le 4 h 88"

definition gpt_fix_header_crc :: "string \<Rightarrow> string" where
  "gpt_fix_header_crc h =
     (let h = put_le 4 h 16 (0 :: u32)
      in put_le 4 h 16 (efi_crc32 (take (unat (header_size h)) h)))"

definition gpt_verify_header_crc :: "string \<Rightarrow> u32 \<Rightarrow> bool" where
  "gpt_verify_header_crc h max_size =
     (\<not> (header_size h < 92 \<or> header_size h > max_size)
      \<and> efi_crc32 (take (unat (header_size h)) (put_le 4 h 16 (0 :: u32))) = header_crc h)"

definition gpt_verify_entries_crc :: "string \<Rightarrow> string \<Rightarrow> bool" where
  "gpt_verify_entries_crc h entries = (efi_crc32 entries = entry_array_crc h)"

section \<open>The uploaded table\<close>

text \<open>
  \<open>src m a\<close> below is the upload in RAM at \<open>a\<close>, with sectors of \<open>bs\<close> bytes: a primary table (a
  protective MBR, a header and 32 sectors of entries) or a backup table (32 sectors of entries, then
  the header).
\<close>

definition is_src_primary :: "ram \<Rightarrow> u32 \<Rightarrow> bool" where
  "is_src_primary m a \<longleftrightarrow> m (a + 510) = CHR 0x55 \<and> m (a + 511) = CHR 0xAA"

definition is_dst_primary :: "string \<Rightarrow> bool" where
  "is_dst_primary name \<longleftrightarrow> strncmp name ''0:GPT'' 6 = 0"

definition src_header_addr :: "ram \<Rightarrow> u32 \<Rightarrow> u32 \<Rightarrow> u32" where
  "src_header_addr m a bs = a + (if is_src_primary m a then bs else 32 * bs)"

definition src_entries_addr :: "ram \<Rightarrow> u32 \<Rightarrow> u32 \<Rightarrow> u32" where
  "src_entries_addr m a bs = a + (if is_src_primary m a then 2 * bs else 0)"

definition src_header :: "ram \<Rightarrow> u32 \<Rightarrow> u32 \<Rightarrow> string" where
  "src_header m a bs = ram_bytes m (src_header_addr m a bs) (unat bs)"

definition entries_len :: "string \<Rightarrow> u64" where
  "entries_len h = ucast (num_partition_entries h) * ucast (sizeof_partition_entry h)"

text \<open>All the checks before anything is written.\<close>

definition gpt_upload_ok :: "ram \<Rightarrow> u32 \<Rightarrow> u32 \<Rightarrow> u32 \<Rightarrow> bool" where
  "gpt_upload_ok m a bs n =
     (let prim = is_src_primary m a; h = src_header m a bs
      in \<not> n < bs \<and> \<not> (prim \<and> n < 2 * bs)
         \<and> \<not> (ucast n :: u64) < (if prim then 34 else 33) * ucast bs
         \<and> gpt_verify_header_crc h bs
         \<and> \<not> (num_partition_entries h = 0 \<or> sizeof_partition_entry h < 128 \<or> sizeof_partition_entry h > bs
               \<or> sizeof_partition_entry h mod 128 \<noteq> 0)
         \<and> \<not> (entries_len h = 0 \<or> entries_len h > 32 * ucast bs)
         \<and> \<not> (if prim then entries_len h > ucast n - ucast (2 * bs) else entries_len h > ucast n - ucast bs)
         \<and> gpt_verify_entries_crc h (ram_bytes m (src_entries_addr m a bs) (unat (ucast (entries_len h) :: u32))))"

section \<open>Same kind: the header is adapted to the device\<close>

definition exp_my :: "bool \<Rightarrow> u64 \<Rightarrow> u64" where "exp_my prim lba = (if prim then 1 else lba - 1)"
definition exp_alt :: "bool \<Rightarrow> u64 \<Rightarrow> u64" where "exp_alt prim lba = (if prim then lba - 1 else 1)"
definition max_last :: "bool \<Rightarrow> u64 \<Rightarrow> u64" where "max_last prim lba = lba - 1 - (if prim then 33 else 34)"
definition exp_entries :: "bool \<Rightarrow> u64 \<Rightarrow> u64" where "exp_entries prim lba = (if prim then 2 else lba - 33)"

definition gpt_autofix :: "bool \<Rightarrow> u64 \<Rightarrow> string \<Rightarrow> string" where
  "gpt_autofix prim lba h =
     (if my_lba h \<noteq> exp_my prim lba \<or> alternate_lba h \<noteq> exp_alt prim lba
         \<or> last_usable_lba h > max_last prim lba \<or> partition_entry_lba h \<noteq> exp_entries prim lba then
        let last = last_usable_lba h;
            h = put_le 8 h 24 (exp_my prim lba);
            h = put_le 8 h 32 (exp_alt prim lba);
            h = put_le 8 h 72 (exp_entries prim lba);
            h = (if last > max_last prim lba then put_le 8 h 48 (max_last prim lba) else h)
        in gpt_fix_header_crc h
      else h)"

section \<open>Other kind: the table is converted\<close>

definition convert_header :: "bool \<Rightarrow> u64 \<Rightarrow> string \<Rightarrow> string" where
  "convert_header to_prim lba h =
     (let h = put_le 8 h 24 (if to_prim then 1 else lba - 1);
          h = put_le 8 h 32 (if to_prim then lba - 1 else 1);
          h = put_le 8 h 72 (if to_prim then 2 else lba - 32 - 1)
      in gpt_fix_header_crc h)"

text \<open>The protective MBR: one record of type 0xEE that covers the device.\<close>

definition protective_mbr :: "u32 \<Rightarrow> u64 \<Rightarrow> string" where
  "protective_mbr bs lba =
     (let s = replicate (unat bs) NUL;
          s = put s 450 [CHR 0xEE];
          s = put_le 4 s 454 (1 :: u32);
          s = put_le 4 s 458 (ucast (lba - 1) :: u32)
      in put s 510 [CHR 0x55, CHR 0xAA])"

definition backup_image :: "ram \<Rightarrow> u32 \<Rightarrow> u32 \<Rightarrow> u64 \<Rightarrow> string" where
  "backup_image m a bs lba =
     ram_bytes m (a + 2 * bs) (unat (32 * bs)) @ convert_header False lba (ram_bytes m (a + bs) (unat bs)) @ replicate (unat bs) NUL"

definition primary_image :: "ram \<Rightarrow> u32 \<Rightarrow> u32 \<Rightarrow> u64 \<Rightarrow> string" where
  "primary_image m a bs lba =
     protective_mbr bs lba @ convert_header True lba (ram_bytes m (a + 32 * bs) (unat bs)) @ ram_bytes m a (unat (32 * bs))"

end
