(* ===== verification/FlashWrite.thy ===== *)
theory FlashWrite
  imports Smem Shell Gpt
begin

text \<open>
  The flash commands of \<^verbatim>\<open>common/cmd_flashwrite.c\<close>: \<^verbatim>\<open>flash\<close> and \<^verbatim>\<open>flasherase\<close> (\<^verbatim>\<open>do_flash\<close>),
  \<^verbatim>\<open>flupdate\<close>, \<^verbatim>\<open>mibib_reload\<close>, \<^verbatim>\<open>xtract_n_flash\<close> and \<^verbatim>\<open>flashinit\<close>. They find the partition and
  run the commands of the flash drivers (\<^verbatim>\<open>sf\<close>, \<^verbatim>\<open>nand\<close>, \<^verbatim>\<open>mmc\<close>, \<^verbatim>\<open>ubi\<close>), which \<open>ip\<close> stands for.
  A \<open>fl_env\<close> is what else they read: environment variables, the address \<^verbatim>\<open>malloc\<close> returns for a GPT
  (\<open>None\<close> when it fails), the UBI volumes of a device, and \<open>junk\<close>, the text an array on the stack
  starts with. \<^verbatim>\<open>CONFIG_IPQ_JFFS2_CLEANMARKER\<close> is not set by any board and left out.
\<close>

abbreviation (input) CMD_RET_SUCCESS :: int where "CMD_RET_SUCCESS \<equiv> 0"
abbreviation (input) CMD_RET_FAILURE :: int where "CMD_RET_FAILURE \<equiv> 1"
abbreviation (input) CMD_RET_USAGE :: int where "CMD_RET_USAGE \<equiv> - 1"
abbreviation (input) ENOENT :: int where "ENOENT \<equiv> 2"

text \<open>A slot of the volume table of a UBI device: the name and its stored length.\<close>

record ubi_dev =
  ubi_slots :: "(string \<times> nat) option list"
  ubi_vol_count :: nat

record 'd fl_env =
  env :: "string \<Rightarrow> string option"
  gpt_buf :: "u32 option"
  ubi_of :: "'d \<Rightarrow> ubi_dev option"
  junk :: string

section \<open>Command lines\<close>

definition is_nand_type :: "int \<Rightarrow> bool" where
  "is_nand_type t \<longleftrightarrow> t = SMEM_BOOT_NAND_FLASH \<or> t = SMEM_BOOT_QSPI_NAND_FLASH"

definition nand_prefix :: "soc \<Rightarrow> string \<Rightarrow> string" where
  "nand_prefix b layout =
     ''nand device '' @ fmt_int (int (nand_idx b)) @ '' && ''
     @ (if strcmp layout ''default'' \<noteq> 0 then ''ipq_nand '' @ layout @ '' && '' else [])"

definition write_line :: "soc \<Rightarrow> int \<Rightarrow> u32 \<Rightarrow> u32 \<Rightarrow> u32 \<Rightarrow> u32 \<Rightarrow> string \<Rightarrow> string option" where
  "write_line b t address offset psize fsize layout =
     (let ops = (\<lambda>c. c @ '' erase '' @ hex32 offset @ '' '' @ hex32 psize @ '' && '' @ c @ '' write ''
                   @ hex32 address @ '' '' @ hex32 offset @ '' '' @ hex32 fsize @ '' && '')
      in if is_nand_type t then Some (nand_prefix b layout @ ops ''nand'')
         else if t = SMEM_BOOT_MMC_FLASH then Some (ops ''mmc'')
         else if t = SMEM_BOOT_SPI_FLASH then Some (''sf probe && '' @ ops ''sf'')
         else None)"

text \<open>For any other flash type the array \<^verbatim>\<open>runcmd\<close> is run as it was found on the stack.\<close>

definition write_to_flash :: "soc \<Rightarrow> 'd fl_env \<Rightarrow> 'd interp \<Rightarrow> int \<Rightarrow> u32 \<Rightarrow> u32 \<Rightarrow> u32 \<Rightarrow> u32 \<Rightarrow> string \<Rightarrow> 'd shell
    \<Rightarrow> int \<times> 'd shell" where
  "write_to_flash b e ip t address offset psize fsize layout s =
     (let (r, s) = (case write_line b t address offset psize fsize layout of
                      Some line \<Rightarrow> sprintf_run ip 256 line s | None \<Rightarrow> run_command ip (junk e) s)
      in (if r \<noteq> 0 then CMD_RET_FAILURE else CMD_RET_SUCCESS, s))"

definition erase_line :: "soc \<Rightarrow> int \<Rightarrow> u32 \<Rightarrow> u32 \<Rightarrow> string \<Rightarrow> string option" where
  "erase_line b t offset psize layout =
     (let op = (\<lambda>c. c @ '' erase '' @ hex32 offset @ '' '' @ hex32 psize @ '' '')
      in if is_nand_type t then Some (nand_prefix b layout @ op ''nand'')
         else if t = SMEM_BOOT_MMC_FLASH then Some (op ''mmc'')
         else if t = SMEM_BOOT_SPI_FLASH then Some (''sf probe && '' @ op ''sf'')
         else None)"

definition fl_erase :: "soc \<Rightarrow> 'd fl_env \<Rightarrow> 'd interp \<Rightarrow> int \<Rightarrow> u32 \<Rightarrow> u32 \<Rightarrow> string \<Rightarrow> 'd shell \<Rightarrow> int \<times> 'd shell" where
  "fl_erase b e ip t offset psize layout s =
     (let (r, s) = (case erase_line b t offset psize layout of
                      Some line \<Rightarrow> sprintf_run ip 256 line s | None \<Rightarrow> run_command ip (junk e) s)
      in (if r \<noteq> 0 then CMD_RET_FAILURE else CMD_RET_SUCCESS, s))"

section \<open>Partition tables\<close>

text \<open>1 when the table was written, -1 otherwise.\<close>

definition gpt_convert_and_write :: "soc \<Rightarrow> 'd fl_env \<Rightarrow> 'd interp \<Rightarrow> blk_dev \<Rightarrow> string \<Rightarrow> u32 \<Rightarrow> u32 \<Rightarrow> 'd shell
    \<Rightarrow> int \<times> 'd shell" where
  "gpt_convert_and_write b e ip d name a n s =
     (let bs = dev_blksz d; lba = ucast (dev_lba d) :: u64;
          prim = is_src_primary (mem s) a; dst = is_dst_primary name;
          where_to = (if dst then 0 else ucast (lba - 33)); sectors = (if dst then 34 else 33);
          write = (\<lambda>addr s. let (r, s) = write_to_flash b e ip SMEM_BOOT_MMC_FLASH addr where_to sectors sectors ''default'' s
                             in (if r = CMD_RET_SUCCESS then 1 else - 1, s))
      in if \<not> gpt_upload_ok (mem s) a bs n then (- 1, s)
         else if prim = dst then
           write a (s\<lparr>mem := ram_write (mem s) (src_header_addr (mem s) a bs)
                               (gpt_autofix prim lba (src_header (mem s) a bs))\<rparr>)
         else
           case gpt_buf e of
             None \<Rightarrow> (- 1, s)
           | Some buf \<Rightarrow>
               write buf (s\<lparr>mem := ram_write (mem s) buf
                 (if dst then primary_image (mem s) a bs lba else backup_image (mem s) a bs lba)\<rparr>))"

section \<open>UBI volumes\<close>

definition ubi_rootfs_part :: "soc \<Rightarrow> (u32 \<times> u32) option" where
  "ubi_rootfs_part b =
     (if is_nand_type (fl_type b) then
        map_option (\<lambda>(st, n). (fl_block_size b * st, fl_block_size b * n)) (smem_getpart b ''rootfs'')
      else if fl_type b = SMEM_BOOT_SPI_FLASH \<and> get_which_flash_param b ''rootfs'' > 0 then getpart_offset_size b ''rootfs''
      else Some (0, 0))"

definition ubi_part_line :: "soc \<Rightarrow> u32 \<Rightarrow> u32 \<Rightarrow> string" where
  "ubi_part_line b offset psize =
     (let i = fmt_dec (spi_nand b)
      in ''nand device '' @ i @ '' && setenv mtdids nand'' @ i @ ''=nand'' @ i @ '' && setenv mtdparts mtdparts=nand'' @ i
         @ '':'' @ hex32 psize @ ''@'' @ hex32 offset @ ''(fs),${msmparts} && ubi part fs && '')"

definition ubi_set_rootfs_part :: "soc \<Rightarrow> 'd interp \<Rightarrow> 'd shell \<Rightarrow> int \<times> 'd shell" where
  "ubi_set_rootfs_part b ip s =
     (case ubi_rootfs_part b of
        None \<Rightarrow> (- ENOENT, s)
      | Some (offset, psize) \<Rightarrow>
          if psize = 0 then (- ENOENT, s)
          else let (r, s) = run_command ip (snprintf 256 (ubi_part_line b offset psize)) s
               in (if r \<noteq> 0 then CMD_RET_FAILURE else 0, s))"

text \<open>The volumes in use, until all that the device counts have been seen.\<close>

fun ubi_vol_loop :: "string \<Rightarrow> nat \<Rightarrow> nat \<Rightarrow> (string \<times> nat) option list \<Rightarrow> bool" where
  "ubi_vol_loop name cnt j [] = False"
| "ubi_vol_loop name cnt j (None # vs) = ubi_vol_loop name cnt j vs"
| "ubi_vol_loop name cnt j (Some (vname, len) # vs) =
     (let good = (len \<le> 127 \<and> strlen vname = len); j = (if good then Suc j else j)
      in if good \<and> strncmp name vname 127 = 0 then True
         else if Suc j = cnt then False
         else ubi_vol_loop name cnt j vs)"

definition ubi_vol_present :: "soc \<Rightarrow> 'd fl_env \<Rightarrow> 'd interp \<Rightarrow> string \<Rightarrow> 'd shell \<Rightarrow> bool \<times> 'd shell" where
  "ubi_vol_present b e ip name s =
     (let (r, s) = ubi_set_rootfs_part b ip s
      in (r = 0 \<and> (case ubi_of e (dev s) of
             None \<Rightarrow> False | Some u \<Rightarrow> ubi_vol_loop name (ubi_vol_count u) 0 (ubi_slots u)), s))"

definition write_ubi_vol :: "'d interp \<Rightarrow> string \<Rightarrow> u32 \<Rightarrow> u32 \<Rightarrow> 'd shell \<Rightarrow> int \<times> 'd shell" where
  "write_ubi_vol ip name addr n s =
     run_command ip (snprintf 256
       (if strncmp name ''ubi_rootfs'' 127 = 0
        then ''ubi remove rootfs_data &&ubi remove '' @ name @ '' &&ubi create '' @ name @ '' '' @ hex32 n @ '' &&ubi write ''
             @ hex32 addr @ '' '' @ name @ '' '' @ hex32 n @ '' &&ubi create rootfs_data''
        else ''ubi write '' @ hex32 addr @ '' '' @ name @ '' '' @ hex32 n @ '' '')) s"

section \<open>Finding the partition\<close>

record target =
  t_type :: int
  t_off :: u32
  t_size :: u32
  t_file :: u32
  t_blksz :: u32
  t_blk :: "blk_dev option"
  t_layout :: string

datatype lookup = Found target | Failed int | Not_In_Table

definition plain_target :: "int \<Rightarrow> u32 \<Rightarrow> u32 \<Rightarrow> u32 \<Rightarrow> target" where
  "plain_target t off psize n =
     \<lparr>t_type = t, t_off = off, t_size = psize, t_file = n, t_blksz = 0, t_blk = None, t_layout = ''default''\<rparr>"

text \<open>On an eMMC a GPT takes as many sectors as the file has; \<open>t_blksz\<close> is set for a partition only.\<close>

definition emmc_target :: "blk_dev \<Rightarrow> string \<Rightarrow> u32 \<Rightarrow> lookup" where
  "emmc_target d name n =
     (let gpt = (\<lambda>off. Found ((plain_target SMEM_BOOT_MMC_FLASH off (n div dev_blksz d) (n div dev_blksz d))\<lparr>t_blk := Some d\<rparr>))
      in if strncmp ''0:GPT'' name 6 = 0 then gpt 0
         else if strncmp ''0:GPTBACKUP'' name 12 = 0 then gpt (dev_lba d - n div dev_blksz d)
         else case get_partition_info_efi_by_name d name of
                None \<Rightarrow> Failed CMD_RET_FAILURE
              | Some p \<Rightarrow> Found ((plain_target SMEM_BOOT_MMC_FLASH (gpt_start p) (gpt_sectors p) n)
                  \<lparr>t_blk := Some d, t_blksz := dev_blksz d\<rparr>))"

definition table_target :: "soc \<Rightarrow> int \<Rightarrow> string \<Rightarrow> u32 \<Rightarrow> string \<Rightarrow> lookup" where
  "table_target b t name n layout =
     (case smem_getpart b name of
        None \<Rightarrow> Not_In_Table
      | Some (st, k) \<Rightarrow> Found ((plain_target t (fl_block_size b * st) (fl_block_size b * k) n)\<lparr>t_layout := layout\<rparr>))"

text \<open>The root file system of a NAND that is not in the table: one of two areas of 64 MB.\<close>

definition rootfs_area :: "soc \<Rightarrow> u32 \<times> u32" where
  "rootfs_area b = (if fst (rootfs_entry b) = BAD_OFFSET then (get_rootfs_active_partition b * 0x4000000, 0x4000000) else (0, 0))"

definition nand_layout :: "soc \<Rightarrow> string \<Rightarrow> string" where
  "nand_layout b name =
     (if build_ipq806x b then
        if list_ex (\<lambda>l. strncmp l name 16 = 0) [''rootfs'', ''0:BOOTCONFIG'', ''0:BOOTCONFIG1''] then ''linux'' else ''sbl''
      else ''default'')"

text \<open>A name that the table in NOR does not know, or knows with no blocks, is looked for on the eMMC.\<close>

definition on_second_mmc :: "soc \<Rightarrow> string \<Rightarrow> bool" where
  "on_second_mmc b name \<longleftrightarrow> (fl_secondary b = SMEM_BOOT_MMC_FLASH \<or> fst (rootfs_entry b) = BAD_OFFSET)
     \<and> (smem_getpart b name = None \<or> smem_getpart b name = Some (0, 0))"

definition on_second_nand :: "soc \<Rightarrow> string \<Rightarrow> bool" where
  "on_second_nand b name \<longleftrightarrow> is_nand_type (fl_secondary b) \<and> strncmp name ''rootfs'' 6 = 0"

definition flash_lookup :: "soc \<Rightarrow> int \<Rightarrow> string \<Rightarrow> u32 \<Rightarrow> lookup" where
  "flash_lookup b t name n =
     (if is_nand_type t then table_target b t name n (nand_layout b name)
      else if t = SMEM_BOOT_MMC_FLASH \<or> t = SMEM_BOOT_NO_FLASH then
        (case mmc_blk b of Some d \<Rightarrow> emmc_target d name n | None \<Rightarrow> Found (plain_target t 0 0 n))
      else if t = SMEM_BOOT_SPI_FLASH then
        if get_which_flash_param b name > 0 then
          (case getpart_offset_size b name of
             None \<Rightarrow> Failed (- ENOENT)
           | Some (off, psize) \<Rightarrow> Found (plain_target SMEM_BOOT_NAND_FLASH off psize n))
        else if on_second_nand b name then
          Found (plain_target (fl_secondary b) (fst (rootfs_area b)) (snd (rootfs_area b)) n)
        else if on_second_mmc b name then
          (case mmc_blk b of Some d \<Rightarrow> emmc_target d name n | None \<Rightarrow> Failed CMD_RET_FAILURE)
        else table_target b t name n ''default''
      else Found (plain_target t 0 0 n))"

section \<open>flash and flasherase\<close>

text \<open>What is written: whole pages of a NAND, whole sectors of an eMMC.\<close>

definition adjusted_size :: "soc \<Rightarrow> target \<Rightarrow> u32 \<Rightarrow> u32" where
  "adjusted_size b t file_size_cpy =
     (if is_nand_type (t_type t) then
        let w = mtd_writesize (the_nand b)
        in if w \<noteq> 0 \<and> t_file t mod w \<noteq> 0 then t_file t + (w - t_file t mod w) else t_file t
      else if t_type t = SMEM_BOOT_MMC_FLASH \<and> t_blksz t \<noteq> 0 then
        t_file t div t_blksz t + (if file_size_cpy mod t_blksz t \<noteq> 0 then 1 else 0)
      else t_file t)"

definition flash_target :: "soc \<Rightarrow> 'd fl_env \<Rightarrow> 'd interp \<Rightarrow> string \<Rightarrow> target \<Rightarrow> u32 \<Rightarrow> u32 \<Rightarrow> 'd shell \<Rightarrow> int \<times> 'd shell" where
  "flash_target b e ip name t addr n s =
     (if adjusted_size b t n > t_size t then (CMD_RET_FAILURE, s)
      else if t_type t = SMEM_BOOT_MMC_FLASH \<and> t_blk t \<noteq> None
              \<and> (strncmp name ''0:GPT'' 6 = 0 \<or> strncmp name ''0:GPTBACKUP'' 12 = 0) then
        let (r, s) = gpt_convert_and_write b e ip (the (t_blk t)) name addr n s
        in (if r = 1 then CMD_RET_SUCCESS else CMD_RET_FAILURE, s)
      else write_to_flash b e ip (t_type t) addr (t_off t) (t_size t) (adjusted_size b t n) (t_layout t) s)"

text \<open>The load address and the size: arguments, or the variables of the last transfer.\<close>

definition hex_arg :: "string \<Rightarrow> u32" where
  "hex_arg s = fst (simple_strtoul s 16)"

definition flash_args :: "'d fl_env \<Rightarrow> string list \<Rightarrow> (u32 \<times> u32) option" where
  "flash_args e argv =
     (if length argv = 2 then
        case (env e ''fileaddr'', env e ''filesize'') of
          (Some a, Some n) \<Rightarrow> Some (hex_arg a, hex_arg n) | _ \<Rightarrow> None
      else if length argv = 4 then Some (hex_arg (argv ! 2), hex_arg (argv ! 3))
      else None)"

definition do_flash_at :: "soc \<Rightarrow> 'd fl_env \<Rightarrow> 'd interp \<Rightarrow> int \<Rightarrow> bool \<Rightarrow> string \<Rightarrow> u32 \<Rightarrow> u32 \<Rightarrow> 'd shell
    \<Rightarrow> int \<times> 'd shell" where
  "do_flash_at b e ip t writing name addr n s =
     (case flash_lookup b t name n of
        Failed r \<Rightarrow> (r, s)
      | Not_In_Table \<Rightarrow>
          if \<not> build_ubi_vol b then (- ENOENT, s)
          else let (yes, s) = ubi_vol_present b e ip name s
               in if yes then write_ubi_vol ip name addr n s else (- ENOENT, s)
      | Found tg \<Rightarrow>
          if writing then flash_target b e ip name tg addr n s
          else fl_erase b e ip (t_type tg) (t_off tg) (t_size tg) (t_layout tg) s)"

text \<open>
  \<^verbatim>\<open>do_flash\<close> for the words of a command line: the result, the new value of \<^verbatim>\<open>flash_type_new\<close> and the state.
\<close>

definition do_flash :: "soc \<Rightarrow> 'd fl_env \<Rightarrow> 'd interp \<Rightarrow> string list \<Rightarrow> int \<Rightarrow> 'd shell \<Rightarrow> int \<times> int \<times> 'd shell" where
  "do_flash b e ip argv ftn s =
     (let t = (if ftn \<noteq> - 1 then ftn else fl_type b);
          writing = (strcmp (argv ! 0) ''flash'' = 0);
          args = (if writing then flash_args e argv else if length argv = 2 then Some (0, 0) else None);
          (r, s) = (case args of
                      None \<Rightarrow> (CMD_RET_USAGE, s)
                    | Some (addr, n) \<Rightarrow> do_flash_at b e ip t writing (argv ! 1) addr n s)
      in (r, if r \<noteq> 0 then - 1 else ftn, s))"

section \<open>The other commands\<close>

definition do_flupdate :: "string list \<Rightarrow> int \<Rightarrow> int \<times> int" where
  "do_flupdate argv ftn =
     (if length argv < 2 \<or> length argv > 3 then (CMD_RET_USAGE, ftn)
      else if strncmp (argv ! 1) ''set'' 3 = 0 then
        if length argv \<noteq> 3 then (CMD_RET_USAGE, ftn)
        else if strncmp (argv ! 2) ''mmc'' 3 = 0 then (CMD_RET_SUCCESS, SMEM_BOOT_MMC_FLASH)
        else if strncmp (argv ! 2) ''nor'' 3 = 0 then (CMD_RET_SUCCESS, SMEM_BOOT_SPI_FLASH)
        else if strncmp (argv ! 2) ''nand'' 4 = 0 then (CMD_RET_SUCCESS, SMEM_BOOT_QSPI_NAND_FLASH)
        else (CMD_RET_USAGE, - 1)
      else if strncmp (argv ! 1) ''clear'' 5 = 0 then (CMD_RET_SUCCESS, - 1)
      else (CMD_RET_USAGE, ftn))"

text \<open>
  \<^verbatim>\<open>getenv_ulong(name, 16, 0)\<close>, and \<^verbatim>\<open>mibib_reload\<close>, which takes the table of an uploaded image. \<open>qspi\<close> is
  \<^verbatim>\<open>CONFIG_QPIC_SERIAL\<close>. The block size and the density are set before anything is checked.
\<close>

definition env_hex :: "'d fl_env \<Rightarrow> string \<Rightarrow> u32" where
  "env_hex e name = (case env e name of Some v \<Rightarrow> hex_arg v | None \<Rightarrow> 0)"

definition do_mibib_reload :: "bool \<Rightarrow> (int \<Rightarrow> int) \<Rightarrow> 'd fl_env \<Rightarrow> ram \<Rightarrow> string list \<Rightarrow> soc \<Rightarrow> int \<times> soc" where
  "do_mibib_reload qspi second e m argv b =
     (if length argv \<noteq> 5 then (CMD_RET_USAGE, b)
      else
        let t = ucast (hex_arg (argv ! 1)) :: u8; page_size = hex_arg (argv ! 2);
            b = b\<lparr>fl_block_size := hex_arg (argv ! 3), fl_density := hex_arg (argv ! 4)\<rparr>;
            a = env_hex e ''fileaddr''; n = env_hex e ''filesize''
        in if t > 1 then (CMD_RET_FAILURE, b)
           else if n < 2 * page_size then (CMD_RET_FAILURE, b)
           else
             let b = b\<lparr>fl_type := (if t = 0 then if qspi then SMEM_BOOT_QSPI_NAND_FLASH else SMEM_BOOT_NAND_FLASH
                                    else SMEM_BOOT_SPI_FLASH)\<rparr>
             in if \<not> (ram_le32 m a = 0xFE569FAC \<and> ram_le32 m (a + 4) = 0xCD7F127A \<and> ram_le32 m (a + 8) = 4)
                then (CMD_RET_FAILURE, b)
                else case mibib_ptable_init m (a + page_size) b of
                       None \<Rightarrow> (CMD_RET_FAILURE, b)
                     | Some b \<Rightarrow> (CMD_RET_SUCCESS, get_kernel_fs_part_details second b))"

text \<open>\<^verbatim>\<open>xtract_n_flash\<close>: the component of a FIT image is extracted and flashed by name.\<close>

definition xtract_line :: "u32 \<Rightarrow> string \<Rightarrow> string \<Rightarrow> string" where
  "xtract_line addr fname part = ''imxtract '' @ hex32 addr @ '' '' @ fname @ '' && flash '' @ part"

definition do_xtract_n_flash :: "'d interp \<Rightarrow> string list \<Rightarrow> 'd shell \<Rightarrow> int \<times> 'd shell" where
  "do_xtract_n_flash ip argv s =
     (if length argv < 4 then (CMD_RET_USAGE, s)
      else let (r, s) = run_command ip (snprintf 256 (xtract_line (hex_arg (argv ! 1)) (argv ! 2) (argv ! 3))) s
           in (if r \<noteq> 0 then CMD_RET_FAILURE else CMD_RET_SUCCESS, s))"

text \<open>
  \<^verbatim>\<open>flashinit\<close>: \<open>found\<close> says whether a NAND and an eMMC are known, \<open>mmc_init\<close> and \<open>nand_init\<close> are the
  initialisations of the drivers; the latter is built with \<^verbatim>\<open>CONFIG_QPIC_SERIAL\<close> (\<open>qspi\<close>) only.
\<close>

definition do_flash_init :: "bool \<Rightarrow> ('d \<Rightarrow> bool \<times> bool) \<Rightarrow> ('d \<Rightarrow> int \<times> 'd) \<Rightarrow> ('d \<Rightarrow> 'd) \<Rightarrow> 'd interp \<Rightarrow> string list
    \<Rightarrow> 'd shell \<Rightarrow> int \<times> 'd shell" where
  "do_flash_init qspi found mmc_init nand_init ip argv s =
     (if length argv < 2 then (CMD_RET_USAGE, s)
      else if qspi \<and> fst (found (dev s)) \<or> snd (found (dev s)) then (0, s)
      else
        let (r, s) = (if strncmp (argv ! 1) ''mmc'' 3 = 0 then
                        let (r, d) = mmc_init (dev s); s = s\<lparr>dev := d\<rparr>
                        in if r = 0 then run_command ip ''mmc info'' s else (r, s)
                      else (0, s))
        in if qspi \<and> strncmp (argv ! 1) ''nand'' 4 = 0 then
             let s = s\<lparr>dev := nand_init (dev s)\<rparr> in (if fst (found (dev s)) then 0 else - 1, s)
           else (r, s))"

end
