(* ===== verification/FlashRead.thy ===== *)
theory FlashRead
  imports FlashWrite
begin

text \<open>
  Reading flash, \<^verbatim>\<open>common/cmd_flashread.c\<close>: the commands \<^verbatim>\<open>flashread\<close> and \<^verbatim>\<open>backup\<close>
  (\<^verbatim>\<open>flashread_partition\<close>) and the chunks of a download (\<^verbatim>\<open>flashread_partition_chunk\<close>). The drivers
  these functions call directly are a \<open>fl_drv\<close>: pages with their spare bytes, the bad-block test, reads of a
  NAND and of sectors of an eMMC. A read gives the result and the bytes (a NAND read may report
  corrected bit errors with \<^verbatim>\<open>-EUCLEAN\<close>).
\<close>

abbreviation (input) EUCLEAN :: int where "EUCLEAN \<equiv> 117"

record 'd fl_drv =
  mtd_read_oob :: "'d \<Rightarrow> nat \<Rightarrow> int \<times> string"
  nand_block_isbad :: "'d \<Rightarrow> u64 \<Rightarrow> int"
  nand_read :: "'d \<Rightarrow> u64 \<Rightarrow> nat \<Rightarrow> int \<times> string"
  block_read :: "'d \<Rightarrow> u32 \<Rightarrow> u32 \<Rightarrow> u32 \<times> string"

section \<open>The read command\<close>

definition read_line :: "soc \<Rightarrow> int \<Rightarrow> u32 \<Rightarrow> u32 \<Rightarrow> u32 \<Rightarrow> string \<Rightarrow> bool \<Rightarrow> string option" where
  "read_line b t address offset n layout raw =
     (let args = hex32 address @ '' '' @ hex32 offset
      in if is_nand_type t then
           if raw then
             let raw_page = mtd_writesize (the_nand b) + mtd_oobsize (the_nand b);
                 pagecount = (if raw_page \<noteq> 0 then (n + raw_page - 1) div raw_page else 0)
             in if pagecount = 0 then None
                else Some (nand_prefix b layout @ ''nand read.raw '' @ args @ '' '' @ fmt_hex (unat pagecount))
           else Some (nand_prefix b layout @ ''nand read '' @ args @ '' '' @ hex32 n)
         else if t = SMEM_BOOT_MMC_FLASH then Some (''mmc read '' @ args @ '' '' @ hex32 n)
         else if t = SMEM_BOOT_SPI_FLASH then Some (''sf probe && sf read '' @ args @ '' '' @ hex32 n)
         else None)"

definition read_from_flash :: "soc \<Rightarrow> 'd interp \<Rightarrow> int \<Rightarrow> u32 \<Rightarrow> u32 \<Rightarrow> u32 \<Rightarrow> string \<Rightarrow> bool \<Rightarrow> 'd shell \<Rightarrow> int \<times> 'd shell" where
  "read_from_flash b ip t address offset n layout raw s =
     (case read_line b t address offset n layout raw of
        None \<Rightarrow> (CMD_RET_FAILURE, s)
      | Some line \<Rightarrow> let (r, s) = run_command ip (snprintf 256 line) s
                     in (if r \<noteq> 0 then CMD_RET_FAILURE else CMD_RET_SUCCESS, s))"

section \<open>A partition or a whole chip\<close>

definition nand_raw_total :: "mtd_info \<Rightarrow> u64" where
  "nand_raw_total n = (if mtd_writesize n \<noteq> 0 then mtd_size n div ucast (mtd_writesize n) * ucast (mtd_writesize n + mtd_oobsize n) else 0)"

text \<open>The number of bytes read from a whole chip, \<open>None\<close> when there is nothing to read.\<close>

definition raw_read_size :: "mtd_info \<Rightarrow> u32 \<Rightarrow> u32 option" where
  "raw_read_size n user_size =
     (let raw_page = mtd_writesize n + mtd_oobsize n
      in if raw_page = 0 \<or> nand_raw_total n = 0 \<or> nand_raw_total n > 0xFFFFFFFF then None
         else
           let sz = ucast (nand_raw_total n) :: u32;
               sz = (if user_size \<noteq> 0 \<and> user_size < sz then user_size else sz);
               sz = sz - sz mod raw_page
           in if sz = 0 then None else Some sz)"

definition full_chip :: "soc \<Rightarrow> string \<Rightarrow> u32 \<Rightarrow> bool \<Rightarrow> (int \<times> u32) option" where
  "full_chip b name user_size raw =
     (let capped = (\<lambda>sz. if user_size \<noteq> 0 \<and> user_size < sz then user_size else sz)
      in if strcmp name ''nor_full'' = 0 then
           if fl_type b \<noteq> SMEM_BOOT_SPI_FLASH \<or> spi_chip_size b = 0 then None
           else Some (SMEM_BOOT_SPI_FLASH, capped (spi_chip_size b))
         else if mtd_size (the_nand b) = 0 then None
         else if raw then map_option (\<lambda>sz. (SMEM_BOOT_NAND_FLASH, sz)) (raw_read_size (the_nand b) user_size)
         else Some (SMEM_BOOT_NAND_FLASH, capped (ucast (mtd_size (the_nand b)))))"

text \<open>
  Where a partition is: like \<open>flash_lookup\<close>, but a GPT has its fixed size and a missing eMMC is an error.
  \<open>Inl True\<close> is an error that leaves \<^verbatim>\<open>flash_type_new\<close> alone.
\<close>

definition emmc_region :: "blk_dev \<Rightarrow> string \<Rightarrow> (u32 \<times> u32) option" where
  "emmc_region d name =
     (if strncmp ''0:GPT'' name 6 = 0 then Some (0, 34)
      else if strncmp ''0:GPTBACKUP'' name 12 = 0 then Some (dev_lba d - 33, 33)
      else map_option (\<lambda>p. (gpt_start p, gpt_sectors p)) (get_partition_info_efi_by_name d name))"

definition emmc_source :: "soc \<Rightarrow> string \<Rightarrow> bool \<Rightarrow> bool + target" where
  "emmc_source b name keep =
     (case mmc_blk b of
        None \<Rightarrow> Inl keep
      | Some d \<Rightarrow>
          (case emmc_region d name of
             None \<Rightarrow> Inl True
           | Some (off, n) \<Rightarrow> Inr ((plain_target SMEM_BOOT_MMC_FLASH off n 0)\<lparr>t_blk := Some d\<rparr>)))"

definition table_source :: "soc \<Rightarrow> int \<Rightarrow> string \<Rightarrow> string \<Rightarrow> bool + target" where
  "table_source b t name layout =
     (case smem_getpart b name of
        None \<Rightarrow> Inl False
      | Some (st, k) \<Rightarrow> Inr ((plain_target t (fl_block_size b * st) (fl_block_size b * k) 0)\<lparr>t_layout := layout\<rparr>))"

definition read_lookup :: "soc \<Rightarrow> int \<Rightarrow> string \<Rightarrow> bool + target" where
  "read_lookup b t name =
     (if is_nand_type t then table_source b t name (nand_layout b name)
      else if t = SMEM_BOOT_MMC_FLASH \<or> t = SMEM_BOOT_NO_FLASH then emmc_source b name False
      else if t = SMEM_BOOT_SPI_FLASH then
        if get_which_flash_param b name > 0 then
          (case getpart_offset_size b name of
             None \<Rightarrow> Inl False | Some (off, n) \<Rightarrow> Inr (plain_target SMEM_BOOT_NAND_FLASH off n 0))
        else if on_second_nand b name then Inr (plain_target (fl_secondary b) (fst (rootfs_area b)) (snd (rootfs_area b)) 0)
        else if on_second_mmc b name then emmc_source b name True
        else table_source b t name ''default''
      else Inr (plain_target t 0 0 0))"

text \<open>The size to read, in bytes or in sectors, and the size in bytes that is reported.\<close>

definition read_amount :: "target \<Rightarrow> u32 \<Rightarrow> u32" where
  "read_amount t user_size =
     (let n = (case t_blk t of
                 Some d \<Rightarrow> if t_type t = SMEM_BOOT_MMC_FLASH then (user_size + dev_blksz d - 1) div dev_blksz d else user_size
               | None \<Rightarrow> user_size)
      in if user_size = 0 \<or> n > t_size t then t_size t else n)"

definition bytes_read :: "target \<Rightarrow> u32 \<Rightarrow> u32" where
  "bytes_read t n = (case t_blk t of
      Some d \<Rightarrow> if t_type t = SMEM_BOOT_MMC_FLASH then n * dev_blksz d else n | None \<Rightarrow> n)"

text \<open>The result, the offset and size reported on success, the new \<^verbatim>\<open>flash_type_new\<close> and the state.\<close>

definition flashread_partition :: "soc \<Rightarrow> 'd interp \<Rightarrow> string \<Rightarrow> u32 \<Rightarrow> u32 \<Rightarrow> bool \<Rightarrow> int \<Rightarrow> 'd shell
    \<Rightarrow> (u32 \<times> u32) option \<times> int \<times> 'd shell" where
  "flashread_partition b ip name addr user_size raw ftn s =
     (if raw \<and> strcmp name ''nand_full'' \<noteq> 0 then (None, ftn, s)
      else if strcmp name ''nor_full'' = 0 \<or> strcmp name ''nand_full'' = 0 then
        (case full_chip b name user_size raw of
           None \<Rightarrow> (None, ftn, s)
         | Some (t, n) \<Rightarrow>
             let (r, s) = read_from_flash b ip t addr 0 n ''default'' raw s
             in (if r = 0 then Some (0, n) else None, ftn, s))
      else
        case read_lookup b (if ftn \<noteq> - 1 then ftn else fl_type b) name of
          Inl keep \<Rightarrow> (None, if keep then ftn else - 1, s)
        | Inr t \<Rightarrow>
            let n = read_amount t user_size;
                (r, s) = read_from_flash b ip (t_type t) addr (t_off t) n (t_layout t) False s
            in if r = 0 then (Some (t_off t, bytes_read t n), ftn, s) else (None, - 1, s))"

section \<open>Chunks of a whole NAND with its spare bytes\<close>

text \<open>Pages \<open>p\<close> to \<open>p + n\<close>; the loop ends at a page that cannot be read.\<close>

fun raw_pages :: "'d fl_drv \<Rightarrow> 'd \<Rightarrow> u32 \<Rightarrow> nat \<Rightarrow> nat \<Rightarrow> string" where
  "raw_pages drv d page_size p 0 = []"
| "raw_pages drv d page_size p (Suc n) =
     (let (r, bytes) = mtd_read_oob drv d (p * unat page_size)
      in if r < 0 \<and> r \<noteq> - EUCLEAN then [] else bytes @ raw_pages drv d page_size (Suc p) n)"

text \<open>A chunk: \<open>None\<close> is failure; the bytes put at the load address, the offset reported, the detail text.\<close>

type_synonym chunk = "(string \<times> u32) option \<times> string"

definition nand_raw_chunk_read :: "soc \<Rightarrow> 'd fl_drv \<Rightarrow> 'd \<Rightarrow> u64 \<Rightarrow> u32 \<Rightarrow> chunk" where
  "nand_raw_chunk_read b drv d user_offset user_size =
     (let n = the_nand b
      in if mtd_size n = 0 \<or> mtd_writesize n = 0 then (None, [])
         else
           let total_pages = ucast (mtd_size n div ucast (mtd_writesize n)) :: u32;
               raw_page_size = mtd_writesize n + mtd_oobsize n;
               start_page = ucast (user_offset div ucast raw_page_size) :: u32;
               pages = (if user_size div raw_page_size = 0 then 1 else user_size div raw_page_size)
           in if start_page \<ge> total_pages then (Some ([], ucast user_offset), [])
              else
                let pages = (if start_page + pages > total_pages then total_pages - start_page else pages)
                in if pages = 0 then (Some ([], ucast user_offset), [])
                   else
                     let bytes = raw_pages drv d (mtd_writesize n) (unat start_page) (unat pages)
                     in if bytes = [] then (None, [])
                        else (Some (bytes, ucast user_offset), fmt_dec (length bytes div unat raw_page_size) @ '' pg''))"

section \<open>Chunks of an eMMC\<close>

text \<open>The last partition looked up: its offset and size in bytes and the first 31 characters of its name.\<close>

record emmc_cache =
  cached_base :: u64
  cached_size :: u64
  cached_name :: string

definition emmc_cache_invalidate :: emmc_cache where
  "emmc_cache_invalidate = \<lparr>cached_base = 0, cached_size = 0, cached_name = []\<rparr>"

text \<open>Every entry is tried, also after one that is not in use.\<close>

definition emmc_find :: "blk_dev \<Rightarrow> string \<Rightarrow> (u64 \<times> u64) option" where
  "emmc_find d name =
     map_option (\<lambda>i. let p = the (get_partition_info_efi d i)
                     in (ucast (gpt_start p) * ucast (dev_blksz d), ucast (gpt_sectors p) * ucast (dev_blksz d)))
       (find (\<lambda>i. case get_partition_info_efi d i of Some p \<Rightarrow> strcmp (gpt_name p) name = 0 | None \<Rightarrow> False)
         [1..<Suc (get_partition_count_efi d)])"

definition emmc_locate :: "blk_dev \<Rightarrow> emmc_cache \<Rightarrow> string \<Rightarrow> u64 \<times> u64" where
  "emmc_locate d c name =
     (if strcmp name (cached_name c) = 0 \<and> cached_size c > 0 then (cached_base c, cached_size c)
      else if strcmp name ''0:GPT'' = 0 then (0, 34 * ucast (dev_blksz d))
      else if strcmp name ''0:GPTBACKUP'' = 0 then (ucast (dev_lba d - 33) * ucast (dev_blksz d), 33 * ucast (dev_blksz d))
      else case emmc_find d name of Some r \<Rightarrow> r | None \<Rightarrow> (0, 0))"

definition emmc_chunk_read :: "soc \<Rightarrow> 'd fl_drv \<Rightarrow> 'd \<Rightarrow> string \<Rightarrow> u64 \<Rightarrow> u32 \<Rightarrow> emmc_cache \<Rightarrow> chunk \<times> emmc_cache" where
  "emmc_chunk_read b drv d name user_offset user_size c =
     (case mmc_blk b of
        None \<Rightarrow> ((None, []), c)
      | Some blk \<Rightarrow>
          let (base, tot) = emmc_locate blk c name
          in if tot = 0 then ((None, []), c)
             else
               let c = \<lparr>cached_base = base, cached_size = tot, cached_name = strncpy name 31\<rparr>
               in if user_offset \<ge> tot then ((Some ([], ucast user_offset), []), c)
                  else
                    let remain = tot - user_offset;
                        len = (if user_size \<noteq> 0 \<and> ucast user_size < remain then user_size else ucast remain);
                        chunk_offset = base + user_offset; bs = dev_blksz blk;
                        start_sector = ucast (chunk_offset div ucast bs);
                        num_sectors = (len + bs - 1) div bs;
                        (r, bytes) = block_read drv d start_sector num_sectors
                    in if r \<noteq> num_sectors then ((None, []), c)
                       else ((Some (bytes, ucast chunk_offset), fmt_dec (unat num_sectors) @ '' blk''), c))"

section \<open>Chunks of a NOR\<close>

definition sf_chunk_line :: "u32 \<Rightarrow> u64 \<Rightarrow> u32 \<Rightarrow> string" where
  "sf_chunk_line addr off n = ''sf probe && sf read '' @ hex32 addr @ '' '' @ hex64 off @ '' '' @ hex32 n"

text \<open>The chunk \<open>(offset, size)\<close> of the chip, \<open>None\<close> when the partition is unknown.\<close>

definition sf_chunk :: "soc \<Rightarrow> string \<Rightarrow> u64 \<Rightarrow> u32 \<Rightarrow> (u64 \<times> u32) option" where
  "sf_chunk b name user_offset user_size =
     (case (if strcmp name ''nor_full'' = 0 then Some (0, ucast (spi_chip_size b))
            else case getpart_offset_size b name of
                   Some (off, n) \<Rightarrow> if n = 0 then None else Some (ucast off, ucast n)
                 | None \<Rightarrow> None) of
        None \<Rightarrow> None
      | Some (base, tot) \<Rightarrow>
          if user_offset \<ge> tot then Some (user_offset, 0)
          else let remain = tot - user_offset
               in Some (base + user_offset, if user_size \<noteq> 0 \<and> ucast user_size < remain then user_size else ucast remain))"

section \<open>Chunks of a NAND\<close>

text \<open>The offset and size in bytes of a NAND partition.\<close>

definition nand_part :: "soc \<Rightarrow> string \<Rightarrow> (u64 \<times> u64) option" where
  "nand_part b name =
     (if strcmp name ''nand_full'' = 0 then Some (0, mtd_size (the_nand b))
      else if strcmp name ''rootfs'' = 0 \<and> fst (rootfs_entry b) = BAD_OFFSET then
        Some (ucast (get_rootfs_active_partition b) * 0x4000000, 0x4000000)
      else case getpart_offset_size b name of
             Some (off, n) \<Rightarrow> if n = 0 then None else Some (ucast off, ucast n)
           | None \<Rightarrow> None)"

definition hex_ll :: "u64 \<Rightarrow> string" where
  "hex_ll w = fmt_0x (unat w)"

text \<open>The offset inside a block is less than the size of the block.\<close>

lemma block_offset_less: "es \<noteq> 0 \<Longrightarrow> unat ((cur :: u64) AND ucast (es - 1 :: u32)) < unat es"
proof -
  assume "es \<noteq> 0"
  then have "unat (es - 1) < unat es" by (simp add: unat_minus_one unat_gt_0)
  moreover have "unat (cur AND ucast (es - 1)) \<le> unat (ucast (es - 1) :: u64)"
    by (metis word_and_le1 word_le_nat_alt)
  moreover have "unat (ucast (es - 1) :: u64) = unat (es - 1)"
    by (simp add: unsigned_ucast_eq take_bit_eq_mod) (rule mod_less, rule less_trans [OF unat_u32_less], simp)
  ultimately show ?thesis by simp
qed

text \<open>
  The blocks from \<open>cur\<close> on: at most one erase block at a time; a bad block or a failing read ends the
  chunk. \<open>left\<close> bytes are still to be read.
\<close>

function nand_chunk_loop :: "'d fl_drv \<Rightarrow> 'd \<Rightarrow> u32 \<Rightarrow> u64 \<Rightarrow> u64 \<Rightarrow> nat \<Rightarrow> string + string" where
  "nand_chunk_loop drv d es cur end left =
     (if left = 0 \<or> cur \<ge> end \<or> es = 0 then Inr []
      else
        let mask = ucast (es - 1) :: u64; block_offset = unat (cur AND mask);
            blk = cur AND ucast (NOT (es - 1)); bad = nand_block_isbad drv d blk
        in if bad < 0 then Inl (snprintf 32 (''bad-block query '' @ hex_ll blk))
           else if bad \<noteq> 0 then Inl (snprintf 32 (''bad block '' @ hex_ll blk))
           else
             let len = (if left < unat es - block_offset then left else unat es - block_offset);
                 (r, bytes) = nand_read drv d cur len
             in if r < 0 \<and> r \<noteq> - EUCLEAN then Inl (snprintf 32 (''read error '' @ hex_ll cur))
                else case nand_chunk_loop drv d es (cur + of_nat len) end (left - len) of
                       Inl e \<Rightarrow> Inl e | Inr rest \<Rightarrow> Inr (bytes @ rest))"
  by pat_completeness auto

termination
  by (relation "measure (\<lambda>(drv, d, es, cur, end, left). left)")
    (use block_offset_less in \<open>auto simp: less_diff_conv split: if_splits\<close>)

declare nand_chunk_loop.simps [simp del]

definition nand_chunk_read :: "soc \<Rightarrow> 'd fl_drv \<Rightarrow> 'd \<Rightarrow> string \<Rightarrow> u64 \<Rightarrow> u32 \<Rightarrow> chunk" where
  "nand_chunk_read b drv d name user_offset user_size =
     (let n = the_nand b
      in if mtd_size n = 0 \<or> mtd_writesize n = 0 \<or> mtd_erasesize n = 0 then (None, ''nand unavailable'')
         else case nand_part b name of
                None \<Rightarrow> (None, [])
              | Some (base, tot) \<Rightarrow>
                  if tot = 0 then (None, [])
                  else
                    let remain = (if user_offset < tot then tot - user_offset else 0);
                        len = (if user_size \<noteq> 0 \<and> ucast user_size < remain then user_size else ucast remain);
                        cur = base + user_offset
                    in case nand_chunk_loop drv d (mtd_erasesize n) cur (cur + ucast len) (unat len) of
                         Inl e \<Rightarrow> (None, e)
                       | Inr bytes \<Rightarrow> (Some (bytes, ucast user_offset), []))"

section \<open>A chunk of any partition\<close>

definition flash_override_matches :: "soc \<Rightarrow> string \<Rightarrow> int \<Rightarrow> bool" where
  "flash_override_matches b name ovr =
     (let current = (case get_current_flash_type b of Some t \<Rightarrow> t | None \<Rightarrow> fl_type b);
          gpt = (strcmp name ''0:GPT'' = 0 \<or> strcmp name ''0:GPTBACKUP'' = 0)
      in if ovr = - 1 then True
         else if is_nand_type ovr then
           (is_nand_type current \<or> current = SMEM_BOOT_NORPLUSNAND \<or> is_nand_type (fl_type b) \<or> is_nand_type (fl_secondary b))
           \<and> \<not> (strcmp name ''nor_full'' = 0 \<or> gpt)
           \<and> \<not> (strcmp name ''nand_full'' \<noteq> 0 \<and> get_which_flash_param b name = 0 \<and> current = SMEM_BOOT_NORPLUSNAND)
         else if ovr = SMEM_BOOT_SPI_FLASH then
           (current = SMEM_BOOT_SPI_FLASH \<or> current = SMEM_BOOT_NOR_FLASH \<or> current = SMEM_BOOT_NORPLUSNAND
            \<or> current = SMEM_BOOT_NORPLUSEMMC \<or> fl_type b = SMEM_BOOT_SPI_FLASH \<or> fl_type b = SMEM_BOOT_NOR_FLASH)
           \<and> \<not> (strcmp name ''nand_full'' = 0 \<or> gpt) \<and> \<not> get_which_flash_param b name > 0
         else if ovr = SMEM_BOOT_MMC_FLASH then
           (current = SMEM_BOOT_MMC_FLASH \<or> current = SMEM_BOOT_NORPLUSEMMC \<or> fl_type b = SMEM_BOOT_MMC_FLASH
            \<or> fl_secondary b = SMEM_BOOT_MMC_FLASH \<or> fst (rootfs_entry b) = BAD_OFFSET)
           \<and> \<not> (strcmp name ''nand_full'' = 0 \<or> strcmp name ''nor_full'' = 0)
         else False)"

text \<open>Which of the readers takes the chunk.\<close>

datatype reader = Raw_Nand | Raw_Refused | Nand | Emmc | Nor

definition chunk_reader :: "soc \<Rightarrow> string \<Rightarrow> bool \<Rightarrow> int \<Rightarrow> int \<Rightarrow> reader" where
  "chunk_reader b name raw ovr ftn =
     (let t = (if ovr \<noteq> - 1 then ovr else if ftn \<noteq> - 1 then ftn else fl_type b)
      in if strcmp name ''nand_full'' = 0 \<or> is_nand_type t \<or> (ovr = - 1 \<and> get_which_flash_param b name > 0) then
           if raw then if strcmp name ''nand_full'' = 0 then Raw_Nand else Raw_Refused else Nand
         else if t = SMEM_BOOT_MMC_FLASH \<or> t = SMEM_BOOT_NO_FLASH then Emmc
         else if t = SMEM_BOOT_SPI_FLASH \<and> ovr = - 1
              \<and> (get_which_flash_param b name > 0 \<or> is_nand_type (fl_secondary b) \<and> strncmp name ''rootfs'' 6 = 0) then Raw_Nand
         else if t = SMEM_BOOT_SPI_FLASH \<and> ovr = - 1
              \<and> (fl_secondary b = SMEM_BOOT_MMC_FLASH \<or> fst (rootfs_entry b) = BAD_OFFSET)
              \<and> (strncmp name ''rootfs'' 6 = 0 \<or> smem_getpart b name = None \<or> smem_getpart b name = Some (0, 0)) then Emmc
         else Nor)"

text \<open>
  The chunk is put at \<open>addr\<close>: the readers that call a driver write the bytes there, the NOR is read by
  a command. The result is the offset and the number of bytes, and the detail text.
\<close>

definition flashread_partition_chunk :: "soc \<Rightarrow> 'd fl_drv \<Rightarrow> 'd interp \<Rightarrow> string \<Rightarrow> u32 \<Rightarrow> u64 \<Rightarrow> u32 \<Rightarrow> bool \<Rightarrow> int \<Rightarrow> int
    \<Rightarrow> emmc_cache \<Rightarrow> 'd shell \<Rightarrow> (u32 \<times> nat) option \<times> string \<times> emmc_cache \<times> 'd shell" where
  "flashread_partition_chunk b drv ip name addr user_offset user_size raw ovr ftn c s =
     (let store = (\<lambda>(r, detail) c. (map_option (\<lambda>(bytes, off). (off, length bytes)) r, detail, c,
                     case r of Some (bytes, off) \<Rightarrow> s\<lparr>mem := ram_write (mem s) addr bytes\<rparr> | None \<Rightarrow> s))
      in if \<not> flash_override_matches b name ovr then (None, ''flash type mismatch'', c, s)
         else case chunk_reader b name raw ovr ftn of
           Raw_Nand \<Rightarrow> store (nand_raw_chunk_read b drv (dev s) user_offset user_size) c
         | Raw_Refused \<Rightarrow> (None, [], c, s)
         | Nand \<Rightarrow> store (nand_chunk_read b drv (dev s) name user_offset user_size) c
         | Emmc \<Rightarrow> (let (r, c) = emmc_chunk_read b drv (dev s) name user_offset user_size c in store r c)
         | Nor \<Rightarrow>
             (case sf_chunk b name user_offset user_size of
                None \<Rightarrow> (None, [], c, s)
              | Some (off, n) \<Rightarrow>
                  if n = 0 then (Some (ucast off, 0), [], c, s)
                  else let (r, s) = run_command ip (snprintf 256 (sf_chunk_line addr off n)) s
                       in (if r \<noteq> 0 then None else Some (ucast off, unat n), [], c, s)))"

section \<open>The commands\<close>

definition LOAD_ADDR :: "soc \<Rightarrow> u32" where
  "LOAD_ADDR b = (if build_ipq40xx b then 0x88000000 else 0x4b000000)"

definition do_flashread :: "soc \<Rightarrow> 'd interp \<Rightarrow> string list \<Rightarrow> int \<Rightarrow> 'd shell \<Rightarrow> int \<times> int \<times> 'd shell" where
  "do_flashread b ip argv ftn s =
     (if length argv < 2 \<or> length argv > 4 then (CMD_RET_USAGE, ftn, s)
      else
        let addr = (if length argv \<ge> 3 then hex_arg (argv ! 2) else LOAD_ADDR b);
            user_size = (if length argv = 4 then hex_arg (argv ! 3) else 0);
            (r, ftn, s) = flashread_partition b ip (argv ! 1) addr user_size False ftn s
        in (if r = None then CMD_RET_USAGE else CMD_RET_SUCCESS, ftn, s))"

definition backup_name :: "'d fl_env \<Rightarrow> string \<Rightarrow> string" where
  "backup_name e part = snprintf 80 (case env e ''serverip'' of Some ip \<Rightarrow> ip @ '':'' @ part @ ''.bin'' | None \<Rightarrow> part @ ''.bin'')"

definition do_backup :: "soc \<Rightarrow> 'd fl_env \<Rightarrow> 'd interp \<Rightarrow> string list \<Rightarrow> int \<Rightarrow> 'd shell \<Rightarrow> int \<times> int \<times> 'd shell" where
  "do_backup b e ip argv ftn s =
     (if length argv < 2 \<or> length argv > 3 then (CMD_RET_USAGE, ftn, s)
      else
        let addr = (if length argv = 3 then hex_arg (argv ! 2) else LOAD_ADDR b);
            (r, ftn, s) = flashread_partition b ip (argv ! 1) addr 0 False ftn s
        in case r of
             None \<Rightarrow> (CMD_RET_USAGE, ftn, s)
           | Some (off, n) \<Rightarrow>
               let (r, s) = run_command ip (snprintf 256 (''tftpput '' @ hex32 addr @ '' '' @ hex32 n @ '' '' @ backup_name e (argv ! 1))) s
               in (if r \<noteq> 0 then CMD_RET_FAILURE else CMD_RET_SUCCESS, ftn, s))"

end
