(* ===== verification/CmdLine.thy ===== *)
theory CmdLine
  imports Shell
begin

text \<open>
  Command lines as the boot loader's shell takes them apart: words between blanks, commands joined by
  \<^verbatim>\<open>&&\<close>, each run only when the one before it succeeded. A \<open>cmds\<close> says what one command does to RAM and
  the devices; \<open>run_line\<close> makes an interpreter of it.
\<close>

fun wsplit :: "string \<Rightarrow> string \<Rightarrow> string list" where
  "wsplit acc [] = (if acc = [] then [] else [rev acc])"
| "wsplit acc (c # cs) =
     (if c = CHR '' '' then (if acc = [] then wsplit [] cs else rev acc # wsplit [] cs)
      else if c = CHR ''&'' \<and> cs \<noteq> [] \<and> hd cs = CHR ''&''
      then (if acc = [] then ''&&'' # wsplit [] (tl cs) else rev acc # ''&&'' # wsplit [] (tl cs))
      else wsplit (c # acc) cs)"

definition words :: "string \<Rightarrow> string list" where
  "words line = wsplit [] line"

fun commands :: "string list \<Rightarrow> string list list" where
  "commands [] = [[]]"
| "commands (w # ws) = (if w = ''&&'' then [] # commands ws else (w # hd (commands ws)) # tl (commands ws))"

type_synonym 'd cmds = "string list \<Rightarrow> 'd \<Rightarrow> ram \<Rightarrow> int \<times> ram \<times> 'd"

fun run_seq :: "'d cmds \<Rightarrow> string list list \<Rightarrow> 'd \<Rightarrow> ram \<Rightarrow> int \<times> ram \<times> 'd" where
  "run_seq f [] d m = (0, m, d)"
| "run_seq f (argv # cs) d m =
     (if argv = [] then run_seq f cs d m
      else let (r, m', d') = f argv d m in if r \<noteq> 0 then (r, m', d') else run_seq f cs d' m')"

definition run_line :: "'d cmds \<Rightarrow> 'd interp" where
  "run_line f d m line = run_seq f (commands (words line)) d m"

section \<open>Taking the lines of this development apart\<close>

text \<open>A text that is one word, or the rest of one.\<close>

definition plain :: "string \<Rightarrow> bool" where
  "plain w \<longleftrightarrow> CHR '' '' \<notin> set w \<and> CHR ''&'' \<notin> set w"

lemma wsplit_plain: "plain w \<Longrightarrow> wsplit acc (w @ s) = wsplit (rev w @ acc) s"
proof (induction w arbitrary: acc)
  case (Cons a w)
  then have "a \<noteq> CHR '' ''" "a \<noteq> CHR ''&''" "plain w" by (auto simp: plain_def)
  then show ?case using Cons.IH by simp
qed simp

lemma plain_digit: "plain [digit_char k]"
proof (cases "k < 16")
  case True
  then have "digit_char k \<in> set ''0123456789abcdef''" unfolding digit_char_def by (simp only: if_True) (rule nth_mem, simp)
  then show ?thesis by (auto simp: plain_def)
qed (simp add: plain_def digit_char_def)

lemma plain_digits: "plain (digits_base b n)" if "b \<le> 16"
  using that
proof (induction b n rule: digits_base.induct)
  case (1 b n)
  show ?case using 1 plain_digit [of n] plain_digit [of "n mod b"] by (subst digits_base.simps) (auto simp: plain_def)
qed

lemma plain_hex [simp]: "plain (hex32 w)" "plain (hex64 w64)" "plain (fmt_dec n)" "plain (fmt_hex n)"
  using plain_digits [of 16] plain_digits [of 10]
  by (auto simp: plain_def hex32_def hex64_def fmt_0x_def fmt_hex_def fmt_dec_def)

lemma hex32_ne [simp]: "hex32 w \<noteq> []" "hex64 w64 \<noteq> []"
  by (simp_all add: hex32_def hex64_def fmt_0x_def)

lemma hex32_not_and [simp]: "hex32 w \<noteq> ''&&''" "''&&'' \<noteq> hex32 w"
  by (auto simp: hex32_def fmt_0x_def)

lemmas line_simps = wsplit_plain words_def run_line_def

end
