(* ===== verification/FlashBoard.thy ===== *)
theory FlashBoard
  imports FlashRead CmdLine
begin

text \<open>
  The flash commands as commands of the shell: \<open>flash_cmds\<close> dispatches the words of a command to
  \<^verbatim>\<open>do_flash\<close>, \<^verbatim>\<open>do_flashread\<close> and \<^verbatim>\<open>do_flupdate\<close>, and all others to \<open>base\<close>, the commands of the flash
  drivers and the rest of the boot loader. The devices are those of \<open>base\<close> and \<^verbatim>\<open>flash_type_new\<close>.
\<close>

definition shell_on :: "ram \<Rightarrow> 'd \<Rightarrow> 'd shell" where
  "shell_on m d = \<lparr>mem = m, dev = d, history = [], smashed = False\<rparr>"

definition flash_cmds :: "soc \<Rightarrow> 'd fl_env \<Rightarrow> 'd cmds \<Rightarrow> (int \<times> 'd) cmds" where
  "flash_cmds b e base argv x m =
     (let (ftn, d) = x;
          out = (\<lambda>(r, ftn, s). (r, mem s, (ftn, dev s)));
          cmd = hd argv
      in if cmd = ''flash'' \<or> cmd = ''flasherase'' then out (do_flash b e (run_line base) argv ftn (shell_on m d))
         else if cmd = ''flashread'' then out (do_flashread b (run_line base) argv ftn (shell_on m d))
         else if cmd = ''flupdate'' then let (r, ftn) = do_flupdate argv ftn in (r, m, (ftn, d))
         else let (r, m, d) = base argv d m in (r, m, (ftn, d)))"

definition board_interp :: "soc \<Rightarrow> 'd fl_env \<Rightarrow> 'd cmds \<Rightarrow> (int \<times> 'd) interp" where
  "board_interp b e base = run_line (flash_cmds b e base)"

definition driver :: "int \<Rightarrow> string" where
  "driver t = (if is_nand_type t then ''nand'' else if t = SMEM_BOOT_MMC_FLASH then ''mmc'' else ''sf'')"

definition preamble :: "soc \<Rightarrow> int \<Rightarrow> string \<Rightarrow> string list list" where
  "preamble b t layout =
     (if is_nand_type t then [''nand'', ''device'', fmt_dec (nand_idx b)]
        # (if strcmp layout ''default'' \<noteq> 0 then [[''ipq_nand'', layout]] else [])
      else if t = SMEM_BOOT_MMC_FLASH then [] else [[''sf'', ''probe'']])"

section \<open>The lines as commands\<close>

lemma plain_not_and: "plain w \<Longrightarrow> w \<noteq> ''&&''"
  by (auto simp: plain_def)

lemma fmt_dec_ne [simp]: "fmt_dec n \<noteq> []" "fmt_dec n \<noteq> ''&&''" "''&&'' \<noteq> fmt_dec n"
  using plain_not_and [OF plain_hex(3) [of n]] by (auto simp: fmt_dec_def)

lemma fmt_int_nat: "fmt_int (int n) = fmt_dec n"
  by (simp add: fmt_int_def)

lemma ops_words:
  assumes "plain c" and "c \<noteq> []"
  shows "wsplit [] (c @ '' erase '' @ hex32 off @ '' '' @ hex32 psize @ '' && '' @ c @ '' write ''
                   @ hex32 address @ '' '' @ hex32 offset @ '' '' @ hex32 fsize @ '' && '')
   = [c, ''erase'', hex32 off, hex32 psize, ''&&'', c, ''write'', hex32 address, hex32 offset, hex32 fsize, ''&&'']"
  using assms by (simp add: wsplit_plain)

lemma prefix_words:
  assumes "plain layout" and "layout \<noteq> []"
  shows "wsplit [] (nand_prefix b layout @ s) = [''nand'', ''device'', fmt_dec (nand_idx b), ''&&'']
     @ (if strcmp layout ''default'' \<noteq> 0 then [''ipq_nand'', layout, ''&&''] else []) @ wsplit [] s"
  using assms by (simp add: nand_prefix_def fmt_int_nat wsplit_plain)

lemma commands_and: "''&&'' \<notin> set ws \<Longrightarrow> commands (ws @ ''&&'' # rest) = ws # commands rest"
  by (induction ws) auto

lemma commands_and_last: "''&&'' \<notin> set ws \<Longrightarrow> commands ws = [ws]"
  by (induction ws) auto

lemma driver_plain [simp]: "plain (driver t)" "driver t \<noteq> []" "driver t \<noteq> ''&&''"
  by (simp_all add: driver_def plain_def)

lemma line_words:
  assumes "plain layout" and "layout \<noteq> []" and "driver t = ''sf'' \<longrightarrow> t = SMEM_BOOT_SPI_FLASH"
    and ws: "wsplit [] s = ws"
  shows "wsplit [] ((if is_nand_type t then nand_prefix b layout else if t = SMEM_BOOT_MMC_FLASH then [] else ''sf probe && '') @ s)
    = concat (map (\<lambda>argv. argv @ [''&&'']) (preamble b t layout)) @ ws"
  using assms prefix_words [OF assms(1,2), of b s] by (simp add: preamble_def)

lemma commands_preamble:
  assumes "plain layout"
  shows "commands (concat (map (\<lambda>argv. argv @ [''&&'']) (preamble b t layout)) @ ws) = preamble b t layout @ commands ws"
  using plain_not_and [OF assms] by (simp add: preamble_def) 

definition known_type :: "int \<Rightarrow> bool" where
  "known_type t \<longleftrightarrow> is_nand_type t \<or> t = SMEM_BOOT_MMC_FLASH \<or> t = SMEM_BOOT_SPI_FLASH"

definition layout_ok :: "string \<Rightarrow> bool" where
  "layout_ok l \<longleftrightarrow> l \<in> {''default'', ''linux'', ''sbl''}"

lemma layout_plain: "layout_ok l \<Longrightarrow> plain l \<and> l \<noteq> [] \<and> length l \<le> 7"
  by (auto simp: layout_ok_def plain_def)

lemma driver_sf: "known_type t \<Longrightarrow> driver t = ''sf'' \<longrightarrow> t = SMEM_BOOT_SPI_FLASH"
  by (auto simp: known_type_def driver_def)

lemma lines:
  assumes "known_type t"
  shows "write_line b t a off psz fsz l = Some ((if is_nand_type t then nand_prefix b l else if t = SMEM_BOOT_MMC_FLASH then [] else ''sf probe && '')
      @ driver t @ '' erase '' @ hex32 off @ '' '' @ hex32 psz @ '' && '' @ driver t @ '' write ''
      @ hex32 a @ '' '' @ hex32 off @ '' '' @ hex32 fsz @ '' && '')"
    and "erase_line b t off psz l = Some ((if is_nand_type t then nand_prefix b l else if t = SMEM_BOOT_MMC_FLASH then [] else ''sf probe && '')
      @ driver t @ '' erase '' @ hex32 off @ '' '' @ hex32 psz @ '' '')"
    and "read_line b t a off n l False = Some ((if is_nand_type t then nand_prefix b l else if t = SMEM_BOOT_MMC_FLASH then [] else ''sf probe && '')
      @ driver t @ '' read '' @ hex32 a @ '' '' @ hex32 off @ '' '' @ hex32 n)"
  using assms by (auto simp: write_line_def erase_line_def read_line_def driver_def known_type_def Let_def)

lemma op_words:
  assumes "plain c" and "c \<noteq> []"
  shows "wsplit [] (c @ '' erase '' @ hex32 off @ '' '' @ hex32 psize @ '' '') = [c, ''erase'', hex32 off, hex32 psize]"
    and "wsplit [] (c @ '' read '' @ hex32 a @ '' '' @ hex32 off @ '' '' @ hex32 n) = [c, ''read'', hex32 a, hex32 off, hex32 n]"
  using assms wsplit_plain [of "hex32 n" _ "[]"] by (simp_all add: wsplit_plain)

lemma line_commands:
  assumes "known_type t" and "layout_ok l"
  shows "write_line b t a off psz fsz l = Some line \<Longrightarrow> commands (words line) = preamble b t l
      @ [[driver t, ''erase'', hex32 off, hex32 psz], [driver t, ''write'', hex32 a, hex32 off, hex32 fsz], []]"
    and "erase_line b t off psz l = Some line \<Longrightarrow> commands (words line) = preamble b t l @ [[driver t, ''erase'', hex32 off, hex32 psz]]"
    and "read_line b t a off n l False = Some line \<Longrightarrow> commands (words line) = preamble b t l
      @ [[driver t, ''read'', hex32 a, hex32 off, hex32 n]]"
proof -
  note p = layout_plain [OF assms(2)] driver_sf [OF assms(1)] line_words [of l t _ _ b] commands_preamble [of l b t]
  show "commands (words line) = preamble b t l
      @ [[driver t, ''erase'', hex32 off, hex32 psz], [driver t, ''write'', hex32 a, hex32 off, hex32 fsz], []]"
    if "write_line b t a off psz fsz l = Some line"
    using that p(1,2,4) p(3) [OF _ _ _ ops_words [OF driver_plain(1,2)]] unfolding lines(1) [OF assms(1)]
    by (auto simp: words_def)
  show "commands (words line) = preamble b t l @ [[driver t, ''erase'', hex32 off, hex32 psz]]"
    if "erase_line b t off psz l = Some line"
    using that p(1,2,4) p(3) [OF _ _ _ op_words(1) [OF driver_plain(1,2)]] unfolding lines(2) [OF assms(1)]
    by (auto simp: words_def)
  show "commands (words line) = preamble b t l @ [[driver t, ''read'', hex32 a, hex32 off, hex32 n]]"
    if "read_line b t a off n l False = Some line"
    using that p(1,2,4) p(3) [OF _ _ _ op_words(2) [OF driver_plain(1,2)]] unfolding lines(3) [OF assms(1)]
    by (auto simp: words_def)
qed

section \<open>What the driver commands do\<close>

text \<open>
  The three flash drivers have the same commands: \<^verbatim>\<open>read addr off n\<close>, \<^verbatim>\<open>write addr off n\<close> and
  \<^verbatim>\<open>erase off n\<close>, in bytes or, on an eMMC, in sectors. \<open>cells d c\<close> are the bytes of the flash that \<open>c\<close> works
  on, \<open>blank\<close> says that an area has been erased and \<open>good\<close> that it has no bad blocks (the NAND commands
  skip those, and what they do then is not used here). A command that fails may leave anything in the
  area it was given.
\<close>

definition unit_bytes :: "soc \<Rightarrow> string \<Rightarrow> nat" where
  "unit_bytes b c = (if c = ''mmc'' then case mmc_blk b of Some d \<Rightarrow> unat (dev_blksz d) | None \<Rightarrow> 1 else 1)"

definition same_outside :: "(string \<Rightarrow> nat \<Rightarrow> char) \<Rightarrow> (string \<Rightarrow> nat \<Rightarrow> char) \<Rightarrow> string \<Rightarrow> nat \<Rightarrow> nat \<Rightarrow> bool" where
  "same_outside f g c off n \<longleftrightarrow> (\<forall>c' x. \<not> (c' = c \<and> off \<le> x \<and> x < off + n) \<longrightarrow> g c' x = f c' x)"

abbreviation DRIVERS :: "string set" where "DRIVERS \<equiv> {''sf'', ''nand'', ''mmc''}"

locale flash_drivers =
  fixes b :: soc
    and base :: "'d cmds"
    and ok :: "'d \<Rightarrow> bool"
    and cells :: "'d \<Rightarrow> string \<Rightarrow> nat \<Rightarrow> char"
    and blank :: "'d \<Rightarrow> string \<Rightarrow> nat \<Rightarrow> nat \<Rightarrow> bool"
    and good :: "string \<Rightarrow> nat \<Rightarrow> nat \<Rightarrow> bool"
  assumes quiet_law: "ok d \<Longrightarrow> argv \<in> {[''sf'', ''probe''], [''nand'', ''device'', z], [''ipq_nand'', z], [''mmc'', ''dev'', z]}
      \<Longrightarrow> base argv d m = (r, m', d') \<Longrightarrow> ok d' \<and> m' = m \<and> cells d' = cells d \<and> blank d' = blank d"
    and fill_law: "ok d \<Longrightarrow> base [''mw'', hex32 a, ''0x00'', ''0x200''] d m = (r, m', d')
      \<Longrightarrow> ok d' \<and> cells d' = cells d \<and> (\<forall>p. unat (p - a) \<ge> 0x800 \<longrightarrow> m' p = m p)"
    and read_law: "ok d \<Longrightarrow> c \<in> DRIVERS \<Longrightarrow> good c (unat off * unit_bytes b c) (unat n * unit_bytes b c)
      \<Longrightarrow> base [c, ''read'', hex32 a, hex32 off, hex32 n] d m = (r, m', d')
      \<Longrightarrow> ok d' \<and> cells d' = cells d
        \<and> (r = 0 \<longrightarrow> m' = ram_write m a (cells_read (cells d c) (unat off * unit_bytes b c) (unat n * unit_bytes b c)))"
    and erase_law: "ok d \<Longrightarrow> c \<in> DRIVERS \<Longrightarrow> good c (unat off * unit_bytes b c) (unat n * unit_bytes b c)
      \<Longrightarrow> base [c, ''erase'', hex32 off, hex32 n] d m = (r, m', d')
      \<Longrightarrow> ok d' \<and> m' = m \<and> same_outside (cells d) (cells d') c (unat off * unit_bytes b c) (unat n * unit_bytes b c)
        \<and> (r = 0 \<longrightarrow> blank d' c (unat off * unit_bytes b c) (unat n * unit_bytes b c))"
    and write_law: "ok d \<Longrightarrow> c \<in> DRIVERS \<Longrightarrow> good c (unat off * unit_bytes b c) (unat n * unit_bytes b c)
      \<Longrightarrow> base [c, ''write'', hex32 a, hex32 off, hex32 n] d m = (r, m', d')
      \<Longrightarrow> ok d' \<and> m' = m \<and> same_outside (cells d) (cells d') c (unat off * unit_bytes b c) (unat n * unit_bytes b c)
        \<and> (r = 0 \<and> blank d c (unat off * unit_bytes b c) (unat n * unit_bytes b c)
           \<longrightarrow> cells_read (cells d' c) (unat off * unit_bytes b c) (unat n * unit_bytes b c) = ram_bytes m a (unat n * unit_bytes b c))"
    and blank_part: "blank d c x y \<Longrightarrow> k \<le> y \<Longrightarrow> blank d c x k"
    and good_part: "good c x y \<Longrightarrow> k \<le> y \<Longrightarrow> good c x k"

lemma same_outside_trans:
  "same_outside f g c off n \<Longrightarrow> same_outside g h c off k \<Longrightarrow> k \<le> n \<Longrightarrow> same_outside f h c off n"
  unfolding same_outside_def by (smt (verit) add_le_mono1 order_less_le_trans add.commute)

lemma same_outside_refl [simp]: "same_outside f f c off n"
  by (simp add: same_outside_def)

lemma same_outside_read: "same_outside f g c off n \<Longrightarrow> c' \<noteq> c \<or> a + k \<le> off \<or> off + n \<le> a
  \<Longrightarrow> cells_read (g c') a k = cells_read (f c') a k"
  by (rule cells_read_cong) (auto simp: same_outside_def)

lemma run_seq_append:
  "run_seq f (as @ cs) d m = (let (r, m', d') = run_seq f as d m in if r \<noteq> 0 then (r, m', d') else run_seq f cs d' m')"
  by (induction as arbitrary: d m) (simp_all add: split_beta Let_def)

lemma driver_in: "driver t \<in> DRIVERS"
  by (simp add: driver_def)

context flash_drivers
begin

lemma quiet_seq:
  assumes "ok d" and "\<forall>argv \<in> set cs. \<exists>x. argv \<in> {[''sf'', ''probe''], [''nand'', ''device'', x], [''ipq_nand'', x], [''mmc'', ''dev'', x]}"
    and "run_seq base cs d m = (r, m', d')"
  shows "ok d' \<and> m' = m \<and> cells d' = cells d \<and> blank d' = blank d"
  using assms
proof (induction cs arbitrary: d m)
  case (Cons argv cs)
  obtain r1 m1 d1 where q: "base argv d m = (r1, m1, d1)" by (metis prod_cases3)
  obtain x where x: "argv \<in> {[''sf'', ''probe''], [''nand'', ''device'', x], [''ipq_nand'', x], [''mmc'', ''dev'', x]}" using Cons.prems(2) by auto
  have "argv \<noteq> []" using x by auto
  then show ?case using Cons q quiet_law [OF Cons.prems(1) x q] by (auto split: if_splits)
qed simp

lemma preamble_quiet:
  assumes "ok d" and "run_seq base (preamble b t l) d m = (r, m', d')"
  shows "ok d' \<and> m' = m \<and> cells d' = cells d \<and> blank d' = blank d"
proof (rule quiet_seq [OF assms(1) _ assms(2)])
  show "\<forall>argv \<in> set (preamble b t l). \<exists>x. argv \<in> {[''sf'', ''probe''], [''nand'', ''device'', x], [''ipq_nand'', x], [''mmc'', ''dev'', x]}"
    by (simp add: preamble_def)
qed

text \<open>What a line of \<open>write_to_flash\<close>, of \<open>fl_erase\<close> and of \<open>read_from_flash\<close> does.\<close>

abbreviation area_good :: "int \<Rightarrow> u32 \<Rightarrow> u32 \<Rightarrow> bool" where
  "area_good t off n \<equiv> good (driver t) (unat off * unit_bytes b (driver t)) (unat n * unit_bytes b (driver t))"

lemma write_effect:
  assumes d: "ok d" and t: "known_type t" "layout_ok l" and g: "area_good t off psz" and le: "fsz \<le> psz"
    and line: "write_line b t a off psz fsz l = Some line" and run: "run_line base d m line = (r, m', d')"
  shows "ok d' \<and> m' = m \<and> same_outside (cells d) (cells d') (driver t) (unat off * unit_bytes b (driver t)) (unat psz * unit_bytes b (driver t))
    \<and> (r = 0 \<longrightarrow> cells_read (cells d' (driver t)) (unat off * unit_bytes b (driver t)) (unat fsz * unit_bytes b (driver t))
         = ram_bytes m a (unat fsz * unit_bytes b (driver t)))"
proof -
  define c u where "c = driver t" and "u = unit_bytes b (driver t)"
  have lu: "unat fsz * u \<le> unat psz * u" using le by (simp add: word_le_nat_alt)
  have g': "area_good t off fsz" using good_part g lu by (simp add: u_def)
  obtain r0 m0 d0 where p: "run_seq base (preamble b t l) d m = (r0, m0, d0)" by (metis prod_cases3)
  note p' = preamble_quiet [OF d p]
  obtain r1 m1 d1 where e: "base [c, ''erase'', hex32 off, hex32 psz] d0 m0 = (r1, m1, d1)" by (metis prod_cases3)
  note e' = erase_law [OF _ driver_in g e [unfolded c_def]]
  obtain r2 m2 d2 where w: "base [c, ''write'', hex32 a, hex32 off, hex32 fsz] d1 m1 = (r2, m2, d2)" by (metis prod_cases3)
  note w' = write_law [OF _ driver_in g' w [unfolded c_def]]
  have R: "(r, m', d') = (if r0 \<noteq> 0 then (r0, m0, d0) else if r1 \<noteq> 0 then (r1, m1, d1) else (r2, m2, d2))"
    using run p e w unfolding run_line_def line_commands(1) [OF t line] run_seq_append c_def [symmetric] by (auto split: if_splits)
  consider "r0 \<noteq> 0" "(r, m', d') = (r0, m0, d0)" | "r0 = 0" "r1 \<noteq> 0" "(r, m', d') = (r1, m1, d1)" | "r0 = 0" "r1 = 0" "(r, m', d') = (r2, m2, d2)"
    using R by (auto split: if_splits)
  then show ?thesis
  proof cases
    case 3
    have "blank d1 c (unat off * u) (unat fsz * u)" using e' p' 3(2) lu blank_part by (auto simp: c_def u_def)
    then show ?thesis
      using 3 p' e' w' same_outside_trans [of "cells d" "cells d1" c "unat off * u" "unat psz * u" "cells d2" "unat fsz * u"] lu
      by (auto simp: c_def u_def)
  qed (use p' e' in auto)
qed

lemma erase_effect:
  assumes d: "ok d" and t: "known_type t" "layout_ok l" and g: "area_good t off psz"
    and line: "erase_line b t off psz l = Some line" and run: "run_line base d m line = (r, m', d')"
  shows "ok d' \<and> m' = m \<and> same_outside (cells d) (cells d') (driver t) (unat off * unit_bytes b (driver t)) (unat psz * unit_bytes b (driver t))"
proof -
  obtain r0 m0 d0 where p: "run_seq base (preamble b t l) d m = (r0, m0, d0)" by (metis prod_cases3)
  note p' = preamble_quiet [OF d p]
  obtain r1 m1 d1 where e: "base [driver t, ''erase'', hex32 off, hex32 psz] d0 m0 = (r1, m1, d1)" by (metis prod_cases3)
  note e' = erase_law [OF _ driver_in g e]
  have "(r, m', d') = (if r0 \<noteq> 0 then (r0, m0, d0) else (r1, m1, d1))"
    using run p e unfolding run_line_def line_commands(2) [OF t line] run_seq_append by (auto split: if_splits)
  then show ?thesis using p' e' by (auto split: if_splits)
qed

lemma read_effect:
  assumes d: "ok d" and t: "known_type t" "layout_ok l" and g: "area_good t off n"
    and line: "read_line b t a off n l False = Some line" and run: "run_line base d m line = (r, m', d')"
  shows "ok d' \<and> cells d' = cells d
    \<and> (r = 0 \<longrightarrow> m' = ram_write m a (cells_read (cells d (driver t)) (unat off * unit_bytes b (driver t)) (unat n * unit_bytes b (driver t))))"
proof -
  obtain r0 m0 d0 where p: "run_seq base (preamble b t l) d m = (r0, m0, d0)" by (metis prod_cases3)
  note p' = preamble_quiet [OF d p]
  obtain r1 m1 d1 where e: "base [driver t, ''read'', hex32 a, hex32 off, hex32 n] d0 m0 = (r1, m1, d1)" by (metis prod_cases3)
  note e' = read_law [OF _ driver_in g e]
  have "(r, m', d') = (if r0 \<noteq> 0 then (r0, m0, d0) else (r1, m1, d1))"
    using run p e unfolding run_line_def line_commands(3) [OF t line] run_seq_append by (auto split: if_splits)
  then show ?thesis using p' e' by (auto split: if_splits)
qed

end

end
