(* ===== verification/FlashProps.thy ===== *)
theory FlashProps
  imports FlashProofs
begin

text \<open>
  Properties of \<^verbatim>\<open>flash\<close>, \<^verbatim>\<open>flasherase\<close> and \<^verbatim>\<open>flashread\<close> on the chips, for any driver commands that
  satisfy \<open>flash_drivers\<close>, and a simulation of NOR, NAND and eMMC chips that does.
\<close>

section \<open>Effects\<close>

lemma take_ram_bytes: "n \<le> k \<Longrightarrow> take n (ram_bytes m a k) = ram_bytes m a n"
  by (simp add: ram_bytes_def take_map)

lemma take_cells_read: "n \<le> k \<Longrightarrow> take n (cells_read m a k) = cells_read m a n"
  by (simp add: cells_read_def take_map)

lemma ram_bytes_write_take: "n \<le> length bs \<Longrightarrow> length bs \<le> 2 ^ 32 \<Longrightarrow> ram_bytes (ram_write m a bs) a n = take n bs"
  using ram_bytes_write [of bs m a] take_ram_bytes [of n "length bs" "ram_write m a bs" a] by simp

abbreviation area_ok :: "(string \<Rightarrow> nat \<Rightarrow> nat \<Rightarrow> bool) \<Rightarrow> soc \<Rightarrow> target \<Rightarrow> bool" where
  "area_ok good b tg \<equiv> (case area b tg of (c, off, n) \<Rightarrow> good c off n)"

lemma run_command_parts:
  "mem (snd (run_command ip line s)) = fst (snd (ip (dev s) (mem s) line))"
  "dev (snd (run_command ip line s)) = snd (snd (ip (dev s) (mem s) line))"
  "fst (run_command ip line s) = fst (ip (dev s) (mem s) line)"
  by (simp_all add: run_command_def split_beta)

lemma sprintf_run_parts:
  "mem (snd (sprintf_run ip cap line s)) = fst (snd (ip (dev s) (mem s) line))"
  "dev (snd (sprintf_run ip cap line s)) = snd (snd (ip (dev s) (mem s) line))"
  "fst (sprintf_run ip cap line s) = fst (ip (dev s) (mem s) line)"
  by (simp_all add: sprintf_run_def run_command_parts)

context flash_drivers
begin

lemma write_to_flash_effect:
  assumes "ok (dev s)" and "known_type t" "layout_ok l" and "area_good t off psz" and "fsz \<le> psz"
    and "write_to_flash b e (run_line base) t a off psz fsz l s = (r, s')"
  shows "ok (dev s') \<and> mem s' = mem s
    \<and> same_outside (cells (dev s)) (cells (dev s')) (driver t) (unat off * unit_bytes b (driver t)) (unat psz * unit_bytes b (driver t))
    \<and> (r = 0 \<longrightarrow> cells_read (cells (dev s') (driver t)) (unat off * unit_bytes b (driver t)) (unat fsz * unit_bytes b (driver t))
         = ram_bytes (mem s) a (unat fsz * unit_bytes b (driver t)))"
proof -
  obtain line where line: "write_line b t a off psz fsz l = Some line" using lines(1) [OF assms(2)] by blast
  obtain r0 m0 d0 where run: "run_line base (dev s) (mem s) line = (r0, m0, d0)" by (metis prod_cases3)
  have "mem s' = m0" "dev s' = d0" "r = 0 \<longleftrightarrow> r0 = 0"
    using assms(6) run line by (auto simp: write_to_flash_def Let_def split_beta sprintf_run_parts split: if_splits)
  then show ?thesis using write_effect [OF assms(1-5) line run] by simp
qed

lemma fl_erase_effect:
  assumes "ok (dev s)" and "known_type t" "layout_ok l" and "area_good t off psz"
    and "fl_erase b e (run_line base) t off psz l s = (r, s')"
  shows "ok (dev s') \<and> mem s' = mem s
    \<and> same_outside (cells (dev s)) (cells (dev s')) (driver t) (unat off * unit_bytes b (driver t)) (unat psz * unit_bytes b (driver t))"
proof -
  obtain line where line: "erase_line b t off psz l = Some line" using lines(2) [OF assms(2)] by blast
  obtain r0 m0 d0 where run: "run_line base (dev s) (mem s) line = (r0, m0, d0)" by (metis prod_cases3)
  have "mem s' = m0" "dev s' = d0"
    using assms(5) run line by (auto simp: fl_erase_def Let_def split_beta sprintf_run_parts)
  then show ?thesis using erase_effect [OF assms(1-4) line run] by simp
qed

lemma read_from_flash_effect:
  assumes "ok (dev s)" and "known_type t" "layout_ok l" and "area_good t off n" and "nand_idx b < 10 ^ 9"
    and "read_from_flash b (run_line base) t a off n l False s = (r, s')"
  shows "ok (dev s') \<and> cells (dev s') = cells (dev s)
    \<and> (r = 0 \<longrightarrow> mem s' = ram_write (mem s) a
         (cells_read (cells (dev s) (driver t)) (unat off * unit_bytes b (driver t)) (unat n * unit_bytes b (driver t))))"
proof -
  obtain line where line: "read_line b t a off n l False = Some line" using lines(3) [OF assms(2)] by blast
  have "nand_idx b < 10 ^ Suc 8" using assms(5) by simp
  from length_digits_base [OF _ this] have "length (fmt_dec (nand_idx b)) \<le> 9" by (simp add: fmt_dec_def)
  then have "length line < 255"
    using line layout_plain [OF assms(3)] length_hex32 [of a] length_hex32 [of off] length_hex32 [of n]
    by (auto simp: read_line_def nand_prefix_def fmt_int_nat Let_def split: if_splits)
  then have sn: "snprintf 256 line = line" by (simp add: snprintf_def)
  obtain r0 m0 d0 where run: "run_line base (dev s) (mem s) line = (r0, m0, d0)" by (metis prod_cases3)
  have "mem s' = m0" "dev s' = d0" "r = 0 \<longleftrightarrow> r0 = 0"
    using assms(6) run line sn by (auto simp: read_from_flash_def Let_def split_beta run_command_parts split: if_splits)
  then show ?thesis using read_effect [OF assms(1-4) line run] by simp
qed

lemma flash_at_effect:
  assumes d: "ok (dev s)" and tg: "flash_lookup b t name n = Found tg" "\<not> gpt_name_of name" "known_type (t_type tg)"
    and area: "area b tg = (c, off, len)" "good c off len"
    and run: "do_flash_at b e (run_line base) t wr name a n s = (r, s')"
  shows "ok (dev s') \<and> mem s' = mem s \<and> same_outside (cells (dev s)) (cells (dev s')) c off len
    \<and> (wr \<and> r = 0 \<longrightarrow> adjusted_size b tg n \<le> t_size tg
        \<and> cells_read (cells (dev s') c) off (unat (adjusted_size b tg n) * unit_bytes b c) = ram_bytes (mem s) a (unat (adjusted_size b tg n) * unit_bytes b c))"
proof -
  have g: "area_good (t_type tg) (t_off tg) (t_size tg)" using area by (auto simp: area_def Let_def)
  have c: "c = driver (t_type tg)" "off = unat (t_off tg) * unit_bytes b c" "len = unat (t_size tg) * unit_bytes b c"
    using area(1) by (auto simp: area_def Let_def)
  note l = layout_lookup [OF tg(1)]
  show ?thesis
  proof (cases wr)
    case False
    then have "fl_erase b e (run_line base) (t_type tg) (t_off tg) (t_size tg) (t_layout tg) s = (r, s')" using run tg(1) by (simp add: do_flash_at_def)
    then show ?thesis using fl_erase_effect [OF d tg(3) l g] False c by simp
  next
    case True
    then have f: "flash_target b e (run_line base) name tg a n s = (r, s')" using run tg(1) by (simp add: do_flash_at_def)
    show ?thesis
    proof (cases "adjusted_size b tg n > t_size tg")
      case True
      then show ?thesis using f d by (auto simp: flash_target_def)
    next
      case False
      then have le: "adjusted_size b tg n \<le> t_size tg" by simp
      then have "write_to_flash b e (run_line base) (t_type tg) a (t_off tg) (t_size tg) (adjusted_size b tg n) (t_layout tg) s = (r, s')"
        using f tg(2) False unfolding flash_target_def gpt_name_flip by simp
      then show ?thesis using write_to_flash_effect [OF d tg(3) l g le] le c by simp
    qed
  qed
qed

lemma flashread_effect:
  assumes d: "ok (dev s)" and tg: "read_lookup b (if ftn \<noteq> - 1 then ftn else fl_type b) name = Inr tg" "known_type (t_type tg)" "layout_ok (t_layout tg)"
    and nm: "strcmp name ''nor_full'' \<noteq> 0" "strcmp name ''nand_full'' \<noteq> 0" and idx: "nand_idx b < 10 ^ 9"
    and area: "area b tg = (c, off, len)" "good c off len"
    and run: "flashread_partition b (run_line base) name a n False ftn s = (out, ftn', s')"
  shows "ok (dev s') \<and> cells (dev s') = cells (dev s) \<and> (ftn = - 1 \<longrightarrow> ftn' = - 1)
    \<and> (out \<noteq> None \<longrightarrow> mem s' = ram_write (mem s) a (cells_read (cells (dev s) c) off (unat (read_amount tg n) * unit_bytes b c)))"
proof -
  define k where "k = read_amount tg n"
  have c: "c = driver (t_type tg)" "off = unat (t_off tg) * unit_bytes b c" "len = unat (t_size tg) * unit_bytes b c"
    using area(1) by (auto simp: area_def Let_def)
  have "k \<le> t_size tg" by (auto simp: k_def read_amount_def Let_def split: option.split)
  then have "unat k * unit_bytes b c \<le> len" using c by (simp add: word_le_nat_alt)
  then have g: "area_good (t_type tg) (t_off tg) k" using good_part area(2) c by simp
  obtain r1 s1 where f: "read_from_flash b (run_line base) (t_type tg) a (t_off tg) k (t_layout tg) False s = (r1, s1)" by fastforce
  have "s' = s1" "out \<noteq> None \<longrightarrow> r1 = 0" "ftn = - 1 \<longrightarrow> ftn' = - 1"
    using run f tg(1) nm by (auto simp: flashread_partition_def k_def Let_def split: if_splits)
  then show ?thesis using read_from_flash_effect [OF d tg(2,3) g idx f] c by (simp add: k_def)
qed

end

section \<open>Properties\<close>


text \<open>
  C17: \<^verbatim>\<open>flash\<close> with an image that has more bytes than its partition is refused, on NOR, NAND and eMMC: no
  command is run, RAM and the flash chips are untouched, and a flash type chosen with \<^verbatim>\<open>flupdate\<close> is given up.
\<close>

theorem oversized_image_refused:
  assumes tg: "flash_lookup b t name n = Found tg" "\<not> gpt_name_of name" "t = (if ftn \<noteq> - 1 then ftn else fl_type b)"
      "t_type tg = SMEM_BOOT_MMC_FLASH \<longrightarrow> mmc_blk b \<noteq> None"
    and n: "sizes_ok b n" and big: "area b tg = (c, off, len)" "len < unat n"
    and args: "argv ! 0 = ''flash''" "argv ! 1 = name" "flash_args e argv = Some (a, n)"
  shows "do_flash b e ip argv ftn s = (CMD_RET_FAILURE, - 1, s)"
proof -
  have "t_type tg = SMEM_BOOT_MMC_FLASH \<Longrightarrow> mmc_blk b \<noteq> None" using tg(4) by blast
  note c = adjusted_covers [OF tg(1,2) this n]
  have "unat (t_size tg) * unit_bytes b (driver (t_type tg)) < unat n" using big by (auto simp: area_def Let_def)
  then have "unat (t_size tg) * unit_bytes b (driver (t_type tg)) < unat (adjusted_size b tg n) * unit_bytes b (driver (t_type tg))"
    using c by linarith
  then have "t_size tg < adjusted_size b tg n" unfolding word_less_nat_alt mult_less_cancel2 by blast
  then have "do_flash_at b e ip t True name a n s = (CMD_RET_FAILURE, s)" using tg(1) by (simp add: do_flash_at_def flash_target_def)
  then show ?thesis using args tg(3) by (simp add: do_flash_def strcmp_eq_0)
qed

lemma frame:
  "read_amount (tg\<lparr>t_file := x, t_blksz := y\<rparr>) n = read_amount tg n" "area b (tg\<lparr>t_file := x, t_blksz := y\<rparr>) = area b tg"
  by (simp_all add: read_amount_def area_def Let_def split: option.split)

text \<open>
  C12: What \<^verbatim>\<open>flash\<close> wrote from RAM is what \<^verbatim>\<open>flashread\<close> of the same partition and size puts back into RAM,
  on NOR, on NAND and on eMMC, also when the size is not a whole number of pages or sectors and RAM was changed in
  between.
\<close>

theorem flash_then_flashread:
  assumes drv: "flash_drivers b base ok cells blank good" and d: "ok (dev s)"
    and tg: "flash_lookup b t name n = Found tg" "\<not> gpt_name_of name" "known_type (t_type tg)"
      "t = (if ftn \<noteq> - 1 then ftn else fl_type b)" "t = SMEM_BOOT_MMC_FLASH \<or> t = SMEM_BOOT_NO_FLASH \<or> t_type tg = SMEM_BOOT_MMC_FLASH \<longrightarrow> mmc_blk b \<noteq> None"
    and n: "sizes_ok b n" "n \<noteq> 0" "unat n + 0x1000 \<le> 2 ^ 32" and idx: "nand_idx b < 10 ^ 9"
    and nm: "strcmp name ''nor_full'' \<noteq> 0" "strcmp name ''nand_full'' \<noteq> 0"
    and area: "area b tg = (c, off, len)" "good c off len"
    and w: "do_flash_at b e (run_line base) t True name a n s = (0, s1)"
    and r: "flashread_partition b (run_line base) name a' n False ftn (s1\<lparr>mem := m\<rparr>) = (Some out, ftn', s2)"
  shows "ram_bytes (mem s2) a' (unat n) = ram_bytes (mem s) a (unat n)"
proof -
  define tg' where "tg' = tg\<lparr>t_file := 0, t_blksz := 0\<rparr>"
  define u k where "u = unit_bytes b c" and "k = read_amount tg n"
  have c: "c = driver (t_type tg)" using area(1) by (auto simp: area_def Let_def)
  note f = flash_drivers.flash_at_effect [OF drv d tg(1-3) area w]
  have "t = SMEM_BOOT_MMC_FLASH \<or> t = SMEM_BOOT_NO_FLASH \<Longrightarrow> mmc_blk b \<noteq> None" using tg(5) by blast
  then have rl: "read_lookup b t name = Inr tg'"
    using lookup_agree [OF tg(2), of t b n] tg(1) by (simp add: tg'_def)
  have tg': "known_type (t_type tg')" "layout_ok (t_layout tg')" "area b tg' = (c, off, len)" "read_amount tg' n = k"
    using tg(3) layout_lookup [OF tg(1)] area(1) by (simp_all add: tg'_def k_def frame)
  have "ok (dev (s1\<lparr>mem := m\<rparr>))" using f by simp
  note g = flash_drivers.flashread_effect [OF drv this rl [unfolded tg(4)] tg'(1,2) nm idx tg'(3) area(2) r]
  have "t_type tg = SMEM_BOOT_MMC_FLASH \<Longrightarrow> mmc_blk b \<noteq> None" using tg(5) by blast
  then have am: "unat n \<le> unat k * u" "unat k * u \<le> unat (adjusted_size b tg n) * u" "unat k * u \<le> 2 ^ 32"
    using amounts [OF tg(1,2) _ n(1,2)] f n(3) by (simp_all add: k_def u_def c word_le_nat_alt)
  have am': "unat n \<le> unat (adjusted_size b tg n) * u" using am(1,2) by (rule order_trans)
  have "ram_bytes (mem s2) a' (unat n) = take (unat n) (cells_read (cells (dev s1) c) off (unat k * u))"
    using g tg'(4) am by (simp add: u_def ram_bytes_write_take)
  also have "\<dots> = take (unat n) (cells_read (cells (dev s1) c) off (unat (adjusted_size b tg n) * u))"
    unfolding take_cells_read [OF am(1)] take_cells_read [OF am'] ..
  also have "\<dots> = ram_bytes (mem s) a (unat n)" using f take_ram_bytes [OF am', of "mem s" a] by (simp add: u_def)
  finally show ?thesis .
qed

section \<open>Commands that succeed\<close>

definition never_fails :: "'d cmds \<Rightarrow> bool" where
  "never_fails base \<longleftrightarrow> (\<forall>argv d m. fst (base argv d m) = 0)"

lemma seq_succeeds: "never_fails base \<Longrightarrow> fst (run_seq base cs d m) = 0"
  by (induction cs arbitrary: d m) (simp_all add: split_beta Let_def never_fails_def)

lemma line_succeeds: "never_fails base \<Longrightarrow> fst (run_line base d m line) = 0"
  by (simp add: run_line_def seq_succeeds)

lemma flash_succeeds:
  assumes "never_fails base" and "flash_lookup b t name n = Found tg" and "\<not> gpt_name_of name" and "known_type (t_type tg)"
    and "wr \<Longrightarrow> adjusted_size b tg n \<le> t_size tg"
  shows "fst (do_flash_at b e (run_line base) t wr name a n s) = 0"
proof -
  have "fst (write_to_flash b e (run_line base) (t_type tg) a off psz k l s) = 0" for off psz k l
    using lines(1) [OF assms(4)] by (auto simp: write_to_flash_def split_beta Let_def sprintf_run_parts line_succeeds [OF assms(1)])
  moreover have "fst (fl_erase b e (run_line base) (t_type tg) off psz l s) = 0" for off psz l
    using lines(2) [OF assms(4)] by (auto simp: fl_erase_def split_beta Let_def sprintf_run_parts line_succeeds [OF assms(1)])
  ultimately show ?thesis using assms(2,3,5) unfolding do_flash_at_def flash_target_def gpt_name_flip by (auto simp: not_less)
qed

lemma read_succeeds:
  assumes "never_fails base" and "read_lookup b (if ftn \<noteq> - 1 then ftn else fl_type b) name = Inr tg" and "known_type (t_type tg)"
    and "strcmp name ''nor_full'' \<noteq> 0" and "strcmp name ''nand_full'' \<noteq> 0"
  shows "\<exists>out. flashread_partition b (run_line base) name a n False ftn s
    = (Some out, ftn, snd (snd (flashread_partition b (run_line base) name a n False ftn s)))"
proof -
  have "fst (read_from_flash b (run_line base) (t_type tg) a off k l False s) = 0" for off k l
    using lines(3) [OF assms(3)] by (auto simp: read_from_flash_def split_beta Let_def run_command_parts line_succeeds [OF assms(1)])
  then show ?thesis using assms by (simp add: flashread_partition_def Let_def split_beta)
qed

section \<open>Chips\<close>

text \<open>
  A simulation of the driver commands. Erasing a NOR or a NAND sets its bytes to 0xFF and writing can
  only clear bits; an eMMC is overwritten. There are no bad blocks.
\<close>

definition char_and :: "char \<Rightarrow> char \<Rightarrow> char" where
  "char_and x y = char_of (of_char x AND of_char y :: nat)"

definition program :: "string \<Rightarrow> (nat \<Rightarrow> char) \<Rightarrow> nat \<Rightarrow> string \<Rightarrow> nat \<Rightarrow> char" where
  "program c f off bs =
     (if c = ''mmc'' then cells_write f off bs
      else cells_write f off (map2 char_and bs (cells_read f off (length bs))))"

definition sim :: "soc \<Rightarrow> (string \<Rightarrow> nat \<Rightarrow> char) cmds" where
  "sim b argv d m =
     (let c = hd argv; u = unit_bytes b c; num = (\<lambda>i. unat (hex_arg (argv ! i)))
      in if c = ''mw'' \<and> length argv = 4 then
           (0, ram_write m (hex_arg (argv ! 1)) (concat (replicate (num 3) (le_chars 4 (hex_arg (argv ! 2))))), d)
         else if c \<in> DRIVERS \<and> argv ! 1 = ''read'' \<and> length argv = 5 then
           (0, ram_write m (hex_arg (argv ! 2)) (cells_read (d c) (num 3 * u) (num 4 * u)), d)
         else if c \<in> DRIVERS \<and> argv ! 1 = ''write'' \<and> length argv = 5 then
           (0, m, d(c := program c (d c) (num 3 * u) (ram_bytes m (hex_arg (argv ! 2)) (num 4 * u))))
         else if c \<in> DRIVERS \<and> argv ! 1 = ''erase'' \<and> length argv = 4 then
           (0, m, d(c := cells_write (d c) (num 2 * u) (replicate (num 3 * u) CHR 0xFF)))
         else (0, m, d))"

definition erased :: "(string \<Rightarrow> nat \<Rightarrow> char) \<Rightarrow> string \<Rightarrow> nat \<Rightarrow> nat \<Rightarrow> bool" where
  "erased d c off n \<longleftrightarrow> (\<forall>i < n. d c (off + i) = CHR 0xFF)"

lemma hex_arg_hex32 [simp]: "hex_arg (hex32 w) = w"
  using simple_strtoul_roundtrip [of w 16] by (simp add: hex_arg_def hex32_def)

lemma char_and_FF: "char_and x (CHR 0xFF) = x"
proof -
  have "(of_char x AND 255 :: nat) = take_bit 8 (of_char x)" by (simp add: take_bit_eq_mask mask_eq_exp_minus_1)
  then show ?thesis by (simp add: char_and_def take_bit_eq_mod)
qed

lemma program_erased:
  assumes "erased d c off n" and n: "length bs = n"
  shows "cells_read (program c (d c) off bs) off n = bs"
proof (cases "c = ''mmc''")
  case False
  have "map2 char_and bs (cells_read (d c) off (length bs)) = bs"
    using assms by (intro nth_equalityI) (auto simp: erased_def char_and_FF)
  then show ?thesis using False cells_read_write [of "d c" off bs] by (simp add: program_def n)
qed (use cells_read_write [of "d c" off bs] n in \<open>simp add: program_def\<close>)

lemma cells_write_outside: "\<not> (off \<le> x \<and> x < off + length bs) \<Longrightarrow> cells_write f off bs x = f x"
  by (auto simp: cells_write_def)

lemma program_outside: "\<not> (off \<le> x \<and> x < off + length bs) \<Longrightarrow> program c f off bs x = f x"
  by (simp add: program_def cells_write_outside)

lemma erased_erase: "erased (d(c := cells_write (d c) off (replicate n CHR 0xFF))) c off n"
  by (simp add: erased_def cells_write_def)

lemma erased_part: "erased d c off n \<Longrightarrow> k \<le> n \<Longrightarrow> erased d c off k"
  by (simp add: erased_def)

lemma mw_value: "hex_arg ''0x00'' = 0" "unat (hex_arg ''0x200'') = 0x200"
  by code_simp+

interpretation sim: flash_drivers b "sim b" "\<lambda>_. True" "\<lambda>d. d" erased "\<lambda>_ _ _. True"
proof unfold_locales
  fix d m r m' d' and argv :: "string list" and z
  assume "argv \<in> {[''sf'', ''probe''], [''nand'', ''device'', z], [''ipq_nand'', z], [''mmc'', ''dev'', z]}" "sim b argv d m = (r, m', d')"
  then show "True \<and> m' = m \<and> d' = d \<and> erased d' = erased d" by (auto simp: sim_def Let_def)
next
  fix d m r m' d' a
  assume "sim b [''mw'', hex32 a, ''0x00'', ''0x200''] d m = (r, m', d')"
  then show "True \<and> d' = d \<and> (\<forall>p. 0x800 \<le> unat (p - a) \<longrightarrow> m' p = m p)"
    by (auto simp: sim_def Let_def mw_value length_concat sum_list_replicate intro!: ram_write_miss)
qed (auto simp: sim_def Let_def same_outside_def cells_write_outside program_outside program_erased erased_part erased_erase)

section \<open>Examples\<close>

lemma sim_succeeds: "fst (sim b argv d m) = 0"
  by (simp add: sim_def Let_def)

lemma sim_never_fails: "never_fails (sim b)"
  by (simp add: never_fails_def sim_succeeds)

text \<open>A board with an eMMC only, and one that boots from a NOR.\<close>

definition no_ptn :: smem_ptn where
  "no_ptn = \<lparr>ptn_name = replicate 16 NUL, ptn_start = 0, ptn_size = 0, ptn_attr = 0\<rparr>"

definition no_chip :: mtd_info where
  "no_chip = \<lparr>mtd_size = 0, mtd_writesize = 0, mtd_oobsize = 0, mtd_erasesize = 0\<rparr>"

definition emmc_soc :: soc where
  "emmc_soc = \<lparr>build_ipq40xx = False, build_ipq806x = False, build_ubi_vol = False, ptable_len = 0, ptable_parts = replicate 32 no_ptn,
     beyond_parts = (\<lambda>_. no_ptn), boot_flash_type = Some SMEM_BOOT_MMC_FLASH, dual_boot = None, fl_type = SMEM_BOOT_MMC_FLASH,
     fl_block_size = 0, fl_density = 0, fl_secondary = SMEM_BOOT_NO_FLASH, hlos_entry = (0, 0), rootfs_entry = (0, 0), spi_nand = 0,
     spi_info_idx = 1, spi_chip_size = 0, nand_infos = (\<lambda>_. no_chip),
     mmc_blk = Some \<lparr>dev_blksz = 512, dev_lba = 0x70000,
       gpt_table = Some [Some \<lparr>gpt_name = ''0:APPSBL'', gpt_start = 0x1000, gpt_sectors = 0x500\<rparr>,
         Some \<lparr>gpt_name = ''0:APPSBL_1'', gpt_start = 0x1500, gpt_sectors = 0x500\<rparr>]\<rparr>\<rparr>"

definition nor_ptn :: "string \<Rightarrow> u32 \<Rightarrow> u32 \<Rightarrow> smem_ptn" where
  "nor_ptn name st n = \<lparr>ptn_name = name @ replicate (16 - length name) NUL, ptn_start = st, ptn_size = n, ptn_attr = 0xffff\<rparr>"

definition nor_soc :: soc where
  "nor_soc = emmc_soc\<lparr>ptable_len := 2, ptable_parts := [nor_ptn ''0:APPSBL'' 0x10 0x10, nor_ptn ''0:APPSBL_1'' 0x20 0x10] @ replicate 30 no_ptn,
     boot_flash_type := Some SMEM_BOOT_SPI_FLASH, fl_type := SMEM_BOOT_SPI_FLASH, fl_block_size := 0x10000, spi_chip_size := 0x800000,
     mmc_blk := None\<rparr>"

definition plain_env :: "'d fl_env" where
  "plain_env = \<lparr>env = (\<lambda>_. None), gpt_buf = None, ubi_of = (\<lambda>_. None), junk = []\<rparr>"

definition emmc_appsbl :: target where
  "emmc_appsbl = \<lparr>t_type = SMEM_BOOT_MMC_FLASH, t_off = 0x1000, t_size = 0x500, t_file = 1000, t_blksz = 512, t_blk = mmc_blk emmc_soc,
     t_layout = ''default''\<rparr>"

lemma appsbl_not_gpt: "\<not> gpt_name_of ''0:APPSBL''" "\<not> gpt_name_of ''0:APPSBL_1''"
  "strcmp ''0:APPSBL'' ''nor_full'' \<noteq> 0" "strcmp ''0:APPSBL'' ''nand_full'' \<noteq> 0"
  "strcmp ''0:APPSBL_1'' ''nor_full'' \<noteq> 0" "strcmp ''0:APPSBL_1'' ''nand_full'' \<noteq> 0"
  unfolding gpt_name_of_def by code_simp+

lemma upt_1_128: "[1..<128] = 1 # 2 # map (\<lambda>i. i + 3) [0..<125]"
  by (simp add: upt_rec)

definition emmc_blk :: blk_dev where
  "emmc_blk = the (mmc_blk emmc_soc)"

lemma emmc_parts:
  "get_partition_info_efi_by_name emmc_blk ''0:APPSBL'' = Some \<lparr>gpt_name = ''0:APPSBL'', gpt_start = 0x1000, gpt_sectors = 0x500\<rparr>"
  "get_partition_info_efi_by_name emmc_blk ''0:APPSBL_1'' = Some \<lparr>gpt_name = ''0:APPSBL_1'', gpt_start = 0x1500, gpt_sectors = 0x500\<rparr>"
  unfolding get_partition_info_efi_by_name_def upt_1_128
  by (simp_all add: get_partition_info_efi_def emmc_blk_def emmc_soc_def strcmp_eq_0)

lemma emmc_soc_simps [simp]: "mmc_blk emmc_soc = Some emmc_blk" "fl_type emmc_soc = SMEM_BOOT_MMC_FLASH"
  "dev_blksz emmc_blk = 512" "nand_idx emmc_soc = 0" "nand_infos emmc_soc 0 = no_chip"
  by (simp_all add: emmc_soc_def emmc_blk_def nand_idx_def)

lemma emmc_lookup: "flash_lookup emmc_soc SMEM_BOOT_MMC_FLASH ''0:APPSBL'' 1000 = Found emmc_appsbl"
  using appsbl_not_gpt(1)
  by (simp add: flash_lookup_def emmc_place is_nand_type_def emmc_parts emmc_appsbl_def plain_target_def)

lemma emmc_area: "area emmc_soc emmc_appsbl = (''mmc'', 0x1000 * 512, 0x500 * 512)" "known_type (t_type emmc_appsbl)"
  "adjusted_size emmc_soc emmc_appsbl 1000 \<le> t_size emmc_appsbl"
  by (simp_all add: area_def emmc_appsbl_def driver_def is_nand_type_def unit_bytes_def known_type_def adjusted_size_def)

definition loaded :: "(string \<Rightarrow> nat \<Rightarrow> char) shell" where
  "loaded = shell_on (\<lambda>x. if x = 0x4b000003 then CHR ''A'' else NUL) (\<lambda>_ _. NUL)"

definition flashed :: "(string \<Rightarrow> nat \<Rightarrow> char) shell" where
  "flashed = snd (do_flash_at emmc_soc plain_env (run_line (sim emmc_soc)) SMEM_BOOT_MMC_FLASH True ''0:APPSBL'' 0x4b000000 1000 loaded)"

definition reread :: "(string \<Rightarrow> nat \<Rightarrow> char) shell" where
  "reread = snd (snd (flashread_partition emmc_soc (run_line (sim emmc_soc)) ''0:APPSBL'' 0x4b200000 1000 False (- 1) (flashed\<lparr>mem := (\<lambda>_. NUL)\<rparr>)))"

lemma flashed_ok: "do_flash_at emmc_soc plain_env (run_line (sim emmc_soc)) SMEM_BOOT_MMC_FLASH True ''0:APPSBL'' 0x4b000000 1000 loaded = (0, flashed)"
  using flash_succeeds [OF sim_never_fails emmc_lookup appsbl_not_gpt(1) emmc_area(2) emmc_area(3)] by (simp add: flashed_def prod_eq_iff)

lemma emmc_sizes: "sizes_ok emmc_soc 1000"
  by (simp add: sizes_ok_def no_chip_def)

theorem flash_then_flashread_witness:
  "ram_bytes (mem reread) 0x4b200000 (unat (1000 :: u32)) = ram_bytes (mem loaded) 0x4b000000 (unat (1000 :: u32))"
proof -
  have "read_lookup emmc_soc SMEM_BOOT_MMC_FLASH ''0:APPSBL'' = Inr (emmc_appsbl\<lparr>t_file := 0, t_blksz := 0\<rparr>)"
    using lookup_agree [OF appsbl_not_gpt(1), of SMEM_BOOT_MMC_FLASH emmc_soc 1000] emmc_lookup by simp
  then obtain out where r: "flashread_partition emmc_soc (run_line (sim emmc_soc)) ''0:APPSBL'' 0x4b200000 1000 False (- 1) (flashed\<lparr>mem := (\<lambda>_. NUL)\<rparr>)
      = (Some out, - 1, reread)"
    using read_succeeds [OF sim_never_fails, of emmc_soc "- 1" "''0:APPSBL''"] emmc_area(2) appsbl_not_gpt(3,4) unfolding reread_def by fastforce
  show ?thesis
    by (rule flash_then_flashread [OF sim.flash_drivers_axioms _ emmc_lookup appsbl_not_gpt(1) emmc_area(2) _ _ emmc_sizes _ _ _
        appsbl_not_gpt(3,4) emmc_area(1) _ flashed_ok r]) simp_all
qed


lemma nor_lookup: "flash_lookup nor_soc SMEM_BOOT_SPI_FLASH ''0:APPSBL'' 0x100001
    = Found (plain_target SMEM_BOOT_SPI_FLASH 0x100000 0x100000 0x100001)"
proof -
  have tab: "ptable nor_soc = [nor_ptn ''0:APPSBL'' 0x10 0x10, nor_ptn ''0:APPSBL_1'' 0x20 0x10]"
    by (simp add: ptable_def nor_soc_def upt_rec)
  then have "smem_getpart nor_soc ''0:APPSBL'' = Some (0x10, 0x10)" "get_which_flash_param nor_soc ''0:APPSBL'' = 0"
    by (simp_all add: smem_getpart_def get_which_flash_param_def strncmp_eq_0 strcmp_eq_0 ptn_bytes_def nor_ptn_def part_which_flash_def)
  then show ?thesis
    by (simp add: flash_lookup_def is_nand_type_def on_second_nand_def on_second_mmc_def table_target_def plain_target_def
        nor_soc_def emmc_soc_def)
qed

theorem oversized_image_refused_witness:
  "do_flash nor_soc plain_env (run_line (sim nor_soc)) [''flash'', ''0:APPSBL'', ''0x4b000000'', ''0x100001''] (- 1) loaded
   = (CMD_RET_FAILURE, - 1, loaded)"
proof (rule oversized_image_refused [OF nor_lookup appsbl_not_gpt(1)])
  show "flash_args plain_env [''flash'', ''0:APPSBL'', ''0x4b000000'', ''0x100001''] = Some (0x4b000000, 0x100001)"
    by (simp add: flash_args_def hex_arg_def) code_simp
  show "area nor_soc (plain_target SMEM_BOOT_SPI_FLASH 0x100000 0x100000 0x100001) = (''sf'', 0x100000, 0x100000)"
    by (simp add: area_def plain_target_def driver_def is_nand_type_def unit_bytes_def)
  show "sizes_ok nor_soc 0x100001" by (simp add: sizes_ok_def nor_soc_def emmc_soc_def nand_idx_def no_chip_def)
qed (simp_all add: nor_soc_def plain_target_def)

end
