(* ===== verification/BoardProofs.thy ===== *)
theory BoardProofs
  imports UpgradeProofs FlashProps
begin

text \<open>
  The upgrade handlers on a board with its own flash commands: \<open>board_interp\<close> satisfies the contract
  \<open>flash_shell\<close> that the read-back relies on, for partitions that the board has and that do not overlap.
\<close>

definition target_of :: "soc \<Rightarrow> string \<Rightarrow> u32 \<Rightarrow> target option" where
  "target_of b name n = (case flash_lookup b (fl_type b) name n of Found tg \<Rightarrow> Some tg | _ \<Rightarrow> None)"

text \<open>The first \<open>k\<close> bytes of a partition, or all of it when it has fewer, and whether a file of \<open>n\<close> bytes fits it.\<close>

definition part_bytes :: "soc \<Rightarrow> ('d \<Rightarrow> string \<Rightarrow> nat \<Rightarrow> char) \<Rightarrow> u32 \<Rightarrow> 'd \<Rightarrow> string \<Rightarrow> nat \<Rightarrow> string" where
  "part_bytes b cells n d name k =
     (case target_of b name n of Some tg \<Rightarrow> (case area b tg of (c, off, len) \<Rightarrow> cells_read (cells d c) off (min k len)) | None \<Rightarrow> [])"

lemma part_bytes_cong: "cells d' = cells d \<Longrightarrow> part_bytes b cells n d' = part_bytes b cells n d"
  by (intro ext) (simp add: part_bytes_def split: option.split prod.split)

definition part_fits :: "soc \<Rightarrow> u32 \<Rightarrow> string \<Rightarrow> bool" where
  "part_fits b n name = (case target_of b name n of Some tg \<Rightarrow> adjusted_size b tg n \<le> t_size tg | None \<Rightarrow> False)"

text \<open>A partition that \<^verbatim>\<open>flash\<close> finds on a flash it knows, in an area without bad blocks.\<close>

definition flash_part_ok :: "soc \<Rightarrow> (string \<Rightarrow> nat \<Rightarrow> nat \<Rightarrow> bool) \<Rightarrow> u32 \<Rightarrow> string \<Rightarrow> bool" where
  "flash_part_ok b good n name \<longleftrightarrow> plain name \<and> name \<noteq> [] \<and> \<not> gpt_name_of name
     \<and> strcmp name ''nor_full'' \<noteq> 0 \<and> strcmp name ''nand_full'' \<noteq> 0
     \<and> (case target_of b name n of
          Some tg \<Rightarrow> known_type (t_type tg) \<and> (t_type tg = SMEM_BOOT_MMC_FLASH \<longrightarrow> mmc_blk b \<noteq> None) \<and> area_ok good b tg
        | None \<Rightarrow> False)"

definition disjoint_parts :: "soc \<Rightarrow> u32 \<Rightarrow> string \<Rightarrow> string \<Rightarrow> bool" where
  "disjoint_parts b n p q \<longleftrightarrow> (case (target_of b p n, target_of b q n) of
      (Some s, Some t) \<Rightarrow> (case (area b s, area b t) of
         ((c, off, len), (c', off', len')) \<Rightarrow> c \<noteq> c' \<or> off + len \<le> off' \<or> off' + len' \<le> off)
    | _ \<Rightarrow> True)"

text \<open>A board on which the partitions \<open>names\<close> can be flashed with a file of \<open>n\<close> bytes.\<close>

definition board_has :: "soc \<Rightarrow> (string \<Rightarrow> nat \<Rightarrow> nat \<Rightarrow> bool) \<Rightarrow> u32 \<Rightarrow> string set \<Rightarrow> bool" where
  "board_has b good n names \<longleftrightarrow> (\<forall>name \<in> names. flash_part_ok b good n name)
     \<and> (\<forall>p \<in> names. \<forall>q \<in> names. p \<noteq> q \<longrightarrow> disjoint_parts b n p q)
     \<and> sizes_ok b n \<and> n \<noteq> 0 \<and> unat n + 0x1000 \<le> 2 ^ 32 \<and> nand_idx b < 10 ^ 9
     \<and> (fl_type b = SMEM_BOOT_MMC_FLASH \<or> fl_type b = SMEM_BOOT_NO_FLASH \<longrightarrow> mmc_blk b \<noteq> None)"

locale flash_board = flash_drivers b base ok cells blank good
  for b :: soc and base :: "'d cmds" and ok cells blank good +
  fixes e :: "'d fl_env"
    and names :: "string set"
    and up :: u32
    and sz :: u32
  assumes env: "\<exists>a n. env e ''fileaddr'' = Some a \<and> env e ''filesize'' = Some n \<and> hex_arg a = up \<and> hex_arg n = sz"
    and has: "board_has b good sz names"
begin

lemma parts: "name \<in> names \<Longrightarrow> flash_part_ok b good sz name"
  and apart: "p \<in> names \<Longrightarrow> q \<in> names \<Longrightarrow> p \<noteq> q \<Longrightarrow> disjoint_parts b sz p q"
  and sizes: "sizes_ok b sz" "sz \<noteq> 0" "unat sz + 0x1000 \<le> 2 ^ 32" "nand_idx b < 10 ^ 9"
  and on_emmc: "fl_type b = SMEM_BOOT_MMC_FLASH \<or> fl_type b = SMEM_BOOT_NO_FLASH \<Longrightarrow> mmc_blk b \<noteq> None"
  using has by (auto simp: board_has_def)

abbreviation board_ok :: "int \<times> 'd \<Rightarrow> bool" where
  "board_ok x \<equiv> fst x = - 1 \<and> ok (snd x)"

lemma target:
  assumes "name \<in> names"
  obtains tg c off len where "flash_lookup b (fl_type b) name sz = Found tg" and "target_of b name sz = Some tg"
    and "known_type (t_type tg)" and "area b tg = (c, off, len)" and "good c off len" and "t_type tg = SMEM_BOOT_MMC_FLASH \<Longrightarrow> mmc_blk b \<noteq> None"
  using parts [OF assms] by (auto simp: flash_part_ok_def target_of_def split: option.splits lookup.splits prod.splits)

lemma name_ok:
  assumes "name \<in> names"
  shows "plain name" "name \<noteq> []" "\<not> gpt_name_of name" "strcmp name ''nor_full'' \<noteq> 0" "strcmp name ''nand_full'' \<noteq> 0" "name \<noteq> ''&&''"
  using parts [OF assms] plain_not_and by (auto simp: flash_part_ok_def)

lemma flash_words: "name \<in> names \<Longrightarrow> commands (words (flash_cmd name)) = [[''flash'', name]]"
  using name_ok [of name] wsplit_plain [of name _ "[]"] by (simp add: flash_cmd_def words_def)

lemma flashread_words:
  "name \<in> names \<Longrightarrow> commands (words (flashread_cmd name a n)) = [[''flashread'', name, hex32 a, hex32 n]]"
  using name_ok [of name] wsplit_plain [of "hex32 n" _ "[]"] by (simp add: flashread_cmd_def words_def wsplit_plain)

lemma clear_words:
  "commands (words (clear_tail_cmd bd n)) = [[''mw'', hex32 (UPLOAD_ADDR bd + n), ''0x00'', ''0x200''], [''mmc'', ''dev'', ''0'']]"
  by (simp add: clear_tail_cmd_def words_def wsplit_plain)

lemma parts_unchanged:
  assumes "same_outside (cells d) (cells d') c off len" and "target_of b name sz = Some tg" and "area b tg = (c, off, len)"
    and "name \<in> names" and "other \<in> names - {name}"
  shows "part_bytes b cells sz d' other = part_bytes b cells sz d other"
proof -
  obtain tg2 c2 off2 len2 where o: "target_of b other sz = Some tg2" "area b tg2 = (c2, off2, len2)"
    using target [of other] assms(5) by (metis DiffD1)
  then have "c2 \<noteq> c \<or> off2 + len2 \<le> off \<or> off + len \<le> off2"
    using apart [of name other] assms(2-5) by (auto simp: disjoint_parts_def)
  then have "cells_read (cells d' c2) off2 (min k len2) = cells_read (cells d c2) off2 (min k len2)" for k
    by (intro same_outside_read [OF assms(1)]) auto
  then show ?thesis using o by (simp add: part_bytes_def fun_eq_iff)
qed

lemma board_flash:
  assumes x: "board_ok x" and nm: "name \<in> names" and run: "board_interp b e base x m (flash_cmd name) = (r, m', x')"
  shows "board_ok x' \<and> m' = m \<and> (\<forall>other \<in> names - {name}. part_bytes b cells sz (snd x') other = part_bytes b cells sz (snd x) other)
    \<and> (r = 0 \<longrightarrow> part_fits b sz name \<and> part_bytes b cells sz (snd x') name (unat sz) = ram_bytes m up (unat sz))
    \<and> (never_fails base \<and> part_fits b sz name \<longrightarrow> r = 0)"
proof -
  obtain tg c off len where tg: "flash_lookup b (fl_type b) name sz = Found tg" "target_of b name sz = Some tg"
    "known_type (t_type tg)" "area b tg = (c, off, len)" "good c off len" "t_type tg = SMEM_BOOT_MMC_FLASH \<Longrightarrow> mmc_blk b \<noteq> None"
    using target [OF nm] by metis
  obtain d where d: "x = (- 1, d)" "ok d" using x by (cases x) auto
  obtain r1 s1 where f: "do_flash_at b e (run_line base) (fl_type b) True name up sz (shell_on m d) = (r1, s1)" by fastforce
  have "flash_args e [''flash'', name] = Some (up, sz)" using env by (auto simp: flash_args_def)
  then have "do_flash b e (run_line base) [''flash'', name] (- 1) (shell_on m d) = (r1, - 1, s1)"
    using f by (simp add: do_flash_def strcmp_eq_0)
  then have R: "r = r1" "m' = mem s1" "x' = (- 1, dev s1)"
    using run d by (auto simp: board_interp_def run_line_def flash_words [OF nm] flash_cmds_def Let_def split: if_splits)
  have "ok (dev (shell_on m d))" using d by (simp add: shell_on_def)
  note g = flash_at_effect [OF this tg(1) name_ok(3) [OF nm] tg(3-5) f]
  have "part_bytes b cells sz (dev s1) other = part_bytes b cells sz d other" if "other \<in> names - {name}" for other
    using parts_unchanged [OF _ tg(2,4) nm that, of d "dev s1"] g by (simp add: shell_on_def)
  moreover have "part_bytes b cells sz (dev s1) name (unat sz) = ram_bytes m up (unat sz)" if "r = 0"
  proof -
    define k u where "k = adjusted_size b tg sz" and "u = unit_bytes b c"
    have k: "k \<le> t_size tg" "cells_read (cells (dev s1) c) off (unat k * u) = ram_bytes m up (unat k * u)"
      using g R(1) that by (simp_all add: k_def u_def shell_on_def)
    have c: "c = driver (t_type tg)" "len = unat (t_size tg) * u" using tg(4) by (auto simp: area_def Let_def u_def)
    have "unat sz \<le> unat (read_amount tg sz) * u" "unat (read_amount tg sz) * u \<le> unat k * u"
      using amounts [OF tg(1) name_ok(3) [OF nm] tg(6) sizes(1,2)] k(1) by (auto simp: k_def u_def c word_le_nat_alt)
    then have n: "unat sz \<le> unat k * u" by (rule order_trans)
    have "unat k * u \<le> len" using k(1) c(2) by (simp add: word_le_nat_alt)
    then show ?thesis using tg(2,4) n k(2) take_cells_read [OF n, of "cells (dev s1) c" off] take_ram_bytes [OF n, of m up]
      by (simp add: part_bytes_def min_absorb1)
  qed
  moreover have "r = 0" if "never_fails base" "part_fits b sz name"
    using flash_succeeds [OF that(1) tg(1) name_ok(3) [OF nm] tg(3), of True e up "shell_on m d"] that(2) tg(2) f R(1)
    by (simp add: part_fits_def)
  ultimately show ?thesis using g R d tg(2) by (auto simp: shell_on_def part_fits_def)
qed

lemma board_read:
  assumes x: "board_ok x" and nm: "name \<in> names" and fits: "part_fits b sz name"
    and run: "board_interp b e base x m (flashread_cmd name a sz) = (0, m', x')"
  shows "\<exists>c. m' = ram_write m a c \<and> unat sz \<le> length c \<and> length c \<le> unat sz + 0x1000
    \<and> take (unat sz) c = part_bytes b cells sz (snd x) name (unat sz) \<and> board_ok x'
    \<and> part_bytes b cells sz (snd x') = part_bytes b cells sz (snd x)"
proof -
  obtain tg c off len where tg: "flash_lookup b (fl_type b) name sz = Found tg" "target_of b name sz = Some tg"
    "known_type (t_type tg)" "area b tg = (c, off, len)" "good c off len" "t_type tg = SMEM_BOOT_MMC_FLASH \<Longrightarrow> mmc_blk b \<noteq> None"
    using target [OF nm] by metis
  define tg' u k where "tg' = tg\<lparr>t_file := 0, t_blksz := 0\<rparr>" and "u = unit_bytes b c" and "k = read_amount tg sz"
  have rl: "read_lookup b (if (- 1 :: int) \<noteq> - 1 then - 1 else fl_type b) name = Inr tg'"
    using lookup_agree [OF name_ok(3) [OF nm] on_emmc, where t = "fl_type b" and n = sz] tg(1) by (simp add: tg'_def)
  have tg': "known_type (t_type tg')" "layout_ok (t_layout tg')" "area b tg' = (c, off, len)" "read_amount tg' sz = k"
    using tg(3,4) layout_lookup [OF tg(1)] by (simp_all add: tg'_def k_def frame)
  obtain d where d: "x = (- 1, d)" "ok d" using x by (cases x) auto
  obtain out ftn' s1 where f: "flashread_partition b (run_line base) name a sz False (- 1) (shell_on m d) = (out, ftn', s1)"
    by (metis prod_cases3)
  then have "do_flashread b (run_line base) [''flashread'', name, hex32 a, hex32 sz] (- 1) (shell_on m d)
      = (if out = None then CMD_RET_USAGE else 0, ftn', s1)"
    by (simp add: do_flashread_def)
  then have R: "out \<noteq> None" "m' = mem s1" "x' = (ftn', dev s1)"
    using run d by (auto simp: board_interp_def run_line_def flashread_words [OF nm] flash_cmds_def Let_def split: if_splits)
  have "ok (dev (shell_on m d))" using d by (simp add: shell_on_def)
  note g = flashread_effect [OF this rl tg'(1,2) name_ok(4,5) [OF nm] sizes(4) tg'(3) tg(5) f]
  have le: "adjusted_size b tg sz \<le> t_size tg" using fits tg(2) by (simp add: part_fits_def)
  have c: "c = driver (t_type tg)" "len = unat (t_size tg) * u" using tg(4) by (auto simp: area_def Let_def u_def)
  have am: "unat sz \<le> unat k * u" "unat k * u \<le> unat sz + 0x1000" "unat k * u \<le> len"
    using amounts [OF tg(1) name_ok(3) [OF nm] tg(6) sizes(1,2) le] le c by (auto simp: k_def u_def word_le_nat_alt)
  show ?thesis
  proof (intro exI conjI)
    show "m' = ram_write m a (cells_read (cells d c) off (unat k * u))" using g R tg'(4) by (simp add: shell_on_def u_def)
    show "take (unat sz) (cells_read (cells d c) off (unat k * u)) = part_bytes b cells sz (snd x) name (unat sz)"
      using tg(2,4) am d by (simp add: part_bytes_def take_cells_read)
    show "part_bytes b cells sz (snd x') = part_bytes b cells sz (snd x)"
      using g R d by (intro part_bytes_cong) (simp add: shell_on_def)
  qed (use g R am in auto)
qed

lemma board_clear:
  assumes x: "board_ok x" and up: "UPLOAD_ADDR bd = up" and run: "board_interp b e base x m (clear_tail_cmd bd sz) = (r, m', x')"
  shows "board_ok x' \<and> ram_bytes m' up (unat sz) = ram_bytes m up (unat sz) \<and> part_bytes b cells sz (snd x') = part_bytes b cells sz (snd x)"
proof -
  obtain d where d: "x = (- 1, d)" "ok d" using x by (cases x) auto
  obtain r1 m1 d1 where f: "base [''mw'', hex32 (up + sz), ''0x00'', ''0x200''] d m = (r1, m1, d1)" by (metis prod_cases3)
  obtain r2 m2 d2 where g: "base [''mmc'', ''dev'', ''0''] d1 m1 = (r2, m2, d2)" by (metis prod_cases3)
  note f' = fill_law [OF d(2) f]
  note g' = quiet_law [of d1 "[''mmc'', ''dev'', ''0'']" "''0''" m1 r2 m2 d2]
  have R: "m' = m1" "snd x' = d1 \<or> snd x' = d2" "fst x' = - 1"
    using run d f g g' f' by (auto simp: board_interp_def run_line_def clear_words up flash_cmds_def split: if_splits)
  have "m1 (up + of_nat i) = m (up + of_nat i)" if "i < unat sz" for i
  proof -
    have "unat (of_nat i - of_nat (unat sz) :: u32) = 2 ^ 32 - (unat sz - i)"
      using that sizes(3) by (intro unat_of_nat_diff_wrap) simp_all
    then have "0x800 \<le> unat (up + of_nat i - (up + sz))" using that sizes(3) by simp
    then show ?thesis using f' by blast
  qed
  then have "ram_bytes m1 up (unat sz) = ram_bytes m up (unat sz)" by (simp add: ram_bytes_def)
  moreover have "cells (snd x') = cells (snd x)" "ok (snd x')" using R f' g' g d by auto
  ultimately show ?thesis using R part_bytes_cong by metis
qed

end

sublocale flash_board \<subseteq> fs: flash_shell "board_interp b e base" "\<lambda>x. fst x = - 1 \<and> ok (snd x)"
    "\<lambda>x. part_bytes b cells sz (snd x)" "part_fits b sz" names up sz
  by unfold_locales (rule board_read, assumption+, use board_flash in blast, rule board_clear, assumption+)

context flash_board
begin

lemmas board_flashed = fs.uboot_flashed

text \<open>When no driver command fails, an image that fits is flashed and verified.\<close>

lemma board_read_succeeds:
  assumes x: "board_ok x" and nm: "name \<in> names" and nf: "never_fails base"
  shows "fst (board_interp b e base x m (flashread_cmd name a sz)) = 0"
proof -
  obtain tg where tg: "flash_lookup b (fl_type b) name sz = Found tg" "known_type (t_type tg)"
    using target [OF nm] by metis
  have rl: "read_lookup b (if (- 1 :: int) \<noteq> - 1 then - 1 else fl_type b) name = Inr (tg\<lparr>t_file := 0, t_blksz := 0\<rparr>)"
    using lookup_agree [OF name_ok(3) [OF nm] on_emmc, where t = "fl_type b" and n = sz] tg(1) by simp
  obtain d where d: "x = (- 1, d)" using x by (cases x) auto
  obtain out where "flashread_partition b (run_line base) name a sz False (- 1) (shell_on m d) = (Some out, - 1,
      snd (snd (flashread_partition b (run_line base) name a sz False (- 1) (shell_on m d))))"
    using read_succeeds [OF nf rl _ name_ok(4,5) [OF nm], where a = a and n = sz and s = "shell_on m d"] tg(2) by auto
  then have "fst (do_flashread b (run_line base) [''flashread'', name, hex32 a, hex32 sz] (- 1) (shell_on m d)) = 0"
    by (cases "flashread_partition b (run_line base) name a sz False (- 1) (shell_on m d)") (simp add: do_flashread_def)
  then show ?thesis
    by (simp add: d board_interp_def run_line_def flashread_words [OF nm] flash_cmds_def Let_def split_beta)
qed

lemma verified_succeeds:
  assumes x: "board_ok (dev s)" and nm: "name \<in> names" "length name \<le> 20" and nf: "never_fails base" and fits: "part_fits b sz name"
    and bd: "UPLOAD_ADDR bd = up" and n: "unat sz \<le> 0x200000"
  shows "fst (flash_verified bd (board_interp b e base) name sz s) = 0"
proof -
  define ip s1 where "ip = board_interp b e base" and "s1 = snd (sprintf_run ip 576 (flash_cmd name) s)"
  obtain r m1 x1 where f: "ip (dev s) (mem s) (flash_cmd name) = (r, m1, x1)" by (metis prod_cases3)
  note f' = board_flash [OF x nm(1) f [unfolded ip_def]]
  obtain m2 x2 where g: "ip x1 m1 (flashread_cmd name (verify_addr bd) sz) = (0, m2, x2)"
    using board_read_succeeds [OF _ nm(1) nf, of x1 m1 "verify_addr bd"] f' unfolding ip_def by (metis prod.collapse)
  have x1: "board_ok x1" using f' by simp
  obtain c where c: "m2 = ram_write m1 (verify_addr bd) c" "unat sz \<le> length c" "length c \<le> unat sz + 0x1000"
    "take (unat sz) c = part_bytes b cells sz (snd x1) name (unat sz)"
    using board_read [OF x1 nm(1) fits g [unfolded ip_def]] by blast
  have s1: "mem s1 = m1" "dev s1 = x1" "fst (sprintf_run ip 576 (flash_cmd name) s) = 0"
    using f f' nf fits by (simp_all add: s1_def sprintf_run_parts)
  have "ram_bytes m2 up (unat sz) = ram_bytes m1 up (unat sz)"
    using ram_bytes_write_above [of "unat sz" "0x200000" c m1 up] n c(1,3) bd by (simp add: verify_addr_def)
  moreover have "ram_bytes m2 (verify_addr bd) (unat sz) = ram_bytes m1 up (unat sz)"
    using ram_bytes_write_take [of "unat sz" c m1 "verify_addr bd"] c n f' nf fits by simp
  moreover have "unat sz \<le> 0x800000" using n by simp
  ultimately have "fst (verify_flashed_image bd ip name sz s1) = 0"
    using s1 g bd by (simp add: verify_steps [OF _ nm(2)] run_command_def split_beta Let_def)
  then show ?thesis using s1 by (simp add: flash_verified_def ip_def [symmetric] split_beta Let_def s1_def [symmetric])
qed

lemma clear_succeeds: "never_fails base \<Longrightarrow> board_ok x \<Longrightarrow> fst (board_interp b e base x m (clear_tail_cmd bd n)) = 0"
  by (cases x) (simp add: board_interp_def run_line_def clear_words flash_cmds_def split_beta Let_def never_fails_def)

lemma uboot_succeeds:
  assumes x: "board_ok (dev s)" and nf: "never_fails base" and bd: "UPLOAD_ADDR bd = up" and n: "unat sz \<le> 0x200000"
    and nm: "{''0:APPSBL'', ''0:APPSBL_1''} \<subseteq> names" and fits: "part_fits b sz ''0:APPSBL''" "part_fits b sz ''0:APPSBL_1''"
    and ty: "flash_type_of bd = Some t" "t = SMEM_BOOT_MMC_FLASH \<or> small_flash t" and elf: "check_fw_type (mem s) up = FW_TYPE_ELF"
  shows "fst (do_uboot_upgrade bd req (board_interp b e base) sz s) = 0"
proof -
  define ip s0 where "ip = board_interp b e base"
    and "s0 = (if t = SMEM_BOOT_MMC_FLASH then snd (sprintf_run ip 576 (clear_tail_cmd bd sz) s) else s)"
  obtain r m0 x0 where k: "ip (dev s) (mem s) (clear_tail_cmd bd sz) = (r, m0, x0)" by (metis prod_cases3)
  have "board_ok x0" using board_clear [OF x bd k [unfolded ip_def]] by simp
  then have x0: "board_ok (dev s0)" using k x by (simp add: s0_def sprintf_run_parts)
  have r0: "fst (sprintf_run ip 576 (clear_tail_cmd bd sz) s) = 0"
    using clear_succeeds [OF nf x] by (simp add: ip_def sprintf_run_parts)
  obtain s1 where v: "flash_verified bd ip ''0:APPSBL'' sz s0 = (0, s1)"
    using verified_succeeds [OF x0 _ _ nf fits(1) bd n] nm by (cases "flash_verified bd ip ''0:APPSBL'' sz s0") (auto simp: ip_def)
  have "board_ok (dev s1)" using fs.flash_verified_ok [OF x0 bd n _ _ v [unfolded ip_def]] nm by simp
  then have "fst (flash_verified bd ip ''0:APPSBL_1'' sz s1) = 0"
    using verified_succeeds [OF _ _ _ nf fits(2) bd n] nm by (auto simp: ip_def)
  then show ?thesis
    using v r0 ty elf bd by (cases "t = SMEM_BOOT_MMC_FLASH") (simp_all add: do_uboot_upgrade_def ip_def [symmetric] s0_def split_beta Let_def)
qed

end

section \<open>An eMMC board\<close>

lemma emmc_soc_target:
  "target_of emmc_soc ''0:APPSBL'' n = Some (emmc_appsbl\<lparr>t_file := n\<rparr>)"
  "target_of emmc_soc ''0:APPSBL_1'' n = Some (emmc_appsbl\<lparr>t_off := 0x1500, t_file := n\<rparr>)"
  using appsbl_not_gpt
  by (simp_all add: target_of_def flash_lookup_def emmc_place is_nand_type_def emmc_parts emmc_appsbl_def plain_target_def)

lemmas emmc_soc_simps2 = emmc_soc_target emmc_appsbl_def area_def driver_def is_nand_type_def unit_bytes_def known_type_def

lemma emmc_has:
  assumes "n \<noteq> 0" and "unat n \<le> 0x200000"
  shows "board_has emmc_soc (\<lambda>_ _ _. True) n {''0:APPSBL'', ''0:APPSBL_1''}"
proof -
  have "flash_part_ok emmc_soc (\<lambda>_ _ _. True) n name" if "name \<in> {''0:APPSBL'', ''0:APPSBL_1''}" for name
    using that appsbl_not_gpt by (auto simp: flash_part_ok_def plain_def emmc_soc_simps2)
  moreover have "disjoint_parts emmc_soc n ''0:APPSBL'' ''0:APPSBL_1''" "disjoint_parts emmc_soc n ''0:APPSBL_1'' ''0:APPSBL''"
    by (simp_all add: disjoint_parts_def emmc_soc_simps2)
  ultimately show ?thesis using assms by (auto simp: board_has_def sizes_ok_def no_chip_def)
qed

lemma emmc_soc_fits:
  assumes "unat n \<le> 0xa0000"
  shows "part_fits emmc_soc n ''0:APPSBL''" "part_fits emmc_soc n ''0:APPSBL_1''"
proof -
  have "unat (n div 512 + (if n mod 512 \<noteq> 0 then 1 else 0)) = (unat n + 512 - 1) div 512"
    using unat_sector_count [of 512 n] assms by simp
  also have "\<dots> \<le> (0xa0000 + 511) div 512" using assms by (intro div_le_mono) simp
  finally have "n div 512 + (if n mod 512 \<noteq> 0 then 1 else 0) \<le> 0x500" by (simp add: word_le_nat_alt)
  then show "part_fits emmc_soc n ''0:APPSBL''" "part_fits emmc_soc n ''0:APPSBL_1''"
    by (simp_all add: part_fits_def emmc_soc_simps2 adjusted_size_def)
qed

definition file_of :: "u32 \<Rightarrow> u32 \<Rightarrow> 'd fl_env" where
  "file_of a n = plain_env\<lparr>env := [''fileaddr'' \<mapsto> hex32 a, ''filesize'' \<mapsto> hex32 n]\<rparr>"

interpretation emmc: flash_board emmc_soc "sim emmc_soc" "\<lambda>_. True" "\<lambda>d. d" erased "\<lambda>_ _ _. True"
    "file_of 0x4b000000 1000" "{''0:APPSBL'', ''0:APPSBL_1''}" "0x4b000000" 1000
  by unfold_locales (use emmc_has [of 1000] in \<open>simp_all add: file_of_def\<close>)

end
