(* ===== verification/EndToEnd.thy ===== *)
theory EndToEnd
  imports BoardProofs HttpdProps
begin

text \<open>
  From the upload to the flash: the poll function of the web server runs the upgrade handlers on the
  image that was received.
\<close>

text \<open>An image that has been handed over: nobody owns it any more.\<close>

definition locked :: "httpd \<Rightarrow> bool" where
  "locked s \<longleftrightarrow> upload_pending s \<and> upload_hs s = None"

lemma locked_simps [simp]:
  "locked (upd c f s) = locked s" "locked (s\<lparr>reads := n\<rparr>) = locked s"
  "locked (s\<lparr>hs_global := g\<rparr>) = locked s" "locked (s\<lparr>backup := b\<rparr>) = locked s"
  "locked (httpd_state_reset c s) = locked s" "locked (free_conn c s) = locked s"
  "locked (pcb_end c x s) = locked s" "locked (s\<lparr>conns := k\<rparr>) = locked s"
  "locked (s\<lparr>pcb_gone := pg\<rparr>) = locked s" "locked (s\<lparr>tx := q\<rparr>) = locked s"
  by (auto simp: locked_def upd_def Let_def httpd_state_reset_def free_conn_def pcb_end_def HttpdState.get_timer_def led_def
      split: option.split)

lemma locked_arm: "locked s \<Longrightarrow> locked (arm_upgrade c s)"
  by (auto simp: locked_def arm_upgrade_def Let_def)

lemma locked_close [simp]: "locked (httpd_close_conn c s) = locked s" "locked (httpd_conn_abort c s) = locked s"
  by (simp_all add: httpd_close_conn_def httpd_conn_abort_def)

lemma locked_send [simp]: "locked (httpd_send_data c s) = locked s"
  by (simp add: httpd_send_data_def Let_def split_beta)

lemma locked_quiet: "quiet d s s' \<Longrightarrow> locked s \<Longrightarrow> locked s'"
  by (simp add: locked_def quiet_def same_upload_def)

lemma recv_locked:
  assumes ok: "server_ok pl s" and p: "locked s" and k: "conns s d = Some k"
  shows "locked (httpd_recv pl d x s)"
proof (cases x)
  case None
  then show ?thesis using k p by (simp add: httpd_recv_def locked_arm)
next
  case (Some y)
  have pd: "upload_pending s" using p by (simp add: locked_def)
  have st: "http_state k \<noteq> STATE_UPLOAD_REQUEST" using ok k pd by (auto simp: server_ok_def uploads_ok_def receiving_def)
  define s1 where "s1 = (upd d (\<lambda>h. h\<lparr>last_activity := timer (orc s) (reads s)\<rparr>) s)\<lparr>reads := Suc (Suc (reads s))\<rparr>"
  have q: "quiet d s s1" unfolding s1_def using k by (intro quiet_touch) simp
  then have "blocked d s1" using pd by (simp add: blocked_def quiet_def same_upload_def)
  moreover obtain k1 where "conns s1 d = Some k1" "http_state k1 \<noteq> STATE_UPLOAD_REQUEST"
    using k st by (simp add: s1_def upd_def)
  ultimately have "quiet d s1 (snd (recv_data pl d (packet_buffer y) (length y) s1))"
    by (rule recv_data_blocked)
  then have "locked (snd (recv_data pl d (packet_buffer y) (length y) s1))" using locked_quiet q p by blast
  moreover have "locked s1" using locked_quiet q p by blast
  ultimately show ?thesis
    using Some k by (simp add: httpd_recv_def malloc_def HttpdState.get_timer_def Let_def split_beta s1_def upd_def)
qed

lemma callback_locked:
  assumes ok: "server_ok pl s" and p: "locked s"
  shows "locked (callback pl e s)"
proof -
  have hs: "upload_hs s = None" using p by (simp add: locked_def)
  show ?thesis
proof (cases e)
  case (Recv d x)
  then show ?thesis using recv_locked [OF ok p, of d] p by (cases "conns s d") (simp_all add: httpd_recv_def)
next
  case (Sent d)
  then show ?thesis using p by (simp add: httpd_sent_def HttpdState.get_timer_def Let_def locked_arm)
next
  case (Err d)
  then show ?thesis using p hs by (simp add: httpd_err_def Let_def)
next
  case (Poll d)
  then show ?thesis using p hs by (simp add: httpd_poll_cb_def HttpdState.get_timer_def Let_def)
qed (use p in \<open>simp add: httpd_accept_def malloc_def HttpdState.get_timer_def Let_def\<close>)
qed

lemma waiting_keeps_image:
  assumes "server_ok pl s" and "platform_ok pl" and "locked s" and "list_all event_ok es"
  shows "server_ok pl (httpd_poll_wait pl es s) \<and> locked (httpd_poll_wait pl es s) \<and> kept s (httpd_poll_wait pl es s)"
  using assms
proof (induction es arbitrary: s)
  case (Cons e es)
  have "server_ok pl (callback pl e s)" using callback_safe [of pl s e] Cons.prems by (simp add: safe_def)
  moreover have "locked (callback pl e s)" using callback_locked Cons.prems by blast
  moreover have "kept s (callback pl e s)" using pending_kept Cons.prems by (simp add: locked_def)
  ultimately show ?case using Cons.IH [of "callback pl e s"] Cons.prems kept_trans [of s "callback pl e s"]
    by (simp add: httpd_poll_wait_def)
qed (simp add: httpd_poll_wait_def)

section \<open>The upgrade call\<close>

text \<open>\<^verbatim>\<open>do_http_upgrade\<close> on the state of the server.\<close>

definition http_upgrade_run :: "ipq_board \<Rightarrow> ubi_env \<Rightarrow> 'd interp \<Rightarrow> 'd \<Rightarrow> u32 \<Rightarrow> upgrade_type \<Rightarrow> httpd \<Rightarrow> int \<times> 'd shell" where
  "http_upgrade_run bd e ip d sz ty s =
     do_http_upgrade bd \<lparr>backup_avail = webfailsafe_backup_avail_enabled s, img_flash = int (webfailsafe_img_flash s)\<rparr> e ip sz ty
       \<lparr>mem = ram s, dev = d, history = [], smashed = False\<rparr>"

definition http_upgrade :: "ipq_board \<Rightarrow> ubi_env \<Rightarrow> 'd interp \<Rightarrow> 'd \<Rightarrow> u32 \<Rightarrow> upgrade_type \<Rightarrow> httpd \<Rightarrow> int \<times> httpd" where
  "http_upgrade bd e ip d sz ty s = (let (ret, sh) = http_upgrade_run bd e ip d sz ty s in (ret, s\<lparr>ram := mem sh\<rparr>))"

text \<open>
  The same on a board with its flash commands: their \<^verbatim>\<open>fileaddr\<close> and \<^verbatim>\<open>filesize\<close> come from the environment
  of the server. \<open>board_upgrade_run\<close> is the state of RAM and of the devices afterwards.
\<close>

definition board_shell :: "soc \<Rightarrow> 'd fl_env \<Rightarrow> 'd cmds \<Rightarrow> httpd \<Rightarrow> (int \<times> 'd) interp" where
  "board_shell b e base s = board_interp b (e\<lparr>fl_env.env := httpd.env s\<rparr>) base"

definition board_upgrade :: "ipq_board \<Rightarrow> ubi_env \<Rightarrow> soc \<Rightarrow> 'd fl_env \<Rightarrow> 'd cmds \<Rightarrow> 'd \<Rightarrow> u32 \<Rightarrow> upgrade_type \<Rightarrow> httpd \<Rightarrow> int \<times> httpd" where
  "board_upgrade bd ue b e base d sz ty s = http_upgrade bd ue (board_shell b e base s) (- 1, d) sz ty s"

definition board_upgrade_run :: "ipq_board \<Rightarrow> ubi_env \<Rightarrow> soc \<Rightarrow> 'd fl_env \<Rightarrow> 'd cmds \<Rightarrow> 'd \<Rightarrow> httpd \<Rightarrow> int \<times> (int \<times> 'd) shell" where
  "board_upgrade_run bd ue b e base d s =
     http_upgrade_run bd ue (board_shell b e base s) (- 1, d) (net_boot_file_size s) (webfailsafe_upgrade_type s) s"

text \<open>The state in which the poll function calls the upgrade code.\<close>

definition file_env :: "httpd \<Rightarrow> u32 \<Rightarrow> u32 \<Rightarrow> bool" where
  "file_env s a n \<longleftrightarrow> httpd.env s ''fileaddr'' = Some (fmt_hex (unat a)) \<and> httpd.env s ''filesize'' = Some (fmt_hex (unat n))"

lemma prepared_with_image:
  assumes ok: "server_ok pl s" "platform_ok pl" "locked s" "list_all event_ok (waits r 0)" "list_all event_ok (waits r 1)"
  shows "ram (prepare_upgrade pl r s) = ram s" "net_boot_file_size (prepare_upgrade pl r s) = net_boot_file_size s"
    "webfailsafe_upgrade_type (prepare_upgrade pl r s) = webfailsafe_upgrade_type s"
    "file_env (prepare_upgrade pl r s) (upload_ram pl) (net_boot_file_size s)"
proof -
  define s1 where "s1 = (led (Progress 2) (setenv ''fileaddr'' (Some (fmt_hex (unat (upload_ram pl))))
    (setenv ''filesize_128k'' (Some (fmt_hex (unat (round_128k (net_boot_file_size s)))))
      (setenv ''filesize'' (Some (fmt_hex (unat (net_boot_file_size s))))
        (s\<lparr>webfailsafe_ready_for_upgrade := False, upgrade_status := 1\<rparr>)))))"
  define s2 where "s2 = httpd_poll_wait pl (waits r 0) s1"
  have "server_ok pl s1 \<and> locked s1"
    using ok(1,3) by (auto simp: s1_def led_def setenv_def server_ok_def owner_ok_def uploads_ok_def receiving_def armed_ok_def locked_def)
  then have "server_ok pl s2 \<and> locked s2 \<and> kept s1 s2"
    using waiting_keeps_image [of pl s1 "waits r 0"] ok unfolding s2_def by blast
  then have "server_ok pl (s2\<lparr>upgrade_status := 2\<rparr>) \<and> locked (s2\<lparr>upgrade_status := 2\<rparr>) \<and> kept s1 (s2\<lparr>upgrade_status := 2\<rparr>)"
    by (auto simp: server_ok_def owner_ok_def uploads_ok_def receiving_def armed_ok_def locked_def kept_def)
  then have "kept s1 (httpd_poll_wait pl (waits r 1) (s2\<lparr>upgrade_status := 2\<rparr>))"
    using waiting_keeps_image [of pl "s2\<lparr>upgrade_status := 2\<rparr>" "waits r 1"] ok kept_trans by blast
  moreover have "httpd_poll_wait pl (waits r 1) (s2\<lparr>upgrade_status := 2\<rparr>) = prepare_upgrade pl r s"
    by (simp add: prepare_upgrade_def Let_def s2_def s1_def setenv_def)
  ultimately have k: "kept s1 (prepare_upgrade pl r s)" by simp
  moreover have "ram s1 = ram s" "net_boot_file_size s1 = net_boot_file_size s" "webfailsafe_upgrade_type s1 = webfailsafe_upgrade_type s"
    "file_env s1 (upload_ram pl) (net_boot_file_size s)"
    by (simp_all add: s1_def led_def setenv_def file_env_def)
  ultimately show "ram (prepare_upgrade pl r s) = ram s" "net_boot_file_size (prepare_upgrade pl r s) = net_boot_file_size s"
    "webfailsafe_upgrade_type (prepare_upgrade pl r s) = webfailsafe_upgrade_type s"
    "file_env (prepare_upgrade pl r s) (upload_ram pl) (net_boot_file_size s)"
    by (simp_all add: kept_def file_env_def)
qed

lemma reported_success:
  assumes "upgrade_status (poll_upgrade pl r s) \<noteq> 3" and "waits r 2 = []"
  defines "t \<equiv> prepare_upgrade pl r s"
  shows "fst (upgrade r (net_boot_file_size t) (webfailsafe_upgrade_type t) t) = 0"
proof (rule ccontr)
  assume "fst (upgrade r (net_boot_file_size t) (webfailsafe_upgrade_type t) t) \<noteq> 0"
  then have "upgrade_status (poll_upgrade pl r s) = 3"
    by (simp add: poll_upgrade_def Let_def split_beta t_def assms(2) httpd_poll_wait_def)
  with assms(1) show False by simp
qed

lemma reported_status:
  assumes "fst (upgrade r (net_boot_file_size t) (webfailsafe_upgrade_type t) t) = 0" and "t = prepare_upgrade pl r s" and "waits r 2 = []"
  shows "upgrade_status (poll_upgrade pl r s) \<in> {4, 5}"
  using assms by (simp add: poll_upgrade_def Let_def split_beta httpd_poll_wait_def HttpdDone_def reset_webfailsafe_state_def led_def)

text \<open>The flash commands of the board find the image in RAM.\<close>

lemma prepared_board:
  assumes drv: "flash_drivers b base ok cells clean good" "board_has b good n names" and t: "file_env t up n"
  shows "flash_board b base ok cells clean good (e\<lparr>fl_env.env := httpd.env t\<rparr>) names up n"
proof -
  have "hex_arg (fmt_hex (unat x)) = x" for x by (simp add: hex_arg_def simple_strtoul_hex)
  then have "flash_board_axioms b good (e\<lparr>fl_env.env := httpd.env t\<rparr>) names up n"
    using t drv(2) by (simp add: flash_board_axioms_def file_env_def)
  then show ?thesis using drv(1) by (simp add: flash_board_def)
qed



section \<open>Examples\<close>

definition emmc_pl :: platform where
  "emmc_pl = board\<lparr>upload_ram := 0x4b000000\<rparr>"

definition emmc_ipq :: ipq_board where
  "emmc_ipq = nand_ubi_board\<lparr>flash_of := (flash_of nand_ubi_board)\<lparr>current_flash_type := Some SMEM_BOOT_MMC_FLASH\<rparr>\<rparr>"

definition elf_waiting :: httpd where
  "elf_waiting = idle\<lparr>upload_pending := True, webfailsafe_ready_for_upgrade := True, webfailsafe_upgrade_type := UBOOT,
     net_boot_file_size := 4, ram := mem elf_shell\<rparr>"

definition quiet_round :: round where
  "quiet_round = \<lparr>waits = (\<lambda>i. []), upgrade = board_upgrade emmc_ipq roomy_ubi emmc_soc plain_env (sim emmc_soc) (\<lambda>_ _. NUL),
     shell = (\<lambda>cmd s. s), eth_active = True\<rparr>"

lemma elf_simps: "net_boot_file_size elf_waiting = 4" "ram elf_waiting = mem elf_shell" "webfailsafe_upgrade_type elf_waiting = UBOOT"
  "upload_ram emmc_pl = 0x4b000000" "UPLOAD_ADDR emmc_ipq = 0x4b000000" "flash_type_of emmc_ipq = Some SMEM_BOOT_MMC_FLASH"
  by (simp_all add: elf_waiting_def emmc_pl_def emmc_ipq_def UPLOAD_ADDR_def nand_ubi_board_def)

lemma elf_server: "server_ok emmc_pl elf_waiting" "platform_ok emmc_pl" "locked elf_waiting"
  "list_all event_ok (waits quiet_round i)" "waits quiet_round i = []"
  "upgrade quiet_round = board_upgrade emmc_ipq roomy_ubi emmc_soc plain_env (sim emmc_soc) (\<lambda>_ _. NUL)"
  using board_ok
  by (auto simp: server_ok_def owner_ok_def uploads_ok_def armed_ok_def elf_waiting_def idle_def empty_upload_def platform_ok_def
      emmc_pl_def board_def locked_def quiet_round_def)


lemma elf_reported: "upgrade_status (poll_upgrade emmc_pl quiet_round elf_waiting) \<noteq> 3"
proof -
  define x where "x = prepare_upgrade emmc_pl quiet_round elf_waiting"
  note p = prepared_with_image [OF elf_server(1,2,3,4,4), folded x_def]
  have "fst (do_uboot_upgrade emmc_ipq req (board_interp emmc_soc (plain_env\<lparr>fl_env.env := httpd.env x\<rparr>) (sim emmc_soc)) 4
      \<lparr>mem = ram x, dev = (- 1, \<lambda>_ _. NUL), history = [], smashed = False\<rparr>) = 0" for req
    using flash_board.uboot_succeeds [OF prepared_board [OF sim.flash_drivers_axioms emmc_has p(4), unfolded elf_simps], of _ emmc_ipq SMEM_BOOT_MMC_FLASH] p(1)
    by (simp add: elf_simps emmc_soc_fits sim_never_fails elf_shell_type)
  then have "upgrade_status (poll_upgrade emmc_pl quiet_round elf_waiting) \<in> {4, 5}"
    using p by (intro reported_status [OF _ x_def elf_server(5)])
      (simp add: elf_server(6) board_upgrade_def http_upgrade_def http_upgrade_run_def board_shell_def split_beta Let_def elf_simps)
  then show ?thesis by auto
qed


end
