(* ===== verification/GptProofs.thy ===== *)
theory GptProofs
  imports FlashProps
begin

text \<open>
  GUID partition tables: what their checksums detect, that the headers the code builds pass its own checks,
  and what is on the flash after a table has been flashed.
\<close>

unbundle bit_operations_syntax

section \<open>The checksum\<close>

definition crc_step :: "u32 \<Rightarrow> u32" where
  "crc_step crc = drop_bit 1 crc XOR (0xEDB88320 AND - (crc AND 1))"

lemma xor_cancel: "x XOR k = y XOR k \<longleftrightarrow> x = (y :: u32)" "k XOR x = k XOR y \<longleftrightarrow> x = (y :: u32)"
proof -
  have e: "(z XOR k) XOR k = z" for z :: u32 by (simp add: xor.assoc)
  show "x XOR k = y XOR k \<longleftrightarrow> x = y" by (metis e)
  then show "k XOR x = k XOR y \<longleftrightarrow> x = y" by (simp add: xor.commute)
qed

lemma crc_bits_step: "crc_bits (Suc n) crc = crc_bits n (crc_step crc)"
  by (simp add: crc_step_def)

lemma crc_mask: "(0xEDB88320 AND - (x AND 1) :: u32) = (if bit x 0 then 0xEDB88320 else 0)"
  by (auto simp: bit_0 and_one_eq odd_iff_mod_2_eq_one)

lemma crc_step_low: "bit (crc_step x) 31 \<longleftrightarrow> bit x 0"
proof -
  have "\<not> bit x 32" using bit_imp_le_length [of x 32] by auto
  moreover have "bit (0xEDB88320 :: u32) 31" by simp
  ultimately show ?thesis unfolding crc_step_def crc_mask by (auto simp: bit_xor_iff bit_drop_bit_eq)
qed

lemma inj_crc_step: "inj crc_step"
proof (rule injI)
  fix x y assume e: "crc_step x = crc_step y"
  then have 0: "bit x 0 \<longleftrightarrow> bit y 0" using crc_step_low by metis
  then have "drop_bit 1 x = drop_bit 1 y"
    using e unfolding crc_step_def crc_mask by (cases "bit y 0") (simp_all add: xor_cancel)
  then have "bit x (Suc i) \<longleftrightarrow> bit y (Suc i)" for i by (metis bit_drop_bit_eq plus_1_eq_Suc comp_apply)
  with 0 show "x = y" by (intro bit_eqI) (metis not0_implies_Suc)
qed

lemma inj_crc_bits: "inj (crc_bits n)"
proof (induction n)
  case (Suc n)
  have "crc_bits (Suc n) = crc_bits n \<circ> crc_step" by (rule ext) (simp add: crc_step_def)
  then show ?case using inj_compose [OF Suc inj_crc_step] by (simp only:)
qed (simp add: inj_on_def)

lemma inj_crc_loop: "crc_loop x cs = crc_loop y cs \<longleftrightarrow> x = y"
proof (induction cs arbitrary: x y)
  case (Cons c cs)
  have "crc_bits 8 (x XOR of_char c) = crc_bits 8 (y XOR of_char c) \<longleftrightarrow> x XOR of_char c = y XOR of_char c"
    using inj_eq [OF inj_crc_bits] .
  also have "\<dots> \<longleftrightarrow> x = y" by (rule xor_cancel)
  finally show ?case using Cons.IH by simp
qed simp

lemma crc_loop_append: "crc_loop x (as @ cs) = crc_loop (crc_loop x as) cs"
  by (induction as arbitrary: x) simp_all

lemma of_char_u32_eq: "(of_char x :: u32) = of_char y \<longleftrightarrow> x = y"
proof
  assume "(of_char x :: u32) = of_char y"
  then have "(of_nat (of_char x) :: u32) = of_nat (of_char y)" by (simp only: of_nat_of_char)
  then have "unat (of_nat (of_char x) :: u32) = unat (of_nat (of_char y) :: u32)" by (rule arg_cong)
  moreover have "unat (of_nat (of_char z) :: u32) = of_char z" for z :: char
    by (intro unat_of_nat_u32 order_less_trans [OF nat_of_char_less_256]) simp
  ultimately show "x = y" by simp
qed simp

text \<open>Changing one byte changes the checksum.\<close>

lemma crc_changed_byte: "efi_crc32 (as @ x # cs) = efi_crc32 (as @ y # cs) \<longleftrightarrow> x = y"
proof -
  have "efi_crc32 (as @ x # cs) = efi_crc32 (as @ y # cs) \<longleftrightarrow> crc_loop 0xFFFFFFFF (as @ x # cs) = crc_loop 0xFFFFFFFF (as @ y # cs)"
    unfolding efi_crc32_def by (rule xor_cancel)
  also have "\<dots> \<longleftrightarrow> crc_loop 0xFFFFFFFF as XOR of_char x = crc_loop 0xFFFFFFFF as XOR of_char y"
    by (simp only: crc_loop_append crc_loop.simps inj_crc_loop inj_eq [OF inj_crc_bits])
  also have "\<dots> \<longleftrightarrow> x = y" by (simp only: xor_cancel of_char_u32_eq)
  finally show ?thesis .
qed

lemma crc_update: "i < length xs \<Longrightarrow> efi_crc32 (xs[i := x]) = efi_crc32 xs \<longleftrightarrow> x = xs ! i"
  using crc_changed_byte [of "take i xs" x "drop (Suc i) xs" "xs ! i"] by (simp add: upd_conv_take_nth_drop id_take_nth_drop [symmetric])

section \<open>Headers\<close>

lemma get_le_take: "off + n \<le> k \<Longrightarrow> get_le n (take k h) off = get_le n h off"
  by (simp add: get_le_def drop_take min_absorb1)

lemma put_le_put_le: "off + n \<le> length buf \<Longrightarrow> put_le n (put_le n buf off v) off w = put_le n buf off w"
  by (simp add: put_le_def put_def)

text \<open>The fields that a repaired checksum leaves alone.\<close>

lemma fixed_fields:
  assumes "20 \<le> length h" and "k + n \<le> 16 \<or> 20 \<le> k"
  shows "get_le n (gpt_fix_header_crc h) k = get_le n h k"
  using assms by (simp add: gpt_fix_header_crc_def Let_def get_put_le_other)

lemma length_fixed [simp]: "20 \<le> length h \<Longrightarrow> length (gpt_fix_header_crc h) = length h"
  by (simp add: gpt_fix_header_crc_def Let_def)

text \<open>A header whose checksum has just been computed passes the check.\<close>

lemma fixed_verifies:
  assumes "length h = unat bs" and "92 \<le> header_size h" and "header_size h \<le> bs"
  shows "gpt_verify_header_crc (gpt_fix_header_crc h) bs"
proof -
  have "92 \<le> unat (header_size h)" "unat (header_size h) \<le> unat bs" using assms by (simp_all add: word_le_nat_alt)
  then have l: "92 \<le> length h" using assms(1) by simp
  define z where "z = put_le 4 h 16 (0 :: u32)"
  have z: "length z = length h" "header_size z = header_size h" using l by (simp_all add: z_def get_put_le_other)
  have f: "gpt_fix_header_crc h = put_le 4 z 16 (efi_crc32 (take (unat (header_size h)) z))"
    by (simp add: gpt_fix_header_crc_def Let_def z_def [symmetric] z)
  have "put_le 4 (gpt_fix_header_crc h) 16 (0 :: u32) = z"
    unfolding f using l z by (subst put_le_put_le) (simp_all add: z_def put_le_put_le)
  moreover have "header_crc (gpt_fix_header_crc h) = efi_crc32 (take (unat (header_size h)) z)"
    unfolding f using l z by (simp add: get_put_le)
  moreover have "header_size (gpt_fix_header_crc h) = header_size h" using l by (simp add: fixed_fields)
  ultimately show ?thesis using assms(2,3) by (simp add: gpt_verify_header_crc_def not_less)
qed

lemma get_le_update: "i < k \<or> k + n \<le> i \<Longrightarrow> get_le n (h[i := x]) k = get_le n h k"
  by (auto simp: get_le_def drop_update_swap take_update_cancel not_less)

lemma put_update:
  assumes "off + length xs \<le> length h" and "i < off \<or> off + length xs \<le> i"
  shows "put (h[i := x]) off xs = (put h off xs)[i := x]"
proof (rule nth_equalityI)
  fix j assume "j < length (put (h[i := x]) off xs)"
  then have "j < length h" using assms(1) by (simp add: length_put)
  then show "put (h[i := x]) off xs ! j = (put h off xs)[i := x] ! j"
    using assms by (cases "i = j") (auto simp: length_put nth_put)
qed (use assms in \<open>simp add: length_put\<close>)

text \<open>A byte of a checked header that changes is detected, unless it is in the field that says how long the header is.\<close>

lemma header_byte_detected:
  assumes v: "gpt_verify_header_crc h bs" and l: "length h = unat bs" and i: "i < unat (header_size h)" "\<not> (12 \<le> i \<and> i < 16)"
    and x: "x \<noteq> h ! i"
  shows "\<not> gpt_verify_header_crc (h[i := x]) bs"
proof -
  have n: "92 \<le> unat (header_size h)" "unat (header_size h) \<le> length h"
    using v l by (auto simp: gpt_verify_header_crc_def word_le_nat_alt not_less)
  have hs: "header_size (h[i := x]) = header_size h" using i(2) by (intro get_le_update) auto
  show ?thesis
  proof (cases "16 \<le> i \<and> i < 20")
    case True
    then have z: "put_le 4 (h[i := x]) 16 (0 :: u32) = put_le 4 h 16 (0 :: u32)"
      by (auto simp: put_le_def put_def drop_update_swap)
    have "i - 16 < 4" "16 + (i - 16) = i" using True by auto
    then have "take 4 (drop 16 (h[i := x])) ! (i - 16) = x" "take 4 (drop 16 h) ! (i - 16) = h ! i"
      using n i(1) by simp_all
    then have "take 4 (drop 16 (h[i := x])) \<noteq> take 4 (drop 16 h)" using x by auto
    then have "header_crc (h[i := x]) \<noteq> header_crc h"
      using n unfolding get_le_def by (subst le_val_inj [of 4]) simp_all
    then show ?thesis using v hs z by (auto simp: gpt_verify_header_crc_def)
  next
    case False
    then have z: "put_le 4 (h[i := x]) 16 (0 :: u32) = (put_le 4 h 16 (0 :: u32))[i := x]"
      and y: "put_le 4 h 16 (0 :: u32) ! i = h ! i"
      using n i(1) by (auto simp: put_le_def put_update nth_put)
    have "header_crc (h[i := x]) = header_crc h" using False by (intro get_le_update) auto
    moreover have "efi_crc32 (take (unat (header_size h)) (put_le 4 (h[i := x]) 16 (0 :: u32)))
        \<noteq> efi_crc32 (take (unat (header_size h)) (put_le 4 h 16 (0 :: u32)))"
      using x y i(1) n unfolding z by (simp add: take_update_swap crc_update)
    ultimately show ?thesis using v hs by (auto simp: gpt_verify_header_crc_def)
  qed
qed

section \<open>The header that is written\<close>

text \<open>A header for the destination: it passes the check, and its fields place it and its entries.\<close>

definition header_placed :: "bool \<Rightarrow> u64 \<Rightarrow> u32 \<Rightarrow> string \<Rightarrow> bool" where
  "header_placed prim nl bs h \<longleftrightarrow> length h = unat bs \<and> gpt_verify_header_crc h bs
     \<and> my_lba h = exp_my prim nl \<and> alternate_lba h = exp_alt prim nl \<and> partition_entry_lba h = exp_entries prim nl"

text \<open>The fields that say where the entries are and what they are.\<close>

definition same_table :: "string \<Rightarrow> string \<Rightarrow> bool" where
  "same_table h h' \<longleftrightarrow> num_partition_entries h' = num_partition_entries h
     \<and> sizeof_partition_entry h' = sizeof_partition_entry h \<and> entry_array_crc h' = entry_array_crc h"

lemmas field_simps_le = get_put_le get_put_le_other fixed_fields

lemma verified_length:
  assumes "gpt_verify_header_crc h bs" and "length h = unat bs"
  shows "92 \<le> length h" "92 \<le> header_size h" "header_size h \<le> bs"
  using assms by (auto simp: gpt_verify_header_crc_def word_le_nat_alt not_less)

lemma converted_header:
  assumes "gpt_verify_header_crc h bs" and "length h = unat bs"
  shows "header_placed prim nl bs (convert_header prim nl h) \<and> same_table h (convert_header prim nl h)
    \<and> last_usable_lba (convert_header prim nl h) = last_usable_lba h"
proof -
  note l = verified_length [OF assms]
  define h1 where "h1 = put_le 8 (put_le 8 (put_le 8 h 24 (if prim then 1 else nl - 1)) 32 (if prim then nl - 1 else 1)) 72
    (if prim then 2 else nl - 32 - 1)"
  have c: "convert_header prim nl h = gpt_fix_header_crc h1" by (simp add: convert_header_def h1_def Let_def)
  have 1: "length h1 = length h" "header_size h1 = header_size h" using l(1) by (simp_all add: h1_def field_simps_le)
  have "gpt_verify_header_crc (gpt_fix_header_crc h1) bs" using l 1 assms(2) by (intro fixed_verifies) simp_all
  then show ?thesis
    unfolding c header_placed_def same_table_def using l(1) 1 assms(2)
    by (simp add: fixed_fields) (simp add: h1_def field_simps_le exp_my_def exp_alt_def exp_entries_def)
qed

lemma autofixed_header:
  assumes "gpt_verify_header_crc h bs" and "length h = unat bs"
  shows "header_placed prim nl bs (gpt_autofix prim nl h) \<and> same_table h (gpt_autofix prim nl h)
    \<and> last_usable_lba (gpt_autofix prim nl h) = min (last_usable_lba h) (max_last prim nl)"
proof (cases "my_lba h \<noteq> exp_my prim nl \<or> alternate_lba h \<noteq> exp_alt prim nl
    \<or> last_usable_lba h > max_last prim nl \<or> partition_entry_lba h \<noteq> exp_entries prim nl")
  case True
  note l = verified_length [OF assms]
  define h0 where "h0 = put_le 8 (put_le 8 (put_le 8 h 24 (exp_my prim nl)) 32 (exp_alt prim nl)) 72 (exp_entries prim nl)"
  define h1 where "h1 = (if last_usable_lba h > max_last prim nl then put_le 8 h0 48 (max_last prim nl) else h0)"
  have c: "gpt_autofix prim nl h = gpt_fix_header_crc h1" using True by (simp add: gpt_autofix_def h1_def h0_def Let_def)
  have 1: "length h1 = length h" "header_size h1 = header_size h" using l(1) by (simp_all add: h1_def h0_def field_simps_le)
  have "gpt_verify_header_crc (gpt_fix_header_crc h1) bs" using l 1 assms(2) by (intro fixed_verifies) simp_all
  moreover have "last_usable_lba h1 = min (last_usable_lba h) (max_last prim nl)"
    using l(1) by (auto simp: h1_def h0_def field_simps_le min_def)
  ultimately show ?thesis
    unfolding c header_placed_def same_table_def using l(1) 1 assms(2)
    by (simp add: fixed_fields) (simp add: h1_def h0_def field_simps_le)
next
  case False
  then show ?thesis using assms by (auto simp: gpt_autofix_def header_placed_def same_table_def min_def)
qed

section \<open>Regions\<close>

text \<open>Where the header and the entries are in the sectors of a primary and of a backup table.\<close>

definition region_len :: "bool \<Rightarrow> u32 \<Rightarrow> nat" where
  "region_len prim bs = (if prim then 34 else 33) * unat bs"

definition region_header :: "bool \<Rightarrow> u32 \<Rightarrow> string \<Rightarrow> string" where
  "region_header prim bs reg = take (unat bs) (drop ((if prim then 1 else 32) * unat bs) reg)"

definition region_entries :: "bool \<Rightarrow> u32 \<Rightarrow> string \<Rightarrow> string" where
  "region_entries prim bs reg = take (32 * unat bs) (drop ((if prim then 2 else 0) * unat bs) reg)"

definition region_ok :: "bool \<Rightarrow> u64 \<Rightarrow> u32 \<Rightarrow> string \<Rightarrow> bool" where
  "region_ok prim nl bs reg \<longleftrightarrow> (let h = region_header prim bs reg in header_placed prim nl bs h
     \<and> unat (entries_len h) \<le> 32 * unat bs
     \<and> gpt_verify_entries_crc h (take (unat (entries_len h)) (region_entries prim bs reg)))"

lemma ram_bytes_put:
  assumes "j + length xs \<le> n" and "n \<le> 2 ^ 32" and "0 < length xs"
  shows "ram_bytes (ram_write m (a + of_nat j) xs) a n = put (ram_bytes m a n) j xs"
proof (rule nth_equalityI)
  fix i assume "i < length (ram_bytes (ram_write m (a + of_nat j) xs) a n)"
  then have i: "i < n" by simp
  consider "i < j" | "j \<le> i" "i < j + length xs" | "j + length xs \<le> i" by linarith
  then show "ram_bytes (ram_write m (a + of_nat j) xs) a n ! i = put (ram_bytes m a n) j xs ! i"
  proof cases
    case 1
    have "j - i < 2 ^ 32" using 1 assms by (cases xs) auto
    then have "unat (of_nat i - of_nat j :: u32) = 2 ^ 32 - (j - i)" using 1 by (intro unat_of_nat_diff_wrap)
    then have "length xs \<le> unat (a + of_nat i - (a + of_nat j))" using 1 assms by simp
    then show ?thesis using 1 i assms by (simp add: ram_write_miss nth_put)
  next
    case 2
    have "a + of_nat i = a + of_nat j + of_nat (i - j)" using 2 by (simp add: of_nat_diff)
    then show ?thesis using 2 i assms ram_write_hit [of "i - j" xs m "a + of_nat j"] by (simp add: nth_put)
  next
    case 3
    have "a + of_nat i - (a + of_nat j) = of_nat (i - j)" using 3 by (simp add: of_nat_diff)
    moreover have "unat (of_nat (i - j) :: u32) = i - j" using i assms by (intro unat_of_nat_u32) simp
    ultimately have "length xs \<le> unat (a + of_nat i - (a + of_nat j))" using 3 by simp
    then show ?thesis using 3 i assms by (simp add: ram_write_miss nth_put)
  qed
qed (use assms in \<open>simp add: length_put\<close>)

lemma ram_bytes_write_apart:
  assumes "length xs \<le> unat (a - c)" and "unat (a - c) + n \<le> 2 ^ 32"
  shows "ram_bytes (ram_write m c xs) a n = ram_bytes m a n"
proof (rule nth_equalityI)
  fix i assume "i < length (ram_bytes (ram_write m c xs) a n)"
  then have "i < n" by simp
  then have "unat (a - c + of_nat i) = unat (a - c) + i" using assms(2) by (intro unat_plus_small) simp
  then have "length xs \<le> unat (a + of_nat i - c)" using assms(1) by (simp add: algebra_simps)
  then show "ram_bytes (ram_write m c xs) a n ! i = ram_bytes m a n ! i" using \<open>i < n\<close> by (simp add: ram_write_miss)
qed simp

section \<open>The sectors that are written\<close>

definition upload_region :: "ram \<Rightarrow> u32 \<Rightarrow> u32 \<Rightarrow> string" where
  "upload_region m a bs = ram_bytes m a (region_len (is_src_primary m a) bs)"

lemma sector_addr: "(of_nat (k * unat (bs :: u32)) :: u32) = of_nat k * bs"
  by simp

lemma upload_parts:
  "region_header (is_src_primary m a) bs (upload_region m a bs) = src_header m a bs"
  "region_entries (is_src_primary m a) bs (upload_region m a bs) = ram_bytes m (src_entries_addr m a bs) (32 * unat bs)"
  unfolding region_header_def region_entries_def upload_region_def region_len_def src_header_def src_header_addr_def src_entries_addr_def
  by (simp_all add: ram_slice)

text \<open>What the checks before writing establish.\<close>

lemma upload_checked:
  assumes u: "gpt_upload_ok m a bs n" and bs: "unat bs \<le> 0x1000"
  defines "h \<equiv> src_header m a bs"
  shows "gpt_verify_header_crc h bs" "length h = unat bs" "unat (entries_len h) \<le> 32 * unat bs"
    "gpt_verify_entries_crc h (take (unat (entries_len h)) (region_entries (is_src_primary m a) bs (upload_region m a bs)))"
proof -
  show "gpt_verify_header_crc h bs" "length h = unat bs" using u by (simp_all add: gpt_upload_ok_def h_def Let_def src_header_def)
  have "entries_len h \<le> 32 * ucast bs" using u by (simp add: gpt_upload_ok_def h_def Let_def not_less)
  moreover have "unat (32 * ucast bs :: u64) = 32 * unat bs"
    using bs by (simp add: unat_word_ariths unsigned_ucast_eq take_bit_eq_mod)
  ultimately show e: "unat (entries_len h) \<le> 32 * unat bs" by (simp add: word_le_nat_alt)
  then have "unat (ucast (entries_len h) :: u32) = unat (entries_len h)"
    using bs by (simp add: unsigned_ucast_eq take_bit_eq_mod)
  then have "gpt_verify_entries_crc h (ram_bytes m (src_entries_addr m a bs) (unat (entries_len h)))"
    using u by (simp add: gpt_upload_ok_def h_def Let_def)
  then show "gpt_verify_entries_crc h (take (unat (entries_len h)) (region_entries (is_src_primary m a) bs (upload_region m a bs)))"
    unfolding upload_parts using e by (simp add: take_ram_bytes)
qed

lemma region_okI:
  assumes "header_placed prim nl bs (region_header prim bs reg)" and "same_table h (region_header prim bs reg)"
    and "unat (entries_len h) \<le> 32 * unat bs" and "gpt_verify_entries_crc h (take (unat (entries_len h)) (region_entries prim bs reg))"
  shows "region_ok prim nl bs reg"
  using assms by (simp add: region_ok_def Let_def same_table_def entries_len_def gpt_verify_entries_crc_def)

text \<open>The checks pass again on an upload with the same entries and a checked header of the same table.\<close>

lemma upload_ok_again:
  assumes u: "gpt_upload_ok m a bs n" and bs: "unat bs \<le> 0x1000" and p: "is_src_primary m' a = is_src_primary m a"
    and h: "gpt_verify_header_crc (src_header m' a bs) bs" "same_table (src_header m a bs) (src_header m' a bs)"
    and e: "region_entries (is_src_primary m a) bs (upload_region m' a bs) = region_entries (is_src_primary m a) bs (upload_region m a bs)"
  shows "gpt_upload_ok m' a bs n"
proof -
  define k where "k = unat (ucast (entries_len (src_header m a bs)) :: u32)"
  note c = upload_checked [OF u bs]
  have "k \<le> 32 * unat bs" using c(3) bs by (simp add: k_def unsigned_ucast_eq take_bit_eq_mod)
  moreover have "ram_bytes m' (src_entries_addr m a bs) (32 * unat bs) = ram_bytes m (src_entries_addr m a bs) (32 * unat bs)"
    using e upload_parts(2) [of m a bs] upload_parts(2) [of m' a bs] p by (simp add: src_entries_addr_def)
  ultimately have "ram_bytes m' (src_entries_addr m a bs) k = ram_bytes m (src_entries_addr m a bs) k"
    using take_ram_bytes [of k "32 * unat bs"] by metis
  moreover have "src_entries_addr m' a bs = src_entries_addr m a bs" using p by (simp add: src_entries_addr_def)
  moreover have "entries_len (src_header m' a bs) = entries_len (src_header m a bs)" using h(2) by (simp add: same_table_def entries_len_def)
  ultimately show ?thesis
    using u h p by (cases "is_src_primary m a") (simp_all add: gpt_upload_ok_def Let_def same_table_def gpt_verify_entries_crc_def k_def)
qed

text \<open>The upload after its header has been adapted in place.\<close>

lemma autofixed_region:
  fixes nl :: u64
  assumes u: "gpt_upload_ok m a bs n" and bs: "unat bs \<le> 0x1000"
  defines "prim \<equiv> is_src_primary m a"
  defines "reg \<equiv> ram_bytes (ram_write m (src_header_addr m a bs) (gpt_autofix prim nl (src_header m a bs))) a (region_len prim bs)"
  shows "region_ok prim nl bs reg \<and> region_entries prim bs reg = region_entries prim bs (upload_region m a bs)
    \<and> same_table (src_header m a bs) (region_header prim bs reg)"
proof -
  define h' where "h' = gpt_autofix prim nl (src_header m a bs)"
  note c = upload_checked [OF u bs]
  note h = autofixed_header [OF c(1,2), of prim nl, folded h'_def]
  have l: "length h' = unat bs" "0 < unat bs" using h verified_length [OF c(1,2)] c(2) by (auto simp: header_placed_def)
  have a: "src_header_addr m a bs = a + of_nat ((if prim then 1 else 32) * unat bs)" by (simp add: src_header_addr_def prim_def)
  have reg: "reg = put (upload_region m a bs) ((if prim then 1 else 32) * unat bs) h'"
    unfolding reg_def h'_def [symmetric] a using l bs by (subst ram_bytes_put) (simp_all add: region_len_def upload_region_def prim_def)
  have len: "length (upload_region m a bs) = region_len prim bs" by (simp add: upload_region_def prim_def)
  have rh: "region_header prim bs reg = h'"
    unfolding region_header_def reg using l(1) by (simp add: put_def region_len_def len)
  have re: "region_entries prim bs reg = region_entries prim bs (upload_region m a bs)"
    unfolding region_entries_def reg using l(1) by (intro take_drop_put) (simp_all add: len region_len_def)
  have "region_ok prim nl bs reg"
    using h c re by (intro region_okI [where h = "src_header m a bs"]) (simp_all add: rh [unfolded prim_def] prim_def)
  then show ?thesis using re rh h by simp
qed

lemma length_mbr: "512 \<le> unat bs \<Longrightarrow> length (protective_mbr bs nl) = unat bs"
  by (simp add: protective_mbr_def Let_def length_put)

text \<open>The converted table.\<close>

lemma converted_region:
  fixes nl :: u64
  assumes u: "gpt_upload_ok m a bs n" and bs: "512 \<le> unat bs" "unat bs \<le> 0x1000"
  defines "prim \<equiv> is_src_primary m a"
  defines "reg \<equiv> take (region_len (\<not> prim) bs) (if prim then backup_image m a bs nl else primary_image m a bs nl)"
  shows "region_ok (\<not> prim) nl bs reg \<and> region_entries (\<not> prim) bs reg = region_entries prim bs (upload_region m a bs)
    \<and> length reg = region_len (\<not> prim) bs"
proof -
  define h' where "h' = convert_header (\<not> prim) nl (src_header m a bs)"
  note c = upload_checked [OF u bs(2)]
  note h = converted_header [OF c(1,2), of "\<not> prim" nl, folded h'_def]
  have l: "length h' = unat bs" using h by (simp add: header_placed_def)
  have w: "unat (32 * bs) = 32 * unat bs" using bs by (simp add: unat_word_ariths)
  have parts: "region_header (\<not> prim) bs reg = h' \<and> length reg = region_len (\<not> prim) bs
      \<and> region_entries (\<not> prim) bs reg = ram_bytes m (src_entries_addr m a bs) (32 * unat bs)"
    using l length_mbr [OF bs(1), of nl] w unfolding h'_def
    by (cases prim)
      (simp_all add: reg_def region_header_def region_entries_def region_len_def backup_image_def primary_image_def prim_def
        src_header_def src_header_addr_def src_entries_addr_def)
  then have "region_ok (\<not> prim) nl bs reg"
    using h c by (intro region_okI [where h = "src_header m a bs"]) (simp_all add: upload_parts prim_def)
  then show ?thesis using parts by (simp add: upload_parts prim_def)
qed

end
