(* ===== verification/GptProps.thy ===== *)
theory GptProps
  imports GptProofs
begin

text \<open>
  Flashing a GUID partition table: what is on the eMMC afterwards.
\<close>

definition gpt_offset :: "blk_dev \<Rightarrow> bool \<Rightarrow> nat" where
  "gpt_offset d prim = (if prim then 0 else (unat (dev_lba d) - 33) * unat (dev_blksz d))"

text \<open>The table on the eMMC.\<close>

definition gpt_on :: "blk_dev \<Rightarrow> bool \<Rightarrow> (string \<Rightarrow> nat \<Rightarrow> char) \<Rightarrow> string" where
  "gpt_on d prim f = cells_read (f ''mmc'') (gpt_offset d prim) (region_len prim (dev_blksz d))"

abbreviation gpt_area :: "blk_dev \<Rightarrow> bool \<Rightarrow> nat \<times> nat" where
  "gpt_area d prim \<equiv> (gpt_offset d prim, region_len prim (dev_blksz d))"

abbreviation upload_entries :: "blk_dev \<Rightarrow> u32 \<Rightarrow> ram \<Rightarrow> string" where
  "upload_entries d a m \<equiv> region_entries (is_src_primary m a) (dev_blksz d) (upload_region m a (dev_blksz d))"

text \<open>A device with sectors of a usual size, room for both tables, and the buffer \<open>e\<close> has for a conversion away from the upload.\<close>

definition gpt_setup :: "soc \<Rightarrow> 'd fl_env \<Rightarrow> blk_dev \<Rightarrow> (string \<Rightarrow> nat \<Rightarrow> nat \<Rightarrow> bool) \<Rightarrow> u32 \<Rightarrow> bool" where
  "gpt_setup b e d good a \<longleftrightarrow> mmc_blk b = Some d \<and> 512 \<le> unat (dev_blksz d) \<and> unat (dev_blksz d) \<le> 0x1000 \<and> 67 \<le> unat (dev_lba d)
     \<and> good ''mmc'' (gpt_offset d True) (region_len True (dev_blksz d)) \<and> good ''mmc'' (gpt_offset d False) (region_len False (dev_blksz d))
     \<and> (case gpt_buf e of None \<Rightarrow> True | Some buf \<Rightarrow> 34 * unat (dev_blksz d) \<le> unat (a - buf) \<and> unat (a - buf) + 34 * unat (dev_blksz d) \<le> 2 ^ 32)"

lemma ram_write_src:
  assumes "length xs \<le> unat (a - c)" and "unat (a - c) + n \<le> 2 ^ 32" and "i < n"
  shows "ram_write m c xs (a + of_nat i) = m (a + of_nat i)"
  using arg_cong [where f = "\<lambda>ys. ys ! i", OF ram_bytes_write_apart [OF assms(1,2), of m]] assms(3) by simp

lemma src_primary_bytes: "is_src_primary m a \<longleftrightarrow> m (a + of_nat 510) = CHR 0x55 \<and> m (a + of_nat 511) = CHR 0xAA"
  by (simp add: is_src_primary_def)

lemma converted_buffer_apart:
  assumes "length xs \<le> unat (a - c)" and "unat (a - c) + 34 * unat bs \<le> 2 ^ 32" and "512 \<le> unat bs"
  shows "is_src_primary (ram_write m c xs) a = is_src_primary m a" "upload_region (ram_write m c xs) a bs = upload_region m a bs"
proof -
  show p: "is_src_primary (ram_write m c xs) a = is_src_primary m a"
    using ram_write_src [OF assms(1,2)] assms(3) by (simp only: src_primary_bytes)
  show "upload_region (ram_write m c xs) a bs = upload_region m a bs"
    unfolding upload_region_def p by (rule ram_bytes_write_apart [OF assms(1)]) (use assms(2) in \<open>simp add: region_len_def\<close>)
qed

lemma header_in_place_primary:
  assumes "length xs = unat bs" and "512 \<le> unat bs" and "unat bs \<le> 0x1000"
  shows "is_src_primary (ram_write m (src_header_addr m a bs) xs) a = is_src_primary m a"
proof -
  define j where "j = (if is_src_primary m a then 1 else 32) * unat bs"
  have a: "src_header_addr m a bs = a + of_nat j" by (simp add: src_header_addr_def j_def)
  have "ram_bytes (ram_write m (a + of_nat j) xs) a (j + unat bs) ! i = ram_bytes m a (j + unat bs) ! i" if "i < 512" for i
    using assms that by (subst ram_bytes_put) (auto simp: nth_put j_def)
  from this [of 510] this [of 511] show ?thesis
    using assms by (simp add: src_primary_bytes a j_def)
qed

declare unat_ucast_64 [simp]

lemma image_lengths:
  assumes "gpt_upload_ok m a bs n" and "512 \<le> unat bs" and "unat bs \<le> 0x1000"
  shows "\<not> is_src_primary m a \<Longrightarrow> length (primary_image m a bs nl) = 34 * unat bs"
    "is_src_primary m a \<Longrightarrow> length (backup_image m a bs nl) = 34 * unat bs"
proof -
  note c = upload_checked [OF assms(1,3)]
  have h: "length (convert_header p nl (src_header m a bs)) = unat bs" for p
    using converted_header [OF c(1,2), of p nl] by (simp add: header_placed_def)
  have w: "unat (32 * bs) = 32 * unat bs" using assms by (simp add: unat_word_ariths)
  show "length (primary_image m a bs nl) = 34 * unat bs" if "\<not> is_src_primary m a"
    using that h [of True] w length_mbr [OF assms(2), of nl] by (simp add: primary_image_def src_header_def src_header_addr_def)
  show "length (backup_image m a bs nl) = 34 * unat bs" if "is_src_primary m a"
    using that h [of False] w by (simp add: backup_image_def src_header_def src_header_addr_def)
qed

text \<open>What a conversion leaves behind, on the device (\<open>c\<close>, then \<open>c'\<close>) and of the upload in RAM (\<open>m\<close>, then \<open>m'\<close>).\<close>

definition gpt_outcome :: "blk_dev \<Rightarrow> u32 \<Rightarrow> u32 \<Rightarrow> bool \<Rightarrow> int \<Rightarrow> ram \<Rightarrow> (string \<Rightarrow> nat \<Rightarrow> char) \<Rightarrow> ram \<Rightarrow> (string \<Rightarrow> nat \<Rightarrow> char) \<Rightarrow> bool" where
  "gpt_outcome d a n prim r m c m' c' \<longleftrightarrow> same_outside c c' ''mmc'' (gpt_offset d prim) (region_len prim (dev_blksz d))
     \<and> is_src_primary m' a = is_src_primary m a \<and> upload_entries d a m' = upload_entries d a m
     \<and> (gpt_upload_ok m a (dev_blksz d) n \<longrightarrow> gpt_upload_ok m' a (dev_blksz d) n)
     \<and> (r = 1 \<longrightarrow> region_ok prim (ucast (dev_lba d)) (dev_blksz d) (gpt_on d prim c')
          \<and> region_entries prim (dev_blksz d) (gpt_on d prim c') = upload_entries d a m)"

text \<open>The sectors of a table.\<close>

abbreviation gpt_sector :: "blk_dev \<Rightarrow> bool \<Rightarrow> u32" where
  "gpt_sector d prim \<equiv> (if prim then 0 else ucast ((ucast (dev_lba d) :: u64) - 33))"

abbreviation gpt_count :: "bool \<Rightarrow> u32" where
  "gpt_count prim \<equiv> (if prim then 34 else 33)"

lemma gpt_sector_bytes:
  assumes "33 \<le> unat (dev_lba d)"
  shows "unat (gpt_sector d prim) * unat (dev_blksz d) = gpt_offset d prim"
proof -
  have "unat ((ucast (dev_lba d) :: u64) - 33) = unat (dev_lba d) - 33" using assms by (simp add: unat_sub word_le_nat_alt)
  moreover have "unat (dev_lba d) - 33 < 4294967296" by (rule order_le_less_trans [OF diff_le_self unat_u32_less])
  ultimately show ?thesis by (simp add: gpt_offset_def unsigned_ucast_eq take_bit_eq_mod)
qed

context flash_drivers
begin

lemma gpt_write:
  assumes d: "ok (dev t)" and g: "gpt_setup b e d good a"
    and w: "write_to_flash b e (run_line base) SMEM_BOOT_MMC_FLASH addr (gpt_sector d prim) (gpt_count prim) (gpt_count prim) ''default'' t = (q, t')"
  shows "ok (dev t') \<and> mem t' = mem t
    \<and> same_outside (cells (dev t)) (cells (dev t')) ''mmc'' (gpt_offset d prim) (region_len prim (dev_blksz d))
    \<and> (q = 0 \<longrightarrow> gpt_on d prim (cells (dev t')) = ram_bytes (mem t) addr (region_len prim (dev_blksz d)))"
proof -
  define off sec where "off = gpt_sector d prim" and "sec = gpt_count prim"
  have b: "mmc_blk b = Some d" "33 \<le> unat (dev_lba d)" using g by (simp_all add: gpt_setup_def)
  have off': "unat off * unat (dev_blksz d) = gpt_offset d prim" unfolding off_def by (rule gpt_sector_bytes [OF b(2)])
  have sec': "unat sec * unat (dev_blksz d) = region_len prim (dev_blksz d)" by (simp add: sec_def region_len_def)
  have u: "driver SMEM_BOOT_MMC_FLASH = ''mmc''" "unit_bytes b ''mmc'' = unat (dev_blksz d)"
    using b(1) by (simp_all add: driver_def is_nand_type_def unit_bytes_def)
  have good': "area_good SMEM_BOOT_MMC_FLASH off sec" using g off' sec' u by (cases prim) (simp_all add: gpt_setup_def)
  have k: "known_type SMEM_BOOT_MMC_FLASH" "layout_ok ''default''" by (simp_all add: known_type_def layout_ok_def)
  show ?thesis
    using write_to_flash_effect [OF d k good' order_refl, of e addr q t'] w u off' sec' unfolding off_def [symmetric] sec_def [symmetric]
    by (simp add: gpt_on_def)
qed

text \<open>A table that stays what it is, primary or backup, is adapted where it lies and written from there.\<close>

lemma convert_in_place:
  assumes d: "ok (dev s)" and g: "gpt_setup b e d good a" and up: "gpt_upload_ok (mem s) a (dev_blksz d) n"
    and run: "gpt_convert_and_write b e (run_line base) d name a n s = (r, s')"
    and same: "is_src_primary (mem s) a = is_dst_primary name"
  shows "ok (dev s') \<and> gpt_outcome d a n (is_dst_primary name) r (mem s) (cells (dev s)) (mem s') (cells (dev s'))"
proof -
  define bs nl m prim where "bs = dev_blksz d" and "nl = (ucast (dev_lba d) :: u64)" and "m = mem s" and "prim = is_dst_primary name"
  note ok = up [folded bs_def m_def] and True = same [folded m_def prim_def]
  have b: "512 \<le> unat bs" "unat bs \<le> 0x1000" using g by (simp_all add: gpt_setup_def bs_def)
  define t where "t = s\<lparr>mem := ram_write m (src_header_addr m a bs) (gpt_autofix prim nl (src_header m a bs))\<rparr>"
  obtain q t' where wt: "write_to_flash b e (run_line base) SMEM_BOOT_MMC_FLASH a (gpt_sector d prim) (gpt_count prim) (gpt_count prim) ''default'' t = (q, t')"
    by fastforce
  have R: "s' = t'" "r = 1 \<longleftrightarrow> q = 0"
    using run ok True wt
    by (auto simp: gpt_convert_and_write_def Let_def m_def [symmetric] bs_def [symmetric] nl_def [symmetric] prim_def [symmetric]
        t_def split_beta split: if_splits)
  have h: "length (gpt_autofix prim nl (src_header m a bs)) = unat bs"
    using autofixed_header [OF upload_checked(1,2) [OF ok b(2)], of prim nl] by (simp add: header_placed_def)
  have p: "is_src_primary (mem t) a = is_src_primary m a"
    unfolding t_def by (simp add: header_in_place_primary [OF h b])
  have z: "region_ok prim nl bs (ram_bytes (mem t) a (region_len prim bs)) \<and> region_entries prim bs (ram_bytes (mem t) a (region_len prim bs))
      = region_entries prim bs (upload_region m a bs) \<and> same_table (src_header m a bs) (region_header prim bs (ram_bytes (mem t) a (region_len prim bs)))"
    using autofixed_region [OF ok b(2), of nl] True by (simp add: t_def)
  have up: "upload_region (mem t) a bs = ram_bytes (mem t) a (region_len prim bs)" using p True by (simp add: upload_region_def)
  then have "src_header (mem t) a bs = region_header prim bs (ram_bytes (mem t) a (region_len prim bs))"
    using upload_parts(1) [of "mem t" a bs] p True by simp
  then have "gpt_upload_ok (mem t) a bs n"
    using z p True up by (intro upload_ok_again [OF ok b(2) p]) (simp_all add: region_ok_def header_placed_def Let_def)
  then show ?thesis
    using gpt_write [OF _ g wt] R z p d True
    unfolding gpt_outcome_def upload_region_def m_def [symmetric] bs_def [symmetric] nl_def [symmetric] prim_def [symmetric] by (auto simp: t_def)
qed

text \<open>Otherwise the other form is built in a buffer and written from there.\<close>

lemma convert_across:
  assumes d: "ok (dev s)" and g: "gpt_setup b e d good a" and up: "gpt_upload_ok (mem s) a (dev_blksz d) n"
    and run: "gpt_convert_and_write b e (run_line base) d name a n s = (r, s')"
    and other: "is_src_primary (mem s) a \<noteq> is_dst_primary name" and buf: "gpt_buf e = Some buf"
  shows "ok (dev s') \<and> gpt_outcome d a n (is_dst_primary name) r (mem s) (cells (dev s)) (mem s') (cells (dev s'))"
proof -
  define bs nl m prim where "bs = dev_blksz d" and "nl = (ucast (dev_lba d) :: u64)" and "m = mem s" and "prim = is_dst_primary name"
  note ok = up [folded bs_def m_def]
  have s: "is_src_primary m a = (\<not> prim)" using other by (auto simp: m_def prim_def)
  have b: "512 \<le> unat bs" "unat bs \<le> 0x1000" using g by (simp_all add: gpt_setup_def bs_def)
  define img where "img = (if prim then primary_image m a bs nl else backup_image m a bs nl)"
  define t where "t = s\<lparr>mem := ram_write m buf img\<rparr>"
  obtain q t' where wt: "write_to_flash b e (run_line base) SMEM_BOOT_MMC_FLASH buf (gpt_sector d prim) (gpt_count prim) (gpt_count prim) ''default'' t = (q, t')"
    by fastforce
  have R: "s' = t'" "r = 1 \<longleftrightarrow> q = 0"
    using run ok s buf wt
    by (auto simp: gpt_convert_and_write_def Let_def m_def [symmetric] bs_def [symmetric] nl_def [symmetric] prim_def [symmetric]
        t_def img_def split_beta split: if_splits)
  have l: "length img = 34 * unat bs" using image_lengths [OF ok b, of nl] s by (simp add: img_def)
  have ap: "length img \<le> unat (a - buf)" "unat (a - buf) + 34 * unat bs \<le> 2 ^ 32" using g buf l by (simp_all add: gpt_setup_def bs_def)
  have "ram_bytes (mem t) buf (region_len prim bs) = take (region_len prim bs) img"
    unfolding t_def using l b(2) by (simp add: ram_bytes_write_take region_len_def)
  then have z: "region_ok prim nl bs (ram_bytes (mem t) buf (region_len prim bs)) \<and> region_entries prim bs (ram_bytes (mem t) buf (region_len prim bs))
      = region_entries (is_src_primary m a) bs (upload_region m a bs)"
    using converted_region [OF ok b, of nl] s by (cases prim) (simp_all add: img_def)
  have "gpt_upload_ok (mem t) a bs n"
  proof (rule upload_ok_again [OF ok b(2)])
    have "src_header (mem t) a bs = src_header m a bs"
      using upload_parts(1) [of "mem t" a bs] upload_parts(1) [of m a bs] converted_buffer_apart [OF ap b(1), of m] by (simp add: t_def)
    then show "gpt_verify_header_crc (src_header (mem t) a bs) bs" "same_table (src_header m a bs) (src_header (mem t) a bs)"
      using upload_checked(1) [OF ok b(2)] by (simp_all add: same_table_def)
  qed (simp_all add: t_def converted_buffer_apart [OF ap b(1)])
  then show ?thesis
    using gpt_write [OF _ g wt] R z d converted_buffer_apart [OF ap b(1), of m]
    unfolding gpt_outcome_def m_def [symmetric] bs_def [symmetric] nl_def [symmetric] prim_def [symmetric] by (auto simp: t_def)
qed

lemma convert_effect:
  assumes d: "ok (dev s)" and g: "gpt_setup b e d good a"
    and run: "gpt_convert_and_write b e (run_line base) d name a n s = (r, s')"
  shows "ok (dev s') \<and> gpt_outcome d a n (is_dst_primary name) r (mem s) (cells (dev s)) (mem s') (cells (dev s'))"
proof (cases "gpt_upload_ok (mem s) a (dev_blksz d) n \<and> (is_src_primary (mem s) a = is_dst_primary name \<or> gpt_buf e \<noteq> None)")
  case False
  then consider "\<not> gpt_upload_ok (mem s) a (dev_blksz d) n"
    | "gpt_upload_ok (mem s) a (dev_blksz d) n" "is_src_primary (mem s) a \<noteq> is_dst_primary name" "gpt_buf e = None" by blast
  then have "s' = s \<and> r \<noteq> 1" by cases (use run in \<open>auto simp: gpt_convert_and_write_def Let_def\<close>)
  then show ?thesis using d by (auto simp: gpt_outcome_def)
qed (use convert_in_place [OF d g _ run] convert_across [OF d g _ run] in blast)

end

section \<open>Properties\<close>

text \<open>
  C15: A partition table with a damaged byte is not flashed: changing any byte of the entry array that the header
  covers, or of the header outside its own length field, makes a table that was accepted fail its check.
\<close>

theorem damaged_gpt_refused:
  assumes "gpt_verify_header_crc h bs" and "length h = unat bs" and "gpt_verify_entries_crc h es"
  shows "(\<forall>i < unat (header_size h). \<forall>x. (i < 12 \<or> 16 \<le> i) \<and> x \<noteq> h ! i \<longrightarrow> \<not> gpt_verify_header_crc (h[i := x]) bs)
    \<and> (\<forall>i < length es. \<forall>x. x \<noteq> es ! i \<longrightarrow> \<not> gpt_verify_entries_crc h (es[i := x]))"
proof (intro conjI allI impI)
  fix i x assume "i < unat (header_size h)" "(i < 12 \<or> 16 \<le> i) \<and> x \<noteq> h ! i"
  then show "\<not> gpt_verify_header_crc (h[i := x]) bs" by (intro header_byte_detected [OF assms(1,2)]) auto
next
  fix i x assume "i < length es" "x \<noteq> es ! i"
  then show "\<not> gpt_verify_entries_crc h (es[i := x])" using crc_update [of i es x] assms(3) by (simp add: gpt_verify_entries_crc_def)
qed


lemma gpt_areas_apart:
  assumes "gpt_setup b e d good a"
  shows "gpt_offset d True + region_len True (dev_blksz d) \<le> gpt_offset d False"
proof -
  have "67 \<le> unat (dev_lba d)" using assms by (simp add: gpt_setup_def)
  then have "34 * unat (dev_blksz d) \<le> (unat (dev_lba d) - 33) * unat (dev_blksz d)" by (intro mult_le_mono1) linarith
  then show ?thesis by (simp add: gpt_offset_def region_len_def)
qed

lemma gpt_dst: "is_dst_primary ''0:GPT''" "\<not> is_dst_primary ''0:GPTBACKUP''"
  unfolding is_dst_primary_def by code_simp+

text \<open>
  C9: Flashing one upload to \<^verbatim>\<open>0:GPT\<close> and then to \<^verbatim>\<open>0:GPTBACKUP\<close>, as the partition table upgrade does, leaves a
  consistent pair on the device: both tables are valid, each header names the other one's sector, and they have
  the same entries, those of the upload.
\<close>

theorem gpt_pair_consistent:
  assumes drv: "flash_drivers b base ok cells clean good" "ok (dev s)" and g: "gpt_setup b e d good a"
    and first: "gpt_convert_and_write b e (run_line base) d ''0:GPT'' a n s = (1, s1)"
    and second: "gpt_convert_and_write b e (run_line base) d ''0:GPTBACKUP'' a n s1 = (1, s2)"
  defines "bs \<equiv> dev_blksz d" and "nl \<equiv> ucast (dev_lba d)"
    and "p \<equiv> gpt_on d True (cells (dev s2))" and "q \<equiv> gpt_on d False (cells (dev s2))"
  shows "region_ok True nl bs p \<and> region_ok False nl bs q
    \<and> my_lba (region_header True bs p) = alternate_lba (region_header False bs q)
    \<and> my_lba (region_header False bs q) = alternate_lba (region_header True bs p)
    \<and> region_entries True bs p = upload_entries d a (mem s) \<and> region_entries False bs q = upload_entries d a (mem s)"
proof -
  note x = flash_drivers.convert_effect [OF drv g first, unfolded gpt_outcome_def]
  then have "ok (dev s1)" by simp
  note y = flash_drivers.convert_effect [OF drv(1) this g second, unfolded gpt_outcome_def]
  have "same_outside (cells (dev s1)) (cells (dev s2)) ''mmc'' (gpt_offset d False) (region_len False bs)" using y gpt_dst by (simp add: bs_def)
  then have p: "p = gpt_on d True (cells (dev s1))"
    unfolding p_def gpt_on_def by (rule same_outside_read) (use gpt_areas_apart [OF g] in \<open>simp add: bs_def\<close>)
  have "region_ok True nl bs p" "region_ok False nl bs q" using x y gpt_dst by (simp_all add: p bs_def nl_def q_def)
  moreover have "region_entries True bs p = upload_entries d a (mem s)" using x gpt_dst by (simp add: p bs_def)
  moreover have "region_entries False bs q = upload_entries d a (mem s1)" using y gpt_dst by (simp add: bs_def q_def)
  moreover have "upload_entries d a (mem s1) = upload_entries d a (mem s)" using x by blast
  ultimately show ?thesis by (simp add: region_ok_def header_placed_def Let_def exp_my_def exp_alt_def)
qed

section \<open>An example\<close>

lemma convert_succeeds:
  assumes "never_fails base" and "gpt_upload_ok (mem s) a (dev_blksz d) n" and "gpt_buf e \<noteq> None"
  shows "fst (gpt_convert_and_write b e (run_line base) d name a n s) = 1"
proof -
  have "fst (write_to_flash b e (run_line base) SMEM_BOOT_MMC_FLASH addr off psz k l t) = 0" for addr off psz k l t
    using lines(1) [of SMEM_BOOT_MMC_FLASH] by (auto simp: known_type_def write_to_flash_def split_beta Let_def sprintf_run_parts line_succeeds [OF assms(1)])
  then show ?thesis using assms(2,3) by (auto simp: gpt_convert_and_write_def Let_def split_beta)
qed

definition sample_entries :: string where
  "sample_entries = replicate 16384 NUL"

definition blank_header :: string where
  "blank_header = put_le 4 (put_le 4 (put_le 4 (put_le 4 (replicate 512 NUL) 12 (92 :: u32)) 80 (128 :: u32)) 84 (128 :: u32)) 88 (efi_crc32 sample_entries)"

definition sample_header :: string where
  "sample_header = gpt_fix_header_crc blank_header"

definition sample_gpt :: string where
  "sample_gpt = protective_mbr 512 0x70000 @ sample_header @ sample_entries"

definition gpt_loaded :: "(string \<Rightarrow> nat \<Rightarrow> char) shell" where
  "gpt_loaded = shell_on (ram_write (\<lambda>_. NUL) 0x4b000000 sample_gpt) (\<lambda>_ _. NUL)"

definition gpt_env :: "(string \<Rightarrow> nat \<Rightarrow> char) fl_env" where
  "gpt_env = plain_env\<lparr>gpt_buf := Some 0x4a000000\<rparr>"

lemma blank_header_fields: "length blank_header = 512" "header_size blank_header = 92" "num_partition_entries blank_header = 128"
  "sizeof_partition_entry blank_header = 128" "entry_array_crc blank_header = efi_crc32 sample_entries"
  by (simp_all add: blank_header_def field_simps_le)

lemma sample_header_ok: "length sample_header = 512" "gpt_verify_header_crc sample_header 512" "header_size sample_header = 92"
  "num_partition_entries sample_header = 128" "sizeof_partition_entry sample_header = 128" "entry_array_crc sample_header = efi_crc32 sample_entries"
  "gpt_verify_entries_crc sample_header sample_entries" "entries_len sample_header = 16384"
  using fixed_verifies [of blank_header 512] blank_header_fields
  by (simp_all add: sample_header_def fixed_fields gpt_verify_entries_crc_def entries_len_def)

lemma sample_length: "length sample_gpt = 17408"
  using sample_header_ok(1) length_mbr [of 512] by (simp add: sample_gpt_def sample_entries_def)

lemma sample_primary: "is_src_primary (mem gpt_loaded) 0x4b000000"
proof -
  have "i < 512 \<Longrightarrow> ram_write m 0x4b000000 sample_gpt (0x4b000000 + of_nat i) = protective_mbr 512 0x70000 ! i" for i m
    using ram_write_hit [of i sample_gpt m "0x4b000000"] sample_length length_mbr [of 512 "0x70000"] by (simp add: sample_gpt_def nth_append)
  from this [of 510] this [of 511] show ?thesis
    by (simp add: src_primary_bytes gpt_loaded_def shell_on_def protective_mbr_def Let_def nth_put length_put)
qed

lemma sample_region: "upload_region (mem gpt_loaded) 0x4b000000 512 = sample_gpt"
  using ram_bytes_write [of sample_gpt "\<lambda>_. NUL" "0x4b000000"] sample_primary sample_length
  by (simp add: upload_region_def region_len_def gpt_loaded_def shell_on_def)

lemma sample_upload: "gpt_upload_ok (mem gpt_loaded) 0x4b000000 512 17408"
proof -
  have h: "src_header (mem gpt_loaded) 0x4b000000 512 = sample_header"
    using upload_parts(1) [of "mem gpt_loaded" "0x4b000000" 512] sample_primary sample_header_ok(1) length_mbr [of 512]
    by (simp add: sample_region region_header_def sample_gpt_def)
  have "ram_bytes (mem gpt_loaded) (src_entries_addr (mem gpt_loaded) 0x4b000000 512) 16384 = sample_entries"
    using upload_parts(2) [of "mem gpt_loaded" "0x4b000000" 512] sample_primary sample_header_ok(1) length_mbr [of 512]
    by (simp add: sample_region region_entries_def sample_gpt_def sample_entries_def)
  then show ?thesis using sample_header_ok sample_primary by (simp add: gpt_upload_ok_def Let_def h)
qed

lemma sample_setup: "gpt_setup emmc_soc gpt_env emmc_blk (\<lambda>_ _ _. True) 0x4b000000"
proof -
  have "dev_lba emmc_blk = 0x70000" by (simp add: emmc_blk_def emmc_soc_def)
  then show ?thesis by (simp add: gpt_setup_def gpt_env_def)
qed

definition gpt_first :: "(string \<Rightarrow> nat \<Rightarrow> char) shell" where
  "gpt_first = snd (gpt_convert_and_write emmc_soc gpt_env (run_line (sim emmc_soc)) emmc_blk ''0:GPT'' 0x4b000000 17408 gpt_loaded)"

definition gpt_second :: "(string \<Rightarrow> nat \<Rightarrow> char) shell" where
  "gpt_second = snd (gpt_convert_and_write emmc_soc gpt_env (run_line (sim emmc_soc)) emmc_blk ''0:GPTBACKUP'' 0x4b000000 17408 gpt_first)"

lemma gpt_first_ok: "gpt_convert_and_write emmc_soc gpt_env (run_line (sim emmc_soc)) emmc_blk ''0:GPT'' 0x4b000000 17408 gpt_loaded = (1, gpt_first)"
  using convert_succeeds [OF sim_never_fails, of gpt_loaded "0x4b000000" emmc_blk 17408 gpt_env] sample_upload
  by (simp add: gpt_first_def gpt_env_def prod_eq_iff)

lemma gpt_second_ok: "gpt_convert_and_write emmc_soc gpt_env (run_line (sim emmc_soc)) emmc_blk ''0:GPTBACKUP'' 0x4b000000 17408 gpt_first = (1, gpt_second)"
proof -
  have "gpt_upload_ok (mem gpt_first) 0x4b000000 512 17408"
    using sim.convert_effect [OF _ sample_setup gpt_first_ok] sample_upload by (simp add: gpt_outcome_def)
  then show ?thesis
    using convert_succeeds [OF sim_never_fails, of gpt_first "0x4b000000" emmc_blk 17408 gpt_env]
    by (simp add: gpt_second_def gpt_env_def prod_eq_iff)
qed

theorem damaged_gpt_refused_witness:
  "\<not> gpt_verify_header_crc (sample_header[0 := CHR ''X'']) 512 \<and> \<not> gpt_verify_entries_crc sample_header (sample_entries[3 := CHR ''X''])"
proof -
  have "sample_header ! 0 = NUL"
    by (simp add: sample_header_def gpt_fix_header_crc_def Let_def put_le_def nth_put length_put blank_header_def)
  then show ?thesis
    using damaged_gpt_refused [OF sample_header_ok(2) _ sample_header_ok(7)] sample_header_ok(1,3) by (simp add: sample_entries_def)
qed


theorem gpt_pair_consistent_witness:
  "my_lba (region_header True 512 (gpt_on emmc_blk True (dev gpt_second))) = alternate_lba (region_header False 512 (gpt_on emmc_blk False (dev gpt_second)))"
  using gpt_pair_consistent [OF sim.flash_drivers_axioms _ sample_setup gpt_first_ok gpt_second_ok] by simp

end
