(* ===== verification/SmemProofs.thy ===== *)
theory SmemProofs
  imports FlashProps
begin

text \<open>
  The partition table: its lookups, and what \<^verbatim>\<open>mibib_reload\<close> makes of an uploaded table.
\<close>

section \<open>Lookups\<close>

text \<open>A table of the boot loader: names of 16 bytes with their terminator, no two alike.\<close>

definition names_ok :: "smem_ptn list \<Rightarrow> bool" where
  "names_ok ps \<longleftrightarrow> (\<forall>p \<in> set ps. length (ptn_name p) = 16 \<and> NUL \<in> set (ptn_name p)) \<and> distinct (map (\<lambda>p. cstr (ptn_name p)) ps)"

lemma names_ok_Cons:
  "names_ok (p # ps) \<longleftrightarrow> length (ptn_name p) = 16 \<and> NUL \<in> set (ptn_name p) \<and> (\<forall>q \<in> set ps. cstr (ptn_name q) \<noteq> cstr (ptn_name p)) \<and> names_ok ps"
  by (simp add: names_ok_def image_iff) metis

lemma cstr_append: "NUL \<in> set xs \<Longrightarrow> cstr (xs @ ys) = cstr xs"
  by (auto simp: cstr_def takeWhile_append)

lemma cstr_take_16:
  assumes "length x = 16" and "NUL \<in> set x"
  shows "cstr x = cstr (take 16 name) \<longleftrightarrow> cstr x = cstr name"
proof (cases "NUL \<in> set (take 16 name)")
  case True
  then show ?thesis using cstr_append [OF True, of "drop 16 name"] by simp
next
  case False
  then have t: "cstr (take 16 name) = take 16 name" by (auto simp: cstr_def takeWhile_eq_all_conv)
  have "dropWhile (\<lambda>c. c \<noteq> NUL) x \<noteq> []" using assms(2) by (auto simp: dropWhile_eq_Nil_conv)
  then have "length (cstr x) < 16"
    unfolding cstr_def using assms(1) arg_cong [where f = length, OF takeWhile_dropWhile_id [of "\<lambda>c. c \<noteq> NUL" x]]
    by (cases "dropWhile (\<lambda>c. c \<noteq> NUL) x") auto
  moreover have "length (cstr name) = length name \<or> 16 \<le> length (cstr name)"
  proof (cases "16 \<le> length name")
    case True
    have "cstr name = take 16 name @ cstr (drop 16 name)"
      using False by (metis append_take_drop_id cstr_def takeWhile_append2 takeWhile_eq_all_conv t)
    then show ?thesis using True by simp
  next
    case short: False
    then have "takeWhile (\<lambda>c. c \<noteq> NUL) name = name" using False by (intro takeWhile_eq_all_conv [THEN iffD2]) auto
    then show ?thesis unfolding cstr_def by metis
  qed
  ultimately show ?thesis using t by (cases "16 \<le> length name") auto
qed

lemma entry_text:
  assumes "length (ptn_name p) = 16" and "NUL \<in> set (ptn_name p)"
  shows "strncmp (ptn_text (p # ps)) name 16 = 0 \<longleftrightarrow> cstr (ptn_name p) = cstr name"
    "strcmp (ptn_text (p # ps)) name = 0 \<longleftrightarrow> cstr (ptn_name p) = cstr name"
  using assms cstr_take_16 [OF assms] by (simp_all add: strncmp_eq_0 strcmp_eq_0 ptn_bytes_def cstr_append)

lemma find_ptn_find: "names_ok ps \<Longrightarrow> find_ptn ps name = find (\<lambda>p. cstr (ptn_name p) = cstr name) ps"
  by (induction ps) (auto simp: names_ok_Cons entry_text simp del: concat.simps list.map)

lemma which_loop_find:
  "names_ok ps \<Longrightarrow> which_loop ps name v = (case find (\<lambda>p. cstr (ptn_name p) = cstr name) ps of Some p \<Rightarrow> part_which_flash p | None \<Rightarrow> v)"
proof (induction ps arbitrary: v)
  case (Cons p ps)
  have ok: "names_ok ps" and p: "length (ptn_name p) = 16" "NUL \<in> set (ptn_name p)" using Cons.prems by (auto simp: names_ok_Cons)
  have "find (\<lambda>q. cstr (ptn_name q) = cstr name) ps = None" if "cstr (ptn_name p) = cstr name"
    using Cons.prems that by (auto simp: names_ok_Cons find_None_iff)
  then show ?case using Cons.IH [OF ok] entry_text [OF p, of ps name] by (simp del: concat.simps list.map)
qed simp


section \<open>An uploaded table\<close>

lemma upt_4: "[0..<4] = [0, 1, 2, 3]"
  by (simp add: upt_rec)

lemma le32_bytes_chars: "le32_bytes w = le_chars 4 w"
proof -
  have four: "(4 :: nat) = Suc (Suc (Suc (Suc 0)))" by simp
  have "le_chars 4 w = le_chars (Suc (Suc (Suc (Suc 0)))) w" unfolding four ..
  then show ?thesis unfolding le_chars.simps by (simp add: le32_bytes_def upt_4)
qed

lemma length_ptn_bytes: "length (ptn_name p) = 16 \<Longrightarrow> length (ptn_bytes p) = 28"
  by (simp add: ptn_bytes_def le32_bytes_chars)

lemma ram_le32_val: "ram_le32 m a = le_val (ram_bytes m a 4)"
  by (simp add: ram_le32_def ram_bytes_def upt_4 algebra_simps)

lemma ram_le32_chars: "ram_bytes m a 4 = le_chars 4 w \<Longrightarrow> ram_le32 m a = w"
  by (simp add: ram_le32_val)

lemma ptn_at_bytes:
  assumes "ram_bytes m a 28 = ptn_bytes p" and "length (ptn_name p) = 16"
  shows "ptn_at m a = p"
proof -
  have s: "ram_bytes m (a + of_nat j) k = take k (drop j (ptn_bytes p))" if "j + k \<le> 28" for j k
    using ram_slice [OF that, of m a] assms(1) by simp
  have "ptn_name (ptn_at m a) = ptn_name p" using s [of 0 16] assms(2) by (simp add: ptn_at_def ptn_bytes_def)
  moreover have "ptn_start (ptn_at m a) = ptn_start p" "ptn_size (ptn_at m a) = ptn_size p" "ptn_attr (ptn_at m a) = ptn_attr p"
    using s [of 16 4] s [of 20 4] s [of 24 4] assms(2) by (simp_all add: ptn_at_def ptn_bytes_def le32_bytes_chars ram_le32_val)
  ultimately show ?thesis by simp
qed

text \<open>A table as it lies in the image: two magic numbers, a version, the number of entries and the entries.\<close>

definition mibib_table :: "smem_ptn list \<Rightarrow> string" where
  "mibib_table ps = le_chars 4 (0x55ee73aa :: u32) @ le_chars 4 (0xe35ebddb :: u32) @ le_chars 4 (4 :: u32)
     @ le_chars 4 (of_nat (length ps) :: u32) @ ptn_text ps"

definition entries_wf :: "smem_ptn list \<Rightarrow> bool" where
  "entries_wf ps \<longleftrightarrow> (\<forall>p \<in> set ps. length (ptn_name p) = 16)"

lemma ptn_text_nth:
  "entries_wf ps \<Longrightarrow> i < length ps \<Longrightarrow> take 28 (drop (28 * i) (ptn_text ps)) = ptn_bytes (ps ! i)"
proof (induction ps arbitrary: i)
  case (Cons p ps)
  then have "length (ptn_bytes p) = 28" by (simp add: entries_wf_def length_ptn_bytes)
  then show ?case using Cons by (cases i) (simp_all add: entries_wf_def)
qed simp

lemma length_ptn_text: "entries_wf ps \<Longrightarrow> length (ptn_text ps) = 28 * length ps"
  by (induction ps) (simp_all add: entries_wf_def length_ptn_bytes)

lemma length_mibib_table: "entries_wf ps \<Longrightarrow> length (mibib_table ps) = 16 + 28 * length ps"
  by (simp add: mibib_table_def length_ptn_text)

lemma mibib_read:
  assumes m: "ram_bytes m a (16 + 28 * length ps) = mibib_table ps" and wf: "entries_wf ps" "length ps \<le> 32"
  shows "\<exists>b'. mibib_ptable_init m a b = Some b' \<and> ptable b' = ps \<and> length (ptable_parts b') = 32 \<and> entries_wf (ptable_parts b')"
proof -
  have s: "ram_bytes m (a + of_nat j) k = take k (drop j (mibib_table ps))" if "j + k \<le> 16 + 28 * length ps" for j k
    using ram_slice [OF that, of m a] m by simp
  have h: "ram_le32 m a = 0x55ee73aa" "ram_le32 m (a + 4) = 0xe35ebddb" "ram_le32 m (a + 12) = of_nat (length ps)"
    using s [of 0 4] s [of 4 4] s [of 12 4] by (simp_all add: mibib_table_def ram_le32_val)
  have e: "ptn_at m (a + 16 + 28 * of_nat i) = ps ! i" if "i < length ps" for i
  proof (rule ptn_at_bytes)
    have "16 + 28 * i + 28 \<le> 16 + 28 * length ps" using that by simp
    from s [OF this] have "ram_bytes m (a + of_nat (16 + 28 * i)) 28 = take 28 (drop (28 * i) (ptn_text ps))" by (simp add: mibib_table_def)
    then show "ram_bytes m (a + 16 + 28 * of_nat i) 28 = ptn_bytes (ps ! i)" using ptn_text_nth [OF wf(1) that] by (simp add: add.assoc)
    show "length (ptn_name (ps ! i)) = 16" using wf(1) that by (simp add: entries_wf_def)
  qed
  have "unat (of_nat (length ps) :: u32) = length ps" using wf(2) by (intro unat_of_nat_u32) simp
  then show ?thesis
    using e h wf(2) by (auto simp: mibib_ptable_init_def ptable_def entries_wf_def ptn_at_def intro!: nth_equalityI)
qed

section \<open>Reloading\<close>

text \<open>The shape of the table in memory: 32 entries with names of 16 bytes.\<close>

definition soc_shape :: "soc \<Rightarrow> bool" where
  "soc_shape b \<longleftrightarrow> length (ptable_parts b) = 32 \<and> entries_wf (ptable_parts b)"

lemma details_keep [simp]:
  "ptable_parts (get_kernel_fs_part_details second b) = ptable_parts b" "ptable (get_kernel_fs_part_details second b) = ptable b"
  "fl_type (get_kernel_fs_part_details second b) = fl_type b" "fl_block_size (get_kernel_fs_part_details second b) = fl_block_size b"
  by (simp_all add: get_kernel_fs_part_details_def Let_def ptable_def)

lemma init_shape: "mibib_ptable_init m a b = Some b' \<Longrightarrow> soc_shape b'"
  by (auto simp: mibib_ptable_init_def soc_shape_def entries_wf_def ptn_at_def split: if_splits)


text \<open>The entries of the kernel and the root file system follow the table.\<close>

lemma part_entry_cong:
  assumes "ptable b' = ptable b" and "fl_block_size b' = fl_block_size b" and "nand_infos b' = nand_infos b" and "spi_nand b' = spi_nand b"
    and "spi_info_idx b' = spi_info_idx b"
  shows "part_entry b' name = part_entry b name"
  using assms by (simp add: part_entry_def smem_getpart_def qca_set_part_entry_def get_flash_block_size_def get_which_flash_param_def
      get_part_block_size_def get_device_id_by_part_def split: option.split)

lemma details_entries:
  "rootfs_entry (get_kernel_fs_part_details second b) = part_entry b ''rootfs''" "hlos_entry (get_kernel_fs_part_details second b) = part_entry b ''0:HLOS''"
  by (simp_all add: get_kernel_fs_part_details_def Let_def part_entry_cong [of "b\<lparr>hlos_entry := x, fl_secondary := y\<rparr>" b for x y] ptable_def)

text \<open>The first page of the image, its magic numbers and version.\<close>

definition mibib_page :: "ram \<Rightarrow> u32 \<Rightarrow> bool" where
  "mibib_page m a \<longleftrightarrow> ram_le32 m a = 0xFE569FAC \<and> ram_le32 m (a + 4) = 0xCD7F127A \<and> ram_le32 m (a + 8) = 4"

text \<open>
  C23: An uploaded partition table with at most 32 well-formed entries is taken over: after \<^verbatim>\<open>mibib_reload\<close> the table
  of the board is the uploaded one, every entry is found under its name with its start, and the entries of the
  kernel and the root file system are those of the new table.
\<close>

theorem reload_takes_table:
  assumes args: "length argv = 5" "hex_arg (argv ! 1) \<in> {0, 1}" "hex_arg (argv ! 2) = page" "env_hex e ''fileaddr'' = a" "env_hex e ''filesize'' \<ge> 2 * page"
    and img: "mibib_page m a" "ram_bytes m (a + page) (16 + 28 * length ps) = mibib_table ps" and ps: "names_ok ps" "length ps \<le> 32"
  shows "\<exists>b'. do_mibib_reload qspi second e m argv b = (0, b') \<and> ptable b' = ps \<and> fl_block_size b' = hex_arg (argv ! 3)
    \<and> (\<forall>p \<in> set ps. \<exists>n. smem_getpart b' (ptn_name p) = Some (ptn_start p, n) \<and> get_which_flash_param b' (ptn_name p) = part_which_flash p)
    \<and> rootfs_entry b' = part_entry b' ''rootfs'' \<and> hlos_entry b' = part_entry b' ''0:HLOS''"
proof -
  define b0 where "b0 = b\<lparr>fl_block_size := hex_arg (argv ! 3), fl_density := hex_arg (argv ! 4),
    fl_type := (if (ucast (hex_arg (argv ! 1)) :: u8) = 0 then if qspi then SMEM_BOOT_QSPI_NAND_FLASH else SMEM_BOOT_NAND_FLASH else SMEM_BOOT_SPI_FLASH)\<rparr>"
  have wf: "entries_wf ps" using ps(1) by (auto simp: names_ok_def entries_wf_def)
  obtain b1 where b1: "mibib_ptable_init m (a + page) b0 = Some b1" "ptable b1 = ps"
    using mibib_read [OF img(2) wf ps(2), of b0] by blast
  have f1: "fl_block_size b1 = hex_arg (argv ! 3)" using b1(1) by (auto simp: mibib_ptable_init_def b0_def split: if_splits)
  define b' where "b' = get_kernel_fs_part_details second b1"
  have ty: "\<not> (ucast (hex_arg (argv ! 1)) :: u8) > 1" using args(2) by auto
  have run: "do_mibib_reload qspi second e m argv b = (0, b')"
    using args ty img(1) b1(1) unfolding do_mibib_reload_def Let_def mibib_page_def by (simp add: b0_def b'_def not_less)
  have pt: "ptable b' = ps" by (simp add: b'_def b1)
  have found: "find_ptn ps (ptn_name p) = Some p" if "p \<in> set ps" for p
  proof -
    have "find (\<lambda>q. cstr (ptn_name q) = cstr (ptn_name p)) ps \<noteq> None" using that by (auto simp: find_None_iff)
    then obtain q where q: "find (\<lambda>q. cstr (ptn_name q) = cstr (ptn_name p)) ps = Some q" by blast
    then have "q \<in> set ps" "cstr (ptn_name q) = cstr (ptn_name p)" by (auto simp: find_Some_iff)
    then have "q = p" using ps(1) that by (auto simp: names_ok_def distinct_map inj_on_def)
    then show ?thesis using find_ptn_find [OF ps(1)] q by simp
  qed
  have "get_which_flash_param b' (ptn_name p) = part_which_flash p" if "p \<in> set ps" for p
    using which_loop_find [OF ps(1), of "ptn_name p" 0] found [OF that] find_ptn_find [OF ps(1)] by (simp add: get_which_flash_param_def pt)
  moreover have "\<exists>n. smem_getpart b' (ptn_name p) = Some (ptn_start p, n)" if "p \<in> set ps" for p
    using found [OF that] by (simp add: smem_getpart_def pt Let_def)
  moreover have "part_entry b' name = part_entry b1 name" for name
    by (rule part_entry_cong) (simp_all add: b'_def get_kernel_fs_part_details_def Let_def ptable_def)
  ultimately show ?thesis using run pt f1 by (simp add: b'_def details_entries)
qed

text \<open>
  A rejected upload is not without effect: \<^verbatim>\<open>mibib_reload\<close> takes over the block size before it looks at the
  image, so after a failure the partitions of the old table have other byte offsets.
\<close>

theorem failed_reload_moves_partitions:
  assumes "length argv = 5" and "\<not> mibib_page m (env_hex e ''fileaddr'')"
    and "find_ptn (ptable b) name = Some p" and "part_which_flash p \<noteq> 1" and "ptn_size p \<noteq> - 1"
  shows "fst (do_mibib_reload qspi second e m argv b) = CMD_RET_FAILURE
    \<and> getpart_offset_size (snd (do_mibib_reload qspi second e m argv b)) name
      = Some (ptn_start p * hex_arg (argv ! 3), ptn_size p * hex_arg (argv ! 3))"
proof -
  define b' where "b' = snd (do_mibib_reload qspi second e m argv b)"
  have "fst (do_mibib_reload qspi second e m argv b) = CMD_RET_FAILURE \<and> ptable b' = ptable b \<and> fl_block_size b' = hex_arg (argv ! 3)"
    using assms(1,2) by (auto simp: b'_def do_mibib_reload_def Let_def mibib_page_def ptable_def)
  then show ?thesis using assms(3-5) by (simp add: b'_def [symmetric] getpart_offset_size_def get_part_block_size_def Let_def)
qed

section \<open>Examples\<close>

definition sample_table :: "smem_ptn list" where
  "sample_table = [nor_ptn ''0:APPSBL'' 0x10 0x10, nor_ptn ''0:APPSBL_1'' 0x20 0x10]"

lemma sample_names: "names_ok sample_table"
  by (simp add: names_ok_def sample_table_def nor_ptn_def cstr_def)

lemma nor_soc_table: "ptable nor_soc = sample_table"
  by (simp add: ptable_def nor_soc_def upt_rec sample_table_def)

lemma nor_soc_find: "find_ptn (ptable nor_soc) ''0:APPSBL'' = Some (nor_ptn ''0:APPSBL'' 0x10 0x10)"
  by (simp add: nor_soc_table sample_table_def strncmp_eq_0 ptn_bytes_def nor_ptn_def cstr_def)


definition mibib_ram :: ram where
  "mibib_ram = ram_write (ram_write (\<lambda>_. NUL) 0x4b000000 (le_chars 4 (0xFE569FAC :: u32) @ le_chars 4 (0xCD7F127A :: u32) @ le_chars 4 (4 :: u32)))
     0x4b000800 (mibib_table sample_table)"

definition mibib_args :: "string list" where
  "mibib_args = [''mibib_reload'', hex32 1, hex32 0x800, hex32 0x1000, hex32 0x80]"

definition mibib_env :: "unit fl_env" where
  "mibib_env = plain_env\<lparr>env := [''fileaddr'' \<mapsto> hex32 0x4b000000, ''filesize'' \<mapsto> hex32 0x1000]\<rparr>"

lemma mibib_env_hex: "env_hex mibib_env ''fileaddr'' = 0x4b000000" "env_hex mibib_env ''filesize'' = 0x1000"
  by (simp_all add: env_hex_def mibib_env_def)

lemma sample_shape: "entries_wf sample_table" "length sample_table = 2" "length (mibib_table sample_table) = 72"
  using length_mibib_table [of sample_table] by (simp_all add: entries_wf_def sample_table_def nor_ptn_def)

lemma sample_page: "mibib_page mibib_ram 0x4b000000"
proof -
  define h where "h = le_chars 4 (0xFE569FAC :: u32) @ le_chars 4 (0xCD7F127A :: u32) @ le_chars 4 (4 :: u32)"
  have "mibib_ram (0x4b000000 + of_nat i) = h ! i" if "i < 12" for i
  proof -
    have "unat (of_nat i - of_nat 0x800 :: u32) = 2 ^ 32 - (0x800 - i)" using that by (intro unat_of_nat_diff_wrap) simp_all
    then have "length (mibib_table sample_table) \<le> unat (0x4b000000 + of_nat i - 0x4b000800 :: u32)" using that by (simp add: sample_shape algebra_simps)
    then show ?thesis using ram_write_hit [of i h "\<lambda>_. NUL" "0x4b000000"] that by (simp add: mibib_ram_def ram_write_miss h_def)
  qed
  then have r: "ram_bytes mibib_ram 0x4b000000 12 = h" by (intro nth_equalityI) (simp_all add: h_def)
  have "ram_bytes mibib_ram (0x4b000000 + of_nat j) 4 = take 4 (drop j h)" if "j + 4 \<le> 12" for j
    using ram_slice [OF that, of mibib_ram "0x4b000000"] r by simp
  from this [of 0] this [of 4] this [of 8] show ?thesis by (simp add: mibib_page_def ram_le32_val h_def)
qed


theorem reload_takes_table_witness:
  "\<exists>b'. do_mibib_reload False (\<lambda>t. t) mibib_env mibib_ram mibib_args emmc_soc = (0, b') \<and> ptable b' = sample_table"
proof -
  have "ram_bytes mibib_ram 0x4b000800 72 = mibib_table sample_table"
    using ram_bytes_write [of "mibib_table sample_table" _ "0x4b000800"] by (simp add: mibib_ram_def sample_shape)
  then have "ram_bytes mibib_ram (0x4b000000 + 0x800) (16 + 28 * length sample_table) = mibib_table sample_table" by (simp add: sample_shape)
  from reload_takes_table [OF _ _ _ mibib_env_hex(1) _ sample_page this sample_names, of mibib_args False "\<lambda>t. t" emmc_soc]
  show ?thesis by (simp add: mibib_args_def mibib_env_hex sample_shape) blast
qed

theorem failed_reload_moves_partitions_witness:
  "getpart_offset_size nor_soc ''0:APPSBL'' = Some (0x100000, 0x100000)
    \<and> getpart_offset_size (snd (do_mibib_reload False (\<lambda>t. t) mibib_env (\<lambda>_. NUL) mibib_args nor_soc)) ''0:APPSBL'' = Some (0x10000, 0x10000)"
proof -
  have p: "part_which_flash (nor_ptn ''0:APPSBL'' 0x10 0x10) \<noteq> 1" "ptn_size (nor_ptn ''0:APPSBL'' 0x10 0x10) \<noteq> - 1"
    by (simp_all add: part_which_flash_def nor_ptn_def)
  have "\<not> mibib_page (\<lambda>_. NUL) (env_hex mibib_env ''fileaddr'')" by (simp add: mibib_page_def ram_le32_def)
  from failed_reload_moves_partitions [OF _ this nor_soc_find p, of mibib_args False "\<lambda>t. t"]
  have "getpart_offset_size (snd (do_mibib_reload False (\<lambda>t. t) mibib_env (\<lambda>_. NUL) mibib_args nor_soc)) ''0:APPSBL'' = Some (0x10000, 0x10000)"
    by (simp add: mibib_args_def nor_ptn_def)
  moreover have "fl_block_size nor_soc = 0x10000" by (simp add: nor_soc_def)
  then have "getpart_offset_size nor_soc ''0:APPSBL'' = Some (0x100000, 0x100000)"
    using p by (simp add: getpart_offset_size_def nor_soc_find get_part_block_size_def Let_def) (simp add: nor_ptn_def)
  ultimately show ?thesis by simp
qed

end
