(* ===== verification/ChunkProofs.thy ===== *)
theory ChunkProofs
  imports FlashRead
begin

text \<open>
  Reading a partition of a NAND in chunks: a chunk is exactly the part of the partition that was asked for,
  and a bad block is never passed over.
\<close>

unbundle bit_operations_syntax

section \<open>Blocks\<close>

lemma unat_of_nat_64: "n < 2 ^ 64 \<Longrightarrow> unat (of_nat n :: u64) = n"
  by (simp add: unat_of_nat take_bit_nat_eq_self)

lemma cells_read_append: "cells_read f a m @ cells_read f (a + m) n = cells_read f a (m + n)"
  by (rule nth_equalityI) (auto simp: cells_read_def nth_append)


definition block_of :: "nat \<Rightarrow> nat \<Rightarrow> nat" where
  "block_of es x = x - x mod es"

lemma erase_mask: "unat (es :: u32) = 2 ^ k \<Longrightarrow> es - 1 = mask k"
proof -
  assume "unat es = 2 ^ k"
  then have "(of_nat (unat es) :: u32) = of_nat (2 ^ k)" by (rule arg_cong)
  then have "es = of_nat (2 ^ k)" by simp
  then show ?thesis by (simp add: mask_eq_exp_minus_1)
qed

lemma unat_take_bit: "unat (take_bit k (w :: 'a::len word)) = unat w mod 2 ^ k"
  by (simp add: unsigned_take_bit_eq flip: take_bit_eq_mod)

lemma block_offset:
  assumes "unat (es :: u32) = 2 ^ k"
  shows "unat ((cur :: u64) AND ucast (es - 1)) = unat cur mod unat es"
proof -
  have k: "k < 32"
  proof (rule ccontr)
    assume "\<not> k < 32"
    then have "(2 :: nat) ^ 32 \<le> 2 ^ k" by (intro power_increasing) simp_all
    then show False using unsigned_less [of es, where ?'a = nat] assms by simp
  qed
  then have "(ucast (mask k :: u32) :: u64) = mask k" by (intro bit_eqI) (auto simp: bit_ucast_iff bit_mask_iff)
  then have "cur AND ucast (es - 1) = take_bit k cur" by (simp add: erase_mask [OF assms] take_bit_eq_mask)
  then show ?thesis using assms by (simp add: unat_take_bit)
qed

lemma block_start:
  assumes "unat (es :: u32) = 2 ^ k" and "unat (cur :: u64) < 2 ^ 32"
  shows "unat (cur AND ucast (NOT (es - 1))) = block_of (unat es) (unat cur)"
proof -
  have hi: "bit cur i \<Longrightarrow> i < 32" for i
  proof -
    assume "bit cur i"
    then have "bit (unat cur) i" by (simp add: bit_unsigned_iff bit_imp_le_length)
    moreover have "take_bit 32 (unat cur) = unat cur" using assms(2) by (simp add: take_bit_nat_eq_self)
    ultimately show "i < 32" by (metis bit_take_bit_iff)
  qed
  have "cur AND ucast (NOT (mask k) :: u32) = push_bit k (drop_bit k cur)"
    by (rule bit_eqI) (use hi in \<open>auto simp: bit_and_iff bit_ucast_iff bit_not_iff bit_mask_iff bit_push_bit_iff bit_drop_bit_eq\<close>)
  also have "\<dots> = cur - take_bit k cur" using bits_ident [of k cur] by (metis add_diff_cancel_right')
  finally have e: "cur AND ucast (NOT (es - 1)) = cur - take_bit k cur" by (simp add: erase_mask [OF assms(1)])
  have t: "unat (take_bit k cur) = unat cur mod unat es" using assms(1) by (simp add: unat_take_bit)
  then have "take_bit k cur \<le> cur" by (simp add: word_le_nat_alt)
  then show ?thesis unfolding e block_of_def by (simp add: unat_sub t)
qed

lemma block_of_near:
  assumes "0 < es" and "y \<le> x" and "x < y + (es - y mod es)"
  shows "block_of es x = block_of es y"
proof -
  have y: "es * (y div es) + y mod es = y" "y mod es < es" using assms(1) by simp_all
  then have "es * (y div es) \<le> x" "x < es * Suc (y div es)" using assms(2,3) unfolding mult_Suc_right by linarith+
  then have "x div es = y div es" by (rule div_nat_eqI)
  then show ?thesis by (simp add: block_of_def minus_mod_eq_mult_div)
qed

section \<open>The loop\<close>

text \<open>A NAND driver whose reads, when they succeed, deliver the bytes of the chip.\<close>

locale nand_reads =
  fixes drv :: "'d fl_drv" and d :: 'd and f :: "nat \<Rightarrow> char"
  assumes read_law: "nand_read drv d cur len = (r, bytes) \<Longrightarrow> 0 \<le> r \<or> r = - EUCLEAN \<Longrightarrow> bytes = cells_read f (unat cur) len"
begin

definition good_at :: "nat \<Rightarrow> nat \<Rightarrow> bool" where
  "good_at es x \<longleftrightarrow> nand_block_isbad drv d (of_nat (block_of es x)) = 0"

lemma loop_step:
  assumes es: "unat (es :: u32) = 2 ^ k" and r: "unat (cur :: u64) + left \<le> 2 ^ 32" and l: "left \<noteq> 0"
  defines "bo \<equiv> unat cur mod unat es"
  defines "len \<equiv> min left (unat es - bo)"
  shows "0 < len" "len \<le> left" "unat (cur + of_nat len) = unat cur + len"
    "cur + of_nat left = cur + of_nat len + of_nat (left - len)"
    "nand_chunk_loop drv d es cur (cur + of_nat left) left =
      (let bad = nand_block_isbad drv d (of_nat (block_of (unat es) (unat cur)))
       in if bad < 0 then Inl (snprintf 32 (''bad-block query '' @ hex_ll (of_nat (block_of (unat es) (unat cur)))))
          else if bad \<noteq> 0 then Inl (snprintf 32 (''bad block '' @ hex_ll (of_nat (block_of (unat es) (unat cur)))))
          else let (r, bytes) = nand_read drv d cur len
               in if r < 0 \<and> r \<noteq> - EUCLEAN then Inl (snprintf 32 (''read error '' @ hex_ll cur))
                  else case nand_chunk_loop drv d es (cur + of_nat len) (cur + of_nat left) (left - len) of
                         Inl e \<Rightarrow> Inl e | Inr rest \<Rightarrow> Inr (bytes @ rest))"
proof -
  have e: "0 < unat es" "bo < unat es" using es by (simp_all add: bo_def)
  show p: "0 < len" "len \<le> left" using e l by (simp_all add: len_def)
  have u: "unat (cur + of_nat n) = unat cur + n" if "n \<le> left" for n
  proof -
    have "unat cur + n < 2 ^ LENGTH(64)" using r that by simp
    moreover have "unat (of_nat n :: u64) = n" using r that by (intro unat_of_nat_64) simp
    ultimately show ?thesis by (simp add: unat_word_ariths)
  qed
  show "unat (cur + of_nat len) = unat cur + len" using u p(2) .
  show "cur + of_nat left = cur + of_nat len + of_nat (left - len)" using p(2) by (simp add: of_nat_diff)
  have c: "\<not> (left = 0 \<or> cur \<ge> cur + of_nat left \<or> es = 0)" using u [of left] l e by (auto simp: word_le_nat_alt)
  have blk: "cur AND ucast (NOT (es - 1)) = of_nat (block_of (unat es) (unat cur))"
  proof -
    have "unat cur < 2 ^ 32" using r l by simp
    from block_start [OF es this] have "(of_nat (unat (cur AND ucast (NOT (es - 1)))) :: u64) = of_nat (block_of (unat es) (unat cur))" by (rule arg_cong)
    then show ?thesis by simp
  qed
  have bo: "unat (cur AND ucast (es - 1)) = bo" by (simp add: block_offset [OF es] bo_def)
  have ln: "(if left < unat es - bo then left else unat es - bo) = len" by (simp add: len_def)
  show "nand_chunk_loop drv d es cur (cur + of_nat left) left = (let bad = nand_block_isbad drv d (of_nat (block_of (unat es) (unat cur)))
       in if bad < 0 then Inl (snprintf 32 (''bad-block query '' @ hex_ll (of_nat (block_of (unat es) (unat cur)))))
          else if bad \<noteq> 0 then Inl (snprintf 32 (''bad block '' @ hex_ll (of_nat (block_of (unat es) (unat cur)))))
          else let (r, bytes) = nand_read drv d cur len
               in if r < 0 \<and> r \<noteq> - EUCLEAN then Inl (snprintf 32 (''read error '' @ hex_ll cur))
                  else case nand_chunk_loop drv d es (cur + of_nat len) (cur + of_nat left) (left - len) of
                         Inl e \<Rightarrow> Inl e | Inr rest \<Rightarrow> Inr (bytes @ rest))"
    unfolding nand_chunk_loop.simps [of drv d es cur "cur + of_nat left" left] Let_def blk bo ln using c by (simp only: if_False)
qed

lemma good_block:
  assumes "unat (es :: u32) = 2 ^ k" and "good_at (unat es) c" and "c \<le> x" and "x < c + (unat es - c mod unat es)"
  shows "good_at (unat es) x"
  using assms block_of_near [of "unat es" c x] by (simp add: good_at_def)

lemma loop_exact:
  assumes es: "unat es = 2 ^ k"
  shows "unat cur + left \<le> 2 ^ 32 \<Longrightarrow> nand_chunk_loop drv d es cur (cur + of_nat left) left = Inr bytes
    \<Longrightarrow> bytes = cells_read f (unat cur) left \<and> (\<forall>x. unat cur \<le> x \<and> x < unat cur + left \<longrightarrow> good_at (unat es) x)"
proof (induction left arbitrary: cur bytes rule: less_induct)
  case (less left)
  show ?case
  proof (cases "left = 0")
    case True
    then show ?thesis using less.prems by (subst (asm) nand_chunk_loop.simps) (auto simp: cells_read_def)
  next
    case False
    define len where "len = min left (unat es - unat cur mod unat es)"
    note st = loop_step [OF es less.prems(1) False, folded len_def]
    obtain r bs where n: "nand_read drv d cur len = (r, bs)" by fastforce
    obtain rest where b0: "nand_block_isbad drv d (of_nat (block_of (unat es) (unat cur))) = 0" and r: "0 \<le> r \<or> r = - EUCLEAN"
      and lp: "nand_chunk_loop drv d es (cur + of_nat len) (cur + of_nat left) (left - len) = Inr rest" and bt: "bytes = bs @ rest"
      using less.prems(2) unfolding st(5) by (auto simp: n Let_def split: if_splits sum.splits)
    have IH: "rest = cells_read f (unat cur + len) (left - len) \<and> (\<forall>x. unat cur + len \<le> x \<and> x < unat cur + left \<longrightarrow> good_at (unat es) x)"
      using less.IH [OF _ _ lp [unfolded st(4)]] st(1-3) less.prems(1) by simp
    have "bs = cells_read f (unat cur) len" by (rule read_law [OF n r])
    then have "bytes = cells_read f (unat cur) left" using bt IH st(2) by (simp add: cells_read_append)
    moreover have "good_at (unat es) x" if "unat cur \<le> x" "x < unat cur + len" for x
      using good_block [OF es _ that(1)] b0 that(2) by (simp add: good_at_def len_def)
    ultimately show ?thesis using IH by (metis not_less)
  qed
qed

lemma loop_complete:
  assumes es: "unat es = 2 ^ k" and rd: "\<And>cur len. 0 \<le> fst (nand_read drv d cur len)"
  shows "unat cur + left \<le> 2 ^ 32 \<Longrightarrow> (\<And>x. unat cur \<le> x \<Longrightarrow> x < unat cur + left \<Longrightarrow> good_at (unat es) x)
    \<Longrightarrow> nand_chunk_loop drv d es cur (cur + of_nat left) left \<in> range Inr"
proof (induction left arbitrary: cur rule: less_induct)
  case (less left)
  show ?case
  proof (cases "left = 0")
    case True
    then show ?thesis by (subst nand_chunk_loop.simps) simp
  next
    case False
    define len where "len = min left (unat es - unat cur mod unat es)"
    note st = loop_step [OF es less.prems(1) False, folded len_def]
    have "nand_block_isbad drv d (of_nat (block_of (unat es) (unat cur))) = 0" using less.prems(2) [of "unat cur"] False by (simp add: good_at_def)
    moreover have "nand_chunk_loop drv d es (cur + of_nat len) (cur + of_nat len + of_nat (left - len)) (left - len) \<in> range Inr"
    proof (rule less.IH)
      show "left - len < left" "unat (cur + of_nat len) + (left - len) \<le> 2 ^ 32" using st(1-3) less.prems(1) by simp_all
      show "good_at (unat es) x" if "unat (cur + of_nat len) \<le> x" "x < unat (cur + of_nat len) + (left - len)" for x
        using less.prems(2) [of x] that st(2,3) by simp
    qed
    then obtain rest where "nand_chunk_loop drv d es (cur + of_nat len) (cur + of_nat left) (left - len) = Inr rest" using st(4) by auto
    moreover obtain r bs where "nand_read drv d cur len = (r, bs)" "0 \<le> r" using rd [of cur len] by (metis prod.collapse)
    ultimately show ?thesis unfolding st(5) by (simp add: Let_def)
  qed
qed

end

section \<open>A chunk of a partition\<close>

text \<open>A NAND with power-of-two blocks and at most 4 GB, which has the partition.\<close>

definition nand_has :: "soc \<Rightarrow> string \<Rightarrow> u64 \<Rightarrow> u64 \<Rightarrow> bool" where
  "nand_has b name base tot \<longleftrightarrow> mtd_size (the_nand b) \<noteq> 0 \<and> mtd_writesize (the_nand b) \<noteq> 0
     \<and> (\<exists>k. unat (mtd_erasesize (the_nand b)) = 2 ^ k) \<and> nand_part b name = Some (base, tot) \<and> 0 < tot \<and> unat base + unat tot < 2 ^ 32"

definition window :: "u64 \<Rightarrow> u64 \<Rightarrow> u32 \<Rightarrow> nat" where
  "window tot off n = (let left = unat tot - unat off in if n \<noteq> 0 \<and> unat n < left then unat n else left)"

lemma chunk_window:
  assumes "nand_has b name base tot" and "off \<le> tot"
  obtains es k where "es = mtd_erasesize (the_nand b)" and "unat es = 2 ^ k" and "unat (base + off) = unat base + unat off"
    and "unat base + unat off + window tot off n \<le> 2 ^ 32" and "window tot off n \<le> unat tot - unat off"
    and "nand_chunk_read b drv d name off n =
      (case nand_chunk_loop drv d es (base + off) (base + off + of_nat (window tot off n)) (window tot off n) of
         Inl e \<Rightarrow> (None, e) | Inr bytes \<Rightarrow> (Some (bytes, ucast off), []))"
proof -
  obtain k where k: "unat (mtd_erasesize (the_nand b)) = 2 ^ k" and u: "unat base + unat tot < 2 ^ 32" using assms(1) by (auto simp: nand_has_def)
  have ot: "unat off \<le> unat tot" using assms(2) by (simp add: word_le_nat_alt)
  then have "unat base + unat off < 2 ^ LENGTH(64)" using u by simp
  then have a: "unat (base + off) = unat base + unat off" by (simp add: unat_word_ariths)
  define remain where "remain = (if off < tot then tot - off else 0)"
  have rm: "unat remain = unat tot - unat off" using ot by (auto simp: remain_def unat_sub word_le_nat_alt word_less_nat_alt)
  define len where "len = (if n \<noteq> 0 \<and> ucast n < remain then n else ucast remain)"
  have "unat (ucast remain :: u32) = unat remain" using rm u by (simp add: unsigned_ucast_eq take_bit_nat_eq_self)
  then have l: "unat len = window tot off n" using rm by (auto simp: len_def window_def Let_def word_less_nat_alt unat_ucast_64)
  then have l64: "(ucast len :: u64) = of_nat (window tot off n)" by (metis of_nat_unat)
  have part: "nand_part b name = Some (base, tot)" using assms(1) by (simp add: nand_has_def)
  have "nand_chunk_read b drv d name off n =
      (case nand_chunk_loop drv d (mtd_erasesize (the_nand b)) (base + off) (base + off + of_nat (window tot off n)) (window tot off n) of
         Inl e \<Rightarrow> (None, e) | Inr bytes \<Rightarrow> (Some (bytes, ucast off), []))"
    unfolding nand_chunk_read_def Let_def part option.case prod.case remain_def [symmetric] len_def [symmetric] l l64
    using assms(1) k by (auto simp: nand_has_def)
  moreover have "window tot off n \<le> unat tot - unat off" by (simp add: window_def Let_def)
  ultimately show thesis using that [OF refl k a] u ot by simp
qed

definition blocks_good :: "'d fl_drv \<Rightarrow> 'd \<Rightarrow> nat \<Rightarrow> nat \<Rightarrow> nat \<Rightarrow> bool" where
  "blocks_good drv d es first n \<longleftrightarrow> (\<forall>x. first \<le> x \<and> x < first + n \<longrightarrow> nand_block_isbad drv d (of_nat (block_of es x)) = 0)"

text \<open>
  C16: A chunk that the NAND reader delivers is exactly the part of the partition that was asked for, cut at the
  end of the partition, and none of its blocks is bad: a bad block ends the download instead of being skipped
  or read. When no block is bad and the reads succeed, the chunk is delivered.
\<close>

theorem nand_chunk_exact:
  assumes drv: "nand_reads drv d f" and has: "nand_has b name base tot" "off \<le> tot"
  shows "(\<forall>bytes o' det. nand_chunk_read b drv d name off sz = (Some (bytes, o'), det)
        \<longrightarrow> bytes = cells_read f (unat base + unat off) (window tot off sz)
          \<and> blocks_good drv d (unat (mtd_erasesize (the_nand b))) (unat base + unat off) (window tot off sz))
    \<and> (blocks_good drv d (unat (mtd_erasesize (the_nand b))) (unat base + unat off) (window tot off sz) \<and> (\<forall>cur len. 0 \<le> fst (nand_read drv d cur len))
        \<longrightarrow> nand_chunk_read b drv d name off sz = (Some (cells_read f (unat base + unat off) (window tot off sz), ucast off), []))"
proof -
  define es first n where "es = mtd_erasesize (the_nand b)" and "first = unat base + unat off" and "n = window tot off sz"
  obtain k where k: "unat es = 2 ^ k" and w: "unat (base + off) = first" "first + n \<le> 2 ^ 32"
    and r: "nand_chunk_read b drv d name off sz = (case nand_chunk_loop drv d es (base + off) (base + off + of_nat n) n of
         Inl e \<Rightarrow> (None, e) | Inr bytes \<Rightarrow> (Some (bytes, ucast off), []))"
    using chunk_window [OF has, of sz drv d] unfolding first_def n_def es_def by metis
  have ag: "blocks_good drv d (unat es) first n \<longleftrightarrow> (\<forall>x. first \<le> x \<and> x < first + n \<longrightarrow> nand_reads.good_at drv d (unat es) x)"
    by (simp add: blocks_good_def nand_reads.good_at_def [OF drv])
  have ex: "bytes = cells_read f first n \<and> blocks_good drv d (unat es) first n"
    if "nand_chunk_loop drv d es (base + off) (base + off + of_nat n) n = Inr bytes" for bytes
    using nand_reads.loop_exact [OF drv k _ that] w unfolding ag by simp
  have del: "nand_chunk_loop drv d es (base + off) (base + off + of_nat n) n \<in> range Inr"
    if "blocks_good drv d (unat es) first n" "\<forall>cur len. 0 \<le> fst (nand_read drv d cur len)"
    using nand_reads.loop_complete [OF drv k, of "base + off" n] that w unfolding ag by simp
  show ?thesis
  proof (cases "nand_chunk_loop drv d es (base + off) (base + off + of_nat n) n")
    case (Inl e)
    then show ?thesis using del unfolding r es_def [symmetric] first_def [symmetric] n_def [symmetric] by auto
  next
    case (Inr bytes)
    then show ?thesis using ex unfolding r es_def [symmetric] first_def [symmetric] n_def [symmetric] by auto
  qed
qed

end
