(* ===== verification/BackupFlash.thy ===== *)
theory BackupFlash
  imports HttpdProps ChunkProofs FlashProps
begin

text \<open>
  Downloads of flash partitions: the chunks of a backup come from \<^verbatim>\<open>flashread_partition_chunk\<close>.
\<close>

section \<open>The reader of a board\<close>

text \<open>The bytes that \<^verbatim>\<open>flashread_partition_chunk\<close> leaves at the load address \<open>a\<close>.\<close>

definition board_flashread :: "soc \<Rightarrow> 'd fl_drv \<Rightarrow> 'd interp \<Rightarrow> emmc_cache \<Rightarrow> 'd \<Rightarrow> u32 \<Rightarrow> int
    \<Rightarrow> string \<Rightarrow> u64 \<Rightarrow> u32 \<Rightarrow> bool \<Rightarrow> int \<Rightarrow> string option \<times> string" where
  "board_flashread b drv ip c d a ftn name off n rw ovr =
     (case flashread_partition_chunk b drv ip name a off n rw ovr ftn c (shell_on (\<lambda>_. NUL) d) of
        (Some (o', k), det, c', s) \<Rightarrow> (Some (ram_bytes (mem s) a k), det)
      | (None, det, c', s) \<Rightarrow> (None, det))"

lemma board_reads_nand:
  assumes "flash_override_matches b name ovr" and "chunk_reader b name rw ovr ftn = Nand"
    and "nand_chunk_read b drv d name off n = (Some (bytes, o'), det)" and "length bytes \<le> 2 ^ 32"
  shows "fst (board_flashread b drv ip c d a ftn name off n rw ovr) = Some bytes"
  using assms ram_bytes_write [OF assms(4), of "\<lambda>_. NUL" a] by (simp add: board_flashread_def flashread_partition_chunk_def shell_on_def)

text \<open>A NAND partition that can be downloaded: no block is bad and no read fails.\<close>

definition nand_readable :: "soc \<Rightarrow> 'd fl_drv \<Rightarrow> 'd \<Rightarrow> string \<Rightarrow> u64 \<Rightarrow> u64 \<Rightarrow> bool" where
  "nand_readable b drv d name base tot \<longleftrightarrow> nand_has b name base tot
     \<and> blocks_good drv d (unat (mtd_erasesize (the_nand b))) (unat base) (unat tot) \<and> (\<forall>cur len. 0 \<le> fst (nand_read drv d cur len))"

lemma nand_window_read:
  assumes drv: "nand_reads drv d f" and r: "nand_readable b drv d name base tot" and off: "unat off < unat tot" and n: "0 < n"
  shows "nand_chunk_read b drv d name off n = (Some (take (unat n) (drop (unat off) (cells_read f (unat base) (unat tot))), ucast off), [])"
proof -
  obtain k where has: "nand_has b name base tot" and "off \<le> tot" using r off by (auto simp: nand_readable_def word_le_nat_alt)
  obtain es k where es: "es = mtd_erasesize (the_nand b)" "unat es = 2 ^ k" and w: "unat (base + off) = unat base + unat off"
    "unat base + unat off + window tot off n \<le> 2 ^ 32" "window tot off n \<le> unat tot - unat off"
    and c: "nand_chunk_read b drv d name off n =
      (case nand_chunk_loop drv d es (base + off) (base + off + of_nat (window tot off n)) (window tot off n) of
         Inl e \<Rightarrow> (None, e) | Inr bytes \<Rightarrow> (Some (bytes, ucast off), []))"
    using chunk_window [OF has \<open>off \<le> tot\<close>] by metis
  have g: "nand_reads.good_at drv d (unat es) x" if "unat (base + off) \<le> x" "x < unat (base + off) + window tot off n" for x
    using r that w off by (auto simp: nand_readable_def blocks_good_def nand_reads.good_at_def [OF drv] es(1))
  obtain bytes where lp: "nand_chunk_loop drv d es (base + off) (base + off + of_nat (window tot off n)) (window tot off n) = Inr bytes"
    using nand_reads.loop_complete [OF drv es(2), of "base + off" "window tot off n"] g r w by (auto simp: nand_readable_def)
  have "bytes = cells_read f (unat base + unat off) (window tot off n)" using nand_reads.loop_exact [OF drv es(2) _ lp] w by simp
  also have "\<dots> = take (unat n) (drop (unat off) (cells_read f (unat base) (unat tot)))"
    using n off by (intro nth_equalityI) (auto simp: cells_read_def window_def Let_def word_gt_0 unat_gt_0 add.assoc split: if_splits)
  finally show ?thesis using c lp by simp
qed

section \<open>A download\<close>


section \<open>The cache of the eMMC reader\<close>

text \<open>A cache that holds what a lookup of its name gives.\<close>

definition cache_ok :: "blk_dev \<Rightarrow> emmc_cache \<Rightarrow> bool" where
  "cache_ok d c \<longleftrightarrow> (cached_size c > 0 \<longrightarrow> emmc_locate d emmc_cache_invalidate (cached_name c) = (cached_base c, cached_size c))"

lemma locate_cong: "strcmp n n' = 0 \<Longrightarrow> emmc_locate d emmc_cache_invalidate n = emmc_locate d emmc_cache_invalidate n'"
  by (simp add: emmc_locate_def emmc_find_def emmc_cache_invalidate_def strcmp_eq_0 cong: option.case_cong)

lemma locate_cached:
  "emmc_locate d c name = (if strcmp name (cached_name c) = 0 \<and> cached_size c > 0 then (cached_base c, cached_size c)
     else emmc_locate d emmc_cache_invalidate name)"
  by (simp add: emmc_locate_def emmc_cache_invalidate_def)

lemma strncpy_all: "length (cstr name) < n \<Longrightarrow> strcmp (strncpy name n) name = 0"
proof (induction name n rule: strncpy.induct)
  case (2 src count)
  then show ?case by (cases src) (auto simp: strcmp_eq_0 cstr_def)
qed simp

text \<open>
  C26: The cache of the eMMC reader is transparent: for a partition name of at most 30 characters a chunk is the
  same as without the cache, and the cache stays correct, whatever was read before.
\<close>

theorem emmc_cache_transparent:
  assumes "mmc_blk b = Some blk" and "cache_ok blk c" and "length (cstr name) < 31"
  shows "fst (emmc_chunk_read b drv d name off n c) = fst (emmc_chunk_read b drv d name off n emmc_cache_invalidate)
    \<and> cache_ok blk (snd (emmc_chunk_read b drv d name off n c))"
proof -
  have e: "emmc_locate blk c name = emmc_locate blk emmc_cache_invalidate name"
    using assms(2) locate_cong [of name "cached_name c" blk] locate_cached [of blk c name] by (simp add: cache_ok_def split: if_splits)
  have k: "emmc_locate blk emmc_cache_invalidate (strncpy name 31) = emmc_locate blk emmc_cache_invalidate name"
    by (rule locate_cong [OF strncpy_all [OF assms(3)]])
  show ?thesis
    using assms(1,2) k unfolding emmc_chunk_read_def assms(1) option.case e
    by (auto simp: cache_ok_def Let_def split_beta)
qed

section \<open>Examples\<close>

definition nand_soc :: soc where
  "nand_soc = emmc_soc\<lparr>fl_type := SMEM_BOOT_NAND_FLASH, boot_flash_type := Some SMEM_BOOT_NAND_FLASH, mmc_blk := None,
     nand_infos := (\<lambda>_. \<lparr>mtd_size = 0x40000, mtd_writesize = 0x800, mtd_oobsize = 64, mtd_erasesize = 0x20000\<rparr>)\<rparr>"

text \<open>Drivers of a chip without bad blocks.\<close>

definition chip_drv :: "(nat \<Rightarrow> char) fl_drv" where
  "chip_drv = \<lparr>mtd_read_oob = (\<lambda>d x. (0, cells_read d x 0x800 @ replicate 64 CHR 0xFF)), nand_block_isbad = (\<lambda>d x. 0),
     nand_read = (\<lambda>d x n. (0, cells_read d (unat x) n)), block_read = (\<lambda>d x n. (n, cells_read d (unat x * 512) (unat n * 512)))\<rparr>"

interpretation chip: nand_reads chip_drv d d
  by unfold_locales (simp add: chip_drv_def)

lemma nand_soc_has: "nand_has nand_soc ''nand_full'' 0 0x40000"
proof -
  have "nand_part nand_soc ''nand_full'' = Some (0, 0x40000)"
    by (simp add: nand_part_def nand_soc_def nand_idx_def emmc_soc_def strcmp_eq_0)
  moreover have "unat (mtd_erasesize (the_nand nand_soc)) = 2 ^ 17" "mtd_size (the_nand nand_soc) = 0x40000" "mtd_writesize (the_nand nand_soc) = 0x800"
    by (simp_all add: nand_soc_def)
  ultimately show ?thesis unfolding nand_has_def by (intro conjI exI [of _ 17]) simp_all
qed

definition pattern :: "nat \<Rightarrow> char" where
  "pattern x = char_of (x mod 251)"

theorem nand_chunk_exact_witness:
  "nand_chunk_read nand_soc chip_drv pattern ''nand_full'' 0x3fffe 0x10 = (Some (cells_read pattern 0x3fffe 2, 0x3fffe), [])"
proof -
  have w: "window 0x40000 0x3fffe 0x10 = 2" by (simp add: window_def)
  have "blocks_good chip_drv pattern es first n" "0 \<le> fst (nand_read chip_drv pattern cur len)" for es first n cur len
    by (simp_all add: blocks_good_def chip_drv_def)
  then have "nand_chunk_read nand_soc chip_drv pattern ''nand_full'' 0x3fffe 0x10
      = (Some (cells_read pattern (unat (0 :: u64) + unat (0x3fffe :: u64)) (window 0x40000 0x3fffe 0x10), ucast (0x3fffe :: u64)), [])"
    by (intro nand_chunk_exact [OF chip.nand_reads_axioms nand_soc_has, THEN conjunct2, THEN mp]) simp_all
  then show ?thesis by (simp add: w)
qed

definition nand_pl :: platform where
  "nand_pl = board\<lparr>flashread := board_flashread nand_soc chip_drv (\<lambda>d m cmd. (0, m, d)) emmc_cache_invalidate pattern (upload_ram board) (- 1)\<rparr>"

definition sending :: httpd where
  "sending = idle\<lparr>conns := [7 \<mapsto> fresh_conn\<lparr>http_state := STATE_FILE_REQUEST, owns_global := True\<rparr>], hs_global := Some 7,
     backup := empty_backup\<lparr>chunked := True, chunk_busy := True, total_size := 0x40000, total_sent := 0x3fff6, chunk_offset := 0x3fff6,
       total_remaining := 10, part_name := ''nand_full'', flash_type := - 1\<rparr>\<rparr>"

lemma sending_parts: "part_name (backup sending) = ''nand_full''" "flash_type (backup sending) = - 1" "raw (backup sending) = False"
  "total_size (backup sending) = 0x40000" "total_remaining (backup sending) = 10" "chunk_offset (backup sending) = 0x3fff6" "account_ok (backup sending)" "hs_global sending = Some 7"
  by (simp_all add: sending_def empty_backup_def account_ok_def)


theorem emmc_cache_transparent_witness:
  "fst (emmc_chunk_read emmc_soc chip_drv pattern ''0:APPSBL'' 0 512 \<lparr>cached_base = 0, cached_size = 0x4400, cached_name = ''0:GPT''\<rparr>)
     = fst (emmc_chunk_read emmc_soc chip_drv pattern ''0:APPSBL'' 0 512 emmc_cache_invalidate)"
proof -
  have "cache_ok emmc_blk \<lparr>cached_base = 0, cached_size = 0x4400, cached_name = ''0:GPT''\<rparr>"
    by (simp add: cache_ok_def emmc_locate_def emmc_cache_invalidate_def strcmp_eq_0)
  from emmc_cache_transparent [OF _ this, of emmc_soc "''0:APPSBL''" chip_drv pattern 0 512] show ?thesis by (simp add: cstr_def)
qed

end
