(* ===== verification/Gpio.thy ===== *)
theory Gpio
  imports Shell
begin

text \<open>
  LEDs, buttons and the \<^verbatim>\<open>gpio\<close> command of \<^verbatim>\<open>lib/ipq_api.c\<close>, the registers of
  \<^verbatim>\<open>drivers/gpio/ipq_gpio.c\<close> they set, and the LED patterns of \<^verbatim>\<open>do_http_progress\<close> in \<^verbatim>\<open>net/httpd.c\<close>.
  A \<open>gpio_board\<close> is what these functions read: the device tree, the environment, the build options and \<open>level\<close>, what
  the \<open>k\<close>-th sample of a pin shows. The state are the registers; bit 0 of an input/output register is the pin
  itself and not stored. Printing and delays are left out; \<open>httpd_started\<close> counts the runs of the \<^verbatim>\<open>httpd\<close> command.
\<close>

section \<open>Device tree\<close>

text \<open>A node with its integer properties and its subnodes, as \<^verbatim>\<open>libfdt\<close> delivers them.\<close>

datatype fdt = Node (node_name: string) (node_props: "(string \<times> u32) list") (subnodes: "fdt list")

definition fdtdec_get_uint :: "fdt \<Rightarrow> string \<Rightarrow> u32 \<Rightarrow> u32" where
  "fdtdec_get_uint n prop default_val = (case map_of (node_props n) prop of Some v \<Rightarrow> v | None \<Rightarrow> default_val)"

text \<open>A name without a unit address also matches a node that has one.\<close>

definition fdt_nodename_eq :: "string \<Rightarrow> string \<Rightarrow> bool" where
  "fdt_nodename_eq p s \<longleftrightarrow> take (length s) p = s
     \<and> (length p = length s \<or> (CHR ''@'' \<notin> set s \<and> length s < length p \<and> p ! length s = CHR ''@''))"

definition path_sep :: "char \<Rightarrow> bool" where
  "path_sep c \<longleftrightarrow> c = CHR ''/'' \<or> c = CHR '':''"

function fdt_walk :: "fdt \<Rightarrow> string \<Rightarrow> fdt option" where
  "fdt_walk n p =
     (let p = dropWhile (\<lambda>c. c = CHR ''/'') p
      in if p = [] \<or> hd p = CHR '':'' then Some n
         else case find (\<lambda>k. fdt_nodename_eq (node_name k) (takeWhile (\<lambda>c. \<not> path_sep c) p)) (subnodes n) of
                None \<Rightarrow> None
              | Some k \<Rightarrow> fdt_walk k (dropWhile (\<lambda>c. \<not> path_sep c) p))"
  by pat_completeness auto
termination
proof (relation "measure (\<lambda>(n, p). length p)", goal_cases)
  case (2 n p q k)
  then have "\<not> path_sep (hd q)" "q \<noteq> []" using hd_dropWhile [of "\<lambda>c. c = CHR ''/''" p] by (auto simp: path_sep_def)
  then have "length (dropWhile (\<lambda>c. \<not> path_sep c) q) < length q"
    by (cases q) (auto simp: le_imp_less_Suc length_dropWhile_le)
  moreover have "length q \<le> length p" using 2(1) by (simp add: length_dropWhile_le)
  ultimately show ?case by simp
qed simp

declare fdt_walk.simps [simp del]

record gpio_board =
  dt :: fdt
  aliases :: "string \<Rightarrow> string option"
  genv :: "string \<Rightarrow> string option"
  GPIO_MAX :: nat
  tlmm_base :: u32
  tlmm_stride :: u32
  pull_up :: u32
  on_ipq5018 :: bool
  on_ap8220 :: bool
  skips_20 :: bool
  level :: "nat \<Rightarrow> u32 \<Rightarrow> bool"

text \<open>A path that does not start at the root starts with an alias, whose value is an absolute path.\<close>

definition fdt_path_offset :: "gpio_board \<Rightarrow> string \<Rightarrow> fdt option" where
  "fdt_path_offset E path =
     (let path = cstr path
      in if path \<noteq> [] \<and> hd path = CHR ''/'' then fdt_walk (dt E) path
         else Option.bind (aliases E (takeWhile (\<lambda>c. \<not> path_sep c) path))
                (\<lambda>p. Option.bind (fdt_walk (dt E) p) (\<lambda>n. fdt_walk n (dropWhile (\<lambda>c. \<not> path_sep c) path))))"

section \<open>Registers\<close>

record gpio_state =
  regs :: "u32 \<Rightarrow> u32"
  samples :: nat
  env_reset_gpio_cached :: int
  httpd_started :: nat

record qca_gpio_config =
  c_gpio :: u32
  c_func :: u32
  c_out :: u32
  c_pull :: u32
  c_drvstr :: u32
  c_oe :: u32
  c_vm :: u32
  c_od_en :: u32
  c_pu_res :: u32
  c_sr_en :: u32

definition GPIO_CONFIG_ADDR :: "gpio_board \<Rightarrow> u32 \<Rightarrow> u32" where
  "GPIO_CONFIG_ADDR E g = tlmm_base E + g * tlmm_stride E"

definition GPIO_IN_OUT_ADDR :: "gpio_board \<Rightarrow> u32 \<Rightarrow> u32" where
  "GPIO_IN_OUT_ADDR E g = tlmm_base E + 4 + g * tlmm_stride E"

definition writel :: "u32 \<Rightarrow> u32 \<Rightarrow> gpio_state \<Rightarrow> gpio_state" where
  "writel val addr s = s\<lparr>regs := (regs s)(addr := val)\<rparr>"

text \<open>The output bit is only ever set here, never cleared.\<close>

definition gpio_tlmm_config :: "gpio_board \<Rightarrow> qca_gpio_config \<Rightarrow> gpio_state \<Rightarrow> gpio_state" where
  "gpio_tlmm_config E c s =
     (let val = c_pull c OR push_bit 2 (c_func c) OR push_bit 6 (c_drvstr c) OR push_bit 9 (c_oe c);
          val = (if on_ipq5018 E then val OR push_bit 10 (c_od_en c) OR push_bit 11 (c_sr_en c) OR push_bit 12 (c_pu_res c)
                 else val OR push_bit 11 (c_vm c) OR push_bit 12 (c_od_en c) OR push_bit 13 (c_pu_res c));
          s = writel val (GPIO_CONFIG_ADDR E (c_gpio c)) s;
          a = GPIO_IN_OUT_ADDR E (c_gpio c)
      in if c_func c = 0 then writel (regs s a OR push_bit 1 (c_out c)) a s else s)"

definition gpio_set_value :: "gpio_board \<Rightarrow> u32 \<Rightarrow> u32 \<Rightarrow> gpio_state \<Rightarrow> gpio_state" where
  "gpio_set_value E g out s =
     (let a = GPIO_IN_OUT_ADDR E g in writel ((regs s a AND NOT 2) OR push_bit 1 out) a s)"

definition gpio_get_value :: "gpio_board \<Rightarrow> u32 \<Rightarrow> gpio_state \<Rightarrow> bool \<times> gpio_state" where
  "gpio_get_value E g s = (level E (samples s) (GPIO_IN_OUT_ADDR E g), s\<lparr>samples := samples s + 1\<rparr>)"

section \<open>Pins by name\<close>

definition fdt_find_gpio_node :: "gpio_board \<Rightarrow> string \<Rightarrow> fdt option" where
  "fdt_find_gpio_node E name =
     (case fdt_path_offset E name of
        Some n \<Rightarrow> Some n
      | None \<Rightarrow>
          (case fdt_path_offset E (snprintf 128 (''/tlmm-gpio/key_gpio/'' @ name)) of
             Some n \<Rightarrow> Some n
           | None \<Rightarrow> fdt_path_offset E (snprintf 128 (''/tlmm-gpio/led_gpio/'' @ name))))"

text \<open>A number, the value of a variable, or the property of a node; negative when there is none.\<close>

definition fdt_get_gpio_number :: "gpio_board \<Rightarrow> string \<Rightarrow> int" where
  "fdt_get_gpio_number E name =
     (let (num, endp) = simple_strtoul name 10
      in if deref endp = NUL \<and> length endp \<noteq> length name then sint num
         else case genv E name of
                Some v \<Rightarrow> sint (fst (simple_strtoul v 10))
              | None \<Rightarrow>
                  (case fdt_find_gpio_node E name of
                     None \<Rightarrow> - 1
                   | Some n \<Rightarrow> sint (fdtdec_get_uint n ''gpio'' 0)))"

section \<open>LEDs\<close>

definition on_pin :: "gpio_board \<Rightarrow> string \<Rightarrow> (u32 \<Rightarrow> gpio_state \<Rightarrow> gpio_state) \<Rightarrow> gpio_state \<Rightarrow> gpio_state" where
  "on_pin E name f s = (let gpio = fdt_get_gpio_number E name in if gpio < 0 then s else f (word_of_int gpio) s)"

definition led_toggle :: "gpio_board \<Rightarrow> string \<Rightarrow> gpio_state \<Rightarrow> gpio_state" where
  "led_toggle E name = on_pin E name (\<lambda>g s. let (v, s) = gpio_get_value E g s in gpio_set_value E g (if v then 0 else 1) s)"

definition led_on :: "gpio_board \<Rightarrow> string \<Rightarrow> gpio_state \<Rightarrow> gpio_state" where
  "led_on E name = on_pin E name (\<lambda>g. gpio_set_value E g 1)"

definition led_off :: "gpio_board \<Rightarrow> string \<Rightarrow> gpio_state \<Rightarrow> gpio_state" where
  "led_off E name = on_pin E name (\<lambda>g. gpio_set_value E g 0)"

text \<open>One turn per second of \<open>duration\<close>, which is in milliseconds.\<close>

definition led_blink :: "gpio_board \<Rightarrow> string \<Rightarrow> int \<Rightarrow> gpio_state \<Rightarrow> gpio_state" where
  "led_blink E name duration =
     on_pin E name (\<lambda>g s. fold (\<lambda>_ s. gpio_set_value E g 0 (gpio_set_value E g 1 s)) [0..<nat (duration div 1000)] s)"

definition led_blink_then_on :: "gpio_board \<Rightarrow> string \<Rightarrow> int \<Rightarrow> gpio_state \<Rightarrow> gpio_state" where
  "led_blink_then_on E name duration s = led_on E name (led_blink E name duration s)"

definition led_blink_then_off :: "gpio_board \<Rightarrow> string \<Rightarrow> int \<Rightarrow> gpio_state \<Rightarrow> gpio_state" where
  "led_blink_then_off E name duration s = led_off E name (led_blink E name duration s)"

definition plain_config :: "u32 \<Rightarrow> u32 \<Rightarrow> u32 \<Rightarrow> u32 \<Rightarrow> qca_gpio_config" where
  "plain_config g out pull oe =
     \<lparr>c_gpio = g, c_func = 0, c_out = out, c_pull = pull, c_drvstr = 3, c_oe = oe, c_vm = 0, c_od_en = 0, c_pu_res = 0, c_sr_en = 0\<rparr>"

definition led_init_from_env :: "gpio_board \<Rightarrow> u32 \<Rightarrow> gpio_state \<Rightarrow> gpio_state" where
  "led_init_from_env E g = gpio_tlmm_config E (plain_config g 0 0 1)"

text \<open>
  The structure on the stack has no value for \<^verbatim>\<open>sr_en\<close>; \<open>junk\<close> is what it holds.
\<close>

definition node_config :: "fdt \<Rightarrow> u32 \<Rightarrow> qca_gpio_config" where
  "node_config n junk =
     (let p = (\<lambda>prop. fdtdec_get_uint n prop 0)
      in \<lparr>c_gpio = p ''gpio'', c_func = p ''func'', c_out = p ''out'', c_pull = p ''pull'', c_drvstr = p ''drvstr'', c_oe = p ''oe'',
          c_vm = p ''vm'', c_od_en = p ''od_en'', c_pu_res = p ''pu_res'', c_sr_en = junk\<rparr>)"

definition led_init_by_name :: "gpio_board \<Rightarrow> u32 \<Rightarrow> string \<Rightarrow> gpio_state \<Rightarrow> gpio_state" where
  "led_init_by_name E junk name s =
     (case genv E name of
        Some v \<Rightarrow> led_init_from_env E (fst (simple_strtoul v 10)) s
      | None \<Rightarrow>
          (case (case fdt_path_offset E name of
                   Some n \<Rightarrow> Some n | None \<Rightarrow> fdt_path_offset E (snprintf 128 (''/tlmm-gpio/led_gpio/'' @ name))) of
             None \<Rightarrow> s
           | Some n \<Rightarrow> gpio_tlmm_config E (node_config n junk) s))"

definition subnode_names :: "gpio_board \<Rightarrow> string \<Rightarrow> string list option" where
  "subnode_names E path = map_option (\<lambda>n. map node_name (subnodes n)) (fdt_path_offset E path)"

definition led_init :: "gpio_board \<Rightarrow> u32 \<Rightarrow> gpio_state \<Rightarrow> gpio_state" where
  "led_init E junk s =
     led_on E ''power_led''
       (case subnode_names E ''/tlmm-gpio/led_gpio'' of None \<Rightarrow> s | Some names \<Rightarrow> fold (led_init_by_name E junk) names s)"

definition do_http_progress :: "gpio_board \<Rightarrow> nat \<Rightarrow> gpio_state \<Rightarrow> gpio_state" where
  "do_http_progress E st s =
     (if st = 0 then
        let s = (if on_ap8220 E then led_on E ''power_led'' s else led_off E ''power_led'' s)
        in led_off E ''system_led'' (led_on E ''blink_led'' s)
      else if st = 2 then led_on E ''blink_led'' s
      else if st = 1 then
        if on_ap8220 E then led_off E ''bluetooth_led'' (led_toggle E ''wlan5g_led'' (led_toggle E ''wlan2g_led'' s))
        else led_toggle E ''blink_led'' s
      else if st = 3 then led_toggle E ''blink_led'' s
      else if st = 4 then led_on E ''system_led'' (led_off E ''blink_led'' (led_off E ''power_led'' s))
      else if st = 5 then led_off E ''system_led'' (led_off E ''blink_led'' (led_on E ''power_led'' s))
      else s)"

section \<open>Buttons\<close>

text \<open>A pressed button reads 0, and does so twice.\<close>

definition gpio_debounce :: "gpio_board \<Rightarrow> u32 \<Rightarrow> bool \<Rightarrow> gpio_state \<Rightarrow> bool \<times> gpio_state" where
  "gpio_debounce E g val s =
     (let (v, s) = gpio_get_value E g s
      in if v \<noteq> val then (False, s) else let (v, s) = gpio_get_value E g s in (v = val, s))"

definition btn_is_pressed :: "gpio_board \<Rightarrow> string \<Rightarrow> bool \<Rightarrow> gpio_state \<Rightarrow> bool \<times> gpio_state" where
  "btn_is_pressed E name val s =
     (let gpio = fdt_get_gpio_number E name in if gpio < 0 then (False, s) else gpio_debounce E (word_of_int gpio) val s)"

definition gpio_input_config :: "gpio_board \<Rightarrow> u32 \<Rightarrow> u32 \<Rightarrow> gpio_state \<Rightarrow> gpio_state" where
  "gpio_input_config E g pull = gpio_tlmm_config E (plain_config g 0 pull 0)"

definition btn_init_gpio :: "gpio_board \<Rightarrow> u32 \<Rightarrow> gpio_state \<Rightarrow> gpio_state" where
  "btn_init_gpio E g s = snd (gpio_get_value E g (gpio_input_config E g (pull_up E) s))"

definition btn_init_by_name :: "gpio_board \<Rightarrow> string \<Rightarrow> gpio_state \<Rightarrow> gpio_state" where
  "btn_init_by_name E name = on_pin E name (btn_init_gpio E)"

text \<open>The variable \<^verbatim>\<open>reset_key\<close>: a decimal number below \<open>GPIO_MAX\<close>, or \<open>None\<close>.\<close>

fun env_gpio_loop :: "nat \<Rightarrow> nat \<Rightarrow> string \<Rightarrow> nat option" where
  "env_gpio_loop gmax gpio [] = Some gpio"
| "env_gpio_loop gmax gpio (c # cs) =
     (if c = NUL then Some gpio
      else if (of_char c :: nat) < 48 \<or> 57 < (of_char c :: nat) \<or> (gmax - 1) div 10 < gpio then None
      else let gpio = gpio * 10 + (of_char c - 48)
           in if gmax \<le> gpio then None else env_gpio_loop gmax gpio cs)"

definition env_reset_gpio :: "gpio_board \<Rightarrow> gpio_state \<Rightarrow> int \<times> gpio_state" where
  "env_reset_gpio E s =
     (if env_reset_gpio_cached s \<noteq> - 2 then (env_reset_gpio_cached s, s)
      else case (case genv E ''reset_key'' of
                   None \<Rightarrow> None | Some val \<Rightarrow> if deref val = NUL then None else env_gpio_loop (GPIO_MAX E) 0 val) of
             None \<Rightarrow> (- 1, s\<lparr>env_reset_gpio_cached := - 1\<rparr>)
           | Some g \<Rightarrow> (int g, btn_init_gpio E (of_nat g) (s\<lparr>env_reset_gpio_cached := int g\<rparr>)))"

definition env_reset_gpio_invalidate :: "gpio_state \<Rightarrow> gpio_state" where
  "env_reset_gpio_invalidate s = s\<lparr>env_reset_gpio_cached := - 2\<rparr>"

text \<open>The first button of the tree that is pressed.\<close>

fun any_pressed :: "gpio_board \<Rightarrow> string list \<Rightarrow> gpio_state \<Rightarrow> bool \<times> gpio_state" where
  "any_pressed E [] s = (False, s)"
| "any_pressed E (name # names) s =
     (let (p, s) = btn_is_pressed E name False s in if p then (True, s) else any_pressed E names s)"

definition btn_pressed :: "gpio_board \<Rightarrow> gpio_state \<Rightarrow> bool \<times> gpio_state" where
  "btn_pressed E s =
     (let (eg, s) = env_reset_gpio E s
      in if 0 \<le> eg then gpio_debounce E (word_of_int eg) False s
         else case subnode_names E ''/tlmm-gpio/key_gpio'' of
                None \<Rightarrow> btn_is_pressed E ''reset_key'' False s
              | Some names \<Rightarrow> any_pressed E names s)"

definition btn_init :: "gpio_board \<Rightarrow> gpio_state \<Rightarrow> gpio_state" where
  "btn_init E s =
     (let (eg, s) = env_reset_gpio E s
      in if 0 \<le> eg then s
         else case subnode_names E ''/tlmm-gpio/key_gpio'' of
                None \<Rightarrow> btn_init_by_name E ''reset_key'' s
              | Some names \<Rightarrow> fold (btn_init_by_name E) names s)"

definition start_recovery :: "gpio_board \<Rightarrow> gpio_state \<Rightarrow> gpio_state" where
  "start_recovery E s =
     (let s = (case subnode_names E ''/tlmm-gpio/led_gpio'' of None \<Rightarrow> s | Some names \<Rightarrow> fold (led_off E) names s);
          s = led_on E ''blink_led'' (led_on E ''power_led'' s)
      in s\<lparr>httpd_started := httpd_started s + 1\<rparr>)"

text \<open>\<open>left\<close> is the number of seconds that are missing: 3 - \<^verbatim>\<open>counter\<close>.\<close>

fun press_loop :: "gpio_board \<Rightarrow> nat \<Rightarrow> gpio_state \<Rightarrow> gpio_state" where
  "press_loop E 0 s = s"
| "press_loop E (Suc left) s =
     (let (p, s) = btn_pressed E s
      in if \<not> p then s
         else let s = led_blink_then_on E ''power_led'' 1000 s
              in if left = 0 then start_recovery E s else press_loop E left s)"

definition btn_check_press :: "gpio_board \<Rightarrow> gpio_state \<Rightarrow> gpio_state" where
  "btn_check_press E s = press_loop E 3 s"

section \<open>The gpio command\<close>

text \<open>What the callback of the listing is given for a pin of the tree.\<close>

record gpio_entry =
  e_gpio :: int
  e_name :: string
  e_out :: bool
  e_value :: bool
  e_parent :: string

fun fdt_list_gpio_by_node :: "gpio_board \<Rightarrow> string \<Rightarrow> fdt list \<Rightarrow> gpio_state \<Rightarrow> gpio_entry list \<times> gpio_state" where
  "fdt_list_gpio_by_node E parent [] s = ([], s)"
| "fdt_list_gpio_by_node E parent (Node name props kids # ns) s =
     (let g = sint (fdtdec_get_uint (Node name props kids) ''gpio'' (- 1));
          (here, s) = (if 0 \<le> g then
              let (v, s) = gpio_get_value E (word_of_int g) s
              in ([\<lparr>e_gpio = g, e_name = name, e_out = (regs s (GPIO_CONFIG_ADDR E (word_of_int g)) AND push_bit 9 1 \<noteq> 0),
                     e_value = v, e_parent = parent\<rparr>], s)
            else ([], s));
          (below, s) = fdt_list_gpio_by_node E name kids s;
          (rest, s) = fdt_list_gpio_by_node E parent ns s
      in (here @ below @ rest, s))"

definition fdt_list_gpio :: "gpio_board \<Rightarrow> string \<Rightarrow> string \<Rightarrow> gpio_state \<Rightarrow> gpio_entry list \<times> gpio_state" where
  "fdt_list_gpio E path parent s =
     (case fdt_path_offset E path of None \<Rightarrow> ([], s) | Some n \<Rightarrow> fdt_list_gpio_by_node E parent (subnodes n) s)"

text \<open>The parent of the first entry for the pin, as \<^verbatim>\<open>gpio_find_parent_cb\<close> keeps it.\<close>

definition gpio_get_parent_name :: "gpio_board \<Rightarrow> int \<Rightarrow> gpio_state \<Rightarrow> string option \<times> gpio_state" where
  "gpio_get_parent_name E gpio s =
     (let (es, s) = fdt_list_gpio E ''/'' [] s in (map_option e_parent (find (\<lambda>e. e_gpio e = gpio) es), s))"

text \<open>
  \<^verbatim>\<open>gpio_detect\<close> reports the input pins that change: \<open>rounds\<close> holds for every turn of the loop the key press and the
  time, \<open>None\<close> marks a pin that is not watched.
\<close>

fun detect_scan :: "gpio_board \<Rightarrow> nat list \<Rightarrow> gpio_state \<Rightarrow> bool option list \<times> gpio_state" where
  "detect_scan E [] s = ([], s)"
| "detect_scan E (i # is) s =
     (let cfg = regs s (GPIO_CONFIG_ADDR E (of_nat i));
          (v, s) = (if (skips_20 E \<and> i = 20) \<or> cfg AND 0x1C \<noteq> 0 \<or> cfg AND push_bit 9 1 \<noteq> 0 then (None, s)
                    else let (v, s) = gpio_get_value E (of_nat i) s in (Some v, s));
          (vs, s) = detect_scan E is s
      in (v # vs, s))"

fun detect_round :: "gpio_board \<Rightarrow> nat \<Rightarrow> bool option list \<Rightarrow> gpio_state \<Rightarrow> (nat \<times> bool \<times> bool) list \<times> bool option list \<times> gpio_state" where
  "detect_round E i [] s = ([], [], s)"
| "detect_round E i (None # vs) s = (let (ch, vs, s) = detect_round E (Suc i) vs s in (ch, None # vs, s))"
| "detect_round E i (Some old # vs) s =
     (let (v, s) = gpio_get_value E (of_nat i) s;
          (ch, vs, s) = detect_round E (Suc i) vs s
      in ((if v \<noteq> old then [(i, old, v)] else []) @ ch, Some v # vs, s))"

fun detect_loop :: "gpio_board \<Rightarrow> u32 \<Rightarrow> (bool \<times> u32) list \<Rightarrow> bool option list \<Rightarrow> gpio_state
    \<Rightarrow> (nat \<times> bool \<times> bool) list \<times> gpio_state" where
  "detect_loop E deadline [] vs s = ([], s)"
| "detect_loop E deadline ((ctrlc, now) # rounds) vs s =
     (if ctrlc \<or> \<not> now < deadline then ([], s)
      else let (ch, vs, s) = detect_round E 0 vs s; (more, s) = detect_loop E deadline rounds vs s in (ch @ more, s))"

definition gpio_detect :: "gpio_board \<Rightarrow> u32 \<Rightarrow> (bool \<times> u32) list \<Rightarrow> gpio_state \<Rightarrow> (nat \<times> bool \<times> bool) list \<times> gpio_state" where
  "gpio_detect E start rounds s =
     (let (vs, s) = detect_scan E [0..<GPIO_MAX E] s in detect_loop E (start + 10000) rounds vs s)"

definition pull_arg :: "gpio_board \<Rightarrow> string \<Rightarrow> u32 option" where
  "pull_arg E a = (if strcmp a ''up'' = 0 then Some (pull_up E) else if strcmp a ''down'' = 0 then Some 1
     else if strcmp a ''none'' = 0 then Some 0 else None)"

text \<open>The operations on a pin, once it is known and not critical.\<close>

definition gpio_op :: "gpio_board \<Rightarrow> string list \<Rightarrow> u32 \<Rightarrow> gpio_state \<Rightarrow> int \<times> gpio_state" where
  "gpio_op E argv g s =
     (let oper = argv ! 2; more = 4 \<le> length argv
      in if strcmp oper ''in'' = 0 then
           (case (if more then pull_arg E (argv ! 3) else Some 0) of
              None \<Rightarrow> (- 1, s) | Some pull \<Rightarrow> (0, gpio_input_config E g pull s))
         else
           let s = gpio_tlmm_config E (plain_config g 1 0 1) s
           in if strcmp oper ''out'' = 0 then
                (0, gpio_set_value E g (if more \<and> fst (simple_strtoul (argv ! 3) 10) \<noteq> 0 then 1 else 0) s)
              else if strcmp oper ''on'' = 0 then (0, gpio_set_value E g 1 s)
              else if strcmp oper ''off'' = 0 then (0, gpio_set_value E g 0 s)
              else if strcmp oper ''t'' = 0 then
                (let (v, s) = gpio_get_value E g s in (0, gpio_set_value E g (if v then 0 else 1) s))
              else if strcmp oper ''b'' = 0 then
                if \<not> more then (- 1, s)
                else (0, led_blink E (argv ! 1) (sint (fst (simple_strtoul (argv ! 3) 10) * 1000)) s)
              else (- 1, s))"

definition do_gpio_cmd :: "gpio_board \<Rightarrow> u32 \<Rightarrow> (bool \<times> u32) list \<Rightarrow> string list \<Rightarrow> gpio_state \<Rightarrow> int \<times> gpio_state" where
  "do_gpio_cmd E start rounds argv s =
     (if length argv < 2 then (- 1, snd (fdt_list_gpio E ''/'' [] s))
      else if strcmp (argv ! 1) ''d'' = 0 then (0, snd (gpio_detect E start rounds s))
      else
        let gpio = fdt_get_gpio_number E (argv ! 1)
        in if gpio < 0 then (1, s)
           else if length argv = 2 then (0, snd (gpio_get_value E (word_of_int gpio) s))
           else
             let (parent, s) = gpio_get_parent_name E gpio s
             in case parent of
                  Some p \<Rightarrow> if strcmp p ''led_gpio'' \<noteq> 0 \<and> strcmp p ''key_gpio'' \<noteq> 0 then (1, s) else gpio_op E argv (word_of_int gpio) s
                | None \<Rightarrow> gpio_op E argv (word_of_int gpio) s)"

end
