(* ===== verification/GpioProps.thy ===== *)
theory GpioProps
  imports Gpio HttpdProps CmdLine
begin

text \<open>
  Pins: which registers the \<^verbatim>\<open>gpio\<close> command and the LED page can change, and when the reset button starts the
  recovery server.
\<close>

section \<open>Which registers change\<close>

definition touches :: "gpio_board \<Rightarrow> u32 \<Rightarrow> gpio_state \<Rightarrow> gpio_state \<Rightarrow> bool" where
  "touches E g s s' \<longleftrightarrow> (\<forall>a. a \<noteq> GPIO_CONFIG_ADDR E g \<longrightarrow> a \<noteq> GPIO_IN_OUT_ADDR E g \<longrightarrow> regs s' a = regs s a)"

named_theorems pin_frame

lemma touches_trans: "touches E g s s' \<Longrightarrow> touches E g s' s'' \<Longrightarrow> touches E g s s''"
  by (simp add: touches_def)

lemma touches_same [pin_frame]: "regs s' = regs s \<Longrightarrow> touches E g s s'"
  by (simp add: touches_def)

lemma get_value_regs [simp]: "regs (snd (gpio_get_value E g s)) = regs s"
  by (simp add: gpio_get_value_def)

lemma set_value_touches [pin_frame]: "touches E g s (gpio_set_value E g out s)"
  by (simp add: touches_def gpio_set_value_def writel_def Let_def)

lemma config_touches [pin_frame]: "c_gpio c = g \<Longrightarrow> touches E g s (gpio_tlmm_config E c s)"
  by (simp add: touches_def gpio_tlmm_config_def writel_def Let_def)

lemma blink_touches:
  assumes "fdt_get_gpio_number E name = g"
  shows "touches E (word_of_int g) s (led_blink E name d s)"
proof -
  have "touches E p s (fold (\<lambda>_ s. gpio_set_value E p 0 (gpio_set_value E p 1 s)) xs s)" for p and xs :: "nat list"
  proof (induction xs arbitrary: s)
    case (Cons x xs)
    have "touches E p s (gpio_set_value E p 0 (gpio_set_value E p 1 s))" by (meson set_value_touches touches_trans)
    then show ?case using Cons.IH by (auto intro: touches_trans)
  qed (simp add: touches_def)
  then show ?thesis using assms by (simp add: led_blink_def on_pin_def Let_def touches_def)
qed

lemma op_touches:
  assumes "fdt_get_gpio_number E (argv ! 1) = g"
  shows "touches E (word_of_int g) s (snd (gpio_op E argv (word_of_int g) s))"
proof -
  define p where "p = (word_of_int g :: u32)"
  define s1 where "s1 = gpio_tlmm_config E (plain_config p 1 0 1) s"
  have 1: "touches E p s s1" unfolding s1_def by (rule config_touches) (simp add: plain_config_def)
  have set: "touches E p s (gpio_set_value E p out s1)" for out using 1 set_value_touches touches_trans by blast
  have tog: "touches E p s (gpio_set_value E p out (snd (gpio_get_value E p s1)))" for out
    using 1 by (meson get_value_regs set_value_touches touches_same touches_trans)
  have blink: "touches E p s (led_blink E (argv ! 1) d s1)" for d
    using 1 blink_touches [OF assms] touches_trans unfolding p_def by blast
  have inp: "touches E p s (gpio_input_config E p pull s)" for pull
    unfolding gpio_input_config_def by (rule config_touches) (simp add: plain_config_def)
  show ?thesis
    using set tog blink inp 1 unfolding gpio_op_def Let_def p_def [symmetric] s1_def [symmetric]
    by (auto simp: touches_def split: option.split prod.split)
qed

section \<open>The pins of the device tree\<close>

text \<open>The pins in the order of the listing, each with the name of the node that holds its node.\<close>

fun pins_of :: "string \<Rightarrow> fdt list \<Rightarrow> (int \<times> string) list" where
  "pins_of parent [] = []"
| "pins_of parent (Node name props kids # ns) =
     (let g = sint (fdtdec_get_uint (Node name props kids) ''gpio'' (- 1))
      in (if 0 \<le> g then [(g, parent)] else []) @ pins_of name kids @ pins_of parent ns)"

definition pin_parent :: "gpio_board \<Rightarrow> int \<Rightarrow> string option" where
  "pin_parent E g = map_option snd (find (\<lambda>x. fst x = g) (pins_of [] (subnodes (dt E))))"

definition is_critical :: "gpio_board \<Rightarrow> int \<Rightarrow> bool" where
  "is_critical E g \<longleftrightarrow> (case pin_parent E g of None \<Rightarrow> False | Some p \<Rightarrow> cstr p \<notin> {''led_gpio'', ''key_gpio''})"

lemma listing:
  "map (\<lambda>e. (e_gpio e, e_parent e)) (fst (fdt_list_gpio_by_node E parent ns s)) = pins_of parent ns
    \<and> regs (snd (fdt_list_gpio_by_node E parent ns s)) = regs s"
proof (induction parent ns arbitrary: s rule: pins_of.induct)
  case (2 parent name props kids ns)
  note IH = "2.IH"(1) [OF refl] "2.IH"(2) [OF refl]
  show ?case by (simp add: Let_def split_beta IH gpio_get_value_def)
qed simp

lemma root_path: "fdt_path_offset E ''/'' = Some (dt E)"
  by (simp add: fdt_path_offset_def cstr_def fdt_walk.simps Let_def)

lemma parent_name:
  "gpio_get_parent_name E g s = (pin_parent E g, snd (gpio_get_parent_name E g s))" "regs (snd (gpio_get_parent_name E g s)) = regs s"
proof -
  have f: "map_option e_parent (find (\<lambda>e. e_gpio e = g) es)
    = map_option snd (find (\<lambda>x. fst x = g) (map (\<lambda>e. (e_gpio e, e_parent e)) es))" for es
    by (induction es) auto
  show "gpio_get_parent_name E g s = (pin_parent E g, snd (gpio_get_parent_name E g s))"
    using listing [of E "[]" "subnodes (dt E)" s] f [of "fst (fdt_list_gpio_by_node E [] (subnodes (dt E)) s)"]
    by (simp add: gpio_get_parent_name_def fdt_list_gpio_def root_path pin_parent_def Let_def split_beta)
  show "regs (snd (gpio_get_parent_name E g s)) = regs s"
    using listing [of E "[]" "subnodes (dt E)" s]
    by (simp add: gpio_get_parent_name_def fdt_list_gpio_def root_path Let_def split_beta)
qed

lemma detect_regs: "regs (snd (gpio_detect E start rounds s)) = regs s"
proof -
  have scan: "regs (snd (detect_scan E is s)) = regs s" for "is" s
    by (induction "is" arbitrary: s) (simp_all add: Let_def split_beta gpio_get_value_def)
  have round: "regs (snd (snd (detect_round E i vs s))) = regs s" for i vs s
  proof (induction vs arbitrary: i s)
    case (Cons v vs)
    then show ?case by (cases v) (simp_all add: Let_def split_beta)
  qed simp
  have "regs (snd (detect_loop E dl rounds vs s)) = regs s" for dl vs s
    by (induction rounds arbitrary: vs s) (auto simp: Let_def split_beta round)
  then show ?thesis by (simp add: gpio_detect_def Let_def split_beta scan)
qed

section \<open>The gpio command and the LED page\<close>


text \<open>What the LED events of the web server do on the board.\<close>

fun run_led :: "gpio_board \<Rightarrow> led_event \<Rightarrow> gpio_state \<Rightarrow> gpio_state" where
  "run_led E (Led_On name) s = led_on E name s"
| "run_led E (Led_Off name) s = led_off E name s"
| "run_led E (Led_Toggle name) s = led_toggle E name s"
| "run_led E (Progress st) s = do_http_progress E st s"

lemma number_name:
  assumes "n < 2 ^ 31"
  shows "fdt_get_gpio_number E (fmt_dec n) = int n"
proof -
  have "simple_strtoul (fmt_dec (unat (of_nat n :: u32))) 10 = (of_nat n, [])" using simple_strtoul_roundtrip by blast
  then have "simple_strtoul (fmt_dec n) 10 = (of_nat n, [])" using assms by (simp add: unat_of_nat_u32)
  moreover have "fmt_dec n \<noteq> []" by (simp add: fmt_dec_def)
  moreover have "sint (of_nat n :: u32) = int n" using assms by (simp add: signed_of_nat signed_take_bit_int_eq_self)
  ultimately show ?thesis by (simp add: fdt_get_gpio_number_def)
qed

lemma digits_no_NUL: "2 \<le> b \<Longrightarrow> b \<le> 16 \<Longrightarrow> NUL \<notin> set (digits_base b n)"
proof (induction b n rule: digits_base.induct)
  case (1 b n)
  then have "n mod b < 16" using mod_less_divisor [of b n] by linarith
  then show ?case using 1 digit_char_facts(3) [of n] digit_char_facts(3) [of "n mod b"] by (subst digits_base.simps) auto
qed

lemma fmt_dec_facts: "NUL \<notin> set (fmt_dec n)" "n < 2 ^ 31 \<Longrightarrow> strcmp (fmt_dec n) ''d'' \<noteq> 0" "n < 2 ^ 31 \<Longrightarrow> length (fmt_dec n) < 64"
proof -
  show nul: "NUL \<notin> set (fmt_dec n)" using digits_no_NUL [of 10 n] by (simp add: fmt_dec_def)
  assume n: "n < 2 ^ 31"
  have "simple_strtoul ''d'' 10 = (0 :: u32, ''d'')" by code_simp
  moreover have "snd (simple_strtoul (fmt_dec n) 10) = []"
    using simple_strtoul_roundtrip [of "of_nat n"] n by (simp add: unat_of_nat_u32)
  ultimately have "fmt_dec n \<noteq> ''d''" by (metis list.distinct(1) snd_conv)
  moreover have "cstr (fmt_dec n) = fmt_dec n" using nul by (simp add: cstr_id)
  moreover have "cstr ''d'' = ''d''" by (simp add: cstr_def)
  ultimately show "strcmp (fmt_dec n) ''d'' \<noteq> 0" by (simp add: strcmp_eq_0)
  show "length (fmt_dec n) < 64" using n length_digits_base [of 10 n 10] by (simp add: fmt_dec_def)
qed

lemma strchr_skip: "c \<notin> set p \<Longrightarrow> NUL \<notin> set p \<Longrightarrow> strchr (p @ r) c = strchr r c"
  by (induction p) auto

lemma led_request:
  assumes "plain name" "NUL \<notin> set name" "name \<noteq> []" "length name < 64"
  shows "leds (httpd_handle_led c (''GET /led?name='' @ name @ ''&action=on HTTP/1.0'') s) = leds s @ [Led_On name]"
proof -
  have a: "led_name (''name='' @ name @ ''&action=on HTTP/1.0'') = Some (name, ''action=on HTTP/1.0'')"
    using assms by (simp add: led_name_def plain_def strchr_skip before_def strncmp_eq_0 Let_def)
  have "led_action ''action=on HTTP/1.0'' = ''on''" by code_simp
  moreover have "strcmp ''on'' ''on'' = 0" by code_simp
  moreover have "leds (send_buffer c b x s') = leds s'" for b x s'
    by (simp add: send_buffer_def httpd_send_static_def httpd_send_data_def upd_def Let_def split_beta split: option.split)
  ultimately show ?thesis using a assms(3) by (simp add: httpd_handle_led_def led_def Let_def)
qed

text \<open>
  The LED page has no such protection: a request that gives a number as the name drives any pin, also one that the
  \<^verbatim>\<open>gpio\<close> command refuses to touch.
\<close>

theorem led_page_drives_critical_pin:
  assumes "n < 2 ^ 31" and "is_critical E (int n)"
  shows "\<exists>ev. leds (httpd_handle_led c (''GET /led?name='' @ fmt_dec n @ ''&action=on HTTP/1.0'') srv) = leds srv @ [ev]
    \<and> regs (run_led E ev s) (GPIO_IN_OUT_ADDR E (of_nat n)) = (regs s (GPIO_IN_OUT_ADDR E (of_nat n)) AND NOT 2) OR 2
    \<and> fst (do_gpio_cmd E start rounds [''gpio'', fmt_dec n, ''on''] s) = 1
    \<and> regs (snd (do_gpio_cmd E start rounds [''gpio'', fmt_dec n, ''on''] s)) = regs s"
proof (intro exI conjI)
  have ne: "fmt_dec n \<noteq> []" by (simp add: fmt_dec_def)
  show "leds (httpd_handle_led c (''GET /led?name='' @ fmt_dec n @ ''&action=on HTTP/1.0'') srv) = leds srv @ [Led_On (fmt_dec n)]"
    using led_request [OF _ fmt_dec_facts(1) ne fmt_dec_facts(3) [OF assms(1)]] by simp
  show "regs (run_led E (Led_On (fmt_dec n)) s) (GPIO_IN_OUT_ADDR E (of_nat n)) = (regs s (GPIO_IN_OUT_ADDR E (of_nat n)) AND NOT 2) OR 2"
    using number_name [OF assms(1), of E] by (simp add: led_on_def on_pin_def gpio_set_value_def writel_def Let_def)
  have "do_gpio_cmd E start rounds [''gpio'', fmt_dec n, ''on''] s = (1, snd (gpio_get_parent_name E (int n) s))"
    using fmt_dec_facts(2) [OF assms(1)] number_name [OF assms(1), of E] assms(2) parent_name(1) [of E "int n" s]
    by (cases "gpio_get_parent_name E (int n) s")
      (auto simp: do_gpio_cmd_def is_critical_def strcmp_eq_0 cstr_def split: option.splits)
  then show "fst (do_gpio_cmd E start rounds [''gpio'', fmt_dec n, ''on''] s) = 1"
    "regs (snd (do_gpio_cmd E start rounds [''gpio'', fmt_dec n, ''on''] s)) = regs s"
    using parent_name(2) [of E "int n" s] by simp_all
qed

section \<open>The reset button\<close>

text \<open>LEDs take no samples and change nothing but registers.\<close>

definition led_only :: "gpio_state \<Rightarrow> gpio_state \<Rightarrow> bool" where
  "led_only s s' \<longleftrightarrow> samples s' = samples s \<and> env_reset_gpio_cached s' = env_reset_gpio_cached s \<and> httpd_started s' = httpd_started s"

lemma led_only_trans: "led_only s s' \<Longrightarrow> led_only s' s'' \<Longrightarrow> led_only s s''"
  by (simp add: led_only_def)

lemma led_only_set: "led_only s (gpio_set_value E g out s)"
  by (simp add: led_only_def gpio_set_value_def writel_def Let_def)

lemma led_only_fold: "(\<And>x s. led_only s (f x s)) \<Longrightarrow> led_only s (fold f xs s)"
proof (induction xs arbitrary: s)
  case (Cons x xs)
  then show ?case by (auto intro: led_only_trans)
qed (simp add: led_only_def)

lemma led_only_pin: "(\<And>g s. led_only s (f g s)) \<Longrightarrow> led_only s (on_pin E name f s)"
  by (simp add: on_pin_def Let_def led_only_def [of s s])

lemma led_only_leds: "led_only s (led_on E name s)" "led_only s (led_off E name s)" "led_only s (led_blink E name d s)"
proof -
  have "led_only s (gpio_set_value E g 0 (gpio_set_value E g 1 s))" for g s by (rule led_only_trans [OF led_only_set led_only_set])
  then show "led_only s (led_blink E name d s)" unfolding led_blink_def by (intro led_only_pin led_only_fold)
qed (auto simp: led_on_def led_off_def intro: led_only_pin led_only_set)

lemma started_recovery: "httpd_started (start_recovery E s) = httpd_started s + 1"
proof -
  define s1 where "s1 = (case subnode_names E ''/tlmm-gpio/led_gpio'' of None \<Rightarrow> s | Some names \<Rightarrow> fold (led_off E) names s)"
  have "led_only s s1" unfolding s1_def using led_only_fold [of "led_off E"] led_only_leds(2) by (simp add: led_only_def [of s s] split: option.split)
  moreover have "led_only s1 (led_on E ''blink_led'' (led_on E ''power_led'' s1))" using led_only_leds(1) led_only_trans by blast
  ultimately show ?thesis by (simp add: start_recovery_def s1_def [symmetric] Let_def led_only_def)
qed

text \<open>With a pin from the environment every second takes two samples.\<close>

lemma pressed_env:
  assumes "env_reset_gpio_cached s = int g" and a: "a = GPIO_IN_OUT_ADDR E (of_nat g)"
  shows "fst (btn_pressed E s) \<longleftrightarrow> \<not> level E (samples s) a \<and> \<not> level E (samples s + 1) a"
    "fst (btn_pressed E s) \<Longrightarrow> snd (btn_pressed E s) = s\<lparr>samples := samples s + 2\<rparr>"
    "httpd_started (snd (btn_pressed E s)) = httpd_started s"
  using assms by (auto simp: btn_pressed_def env_reset_gpio_def gpio_debounce_def gpio_get_value_def Let_def)

lemma held_env:
  assumes "env_reset_gpio_cached s = int g" and "0 < k"
  shows "httpd_started (press_loop E k s)
    = httpd_started s + (if \<forall>i < 2 * k. \<not> level E (samples s + i) (GPIO_IN_OUT_ADDR E (of_nat g)) then 1 else 0)"
  using assms
proof (induction k arbitrary: s)
  case (Suc k)
  define a s1 where "a = GPIO_IN_OUT_ADDR E (of_nat g)" and "s1 = led_blink_then_on E ''power_led'' 1000 (s\<lparr>samples := samples s + 2\<rparr>)"
  note p = pressed_env [OF Suc.prems(1) a_def]
  have led: "samples s1 = samples s + 2" "env_reset_gpio_cached s1 = int g" "httpd_started s1 = httpd_started s"
    using led_only_trans [OF led_only_leds(3) led_only_leds(1), where s = "s\<lparr>samples := samples s + 2\<rparr>"] Suc.prems(1)
    by (simp_all add: s1_def led_blink_then_on_def led_only_def)
  have all: "(\<forall>i < 2 * Suc k. \<not> level E (samples s + i) a) \<longleftrightarrow> fst (btn_pressed E s) \<and> (\<forall>i < 2 * k. \<not> level E (samples s1 + i) a)"
  proof -
    have "(\<forall>i < Suc (Suc n). P i) \<longleftrightarrow> P 0 \<and> P 1 \<and> (\<forall>i < n. P (i + 2))" for n and P :: "nat \<Rightarrow> bool"
      by (auto simp: less_Suc_eq_0_disj All_less_Suc2)
    from this [of "2 * k" "\<lambda>i. \<not> level E (samples s + i) a"] show ?thesis using p(1) led(1) by (simp add: ac_simps)
  qed
  show ?case
  proof (cases "fst (btn_pressed E s)")
    case False
    then show ?thesis using all p(3) by (simp add: Let_def split_beta a_def)
  next
    case True
    then have "press_loop E (Suc k) s = (if k = 0 then start_recovery E s1 else press_loop E k s1)"
      using p(2) by (simp add: Let_def split_beta s1_def)
    then show ?thesis using Suc.IH [OF led(2)] led all True started_recovery by (cases "k = 0") (simp_all add: a_def)
  qed
qed simp

text \<open>The variable is read as the web page checked it.\<close>

lemma env_loop_number:
  assumes "NUL \<notin> set v" and "0 < g" and "acc < g"
  shows "env_gpio_loop g acc v = (if list_all isdigit v \<and> number acc v < g then Some (number acc v) else None)"
proof -
  have "env_gpio_loop g acc v = (if reset_key_loop g acc v then Some (number acc v) else None)"
    using assms(1)
    by (induction v arbitrary: acc) (auto simp: isdigit_def Let_def)
  then show ?thesis using reset_key_loop_number [OF assms] by simp
qed

lemma first_press:
  assumes "env_reset_gpio_cached s = - 2" and v: "genv E ''reset_key'' = Some v" "v \<noteq> []" "NUL \<notin> set v"
    "list_all isdigit v" "number 0 v < GPIO_MAX E"
  obtains s0 where "env_reset_gpio_cached s0 = int (number 0 v)" and "samples s0 = samples s + 1" and "httpd_started s0 = httpd_started s"
    and "\<And>k. press_loop E k s = (if k = 0 then s else press_loop E k s0)"
proof
  define g where "g = number 0 v"
  define s0 where "s0 = btn_init_gpio E (of_nat g) (s\<lparr>env_reset_gpio_cached := int g\<rparr>)"
  have "deref v \<noteq> NUL" using v(2,3) by (cases v) auto
  then have e: "env_reset_gpio E s = (int g, s0)"
    using assms env_loop_number [of v "GPIO_MAX E" 0] by (simp add: env_reset_gpio_def s0_def g_def)
  have s0: "env_reset_gpio_cached s0 = int g" "samples s0 = samples s + 1" "httpd_started s0 = httpd_started s"
    by (simp_all add: s0_def btn_init_gpio_def gpio_get_value_def gpio_input_config_def gpio_tlmm_config_def writel_def Let_def)
  then show "env_reset_gpio_cached s0 = int (number 0 v)" "samples s0 = samples s + 1" "httpd_started s0 = httpd_started s"
    by (simp_all add: g_def)
  have "env_reset_gpio E s0 = (int g, s0)" using s0(1) by (simp add: env_reset_gpio_def)
  then have "btn_pressed E s = btn_pressed E s0" by (simp add: btn_pressed_def e)
  then show "press_loop E k s = (if k = 0 then s else press_loop E k s0)" for k by (cases k) simp_all
qed

text \<open>
  C32: A reset button that was set on the web page works: at the next boot the check of the buttons looks at exactly that pin
  and starts the recovery server, once, if and only if the pin reads as pressed in each of the six samples of the three
  seconds.
\<close>

theorem saved_reset_key_starts_recovery:
  assumes req: "env_field data = Some (''reset_key'', v)" "v \<noteq> []" "NUL \<notin> set v" "list_all isdigit v" "number 0 v < GPIO_MAX E"
    and boot: "gpio_max pl = GPIO_MAX E" "genv E = saved_env (httpd_handle_env_set pl c data srv)" "env_reset_gpio_cached s = - 2"
  shows "httpd_started (btn_check_press E s) = httpd_started s
    + (if \<forall>i < 6. \<not> level E (samples s + 1 + i) (GPIO_IN_OUT_ADDR E (of_nat (number 0 v))) then 1 else 0)"
proof -
  have "genv E ''reset_key'' = Some v"
    using reset_key_checked [OF req(1-3), of pl c srv] req(4,5) boot(1,2) by simp
  then obtain s0 where s0: "env_reset_gpio_cached s0 = int (number 0 v)" "samples s0 = samples s + 1" "httpd_started s0 = httpd_started s"
    and "\<And>k. press_loop E k s = (if k = 0 then s else press_loop E k s0)"
    using first_press [OF boot(3) _ req(2-5)] by blast
  then have "btn_check_press E s = press_loop E 3 s0" by (simp add: btn_check_press_def)
  then show ?thesis using held_env [OF s0(1), of 3 E] s0(2,3) by simp
qed

section \<open>Examples\<close>

definition sample_tree :: fdt where
  "sample_tree = Node [] [] [Node ''tlmm-gpio'' [] [
     Node ''led_gpio'' [] [Node ''power_led'' [(''gpio'', 35)] [], Node ''blink_led'' [(''gpio'', 37)] []],
     Node ''key_gpio'' [] [Node ''reset_key'' [(''gpio'', 9)] []],
     Node ''sdc'' [] [Node ''emmc_reset'' [(''gpio'', 20)] []]]]"

definition sample_board :: gpio_board where
  "sample_board = \<lparr>dt = sample_tree, aliases = (\<lambda>_. None),
     genv = saved_env (httpd_handle_env_set board 7 (''POST /env_set'' @ crlf2 @ ''reset_key=42'') idle),
     GPIO_MAX = gpio_max board, tlmm_base = 0x1000000, tlmm_stride = 0x1000, pull_up = 3, on_ipq5018 = False, on_ap8220 = False, skips_20 = True,
     level = (\<lambda>_ _. False)\<rparr>"

definition cold :: gpio_state where
  "cold = \<lparr>regs = (\<lambda>_. 0), samples = 0, env_reset_gpio_cached = - 2, httpd_started = 0\<rparr>"

theorem saved_reset_key_starts_recovery_witness: "httpd_started (btn_check_press sample_board cold) = 1"
proof -
  have e: "env_field (''POST /env_set'' @ crlf2 @ ''reset_key=42'') = Some (''reset_key'', ''42'')" by code_simp
  have "list_all isdigit ''42''" "number 0 ''42'' = 42" by code_simp+
  then show ?thesis
    using saved_reset_key_starts_recovery [OF e, of sample_board board 7 idle cold]
    by (simp add: sample_board_def cold_def board_def)
qed

definition bare_board :: gpio_board where
  "bare_board = \<lparr>dt = sample_tree, aliases = (\<lambda>_. None), genv = (\<lambda>_. None), GPIO_MAX = 80, tlmm_base = 0x1000000, tlmm_stride = 0x1000,
     pull_up = 3, on_ipq5018 = False, on_ap8220 = False, skips_20 = True, level = (\<lambda>_ _. False)\<rparr>"


theorem led_page_drives_critical_pin_witness:
  "\<exists>ev. leds (httpd_handle_led 7 (''GET /led?name='' @ fmt_dec 20 @ ''&action=on HTTP/1.0'') idle) = leds idle @ [ev]
    \<and> regs (run_led bare_board ev cold) (GPIO_IN_OUT_ADDR bare_board (of_nat 20)) = (regs cold (GPIO_IN_OUT_ADDR bare_board (of_nat 20)) AND NOT 2) OR 2
    \<and> fst (do_gpio_cmd bare_board 0 [] [''gpio'', fmt_dec 20, ''on''] cold) = 1
    \<and> regs (snd (do_gpio_cmd bare_board 0 [] [''gpio'', fmt_dec 20, ''on''] cold)) = regs cold"
proof (rule led_page_drives_critical_pin)
  show "is_critical bare_board (int 20)" by code_simp
qed simp

end
