(* ===== verification/Ethernet.thy ===== *)
theory Ethernet
  imports Prelude
begin

text \<open>
  The Ethernet side of the recovery server: link detection (\<^verbatim>\<open>eth_check_link_change\<close> in \<^verbatim>\<open>lib/ipq_api.c\<close>), the
  restart of an inactive device and the ARP packet of \<^verbatim>\<open>failsafe/failsafe_httpd.c\<close>, and the port of lwIP,
  \<^verbatim>\<open>failsafe/ethernetif.c\<close>. The PHYs and the memory pools of lwIP are parameters.
\<close>

section \<open>Link detection\<close>

text \<open>
  \<open>mii k bus phy reg\<close> is what the \<open>k\<close>-th read of a PHY register returns, \<open>None\<close> an error. \<open>phy_info\<close> is the table of ports
  of the builds that have one: the address of the PHY of a port that is used and not an SFP.
\<close>

record link_board =
  current_dev :: "string option"
  phy_info :: "nat option list option"
  two_buses :: bool
  mii :: "nat \<Rightarrow> string \<Rightarrow> nat \<Rightarrow> nat \<Rightarrow> u16 option"

record link_state =
  link_last_check :: u32
  link_first_check :: bool
  link_port_prev :: int
  mii_reads :: nat
  eth_inits :: nat

definition miiphy_read :: "link_board \<Rightarrow> string \<Rightarrow> nat \<Rightarrow> nat \<Rightarrow> link_state \<Rightarrow> u16 option \<times> link_state" where
  "miiphy_read B bus phy reg s = (mii B (mii_reads s) bus phy reg, s\<lparr>mii_reads := mii_reads s + 1\<rparr>)"

definition no_phy :: "u16 \<Rightarrow> bool" where
  "no_phy v \<longleftrightarrow> v = 0xFFFF \<or> v = 0"

text \<open>The status register of the vendor, or else the latched one, which has to be read twice.\<close>

definition read_phy_link :: "link_board \<Rightarrow> string \<Rightarrow> nat \<Rightarrow> link_state \<Rightarrow> bool \<times> link_state" where
  "read_phy_link B bus phy s =
     (let (v, s) = miiphy_read B bus phy 17 s
      in case v of
           Some w \<Rightarrow>
             if \<not> no_phy w then (w AND 0x0400 \<noteq> 0, s)
             else let (v, s) = miiphy_read B bus phy 1 s
                  in if v = None then (False, s)
                     else let (v, s) = miiphy_read B bus phy 1 s
                          in (case v of None \<Rightarrow> False | Some w \<Rightarrow> \<not> no_phy w \<and> w AND 4 \<noteq> 0, s)
         | None \<Rightarrow>
             let (v, s) = miiphy_read B bus phy 1 s
             in if v = None then (False, s)
                else let (v, s) = miiphy_read B bus phy 1 s
                     in (case v of None \<Rightarrow> False | Some w \<Rightarrow> \<not> no_phy w \<and> w AND 4 \<noteq> 0, s))"

text \<open>The ports that are looked at, in order, with their bus and PHY address.\<close>

definition scan :: "string \<Rightarrow> (int \<times> string \<times> nat) list" where
  "scan bus = map (\<lambda>i. (int i, bus, i)) [0..<32]"

definition candidates :: "link_board \<Rightarrow> string \<Rightarrow> (int \<times> string \<times> nat) list" where
  "candidates B dv =
     (case phy_info B of
        Some ports \<Rightarrow>
          (let known = concat (map (\<lambda>i. case ports ! i of Some a \<Rightarrow> [(int i, dv, a)] | None \<Rightarrow> []) [0..<length ports])
           in if known = [] then scan dv else known)
      | None \<Rightarrow>
          if two_buses B then
            concat (map (\<lambda>b. map (\<lambda>i. (int (b * 32 + i), if b = 0 then ''IPQ MDIO0'' else ''IPQ MDIO1'', i)) [0..<32]) [0..<2])
          else scan dv)"

fun first_link :: "link_board \<Rightarrow> (int \<times> string \<times> nat) list \<Rightarrow> link_state \<Rightarrow> int \<times> link_state" where
  "first_link B [] s = (- 1, s)"
| "first_link B ((port, bus, phy) # cs) s =
     (let (up, s) = read_phy_link B bus phy s in if up then (port, s) else first_link B cs s)"

definition link_due :: "u32 \<Rightarrow> link_state \<Rightarrow> bool" where
  "link_due now s \<longleftrightarrow> \<not> now - link_last_check s < 100"

definition eth_check_link_change :: "link_board \<Rightarrow> u32 \<Rightarrow> link_state \<Rightarrow> bool \<times> link_state" where
  "eth_check_link_change B now s =
     (if \<not> link_due now s then (False, s)
      else
        let s = s\<lparr>link_last_check := now\<rparr>
        in case current_dev B of
             None \<Rightarrow> (False, s)
           | Some dv \<Rightarrow>
               let (port, s) = first_link B (candidates B dv) s
               in if \<not> link_first_check s then (False, s\<lparr>link_port_prev := port, link_first_check := True\<rparr>)
                  else if port = link_port_prev s then (False, s)
                  else
                    let s = s\<lparr>link_port_prev := port\<rparr>
                    in if port < 0 then (False, s) else (True, s\<lparr>eth_inits := eth_inits s + 1\<rparr>))"

section \<open>The Ethernet part of a turn of the poll function\<close>

text \<open>
  \<open>clk i\<close> is the \<open>i\<close>-th value of the timer in this turn and \<open>active\<close> says whether the device is active after the link was
  checked. The result says whether it was initialised again because it was not, and whether the ARP packet goes out
  (\<open>ppe\<close>: the builds that send it).
\<close>

definition poll_eth :: "link_board \<Rightarrow> bool \<Rightarrow> (nat \<Rightarrow> u32) \<Rightarrow> bool \<Rightarrow> u32 \<times> link_state \<Rightarrow> (bool \<times> bool) \<times> (u32 \<times> link_state)" where
  "poll_eth B ppe clk active x =
     (let (eth_retry_timer, s) = x; (changed, s) = eth_check_link_change B (clk 0) s
      in if \<not> active then
           if 2000 \<le> clk 1 - eth_retry_timer then ((True, ppe), (clk 2, s\<lparr>eth_inits := eth_inits s + 1\<rparr>))
           else ((False, False), (eth_retry_timer, s))
         else ((False, ppe \<and> changed), (clk 1, s)))"

definition htons :: "u16 \<Rightarrow> u8 list" where
  "htons w = [ucast (drop_bit 8 w), ucast w]"

text \<open>A request from the board's own address for host 254 of its network; \<open>mac\<close> and \<open>ip\<close> are in network order.\<close>

definition ppe_arp_kickstart :: "u8 list \<Rightarrow> u8 list \<Rightarrow> u8 list" where
  "ppe_arp_kickstart mac ip =
     (let arp = replicate 6 0xff @ mac @ htons 0x0806 @ htons 1 @ htons 0x0800 @ [6, 4] @ htons 1
                @ mac @ ip @ mac @ take 3 ip @ [0xFE]
      in arp @ replicate (60 - length arp) 0)"

section \<open>Frames\<close>

text \<open>
  A chain of lwIP buffers is the list of their contents. A frame is sent from its only buffer, or copied together when it
  fits a packet; the result is the frame that is sent, or \<open>None\<close> for \<^verbatim>\<open>ERR_BUF\<close>.
\<close>

abbreviation PKTSIZE :: nat where "PKTSIZE \<equiv> 2048"

fun gather :: "'a list \<Rightarrow> 'a list list \<Rightarrow> 'a list option" where
  "gather out [] = Some out"
| "gather out (q # qs) = (if PKTSIZE < length out + length q then None else gather (out @ q) qs)"

definition ethernetif_linkoutput :: "u8 list list \<Rightarrow> u8 list option" where
  "ethernetif_linkoutput p = (if length p = 1 \<and> length (hd p) \<le> PKTSIZE then Some (hd p) else gather [] p)"

text \<open>
  \<open>pool\<close> is \<^verbatim>\<open>pbuf_alloc\<close>: the sizes of the buffers of a chain; \<open>old n\<close> is what a buffer of \<open>n\<close> bytes holds before the frame is
  copied into it.
\<close>

fun fill :: "(nat \<Rightarrow> 'a list) \<Rightarrow> 'a list \<Rightarrow> nat \<Rightarrow> nat list \<Rightarrow> 'a list list" where
  "fill old pkt offset [] = []"
| "fill old pkt offset (n # ns) =
     (let copy_len = (if length pkt < offset + n then length pkt - offset else n)
      in (take copy_len (drop offset pkt) @ drop copy_len (old n)) # fill old pkt (offset + copy_len) ns)"

definition ethernetif_input :: "(nat \<Rightarrow> nat list option) \<Rightarrow> (nat \<Rightarrow> u8 list) \<Rightarrow> u8 list \<Rightarrow> u8 list list option" where
  "ethernetif_input pool old pkt =
     (if pkt = [] \<or> PKTSIZE < length pkt then None else map_option (fill old pkt 0) (pool (length pkt)))"

definition failsafe_netif_input :: "bool \<Rightarrow> (nat \<Rightarrow> nat list option) \<Rightarrow> (nat \<Rightarrow> u8 list) \<Rightarrow> u8 list \<Rightarrow> u8 list list option" where
  "failsafe_netif_input started pool old pkt = (if started then ethernetif_input pool old pkt else None)"

end
