(* ===== verification/EthernetProps.thy ===== *)
theory EthernetProps
  imports Ethernet
begin

text \<open>
  Link detection over whole runs of the poll function, and the way of a frame through the port of lwIP.
\<close>

section \<open>Link detection\<close>

text \<open>
  What a run shall do: the port found at each check that was due, and the number of times it changed to another port
  that is linked.
\<close>

fun detections :: "link_board \<Rightarrow> u32 list \<Rightarrow> link_state \<Rightarrow> int list" where
  "detections B [] s = []"
| "detections B (now # ts) s =
     (let s' = snd (eth_check_link_change B now s)
      in case current_dev B of
           Some dv \<Rightarrow> if link_due now s then fst (first_link B (candidates B dv) s) # detections B ts s' else detections B ts s'
         | None \<Rightarrow> detections B ts s')"

fun changes :: "int list \<Rightarrow> nat" where
  "changes (p # q # ps) = (if q \<noteq> p \<and> 0 \<le> q then 1 else 0) + changes (q # ps)"
| "changes _ = 0"

definition link_run :: "link_board \<Rightarrow> u32 list \<Rightarrow> link_state \<Rightarrow> link_state" where
  "link_run B = fold (\<lambda>now s. snd (eth_check_link_change B now s))"

definition known_port :: "link_state \<Rightarrow> int list" where
  "known_port s = (if link_first_check s then [link_port_prev s] else [])"

definition same_link :: "link_state \<Rightarrow> link_state \<Rightarrow> bool" where
  "same_link s s' \<longleftrightarrow> link_last_check s' = link_last_check s \<and> link_first_check s' = link_first_check s
     \<and> link_port_prev s' = link_port_prev s \<and> eth_inits s' = eth_inits s"

lemma same_link_trans: "same_link s s' \<Longrightarrow> same_link s' s'' \<Longrightarrow> same_link s s''"
  by (simp add: same_link_def)

lemma read_phy_same: "same_link s (snd (read_phy_link B bus phy s))"
  by (simp add: read_phy_link_def miiphy_read_def same_link_def Let_def split: option.split)

lemma first_link_same: "same_link s (snd (first_link B cs s))"
proof (induction B cs s rule: first_link.induct)
  case (2 B port bus phy cs s)
  then show ?case using read_phy_same [of s B bus phy] by (auto simp: Let_def split: prod.split intro: same_link_trans)
qed (simp add: same_link_def)

text \<open>The reads do not depend on the time of the check.\<close>

lemma read_phy_last:
  "read_phy_link B bus phy (s\<lparr>link_last_check := t\<rparr>) = map_prod id (\<lambda>s. s\<lparr>link_last_check := t\<rparr>) (read_phy_link B bus phy s)"
  by (simp add: read_phy_link_def miiphy_read_def Let_def split: option.split)

lemma first_link_last:
  "first_link B cs (s\<lparr>link_last_check := t\<rparr>) = map_prod id (\<lambda>s. s\<lparr>link_last_check := t\<rparr>) (first_link B cs s)"
  by (induction B cs s rule: first_link.induct) (simp_all add: read_phy_last Let_def split: prod.split)

lemma check_idle:
  "\<not> link_due now s \<or> current_dev B = None \<Longrightarrow> s' = snd (eth_check_link_change B now s)
    \<Longrightarrow> known_port s' = known_port s \<and> eth_inits s' = eth_inits s"
  by (auto simp: eth_check_link_change_def Let_def known_port_def)

lemma check_port:
  assumes "link_due now s" and "current_dev B = Some dv"
  defines "s' \<equiv> snd (eth_check_link_change B now s)" and "port \<equiv> fst (first_link B (candidates B dv) s)"
  shows "known_port s' = [port] \<and> eth_inits s' = eth_inits s + changes (known_port s @ [port])"
proof -
  obtain q where f: "first_link B (candidates B dv) s = (port, q)" by (auto simp: port_def prod_eq_iff)
  then have "first_link B (candidates B dv) (s\<lparr>link_last_check := now\<rparr>) = (port, q\<lparr>link_last_check := now\<rparr>)"
    by (simp add: first_link_last)
  moreover have "same_link s q" using f first_link_same by (metis snd_conv)
  ultimately show ?thesis
    using assms(1,2) by (simp add: s'_def eth_check_link_change_def Let_def known_port_def same_link_def)
qed

lemma changes_append: "changes (xs @ p # ys) = changes (xs @ [p]) + changes (p # ys)"
  by (induction xs rule: changes.induct) (cases ys, simp_all)

text \<open>
  C31: Over any run of the poll function the Ethernet device is initialised again exactly as often as the linked port, as found
  by the checks that were at least 100 ms apart, changed to another linked port: never at the first check, never when
  the link is only lost, and again when it comes back.
\<close>

theorem link_checks_follow_port:
  "eth_inits (link_run B ts s) = eth_inits s + changes (known_port s @ detections B ts s)"
proof (induction ts arbitrary: s)
  case Nil
  show ?case by (simp add: link_run_def known_port_def)
next
  case (Cons now ts)
  define s' where "s' = snd (eth_check_link_change B now s)"
  have run: "link_run B (now # ts) s = link_run B ts s'" by (simp add: link_run_def s'_def)
  show ?case
  proof (cases "link_due now s \<and> current_dev B \<noteq> None")
    case True
    then obtain dv where dv: "current_dev B = Some dv" "link_due now s" by blast
    define port where "port = fst (first_link B (candidates B dv) s)"
    note c = check_port [OF dv(2,1), folded s'_def port_def]
    have "detections B (now # ts) s = port # detections B ts s'" using dv by (simp add: Let_def s'_def port_def)
    then have "changes (known_port s @ detections B (now # ts) s) = changes (known_port s @ [port]) + changes (port # detections B ts s')"
      by (simp only: changes_append [of "known_port s" port "detections B ts s'"])
    then show ?thesis using c Cons.IH [of s'] run by simp
  next
    case False
    then have "detections B (now # ts) s = detections B ts s'" by (auto simp: Let_def s'_def split: option.split)
    moreover have "known_port s' = known_port s \<and> eth_inits s' = eth_inits s" using check_idle [OF _ s'_def] False by blast
    ultimately show ?thesis using Cons.IH [of s'] run by simp
  qed
qed

section \<open>Frames\<close>

lemma gather_concat: "gather out qs = (if qs \<noteq> [] \<and> PKTSIZE < length (out @ concat qs) then None else Some (out @ concat qs))"
proof (induction out qs rule: gather.induct)
  case (2 out q qs)
  then show ?case by (cases qs) (auto split: if_splits)
qed simp

lemma fill_concat:
  assumes "offset + sum_list ns = length pkt" and "\<And>n. length (old n) = n"
  shows "concat (fill old pkt offset ns) = drop offset pkt"
  using assms
proof (induction old pkt offset ns rule: fill.induct)
  case (2 old pkt offset n ns)
  have "\<not> length pkt < offset + n" using "2.prems"(1) by simp
  then have "fill old pkt offset (n # ns) = take n (drop offset pkt) # fill old pkt (offset + n) ns"
    using "2.prems"(2) [of n] by (simp add: Let_def)
  moreover have "concat (fill old pkt (offset + n) ns) = drop n (drop offset pkt)"
    using "2.IH" [of n] "2.prems" \<open>\<not> length pkt < offset + n\<close> by (simp add: add.commute)
  ultimately show ?case by (simp del: drop_drop)
qed simp

lemma linkoutput_concat:
  assumes "p \<noteq> []"
  shows "ethernetif_linkoutput p = (if length (concat p) \<le> PKTSIZE then Some (concat p) else None)"
  using assms by (cases p) (auto simp: ethernetif_linkoutput_def gather_concat)

text \<open>
  The port of lwIP neither loses nor changes bytes: a received frame of at most 2048 bytes is handed to lwIP in buffers
  whose contents are the frame, however the pool cuts it, and a chain of buffers is sent as exactly its contents,
  or not at all when they are longer than a packet.
\<close>

theorem frames_pass_unchanged:
  assumes pool: "pool (length pkt) = Some ns" "sum_list ns = length pkt" and old: "\<And>n. length (old n) = n"
    and len: "pkt \<noteq> []" "length pkt \<le> PKTSIZE" and p: "p \<noteq> []"
  shows "map_option concat (failsafe_netif_input True pool old pkt) = Some pkt
    \<and> Option.bind (failsafe_netif_input True pool old pkt) ethernetif_linkoutput = Some pkt
    \<and> ethernetif_linkoutput p = (if length (concat p) \<le> PKTSIZE then Some (concat p) else None)"
proof -
  have i: "failsafe_netif_input True pool old pkt = Some (fill old pkt 0 ns)"
    using pool len by (simp add: failsafe_netif_input_def ethernetif_input_def)
  have c: "concat (fill old pkt 0 ns) = pkt" using fill_concat [of 0 ns pkt old] pool(2) old by simp
  moreover have "fill old pkt 0 ns \<noteq> []" using c len(1) by auto
  ultimately show ?thesis using i len(2) linkoutput_concat [OF p] by (simp add: linkoutput_concat)
qed

theorem frames_pass_unchanged_witness:
  "map_option concat (failsafe_netif_input True (\<lambda>n. Some [n - 2, 2]) (\<lambda>n. replicate n 0) [1, 2, 3]) = Some [1, 2, 3 :: u8]
   \<and> Option.bind (failsafe_netif_input True (\<lambda>n. Some [n - 2, 2]) (\<lambda>n. replicate n 0) [1, 2, 3]) ethernetif_linkoutput = Some [1, 2, 3]
   \<and> ethernetif_linkoutput [[7]] = Some [7 :: u8]"
  using frames_pass_unchanged [of "\<lambda>n. Some [n - 2, 2]" "[1, 2, 3 :: u8]" "[1, 2]" "\<lambda>n. replicate n 0" "[[7 :: u8]]"] by simp

end
