(* ===== verification/Ethaddr.thy ===== *)
theory Ethaddr
  imports MacArtProps
begin

text \<open>
  The addresses of the wired interfaces at boot, \<^verbatim>\<open>board/qca/arm/common/ethaddr.c\<close>: they are read from the ART
  partition and put into the environment, from where the network stack and the device tree of the system take them.
  The flash is the one of \<open>MacArt\<close>. The builds are those without \<^verbatim>\<open>CONFIG_IPQ_TINY_SPI_NOR\<close>, where SPI NOR is read
  through the NAND layer. \<open>uninit\<close> is what the buffer of the caller holds before.
\<close>

section \<open>Reading and publishing the addresses\<close>

definition get_eth_mac_address :: "art_board \<Rightarrow> u8 list \<Rightarrow> nat \<Rightarrow> art \<Rightarrow> (errno + u8 list) \<times> art" where
  "get_eth_mac_address bd uninit no_of_macs s =
     (if smem_flash_type bd \<noteq> SMEM_BOOT_MMC_FLASH then
        if smem_flash_type bd \<notin> {SMEM_BOOT_SPI_FLASH, SMEM_BOOT_NAND_FLASH, SMEM_BOOT_QSPI_NAND_FLASH} then (Inl EINVAL, s)
        else (case smem_art_start bd of
                None \<Rightarrow> (Inl ENOENT, s)
              | Some start_blocks \<Rightarrow>
                  let (ok, s) = drv bd s
                  in (if ok then Inr (cells_read (cells s) (flash_block_size bd * start_blocks) (6 * no_of_macs)) else Inl EIO, s))
      else if mmc_build bd then
        (case (mmc_blksz bd, mmc_art_start bd) of
           (Some bs, Some start) \<Rightarrow>
             let (ok, s) = drv bd s
             in (if ok then Inr (take (6 * no_of_macs) (cells_read (cells s) (start * bs) bs)) else Inl EDRIVER, s)
         | _ \<Rightarrow> (Inl EDRIVER, s))
      else (Inr uninit, s))"

definition fmt_mac :: "u8 list \<Rightarrow> string" where
  "fmt_mac m = fmt_hex (unat (m ! 0)) @ concat (map (\<lambda>j. CHR '':'' # fmt_hex (unat (m ! j))) [1..<6])"

definition eth_var :: "nat \<Rightarrow> string" where
  "eth_var i = (if i = 0 then ''ethaddr'' else ''eth'' @ fmt_dec i @ ''addr'')"

definition publish :: "u8 list \<Rightarrow> nat \<Rightarrow> (string \<rightharpoonup> string) \<Rightarrow> (string \<rightharpoonup> string)" where
  "publish enetaddr i e =
     (let mac_addr = take 6 (drop (i * 6) enetaddr)
      in if \<not> is_valid_ethaddr mac_addr then e else e(eth_var i \<mapsto> fmt_mac mac_addr))"

definition set_ethmac_addr :: "art_board \<Rightarrow> u8 list \<Rightarrow> art \<Rightarrow> (string \<rightharpoonup> string) \<Rightarrow> (string \<rightharpoonup> string)" where
  "set_ethmac_addr bd uninit s e =
     (case fst (get_eth_mac_address bd uninit (no_macs bd) s) of
        Inl _ \<Rightarrow> e
      | Inr enetaddr \<Rightarrow> fold (publish enetaddr) [0..<no_macs bd] e)"

section \<open>Text of an address\<close>

lemma strtoul_hex_sep:
  assumes "\<not> isxdigit c" and "c \<noteq> CHR ''x''"
  shows "simple_strtoul (fmt_hex (unat w) @ c # r) 16 = (w, c # r)"
proof -
  have loop: "strto_loop 16 (0 :: u32) (fmt_hex (unat w) @ c # r) = (w, c # r)"
    using strto_loop_digits [of 16 "0 :: u32" "unat w" "c # r"] assms(1) by (simp add: fmt_hex_def)
  show ?thesis
  proof (cases "w = 0")
    case True
    have "digits_base 16 0 = ''0''" by (simp add: digits_base.simps [of 16 0] digit_char_def)
    then show ?thesis using True assms by (simp add: simple_strtoul_def fmt_hex_def strto_prefix_def)
  next
    case False
    then have "deref (fmt_hex (unat w) @ c # r) \<noteq> CHR ''0''"
      using deref_digits_base [of 16 "unat w" "c # r"] by (simp add: fmt_hex_def unat_eq_0)
    then show ?thesis using loop by (simp add: simple_strtoul_def strto_prefix_def)
  qed
qed

lemma parse_fmt_mac:
  assumes "length m = 6"
  shows "eth_parse_enetaddr (fmt_mac m) = m"
proof -
  have u: "unat (ucast x :: u32) = unat x" for x :: u8
  proof -
    have "unat x < 2 ^ 32" by (rule order_less_le_trans [OF unsigned_less]) simp
    then show ?thesis by (simp add: unsigned_ucast_eq take_bit_nat_eq_self)
  qed
  have sep: "simple_strtoul (fmt_hex (unat x) @ CHR '':'' # r) 16 = (ucast x, CHR '':'' # r)" for x :: u8 and r
    using strtoul_hex_sep [of "CHR '':''" "ucast x" r] by (simp add: u isxdigit_def isdigit_def)
  have last: "simple_strtoul (fmt_hex (unat x)) 16 = (ucast x, [])" for x :: u8
    using simple_strtoul_hex [of "ucast x"] by (simp add: u)
  have twice: "ucast (ucast x :: u32) = x" for x :: u8 by (rule bit_word_eqI) (simp add: bit_simps)
  have six: "eth_parse_loop 6 = eth_parse_loop (Suc (Suc (Suc (Suc (Suc (Suc 0))))))" by (simp add: eval_nat_numeral)
  obtain a b c d e f where "m = [a, b, c, d, e, f]"
    using assms by (auto simp: length_Suc_conv eval_nat_numeral)
  then show ?thesis
    by (simp add: eth_parse_enetaddr_def six fmt_mac_def upt_rec sep last twice)
qed

lemma take_cells: "n \<le> m \<Longrightarrow> take n (cells_read v a m) = cells_read v a n"
  using take_drop_cells_read [of 0 n m v a] by simp

lemma eth_var_eq:
  assumes "i < 2 ^ 32" and "j < 2 ^ 32"
  shows "eth_var i = eth_var j \<longleftrightarrow> i = j"
proof -
  have u: "unat (of_nat n :: u32) = n" if "n < 2 ^ 32" for n using that by (simp add: unsigned_of_nat take_bit_nat_eq_self)
  have "unat (fst (simple_strtoul (fmt_dec n) 10)) = n" if "n < 2 ^ 32" for n
    by (metis simple_strtoul_roundtrip u [OF that] fst_conv)
  from this [OF assms(1)] this [OF assms(2)] have "fmt_dec i = fmt_dec j \<longleftrightarrow> i = j" by metis
  moreover have "''ethaddr'' \<noteq> ''eth'' @ fmt_dec n @ ''addr''" for n by (auto simp: fmt_dec_def)
  ultimately show ?thesis by (auto simp: eth_var_def)
qed

lemma publish_all:
  assumes "n < 2 ^ 32" and "j < n"
  shows "fold (publish b) [0..<n] e (eth_var j)
    = (let m = take 6 (drop (j * 6) b) in if is_valid_ethaddr m then Some (fmt_mac m) else e (eth_var j))"
proof -
  have other: "publish b i e (eth_var j) = e (eth_var j)" if "i \<noteq> j" "i < n" for i e
    using that assms eth_var_eq [of i j] by (simp add: publish_def Let_def)
  have "fold (publish b) is e (eth_var j) = (if j \<in> set is then publish b j e (eth_var j) else e (eth_var j))"
    if "set is \<subseteq> {..<n}" "distinct is" for "is" e
    using that
  proof (induction "is" arbitrary: e)
    case (Cons i "is")
    then show ?case using other [of i e] by (cases "i = j") (auto simp: publish_def Let_def)
  qed simp
  then show ?thesis using assms(2) by (simp add: publish_def Let_def atLeast0LessThan)
qed

section \<open>A changed address is used at the next boot\<close>

text \<open>The boot code reads the bytes that the MAC functions see at the start of the partition.\<close>

lemma boot_read:
  assumes "get_eth_mac_address bd uninit n s = (Inr b, s')" and "smem_flash_type bd = SMEM_BOOT_MMC_FLASH \<Longrightarrow> mmc_build bd"
    and "\<And>bs. mmc_blksz bd = Some bs \<Longrightarrow> 6 * n \<le> bs"
  shows "b = cells_read (view bd s) 0 (6 * n)"
  using assms
  by (auto simp: get_eth_mac_address_def cells_read_origin origin_def on_mmc_def art_part_offset_def Let_def split_beta
      take_cells split: if_splits option.splits)



end
