(* ===== verification/Pages.thy ===== *)
theory Pages
  imports FlashRead
begin

text \<open>
  The pages of the web server that describe the flash and the PHYs: \<^verbatim>\<open>/partitions\<close> and the scan of the MDIO bus
  for \<^verbatim>\<open>/about\<close> in \<^verbatim>\<open>failsafe/failsafe_httpd.c\<close>, and \<^verbatim>\<open>smem_getpart_by_index\<close> of \<^verbatim>\<open>smem.c\<close>. A page is printed
  piece by piece into a static array: \<open>print_at\<close> is \<^verbatim>\<open>sprintf\<close> at the current position, which writes the text and a
  zero, and \<open>over\<close> records a write behind the array; \<open>print_fit\<close> is \<^verbatim>\<open>snprintf\<close> with the result compared
  to the room that was left.
\<close>

section \<open>Printing into an array\<close>

record page =
  body :: string
  over :: bool

abbreviation pos :: "page \<Rightarrow> nat" where "pos p \<equiv> length (body p)"

definition print_at :: "nat \<Rightarrow> string \<Rightarrow> page \<Rightarrow> page" where
  "print_at cap t p = \<lparr>body = body p @ t, over = (over p \<or> cap \<le> pos p + length t)\<rparr>"

definition print_fit :: "nat \<Rightarrow> string \<Rightarrow> page \<Rightarrow> page option" where
  "print_fit cap t p = (if cap - pos p \<le> length t then None else Some (p\<lparr>body := body p @ t\<rparr>))"

abbreviation PART_JSON_BUF_SIZE :: nat where "PART_JSON_BUF_SIZE \<equiv> 4096"
abbreviation ABOUT_BUF_SIZE :: nat where "ABOUT_BUF_SIZE \<equiv> 4096"

definition quote :: "string \<Rightarrow> string" where
  "quote s = CHR 0x22 # s @ [CHR 0x22]"

text \<open>\<^verbatim>\<open>"name":value\<close>\<close>

definition field :: "string \<Rightarrow> string \<Rightarrow> string" where
  "field name v = quote name @ CHR '':'' # v"

section \<open>Partitions of the table in shared memory\<close>

text \<open>Name (at most 15 characters), start in blocks and size in bytes.\<close>

definition smem_getpart_by_index :: "soc \<Rightarrow> nat \<Rightarrow> (string \<times> u32 \<times> u32) option" where
  "smem_getpart_by_index b index =
     (if unat (ptable_len b) \<le> index then None
      else
        let p = ptable b ! index; bsize = get_part_block_size b p
        in Some (cstr (take 15 (ptn_name p)), ptn_start p,
             if ptn_size p = - 1
             then ucast (mtd_size (nand_infos b (get_device_id_by_part b p)) - ucast (ptn_start p) * ucast bsize)
             else ptn_size p * bsize))"

definition nor_text :: "bool \<Rightarrow> string \<Rightarrow> u32 \<Rightarrow> u32 \<Rightarrow> string \<Rightarrow> string" where
  "nor_text comma name start sz pflash =
     (if comma then '','' else []) @ ''{'' @ field ''name'' (quote name) @ '','' @ field ''start'' (fmt_dec (unat start))
     @ '','' @ field ''size'' (fmt_dec (unat sz)) @ '','' @ field ''flash'' (quote pflash) @ ''}''"

definition part_flash :: "soc \<Rightarrow> int \<Rightarrow> string \<Rightarrow> string" where
  "part_flash b flash_type name =
     (if is_nand_type flash_type \<or> get_which_flash_param b name \<noteq> 0 then ''nand'' else ''nor'')"

fun smem_lines :: "soc \<Rightarrow> int \<Rightarrow> nat list \<Rightarrow> nat \<times> page \<Rightarrow> nat \<times> page" where
  "smem_lines b flash_type [] (count, p) = (count, p)"
| "smem_lines b flash_type (i # is) (count, p) =
     (if PART_JSON_BUF_SIZE - 200 \<le> pos p then (count, p)
      else case smem_getpart_by_index b i of
             None \<Rightarrow> smem_lines b flash_type is (count, p)
           | Some (name, start, sz) \<Rightarrow>
               smem_lines b flash_type is (count + 1,
                 print_at PART_JSON_BUF_SIZE (nor_text (0 < count) name (start * fl_block_size b) sz (part_flash b flash_type name)) p))"

section \<open>Partitions of the eMMC\<close>

definition emmc_text :: "bool \<Rightarrow> string \<Rightarrow> u64 \<Rightarrow> u64 \<Rightarrow> u32 \<Rightarrow> string" where
  "emmc_text comma name start n bs =
     (if comma then '','' else []) @ ''{'' @ field ''name'' (quote name) @ '','' @ field ''start'' (fmt_dec (unat (start * ucast bs)))
     @ '','' @ field ''size'' (fmt_dec (unat (n * ucast bs))) @ '','' @ field ''flash'' (quote ''emmc'')
     @ '','' @ field ''blk_start'' (fmt_dec (unat start)) @ '','' @ field ''blk_size'' (fmt_dec (unat n))
     @ '','' @ field ''blksz'' (fmt_dec (unat bs)) @ ''}''"

fun gpt_lines :: "blk_dev \<Rightarrow> nat list \<Rightarrow> nat \<times> page \<Rightarrow> nat \<times> page" where
  "gpt_lines d [] (count, p) = (count, p)"
| "gpt_lines d (i # is) (count, p) =
     (if PART_JSON_BUF_SIZE - 340 \<le> pos p then (count, p)
      else case get_partition_info_efi d i of
             None \<Rightarrow> gpt_lines d is (count, p)
           | Some g \<Rightarrow>
               (case print_fit PART_JSON_BUF_SIZE
                       (emmc_text True (cstr (gpt_name g)) (ucast (gpt_start g)) (ucast (gpt_sectors g)) (dev_blksz d)) p of
                  None \<Rightarrow> (count, p)
                | Some p \<Rightarrow> gpt_lines d is (count + 1, p)))"

definition append_emmc_gpt_json :: "blk_dev \<Rightarrow> nat \<times> page \<Rightarrow> nat \<times> page" where
  "append_emmc_gpt_json d x =
     (let (count, p) = x
      in if PART_JSON_BUF_SIZE - pos p < 340 then (count, p)
         else case print_fit PART_JSON_BUF_SIZE (emmc_text (0 < count) ''0:GPT'' 0 34 (dev_blksz d)) p of
                None \<Rightarrow> (count, p)
              | Some p \<Rightarrow>
                  let (count, p) = gpt_lines d [1..<get_partition_count_efi d + 1] (count + 1, p)
                  in if PART_JSON_BUF_SIZE - pos p < 340 then (count, p)
                     else case print_fit PART_JSON_BUF_SIZE
                                 (emmc_text True ''0:GPTBACKUP'' (ucast (dev_lba d - 33)) 33 (dev_blksz d)) p of
                            None \<Rightarrow> (count, p)
                          | Some p \<Rightarrow> (count + 1, p))"

section \<open>The page\<close>

text \<open>
  \<open>max_nand\<close> is \<^verbatim>\<open>CONFIG_SYS_MAX_NAND_DEVICE\<close>, \<open>ram_available\<close> the room for uploads. The sizes are the ones of the first NAND
  chip that is there.
\<close>

definition fmt_bool :: "bool \<Rightarrow> string" where
  "fmt_bool v = (if v then ''true'' else ''false'')"

definition nand_raw_size :: "mtd_info \<Rightarrow> u64" where
  "nand_raw_size m = mtd_size m div ucast (mtd_writesize m) * ucast (mtd_writesize m + mtd_oobsize m)"

definition summary_text :: "soc \<Rightarrow> nat \<Rightarrow> u32 \<Rightarrow> blk_dev option \<Rightarrow> string" where
  "summary_text b max_nand ram_available blk =
     (let on_spi = (fl_type b = SMEM_BOOT_SPI_FLASH); n0 = nand_infos b 0; n1 = nand_infos b 1; two = 1 < max_nand;
          nsize = (if mtd_size n0 > 0 then mtd_size n0 else if two then mtd_size n1 else 0);
          rsize = (if mtd_size n0 > 0 \<and> mtd_writesize n0 > 0 then nand_raw_size n0
                      else if two \<and> mtd_size n1 > 0 \<and> mtd_writesize n1 > 0 then nand_raw_size n1 else 0)
      in ''],'' @ field ''has_spi'' (fmt_bool on_spi) @ '','' @ field ''spi_size'' (fmt_dec (unat (if on_spi then spi_chip_size b else 0)))
         @ '','' @ field ''has_nand'' (fmt_bool (mtd_size n0 > 0 \<or> two \<and> mtd_size n1 > 0))
         @ '','' @ field ''nand_size'' (fmt_dec (unat (ucast nsize :: u32)))
         @ '','' @ field ''nand_raw_size'' (fmt_dec (unat (ucast rsize :: u32)))
         @ '','' @ field ''ram_available'' (fmt_dec (unat ram_available))
         @ '','' @ field ''has_emmc'' (fmt_bool (blk \<noteq> None))
         @ '','' @ field ''emmc_size'' (fmt_dec (unat (case blk of Some d \<Rightarrow> ucast (dev_lba d) * ucast (dev_blksz d) | None \<Rightarrow> (0 :: u64))))
         @ '','' @ field ''nand_type'' (quote (if mtd_size n0 > 0 then ''parallel'' else if two \<and> mtd_size n1 > 0 then ''spi'' else ''parallel''))
         @ ''}'')"

definition page_header :: "nat \<Rightarrow> string" where
  "page_header n = ''HTTP/1.0 200 OK'' @ crlf @ ''Content-Type: application/json'' @ crlf
     @ ''Content-Length: '' @ fmt_dec n @ crlf @ ''Connection: close'' @ crlf2"

definition too_large :: string where
  "too_large = ''HTTP/1.0 500 Internal Server Error'' @ crlf @ ''Connection: close'' @ crlf2 @ ''partitions too large''"

text \<open>Whether the board has an eMMC beside its NOR.\<close>

definition emmc_second :: "soc \<Rightarrow> int \<Rightarrow> bool" where
  "emmc_second b flash_type \<longleftrightarrow> (fl_type b = SMEM_BOOT_SPI_FLASH \<or> flash_type = SMEM_BOOT_NORPLUSEMMC)
     \<and> (fl_secondary b = SMEM_BOOT_MMC_FLASH \<or> fst (rootfs_entry b) = BAD_OFFSET \<or> flash_type = SMEM_BOOT_NORPLUSEMMC)"

definition page_flash_type :: "soc \<Rightarrow> int" where
  "page_flash_type b = (case get_current_flash_type b of Some t \<Rightarrow> t | None \<Rightarrow> fl_type b)"

text \<open>The list, and the eMMC if it was looked at.\<close>

definition part_list :: "soc \<Rightarrow> blk_dev option \<times> page" where
  "part_list b =
     (let flash_type = page_flash_type b;
          p = print_at PART_JSON_BUF_SIZE (''{'' @ quote ''parts'' @ '':['') \<lparr>body = [], over = False\<rparr>;
          x = (if flash_type = SMEM_BOOT_MMC_FLASH then (0, p) else smem_lines b flash_type [0..<nat (sint (ptable_len b))] (0, p));
          blk = (if flash_type = SMEM_BOOT_MMC_FLASH \<or> emmc_second b flash_type then mmc_blk b else None)
      in (blk, snd (case blk of Some d \<Rightarrow> append_emmc_gpt_json d x | None \<Rightarrow> x)))"

text \<open>What is sent, and whether the array was overrun.\<close>

definition httpd_handle_partitions :: "soc \<Rightarrow> nat \<Rightarrow> u32 \<Rightarrow> string \<times> bool" where
  "httpd_handle_partitions b max_nand ram_available =
     (let (blk, p) = part_list b
      in case (if pos p < PART_JSON_BUF_SIZE - 320 then Some (print_at PART_JSON_BUF_SIZE (summary_text b max_nand ram_available blk) p)
               else if pos p \<le> PART_JSON_BUF_SIZE - 3 then Some (print_at PART_JSON_BUF_SIZE '']}'' p)
               else None) of
           None \<Rightarrow> (too_large, over p)
         | Some p \<Rightarrow>
             let hdr = page_header (pos p)
             in if PART_JSON_BUF_SIZE < length hdr + pos p then (too_large, over p)
                else (hdr @ body p, over p \<or> 128 \<le> length hdr))"

end
