(* ===== verification/PagesProps.thy ===== *)
theory PagesProps
  imports Pages SmemProofs Backup
begin

text \<open>
  The page of partitions: it never overruns its array, lists every partition when there is room, and what it
  lists can be downloaded in full.
\<close>

section \<open>What the page shall list\<close>

record row =
  r_name :: string
  r_flash :: string
  r_size :: u64
  r_text :: string

definition table_row :: "soc \<Rightarrow> smem_ptn \<Rightarrow> row" where
  "table_row b p =
     (let name = cstr (take 15 (ptn_name p)); bsize = get_part_block_size b p; flash = part_flash b (page_flash_type b) name;
          sz = (if ptn_size p = - 1
                then ucast (mtd_size (nand_infos b (get_device_id_by_part b p)) - ucast (ptn_start p) * ucast bsize)
                else ptn_size p * bsize)
      in \<lparr>r_name = name, r_flash = flash, r_size = ucast sz, r_text = nor_text False name (ptn_start p * fl_block_size b) sz flash\<rparr>)"

definition emmc_row :: "blk_dev \<Rightarrow> string \<Rightarrow> u64 \<Rightarrow> u64 \<Rightarrow> row" where
  "emmc_row d name start n = \<lparr>r_name = name, r_flash = ''emmc'', r_size = n * ucast (dev_blksz d),
     r_text = emmc_text False name start n (dev_blksz d)\<rparr>"

definition gpt_row :: "blk_dev \<Rightarrow> gpt_part \<Rightarrow> row" where
  "gpt_row d g = emmc_row d (cstr (gpt_name g)) (ucast (gpt_start g)) (ucast (gpt_sectors g))"

definition gpt_used :: "blk_dev \<Rightarrow> gpt_part list" where
  "gpt_used d = (case gpt_table d of None \<Rightarrow> [] | Some es \<Rightarrow> map the (filter (\<lambda>e. e \<noteq> None) es))"

definition emmc_rows :: "blk_dev \<Rightarrow> row list" where
  "emmc_rows d = emmc_row d ''0:GPT'' 0 34 # map (gpt_row d) (gpt_used d) @ [emmc_row d ''0:GPTBACKUP'' (ucast (dev_lba d - 33)) 33]"

definition listed_blk :: "soc \<Rightarrow> blk_dev option" where
  "listed_blk b = (if page_flash_type b = SMEM_BOOT_MMC_FLASH \<or> emmc_second b (page_flash_type b) then mmc_blk b else None)"

definition table_rows :: "soc \<Rightarrow> row list" where
  "table_rows b = (if page_flash_type b = SMEM_BOOT_MMC_FLASH then [] else map (table_row b) (ptable b))"

definition rows :: "soc \<Rightarrow> row list" where
  "rows b = table_rows b @ (case listed_blk b of None \<Rightarrow> [] | Some d \<Rightarrow> emmc_rows d)"

text \<open>Texts with commas between them, and before the first if \<open>c\<close>.\<close>

fun sep :: "bool \<Rightarrow> string list \<Rightarrow> string" where
  "sep c [] = []"
| "sep c (t # ts) = (if c then '','' else []) @ t @ sep True ts"

lemma sep_append: "sep c (ts @ us) = sep c ts @ sep (c \<or> ts \<noteq> []) us"
  by (induction c ts rule: sep.induct) auto

lemma nor_text_sep: "nor_text c n s z f = (if c then '','' else []) @ nor_text False n s z f"
  by (simp add: nor_text_def)

lemma emmc_text_sep: "emmc_text c n s z f = (if c then '','' else []) @ emmc_text False n s z f"
  by (simp add: emmc_text_def)

section \<open>Room\<close>

lemma fmt_dec_u32: "length (fmt_dec (unat (w :: u32))) \<le> 10"
proof -
  have "unat w < 10 ^ Suc 9" by (rule order_less_le_trans [OF unsigned_less]) simp
  from length_digits_base [OF _ this] show ?thesis by (simp add: fmt_dec_def)
qed

lemma fmt_dec_u64: "length (fmt_dec (unat (w :: u64))) \<le> 20"
proof -
  have "unat w < 2 ^ LENGTH(64)" by (rule unsigned_less)
  then have "unat w < 10 ^ Suc 19" by simp
  from length_digits_base [OF _ this] show ?thesis by (simp add: fmt_dec_def)
qed

lemma length_nor_text: "length name \<le> 15 \<Longrightarrow> length (nor_text c name start sz (part_flash b t n)) < 200"
  using fmt_dec_u32 [of start] fmt_dec_u32 [of sz] by (simp add: nor_text_def field_def quote_def part_flash_def)

lemma length_append_le: "length xs \<le> m \<Longrightarrow> length ys \<le> n \<Longrightarrow> length (xs @ ys) \<le> m + n"
  by simp

lemma length_field_le: "length v \<le> n \<Longrightarrow> length (field name v) \<le> length name + 3 + n"
  by (simp add: field_def quote_def)

lemma length_summary: "length (summary_text b n r blk) < 320"
proof -
  have l: "length (fmt_bool v) \<le> 5" for v by (simp add: fmt_bool_def)
  have t: "length (quote (if c then ''parallel'' else if c' then ''spi'' else ''parallel'')) \<le> 10" for c c' by (simp add: quote_def)
  show ?thesis
    unfolding summary_text_def Let_def
    by (rule le_less_trans, (rule length_append_le length_field_le fmt_dec_u32 fmt_dec_u64 l t order_refl)+) simp
qed

lemma length_header: "n < 10 ^ 4 \<Longrightarrow> length (page_header n) \<le> 100"
  using length_digits_base [of 10 n 3] by (simp add: page_header_def fmt_dec_def)

definition sound :: "page \<Rightarrow> bool" where
  "sound p \<longleftrightarrow> \<not> over p \<and> pos p < PART_JSON_BUF_SIZE"

lemma sound_print: "sound p \<Longrightarrow> pos p + length t < PART_JSON_BUF_SIZE \<Longrightarrow> sound (print_at PART_JSON_BUF_SIZE t p)"
  by (simp add: sound_def print_at_def)

lemma sound_fit: "sound p \<Longrightarrow> print_fit PART_JSON_BUF_SIZE t p = Some q \<Longrightarrow> sound q"
  by (auto simp: sound_def print_fit_def split: if_splits)

lemma index_name: "smem_getpart_by_index b i = Some (name, start, sz) \<Longrightarrow> length name \<le> 15"
  using length_takeWhile_le [of _ "take 15 (ptn_name (ptable b ! i))"]
  by (auto simp: smem_getpart_by_index_def Let_def cstr_def intro: le_trans split: if_splits)

lemma sound_smem_lines: "sound (snd x) \<Longrightarrow> sound (snd (smem_lines b t is x))"
proof (induction b t "is" x rule: smem_lines.induct)
  case (2 b t i "is" count p)
  show ?case
  proof (cases "PART_JSON_BUF_SIZE - 200 \<le> pos p \<or> smem_getpart_by_index b i = None")
    case True
    then show ?thesis using 2 by auto
  next
    case False
    then obtain name start sz where g: "smem_getpart_by_index b i = Some (name, start, sz)" and r: "pos p < PART_JSON_BUF_SIZE - 200" by auto
    then show ?thesis
      using "2.IH"(2) [OF _ g refl refl] "2.prems" length_nor_text [OF index_name [OF g], of "0 < count" "start * fl_block_size b" sz b t name]
      by (simp add: sound_print)
  qed
qed simp

lemma sound_gpt_lines: "sound (snd x) \<Longrightarrow> sound (snd (gpt_lines d is x))"
  by (induction d "is" x rule: gpt_lines.induct) (auto dest: sound_fit split: option.split)

lemma sound_append:
  assumes "sound (snd x)"
  shows "sound (snd (append_emmc_gpt_json d x))"
proof (cases "print_fit PART_JSON_BUF_SIZE (emmc_text (0 < fst x) ''0:GPT'' 0 34 (dev_blksz d)) (snd x)")
  case None
  then show ?thesis using assms by (simp add: append_emmc_gpt_json_def split_beta)
next
  case (Some q)
  define y where "y = gpt_lines d [1..<get_partition_count_efi d + 1] (fst x + 1, q)"
  have "sound (snd y)" using sound_gpt_lines [of "(fst x + 1, q)"] sound_fit [OF assms Some] by (simp add: y_def)
  then have "sound r" if "print_fit PART_JSON_BUF_SIZE t (snd y) = Some r" for t r using that by (rule sound_fit)
  then show ?thesis
    using assms \<open>sound (snd y)\<close> unfolding append_emmc_gpt_json_def Let_def split_beta Some option.case y_def [symmetric]
    by (auto split: option.split)
qed

lemma sound_part_list: "sound (snd (part_list b))"
proof -
  have "sound (print_at PART_JSON_BUF_SIZE (''{'' @ quote ''parts'' @ '':['') \<lparr>body = [], over = False\<rparr>)" by (simp add: sound_def print_at_def quote_def)
  then show ?thesis by (auto simp: part_list_def Let_def split: option.split intro!: sound_append sound_smem_lines)
qed

lemma page_never_overrun: "\<not> snd (httpd_handle_partitions b n r)"
proof -
  obtain blk p where pl: "part_list b = (blk, p)" by (cases "part_list b")
  then have s: "sound p" using sound_part_list [of b] by simp
  have h: "length (page_header (pos q)) < 128" if "sound q" for q
    using length_header [of "pos q"] that by (simp add: sound_def)
  have "sound (print_at PART_JSON_BUF_SIZE (summary_text b n r blk) p)" if "pos p < PART_JSON_BUF_SIZE - 320"
    using that sound_print [OF s, of "summary_text b n r blk"] length_summary [of b n r blk] by simp
  moreover have "sound (print_at PART_JSON_BUF_SIZE '']}'' p)" if "pos p \<le> PART_JSON_BUF_SIZE - 3"
    using that sound_print [OF s, of "'']}''"] by simp
  ultimately show ?thesis using pl s h by (auto simp: httpd_handle_partitions_def Let_def sound_def not_le split: if_splits)
qed

section \<open>Contents\<close>

lemma print_at_short: "pos p + length t < PART_JSON_BUF_SIZE \<Longrightarrow> print_at PART_JSON_BUF_SIZE t p = p\<lparr>body := body p @ t\<rparr>"
  by (simp add: print_at_def)

lemma print_fit_short: "pos p + length t < PART_JSON_BUF_SIZE \<Longrightarrow> print_fit PART_JSON_BUF_SIZE t p = Some (p\<lparr>body := body p @ t\<rparr>)"
  by (simp add: print_fit_def)

lemma smem_lines_all:
  assumes "\<forall>i \<in> set is. i < unat (ptable_len b)"
    and "pos p + length (sep (0 < count) (map (\<lambda>i. r_text (table_row b (ptable b ! i))) is)) < PART_JSON_BUF_SIZE - 400"
  shows "smem_lines b (page_flash_type b) is (count, p)
    = (count + length is, p\<lparr>body := body p @ sep (0 < count) (map (\<lambda>i. r_text (table_row b (ptable b ! i))) is)\<rparr>)"
  using assms
proof (induction "is" arbitrary: count p)
  case (Cons i "is")
  define t where "t = (if 0 < count then '','' else []) @ r_text (table_row b (ptable b ! i))"
  have "smem_getpart_by_index b i \<noteq> None" using Cons.prems(1) by (simp add: smem_getpart_by_index_def Let_def)
  then obtain name start sz where g: "smem_getpart_by_index b i = Some (name, start, sz)" by auto
  then have t: "nor_text (0 < count) name (start * fl_block_size b) sz (part_flash b (page_flash_type b) name) = t"
    by (auto simp: t_def table_row_def smem_getpart_by_index_def Let_def nor_text_sep [of "0 < count"] split: if_splits)
  have "smem_lines b (page_flash_type b) (i # is) (count, p) = smem_lines b (page_flash_type b) is (count + 1, p\<lparr>body := body p @ t\<rparr>)"
    using Cons.prems(2) by (simp add: g t print_at_short t_def split: if_splits)
  then show ?case using Cons.IH [of "p\<lparr>body := body p @ t\<rparr>" "count + 1"] Cons.prems by (simp add: t_def split: if_splits)
qed simp

lemma gpt_lines_all:
  assumes "0 < count" and "pos p + length (sep True (map r_text (map (gpt_row d) gs))) < PART_JSON_BUF_SIZE - 400"
    and "map the (filter (\<lambda>e. e \<noteq> None) (map (get_partition_info_efi d) is)) = gs"
  shows "gpt_lines d is (count, p) = (count + length gs, p\<lparr>body := body p @ sep True (map r_text (map (gpt_row d) gs))\<rparr>)"
  using assms
proof (induction "is" arbitrary: count p gs)
  case (Cons i "is")
  show ?case
  proof (cases "get_partition_info_efi d i")
    case None
    then show ?thesis using Cons by simp
  next
    case (Some g)
    then obtain gs' where gs: "gs = g # gs'" "map the (filter (\<lambda>e. e \<noteq> None) (map (get_partition_info_efi d) is)) = gs'"
      using Cons.prems(3) by auto
    define t where "t = '','' @ r_text (gpt_row d g)"
    have t: "emmc_text True (cstr (gpt_name g)) (ucast (gpt_start g)) (ucast (gpt_sectors g)) (dev_blksz d) = t"
      by (simp add: t_def gpt_row_def emmc_row_def emmc_text_sep [of True])
    have "gpt_lines d (i # is) (count, p) = gpt_lines d is (count + 1, p\<lparr>body := body p @ t\<rparr>)"
      using Cons.prems(2) Some by (simp add: t print_fit_short gs(1) t_def)
    then show ?thesis using Cons.IH [of "count + 1" "p\<lparr>body := body p @ t\<rparr>" gs'] Cons.prems(2) gs by (simp add: t_def)
  qed
qed simp

lemma gpt_entries: "map the (filter (\<lambda>e. e \<noteq> None) (map (get_partition_info_efi d) [1..<get_partition_count_efi d + 1])) = gpt_used d"
proof (cases "gpt_table d")
  case None
  then show ?thesis by (simp add: gpt_used_def get_partition_count_efi_def)
next
  case (Some es)
  have "map (get_partition_info_efi d) [1..<length es + 1] = es"
    by (rule nth_equalityI) (simp_all add: get_partition_info_efi_def Some del: upt_Suc)
  then show ?thesis by (simp add: gpt_used_def get_partition_count_efi_def Some)
qed

lemma append_emmc_all:
  assumes "pos p + length (sep (0 < count) (map r_text (emmc_rows d))) < PART_JSON_BUF_SIZE - 400"
  shows "snd (append_emmc_gpt_json d (count, p)) = p\<lparr>body := body p @ sep (0 < count) (map r_text (emmc_rows d))\<rparr>"
proof -
  define g0 where "g0 = (if 0 < count then '','' else []) @ r_text (emmc_row d ''0:GPT'' 0 34)"
  define gl where "gl = sep True (map r_text (map (gpt_row d) (gpt_used d)))"
  define g1 where "g1 = '','' @ r_text (emmc_row d ''0:GPTBACKUP'' (ucast (dev_lba d - 33)) 33)"
  have all: "sep (0 < count) (map r_text (emmc_rows d)) = g0 @ gl @ g1"
    by (simp add: emmc_rows_def g0_def gl_def g1_def sep_append)
  have t: "emmc_text (0 < count) ''0:GPT'' 0 34 (dev_blksz d) = g0"
    "emmc_text True ''0:GPTBACKUP'' (ucast (dev_lba d - 33)) 33 (dev_blksz d) = g1"
    by (simp_all add: g0_def g1_def emmc_row_def emmc_text_sep [of "0 < count"] emmc_text_sep [of True])
  have len: "pos p + length g0 + length gl + length g1 < PART_JSON_BUF_SIZE - 400" using assms all by simp
  have lines: "gpt_lines d [1..<get_partition_count_efi d + 1] (count + 1, p\<lparr>body := body p @ g0\<rparr>)
    = (count + 1 + length (gpt_used d), p\<lparr>body := body p @ g0 @ gl\<rparr>)"
    using gpt_lines_all [of "count + 1" "p\<lparr>body := body p @ g0\<rparr>" d "gpt_used d", OF _ _ gpt_entries] len by (simp add: gl_def)
  show ?thesis
    unfolding append_emmc_gpt_json_def Let_def prod.case t using len lines
    by (simp add: print_fit_short all del: upt_Suc)
qed

lemma part_list_all:
  assumes "unat (ptable_len b) < 2 ^ 31" and "length (sep False (map r_text (rows b))) \<le> 3600"
  shows "part_list b = (listed_blk b, \<lparr>body = ''{'' @ quote ''parts'' @ '':['' @ sep False (map r_text (rows b)), over = False\<rparr>)"
proof -
  define p where "p = \<lparr>body = ''{'' @ quote ''parts'' @ '':['', over = False\<rparr>"
  have start: "print_at PART_JSON_BUF_SIZE (''{'' @ quote ''parts'' @ '':['') \<lparr>body = [], over = False\<rparr> = p"
    by (simp add: p_def print_at_def quote_def)
  have pos: "pos p = 10" by (simp add: p_def quote_def)
  have "sint (of_nat m :: u32) = int m" if "m < 2 ^ 31" for m using that by (simp add: signed_of_nat signed_take_bit_int_eq_self)
  from this [OF assms(1)] have "sint (ptable_len b) = int (unat (ptable_len b))" by simp
  then have idx: "[0..<nat (sint (ptable_len b))] = [0..<length (ptable b)]" by (simp add: ptable_def)
  have tab: "map (\<lambda>i. r_text (table_row b (ptable b ! i))) [0..<length (ptable b)] = map (r_text \<circ> table_row b) (ptable b)"
    by (rule nth_equalityI) simp_all
  define er where "er = (case listed_blk b of None \<Rightarrow> [] | Some d \<Rightarrow> emmc_rows d)"
  define tr where "tr = sep False (map r_text (table_rows b))"
  define k where "k = length (table_rows b)"
  have both: "sep False (map r_text (rows b)) = tr @ sep (0 < k) (map r_text er)"
    by (simp add: rows_def sep_append tr_def er_def k_def)
  define x where "x = (if page_flash_type b = SMEM_BOOT_MMC_FLASH then (0, p)
    else smem_lines b (page_flash_type b) [0..<nat (sint (ptable_len b))] (0, p))"
  have x: "x = (k, p\<lparr>body := body p @ tr\<rparr>)"
  proof (cases "page_flash_type b = SMEM_BOOT_MMC_FLASH")
    case False
    moreover have "\<forall>i \<in> set [0..<length (ptable b)]. i < unat (ptable_len b)" by (simp add: ptable_def)
    ultimately show ?thesis
      using smem_lines_all [of "[0..<length (ptable b)]" b p 0] assms(2) both pos
      by (simp add: x_def idx tab tr_def k_def table_rows_def o_def)
  qed (simp add: x_def tr_def k_def table_rows_def)
  have "snd (case listed_blk b of Some d \<Rightarrow> append_emmc_gpt_json d x | None \<Rightarrow> x) = p\<lparr>body := body p @ tr @ sep (0 < k) (map r_text er)\<rparr>"
  proof (cases "listed_blk b")
    case (Some d)
    then show ?thesis using append_emmc_all [of "p\<lparr>body := body p @ tr\<rparr>" k d] assms(2) both pos by (simp add: x er_def)
  qed (simp add: x er_def)
  then show ?thesis
    unfolding part_list_def Let_def start x_def [symmetric] listed_blk_def [symmetric] both by (simp add: p_def)
qed


section \<open>Downloads of what is listed\<close>

definition reserved :: "string set" where
  "reserved = {''nor_full'', ''nand_full'', ''0:GPT'', ''0:GPTBACKUP''}"

definition nand_there :: "soc \<Rightarrow> bool" where
  "nand_there b \<longleftrightarrow> is_nand_type (page_flash_type b) \<or> page_flash_type b = SMEM_BOOT_NORPLUSNAND
     \<or> is_nand_type (fl_type b) \<or> is_nand_type (fl_secondary b)"

text \<open>The used entries of a GPT come first and have different names.\<close>

definition gpt_ok :: "blk_dev \<Rightarrow> bool" where
  "gpt_ok d \<longleftrightarrow> (let gs = gpt_used d in
     (case gpt_table d of None \<Rightarrow> True | Some es \<Rightarrow> take (length gs) es = map Some gs)
     \<and> length gs < 127 \<and> distinct (map (\<lambda>g. cstr (gpt_name g)) gs) \<and> (\<forall>g \<in> set gs. cstr (gpt_name g) \<notin> reserved))"

definition board_ok :: "soc \<Rightarrow> bool" where
  "board_ok b \<longleftrightarrow> page_flash_type b \<in> {SMEM_BOOT_NOR_FLASH, SMEM_BOOT_NAND_FLASH, SMEM_BOOT_MMC_FLASH, SMEM_BOOT_SPI_FLASH,
       SMEM_BOOT_NORPLUSNAND, SMEM_BOOT_NORPLUSEMMC, SMEM_BOOT_QSPI_NAND_FLASH}
     \<and> names_ok (ptable b) \<and> (\<forall>p \<in> set (ptable b). cstr (ptn_name p) \<notin> reserved \<and> (part_which_flash p \<noteq> 0 \<longrightarrow> nand_there b))
     \<and> (\<forall>d. mmc_blk b = Some d \<longrightarrow> gpt_ok d)"

definition downloadable :: "soc \<Rightarrow> row \<Rightarrow> bool" where
  "downloadable b r \<longleftrightarrow> (\<exists>t. backup_flash_type (''flash='' @ r_flash r) = Some t \<and> flash_override_matches b (r_name r) t
     \<and> backup_flash_capacity (flash_info_of b) (r_name r) False t = r_size r)"

lemma flash_numbers:
  "backup_flash_type ''flash=nor'' = Some SMEM_BOOT_SPI_FLASH" "backup_flash_type ''flash=nand'' = Some SMEM_BOOT_NAND_FLASH"
  "backup_flash_type ''flash=emmc'' = Some SMEM_BOOT_MMC_FLASH"
proof -
  have f: "flash_field (''flash='' @ v) (''flash='' @ v) = Some (''flash='' @ v)" for v
    by (subst flash_field.simps) (simp add: strstr_find_sub)
  show "backup_flash_type ''flash=nor'' = Some SMEM_BOOT_SPI_FLASH" "backup_flash_type ''flash=nand'' = Some SMEM_BOOT_NAND_FLASH"
    "backup_flash_type ''flash=emmc'' = Some SMEM_BOOT_MMC_FLASH"
    using f [of "''nor''"] f [of "''nand''"] f [of "''emmc''"] by (simp_all add: backup_flash_type_def)
qed

lemma strcmp_reserved:
  "cstr name \<notin> reserved \<Longrightarrow> strcmp name ''nor_full'' \<noteq> 0 \<and> strcmp name ''nand_full'' \<noteq> 0 \<and> strcmp name ''0:GPT'' \<noteq> 0 \<and> strcmp name ''0:GPTBACKUP'' \<noteq> 0"
  by (auto simp: reserved_def strcmp_eq_0 cstr_def)

lemma short_name:
  assumes "length n = 16" and "NUL \<in> set n"
  shows "cstr (take 15 n) = cstr n"
proof (cases "NUL \<in> set (take 15 n)")
  case True
  then show ?thesis using cstr_append [OF True, of "drop 15 n"] by simp
next
  case False
  have "length (drop 15 n) = Suc 0" using assms(1) by simp
  then obtain c where c: "drop 15 n = [c]" by (metis length_0_conv length_Suc_conv)
  then have n: "n = take 15 n @ [c]" by (metis append_take_drop_id)
  then have "c = NUL" using assms(2) False by (metis Un_iff empty_iff insert_iff list.set(1,2) set_append)
  then have "cstr n = cstr (take 15 n)" using False by (subst n) (auto simp: cstr_def takeWhile_append2 takeWhile_tail)
  then show ?thesis ..
qed

text \<open>A row of the table stands for the entry that its name finds.\<close>

lemma table_row_found:
  assumes "board_ok b" and "p \<in> set (ptable b)"
  shows "r_name (table_row b p) = cstr (ptn_name p)" and "cstr (r_name (table_row b p)) \<notin> reserved"
    and "get_which_flash_param b (r_name (table_row b p)) = part_which_flash p"
    and "map_option snd (getpart_offset_size b (r_name (table_row b p))) = Some (ucast (r_size (table_row b p)))"
proof -
  have ok: "names_ok (ptable b)" and res: "cstr (ptn_name p) \<notin> reserved" using assms by (auto simp: board_ok_def)
  then have p: "length (ptn_name p) = 16" "NUL \<in> set (ptn_name p)" using assms(2) by (auto simp: names_ok_def)
  show name: "r_name (table_row b p) = cstr (ptn_name p)" by (simp add: table_row_def Let_def short_name [OF p])
  have idem: "cstr (cstr x) = cstr x" for x by (simp add: cstr_def)
  show "cstr (r_name (table_row b p)) \<notin> reserved" using res by (simp add: name idem)
  have "find (\<lambda>q. cstr (ptn_name q) = cstr (r_name (table_row b p))) (ptable b) = Some p"
    using ok assms(2) by (auto simp: name idem names_ok_def find_Some_iff in_set_conv_nth nth_eq_iff_index_eq distinct_conv_nth)
  then have f: "find_ptn (ptable b) (r_name (table_row b p)) = Some p"
    "get_which_flash_param b (r_name (table_row b p)) = part_which_flash p"
    using find_ptn_find [OF ok] which_loop_find [OF ok] by (simp_all add: get_which_flash_param_def)
  then show "get_which_flash_param b (r_name (table_row b p)) = part_which_flash p" by simp
  have "ucast (ucast w :: u64) = w" for w :: u32 by (rule bit_word_eqI) (simp add: bit_simps)
  then show "map_option snd (getpart_offset_size b (r_name (table_row b p))) = Some (ucast (r_size (table_row b p)))"
    using f(1) by (simp add: getpart_offset_size_def Let_def table_row_def)
qed

lemma table_row_downloadable:
  assumes "board_ok b" and "p \<in> set (ptable b)" and "page_flash_type b \<noteq> SMEM_BOOT_MMC_FLASH" and "r_size (table_row b p) \<noteq> 0"
  shows "downloadable b (table_row b p)"
proof -
  define r where "r = table_row b p"
  note f = table_row_found [OF assms(1,2), folded r_def]
  have "ucast (ucast (r_size r) :: u32) = r_size r"
    unfolding r_def table_row_def Let_def by (rule bit_word_eqI) (auto simp: bit_simps dest: bit_imp_le_length)
  then have part: "part_size (flash_info_of b) (r_name r) = Some (r_size r)"
    using f(4) assms(4) by (auto simp: part_size_def flash_info_of_def r_def [symmetric] split: option.splits)
  note nm = strcmp_reserved [OF f(2)]
  have fl: "r_flash r = (if is_nand_type (page_flash_type b) \<or> part_which_flash p \<noteq> 0 then ''nand'' else ''nor'')"
    using f(3) by (simp add: r_def table_row_def Let_def part_flash_def)
  have known: "page_flash_type b \<in> {SMEM_BOOT_NOR_FLASH, SMEM_BOOT_NAND_FLASH, SMEM_BOOT_SPI_FLASH, SMEM_BOOT_NORPLUSNAND, SMEM_BOOT_NORPLUSEMMC, SMEM_BOOT_QSPI_NAND_FLASH}"
    using assms(1,3) by (auto simp: board_ok_def)
  show ?thesis
  proof (cases "is_nand_type (page_flash_type b) \<or> part_which_flash p \<noteq> 0")
    case True
    then have "nand_there b" using assms(1,2) by (auto simp: board_ok_def nand_there_def)
    then have "flash_override_matches b (r_name r) SMEM_BOOT_NAND_FLASH"
      using True f(3) nm unfolding flash_override_matches_def page_flash_type_def [symmetric]
      by (auto simp: Let_def nand_there_def is_nand_type_def)
    moreover have "backup_flash_capacity (flash_info_of b) (r_name r) False SMEM_BOOT_NAND_FLASH = r_size r"
      using nm part by (simp add: backup_flash_capacity_def nand_capacity_def Let_def) (simp add: flash_info_of_def)
    ultimately show ?thesis using True fl flash_numbers(2) by (simp add: downloadable_def r_def [symmetric])
  next
    case False
    then have "flash_override_matches b (r_name r) SMEM_BOOT_SPI_FLASH"
      using known f(3) nm unfolding flash_override_matches_def page_flash_type_def [symmetric] by (auto simp: Let_def is_nand_type_def)
    moreover have "backup_flash_capacity (flash_info_of b) (r_name r) False SMEM_BOOT_SPI_FLASH = r_size r"
      using nm part by (simp add: backup_flash_capacity_def spi_capacity_def Let_def)
    ultimately show ?thesis using False fl flash_numbers(1) by (simp add: downloadable_def r_def [symmetric])
  qed
qed

text \<open>An entry of the GPT is found by its name.\<close>

lemma efi_name_loop_prefix:
  assumes "\<And>i. i < length gs \<Longrightarrow> get_partition_info_efi d (Suc i) = Some (gs ! i)" and "distinct (map (\<lambda>g. cstr (gpt_name g)) gs)"
    and "k < length gs" and "j \<le> k" and "length gs < m"
  shows "efi_name_loop d (cstr (gpt_name (gs ! k))) [Suc j..<m] = Some (gs ! k)"
  using assms(4)
proof (induction "k - j" arbitrary: j)
  case 0
  then have "j = k" "[Suc j..<m] = Suc j # [Suc (Suc j)..<m]" using assms(3,5) by (simp_all add: upt_conv_Cons)
  then show ?case using assms(1) [OF assms(3)] by (simp add: strcmp_eq_0 cstr_def)
next
  case (Suc n)
  then have j: "j < k" "j < length gs" using assms(3) by simp_all
  then have u: "[Suc j..<m] = Suc j # [Suc (Suc j)..<m]" using assms(5) by (simp add: upt_conv_Cons)
  have "cstr (gpt_name (gs ! j)) \<noteq> cstr (gpt_name (gs ! k))"
    using assms(2,3) j nth_eq_iff_index_eq [OF assms(2), of j k] by simp
  then have "strcmp (cstr (gpt_name (gs ! k))) (gpt_name (gs ! j)) \<noteq> 0" by (auto simp: strcmp_eq_0 cstr_def)
  then show ?case using Suc.hyps(1) [of "Suc j"] Suc.hyps(2) j assms(1) [OF j(2)] by (simp add: u)
qed

lemma gpt_by_name:
  assumes "gpt_ok d" and "g \<in> set (gpt_used d)"
  shows "get_partition_info_efi_by_name d (cstr (gpt_name g)) = Some g"
proof -
  obtain es where es: "gpt_table d = Some es" "take (length (gpt_used d)) es = map Some (gpt_used d)"
    using assms by (auto simp: gpt_ok_def gpt_used_def Let_def split: option.splits)
  have e: "get_partition_info_efi d (Suc i) = Some (gpt_used d ! i)" if "i < length (gpt_used d)" for i
  proof -
    have "length (gpt_used d) \<le> length es" using arg_cong [OF es(2), of length] by simp
    moreover have "es ! i = Some (gpt_used d ! i)" using arg_cong [OF es(2), of "\<lambda>xs. xs ! i"] that by simp
    ultimately show ?thesis using that es(1) by (simp add: get_partition_info_efi_def)
  qed
  obtain k where k: "k < length (gpt_used d)" "gpt_used d ! k = g" using assms(2) by (auto simp: in_set_conv_nth)
  show ?thesis
    using efi_name_loop_prefix [of "gpt_used d" d k 0 128, OF e] k assms(1)
    by (simp add: get_partition_info_efi_by_name_def gpt_ok_def Let_def)
qed

lemma emmc_rows_downloadable:
  assumes "board_ok b" and "listed_blk b = Some d" and "r \<in> set (emmc_rows d)"
  shows "downloadable b r"
proof -
  have blk: "mmc_blk b = Some d" and here: "page_flash_type b = SMEM_BOOT_MMC_FLASH \<or> emmc_second b (page_flash_type b)"
    using assms(2) by (auto simp: listed_blk_def split: if_splits)
  then have gok: "gpt_ok d" using assms(1) by (simp add: board_ok_def)
  have names: "strcmp ''0:GPT'' ''nor_full'' \<noteq> 0" "strcmp ''0:GPT'' ''nand_full'' \<noteq> 0" "strcmp ''0:GPT'' ''0:GPT'' = 0"
    "strcmp ''0:GPTBACKUP'' ''nor_full'' \<noteq> 0" "strcmp ''0:GPTBACKUP'' ''nand_full'' \<noteq> 0" "strcmp ''0:GPTBACKUP'' ''0:GPT'' \<noteq> 0"
    "strcmp ''0:GPTBACKUP'' ''0:GPTBACKUP'' = 0"
    by (simp_all add: strcmp_eq_0 cstr_def)
  have flash: "r_flash r = ''emmc''" using assms(3) by (auto simp: emmc_rows_def emmc_row_def gpt_row_def)
  have accept: "flash_override_matches b n SMEM_BOOT_MMC_FLASH" if "strcmp n ''nor_full'' \<noteq> 0" "strcmp n ''nand_full'' \<noteq> 0" for n
    using here that unfolding flash_override_matches_def page_flash_type_def [symmetric]
    by (auto simp: Let_def is_nand_type_def emmc_second_def)
  have cap: "backup_flash_capacity (flash_info_of b) n False SMEM_BOOT_MMC_FLASH
      = (if strcmp n ''0:GPT'' = 0 then 34 * ucast (dev_blksz d) else if strcmp n ''0:GPTBACKUP'' = 0 then 33 * ucast (dev_blksz d)
         else case get_partition_info_efi_by_name d n of Some g \<Rightarrow> ucast (gpt_sectors g) * ucast (dev_blksz d) | None \<Rightarrow> 0)"
    if "strcmp n ''nor_full'' \<noteq> 0" "strcmp n ''nand_full'' \<noteq> 0" for n
    using that blk by (simp add: backup_flash_capacity_def mmc_capacity_def flash_info_of_def Let_def split: option.split)
  consider "r = emmc_row d ''0:GPT'' 0 34" | "r = emmc_row d ''0:GPTBACKUP'' (ucast (dev_lba d - 33)) 33" | g where "g \<in> set (gpt_used d)" "r = gpt_row d g"
    using assms(3) by (auto simp: emmc_rows_def)
  then have "flash_override_matches b (r_name r) SMEM_BOOT_MMC_FLASH \<and> backup_flash_capacity (flash_info_of b) (r_name r) False SMEM_BOOT_MMC_FLASH = r_size r"
  proof cases
    case 3
    then have "cstr (gpt_name g) \<notin> reserved" using gok by (auto simp: gpt_ok_def Let_def)
    then have "cstr (cstr (gpt_name g)) \<notin> reserved" by (simp add: cstr_def)
    note nm = strcmp_reserved [OF this]
    then show ?thesis using accept cap gpt_by_name [OF gok 3(1)] by (simp add: 3(2) gpt_row_def emmc_row_def)
  qed (use accept cap names in \<open>simp_all add: emmc_row_def\<close>)
  then show ?thesis using flash flash_numbers(3) by (simp add: downloadable_def)
qed

text \<open>
  C34: What the page lists can be downloaded in full: for every row with a size, the flash type of the row, sent back as it is, is accepted
  by the readers for that partition, and the size that bounds the download is the size in the row.
\<close>

theorem listed_partition_downloadable:
  assumes "board_ok b" and "r \<in> set (rows b)" and "r_size r \<noteq> 0"
  shows "\<exists>t. backup_flash_type (''flash='' @ r_flash r) = Some t \<and> flash_override_matches b (r_name r) t
    \<and> backup_flash_capacity (flash_info_of b) (r_name r) False t = r_size r"
proof -
  have "downloadable b r"
    using assms(2,3) table_row_downloadable [OF assms(1)] emmc_rows_downloadable [OF assms(1)]
    by (cases "listed_blk b") (auto simp: rows_def table_rows_def split: if_splits)
  then show ?thesis by (simp add: downloadable_def)
qed

section \<open>Examples\<close>

lemma nor_page: "page_flash_type nor_soc = SMEM_BOOT_SPI_FLASH" "listed_blk nor_soc = None" "unat (ptable_len nor_soc) = 2"
  "map (\<lambda>r. (r_name r, r_flash r, r_size r)) (rows nor_soc) = [(''0:APPSBL'', ''nor'', 0x100000), (''0:APPSBL_1'', ''nor'', 0x100000)]"
proof -
  have w: "get_which_flash_param nor_soc n = 0" for n
    by (simp add: get_which_flash_param_def nor_soc_table sample_table_def part_which_flash_def nor_ptn_def del: concat.simps list.map)
  have f: "boot_flash_type nor_soc = Some SMEM_BOOT_SPI_FLASH" "fl_type nor_soc = SMEM_BOOT_SPI_FLASH"
    "fl_secondary nor_soc = SMEM_BOOT_NO_FLASH" "rootfs_entry nor_soc = (0, 0)" by (simp_all add: nor_soc_def emmc_soc_def)
  show t: "page_flash_type nor_soc = SMEM_BOOT_SPI_FLASH"
    by (simp add: page_flash_type_def get_current_flash_type_def w f)
  show "listed_blk nor_soc = None" by (simp add: listed_blk_def nor_soc_def)
  show "unat (ptable_len nor_soc) = 2" by (simp add: nor_soc_def)
  have l: "listed_blk nor_soc = None" by (simp add: listed_blk_def nor_soc_def)
  show "map (\<lambda>r. (r_name r, r_flash r, r_size r)) (rows nor_soc) = [(''0:APPSBL'', ''nor'', 0x100000), (''0:APPSBL_1'', ''nor'', 0x100000)]"
    by (simp add: rows_def table_rows_def t l nor_soc_table sample_table_def table_row_def Let_def nor_ptn_def part_flash_def w is_nand_type_def
        get_part_block_size_def part_which_flash_def cstr_def)
       (simp add: nor_soc_def)
qed


theorem listed_partition_downloadable_witness:
  "\<exists>r \<in> set (rows nor_soc). r_name r = ''0:APPSBL'' \<and> (\<exists>t. backup_flash_type (''flash='' @ r_flash r) = Some t
     \<and> flash_override_matches nor_soc (r_name r) t \<and> backup_flash_capacity (flash_info_of nor_soc) (r_name r) False t = r_size r)"
proof -
  have ok: "board_ok nor_soc"
    using sample_names by (simp add: board_ok_def nor_page nor_soc_table) (simp add: sample_table_def nor_ptn_def part_which_flash_def cstr_def reserved_def nor_soc_def)
  have "(''0:APPSBL'', ''nor'', 0x100000) \<in> set (map (\<lambda>r. (r_name r, r_flash r, r_size r)) (rows nor_soc))" by (simp add: nor_page)
  then obtain r where r: "r \<in> set (rows nor_soc)" "r_name r = ''0:APPSBL''" "r_size r = 0x100000" by auto
  then show ?thesis using listed_partition_downloadable [OF ok r(1)] by auto
qed

end
