(* ===== verification/MacPage.thy ===== *)
theory MacPage
  imports Pages Ethaddr
begin

text \<open>
  The page \<^verbatim>\<open>/mac_info\<close> of \<^verbatim>\<open>failsafe/failsafe_httpd.c\<close>: the addresses of the wired interfaces and of the radios with their
  places and checksums in the ART partition, printed without any check into an array of 768 bytes, which is large enough
  for every board of the repository.
\<close>

section \<open>The page\<close>

abbreviation MAC_BUF :: nat where "MAC_BUF \<equiv> 768"

definition upper_hex :: "nat \<Rightarrow> string" where
  "upper_hex n = map (\<lambda>c. if c \<in> set ''abcdef'' then char_of (of_char c - 32 :: nat) else c) (fmt_hex n)"

definition hex02 :: "u8 \<Rightarrow> string" where
  "hex02 b = (let h = upper_hex (unat b) in replicate (2 - length h) (CHR ''0'') @ h)"

definition mac_fmt :: "u8 list \<Rightarrow> bool \<Rightarrow> string" where
  "mac_fmt m first = (if first then [] else '', '') @ hex02 (m ! 0) @ concat (map (\<lambda>j. CHR '':'' # hex02 (m ! j)) [1..<6])"

text \<open>The radios with a valid address, with their addresses.\<close>

fun valid_wifi :: "art_board \<Rightarrow> nat list \<Rightarrow> art \<Rightarrow> (nat \<times> u8 list) list \<times> art" where
  "valid_wifi bd [] s = ([], s)"
| "valid_wifi bd (i # is) s =
     (let (r, s) = macaddr_read_wifi bd (int i) s; (ws, s) = valid_wifi bd is s
      in ((case r of Inr m \<Rightarrow> if is_valid_ethaddr m then [(i, m)] else [] | Inl _ \<Rightarrow> []) @ ws, s))"

definition wifi_value :: "art_board \<Rightarrow> nat \<Rightarrow> nat \<Rightarrow> art \<Rightarrow> string \<times> art" where
  "wifi_value bd f i s =
     (if f = 0 then (''0x'' @ upper_hex (macaddr_wifi_offset bd (int i)), s)
      else if f = 1 then (let (v, s) = macaddr_wifi_checksum bd (int i) s in (upper_hex (unat v), s))
      else if f = 2 then (''0x'' @ upper_hex (macaddr_wifi_cs_offset bd (int i)), s)
      else (let (v, s) = macaddr_wifi_cs_valid bd (int i) s in (if v then ''1'' else ''0'', s)))"

fun wifi_values :: "art_board \<Rightarrow> nat \<Rightarrow> bool \<Rightarrow> nat list \<Rightarrow> page \<times> art \<Rightarrow> page \<times> art" where
  "wifi_values bd f first [] x = x"
| "wifi_values bd f first (i # is) (p, s) =
     (let (v, s) = wifi_value bd f i s
      in wifi_values bd f False is (print_at MAC_BUF ((if first then [] else '', '') @ v) p, s))"

definition wf_names :: "string list" where
  "wf_names = [''wifi_off'', ''wifi_cs'', ''wifi_cs_off'', ''wifi_cs_ok'']"

text \<open>\<^verbatim>\<open>","name":"\<close>, between two lists.\<close>

definition next_field :: "string \<Rightarrow> string" where
  "next_field name = CHR 0x22 # CHR '','' # quote name @ [CHR '':'', CHR 0x22]"

fun wifi_fields :: "art_board \<Rightarrow> nat list \<Rightarrow> nat list \<Rightarrow> page \<times> art \<Rightarrow> page \<times> art" where
  "wifi_fields bd is [] x = x"
| "wifi_fields bd is (f # fs) (p, s) =
     wifi_fields bd is fs (wifi_values bd f True is (print_at MAC_BUF (next_field (wf_names ! f)) p, s))"

fun print_all :: "string list \<Rightarrow> page \<Rightarrow> page" where
  "print_all [] p = p"
| "print_all (t # ts) p = print_all ts (print_at MAC_BUF t p)"

definition mac_header :: "nat \<Rightarrow> string" where
  "mac_header n = ''HTTP/1.0 200 OK'' @ crlf @ ''Cache-Control: no-cache'' @ crlf @ ''Content-Type: application/json'' @ crlf
     @ ''Content-Length: '' @ fmt_dec n @ crlf @ ''Connection: close'' @ crlf2"

text \<open>What is sent, and whether an array was overrun: the header is first printed into 128 bytes, then moved in front.\<close>

definition httpd_handle_mac_info :: "art_board \<Rightarrow> u8 list \<Rightarrow> art \<Rightarrow> (string \<times> bool) \<times> art" where
  "httpd_handle_mac_info bd uninit s =
     (let (ws, s) = valid_wifi bd [0..<wifi_max bd] s;
          (r, s) = get_eth_mac_address bd uninit (no_macs bd) s;
          macs = (case r of Inr mb \<Rightarrow> map (\<lambda>i. mac_fmt (take 6 (drop (i * 6) mb)) (i = 0)) [0..<no_macs bd] | Inl _ \<Rightarrow> []);
          offs = map (\<lambda>i. (if i = 0 then [] else '', '') @ ''0x'' @ upper_hex (i * 6)) [0..<no_macs bd];
          radios = map (\<lambda>j. mac_fmt (snd (ws ! j)) (j = 0)) [0..<length ws];
          p = print_all ([CHR ''{'' # quote ''mac_addr'' @ [CHR '':'', CHR 0x22]] @ macs @ [next_field ''mac_off''] @ offs
                @ [next_field ''wifi_mac''] @ radios) \<lparr>body = [], over = False\<rparr>;
          (p, s) = wifi_fields bd (map fst ws) [0, 1, 2, 3] (p, s);
          p = print_at MAC_BUF [CHR 0x22, CHR ''}''] p;
          hdr = mac_header (pos p)
      in ((hdr @ body p, over p \<or> 128 \<le> length hdr \<or> MAC_BUF < length hdr + pos p), s))"

section \<open>Its size\<close>

lemma length_upper_hex: "n < 2 ^ 32 \<Longrightarrow> length (upper_hex n) \<le> 8"
  using length_digits_base [of 16 n 7] by (simp add: upper_hex_def fmt_hex_def)

lemma length_hex02: "length (hex02 b) = 2"
proof -
  have "unat b < 2 ^ LENGTH(8)" by (rule unsigned_less)
  then have "length (fmt_hex (unat b)) \<le> 2" using length_digits_base [of 16 "unat b" 1] by (simp add: fmt_hex_def)
  then show ?thesis by (simp add: hex02_def upper_hex_def Let_def)
qed

lemma length_mac_fmt: "length (mac_fmt m first) \<le> 19"
  by (simp add: mac_fmt_def length_hex02 upt_rec)

lemma print_all_room:
  "pos p + length (concat ts) < MAC_BUF \<Longrightarrow> print_all ts p = p\<lparr>body := body p @ concat ts\<rparr>"
  by (induction ts p rule: print_all.induct) (simp_all add: print_at_def)

lemma concat_bound: "\<forall>x \<in> set xs. length x \<le> k \<Longrightarrow> length xs \<le> n \<Longrightarrow> length (concat xs) \<le> k * n"
proof (induction xs arbitrary: n)
  case (Cons x xs)
  then show ?case by (cases n) (auto intro: add_mono)
qed simp

lemma valid_wifi_facts:
  "length (fst (valid_wifi bd is s)) \<le> length is \<and> (\<forall>x \<in> set (fst (valid_wifi bd is s)). fst x \<in> set is)"
proof (induction "is" arbitrary: s)
  case (Cons i "is")
  obtain r s1 where "macaddr_read_wifi bd (int i) s = (r, s1)" by (cases "macaddr_read_wifi bd (int i) s")
  then show ?case using Cons.IH [of s1] by (auto simp: Let_def split: prod.split sum.split)
qed simp

lemma wifi_offsets:
  assumes "i < wifi_max bd"
  shows "macaddr_wifi_offset bd (int i) < 2 ^ 32" and "macaddr_wifi_cs_offset bd (int i) < 2 ^ 32"
proof -
  have three: "[a, b, c] ! k \<le> 0x4C000" if "k < 3" "a \<le> 0x4C000" "b \<le> 0x4C000" "c \<le> 0x4C000" for a b c k :: nat
  proof -
    consider "k = 0" | "k = 1" | "k = 2" using \<open>k < 3\<close> by linarith
    then show ?thesis using that(2-4) by cases simp_all
  qed
  have "cal_offset bd (int i) \<le> 0x4C000"
    using assms three by (simp add: cal_offset_def wifi_max_def nat_div_distrib split: if_splits)
  moreover have "mac_off bd (int i) \<le> 20" 
  proof -
    have "i mod 2 \<le> 1" by presburger
    then show ?thesis by (simp add: mac_off_def nat_mod_distrib)
  qed
  ultimately show "macaddr_wifi_offset bd (int i) < 2 ^ 32" "macaddr_wifi_cs_offset bd (int i) < 2 ^ 32"
    by (auto simp: macaddr_wifi_offset_def macaddr_wifi_cs_offset_def)
qed

text \<open>The longest value of each list, with its separator.\<close>

definition width :: "nat \<Rightarrow> nat" where
  "width f = (if f = 1 then 6 else if f = 3 then 3 else 12)"

lemma length_wifi_value:
  assumes "i < wifi_max bd" and "f < 4"
  shows "length (fst (wifi_value bd f i s)) + 2 \<le> width f"
proof -
  have "length (upper_hex (unat v)) \<le> 4" for v :: u16
  proof -
    have "unat v < 16 ^ Suc 3" by (rule order_less_le_trans [OF unsigned_less]) simp
    from length_digits_base [OF _ this] show ?thesis by (simp add: upper_hex_def fmt_hex_def)
  qed
  then show ?thesis
    using wifi_offsets [OF assms(1)] length_upper_hex assms(2)
    by (auto simp: wifi_value_def width_def Let_def split: prod.split)
qed

definition fine :: "nat \<Rightarrow> page \<Rightarrow> bool" where
  "fine n p \<longleftrightarrow> \<not> over p \<and> pos p \<le> n"

lemma fine_print: "fine n p \<Longrightarrow> n + length t \<le> m \<Longrightarrow> m < MAC_BUF \<Longrightarrow> fine m (print_at MAC_BUF t p)"
  by (simp add: fine_def print_at_def)

lemma wifi_values_fine:
  assumes "fine n p" and "\<forall>i \<in> set is. i < wifi_max bd" and "f < 4" and "n + width f * length is < MAC_BUF"
  shows "fine (n + width f * length is) (fst (wifi_values bd f first is (p, s)))"
  using assms
proof (induction "is" arbitrary: n p s first)
  case (Cons i "is")
  obtain v s1 where v: "wifi_value bd f i s = (v, s1)" by (cases "wifi_value bd f i s")
  then have l: "length ((if first then [] else '', '') @ v) \<le> width f"
    using length_wifi_value [of i bd f s] Cons.prems(2,3) by simp
  have "fine (n + width f) (print_at MAC_BUF ((if first then [] else '', '') @ v) p)"
    using fine_print [OF Cons.prems(1) add_left_mono [OF l]] Cons.prems(4) by simp
  from Cons.IH [OF this] Cons.prems(2,3,4) show ?case by (simp add: v algebra_simps)
qed simp

definition field_room :: "nat \<Rightarrow> nat" where
  "field_room f = length (next_field (wf_names ! f)) + width f * 6"

lemma wifi_fields_fine:
  assumes "fine n p" and "\<forall>i \<in> set is. i < wifi_max bd" and "length is \<le> 6" and "\<forall>f \<in> set fs. f < 4" and "n + sum_list (map field_room fs) < MAC_BUF"
  shows "fine (n + sum_list (map field_room fs)) (fst (wifi_fields bd is fs (p, s)))"
  using assms(1,4,5)
proof (induction fs arbitrary: n p s)
  case (Cons f fs)
  define x where "x = wifi_values bd f True is (print_at MAC_BUF (next_field (wf_names ! f)) p, s)"
  have le: "width f * length is \<le> width f * 6" using assms(3) by simp
  have "fine (n + length (next_field (wf_names ! f))) (print_at MAC_BUF (next_field (wf_names ! f)) p)"
    using fine_print [OF Cons.prems(1)] Cons.prems(3) by (simp add: field_room_def)
  moreover have "n + length (next_field (wf_names ! f)) + width f * length is < MAC_BUF" "f < 4"
    using Cons.prems(2,3) le unfolding field_room_def list.map sum_list.Cons by (linarith, simp)
  ultimately have "fine (n + length (next_field (wf_names ! f)) + width f * length is) (fst x)"
    unfolding x_def by (intro wifi_values_fine assms(2))
  then have "fine (n + field_room f) (fst x)" using le unfolding fine_def field_room_def by linarith
  from Cons.IH [OF this, of "snd x"] Cons.prems(2,3) show ?case by (simp add: x_def algebra_simps)
qed simp

lemma length_mac_header: "n < 10 ^ 4 \<Longrightarrow> length (mac_header n) \<le> 119 + 1"
  using length_digits_base [of 10 n 3] by (simp add: mac_header_def fmt_dec_def)

text \<open>
  On every board, which has at most six wired interfaces, the page of addresses fits its array, together with its header,
  although the code never looks at the room that is left: all numbers it prints are short enough.
\<close>

theorem mac_page_fits:
  assumes "no_macs bd \<le> 6"
  shows "\<not> snd (fst (httpd_handle_mac_info bd uninit s))"
proof -
  obtain ws s1 where ws: "valid_wifi bd [0..<wifi_max bd] s = (ws, s1)" by (cases "valid_wifi bd [0..<wifi_max bd] s")
  obtain r s2 where r: "get_eth_mac_address bd uninit (no_macs bd) s1 = (r, s2)" by (cases "get_eth_mac_address bd uninit (no_macs bd) s1")
  have max: "wifi_max bd \<le> 6" by (simp add: wifi_max_def)
  have nw: "length ws \<le> 6" "\<forall>i \<in> set (map fst ws). i < wifi_max bd"
    using valid_wifi_facts [of bd "[0..<wifi_max bd]" s] max by (auto simp: ws)
  define macs where "macs = (case r of Inr mb \<Rightarrow> map (\<lambda>i. mac_fmt (take 6 (drop (i * 6) mb)) (i = 0)) [0..<no_macs bd] | Inl _ \<Rightarrow> [])"
  define offs where "offs = map (\<lambda>i. (if i = 0 then [] else '', '') @ ''0x'' @ upper_hex (i * 6)) [0..<no_macs bd]"
  define radios where "radios = map (\<lambda>j. mac_fmt (snd (ws ! j)) (j = 0)) [0..<length ws]"
  define ts where "ts = [CHR ''{'' # quote ''mac_addr'' @ [CHR '':'', CHR 0x22]] @ macs @ [next_field ''mac_off''] @ offs
    @ [next_field ''wifi_mac''] @ radios"
  have m: "length (concat macs) \<le> 19 * 6"
    by (rule concat_bound) (use assms in \<open>auto simp: macs_def length_mac_fmt split: sum.splits\<close>)
  have h: "length (upper_hex (i * 6)) \<le> 2" if "i < 6" for i
    using that length_digits_base [of 16 "i * 6" 1] by (simp add: upper_hex_def fmt_hex_def)
  have "length ((if i = 0 then [] else '', '') @ ''0x'' @ upper_hex (i * 6)) \<le> 6" if "i < no_macs bd" for i
    using h [of i] that assms by (cases "i = 0") simp_all
  then have o: "length (concat offs) \<le> 6 * 6" by (intro concat_bound) (use assms in \<open>auto simp: offs_def\<close>)
  have w: "length (concat radios) \<le> 19 * 6" by (rule concat_bound) (use nw(1) in \<open>auto simp: radios_def length_mac_fmt\<close>)
  have len: "length (concat ts) \<le> 304" using m o w by (simp add: ts_def next_field_def quote_def)
  define p where "p = print_all ts \<lparr>body = [], over = False\<rparr>"
  have p: "fine 304 p" using print_all_room [of "\<lparr>body = [], over = False\<rparr>" ts] len by (simp add: p_def fine_def)
  define q where "q = wifi_fields bd (map fst ws) [0, 1, 2, 3] (p, s2)"
  have "fine 562 (fst q)"
    using wifi_fields_fine [OF p nw(2), of "[0, 1, 2, 3]" s2] nw(1)
    by (simp add: q_def field_room_def next_field_def quote_def wf_names_def width_def)
  moreover define e where "e = print_at MAC_BUF [CHR 0x22, CHR ''}''] (fst q)"
  ultimately have e: "fine 564 e" using fine_print [of 562 "fst q" "[CHR 0x22, CHR ''}'']" 564] by simp
  then have h: "length (mac_header (pos e)) \<le> 120" using length_mac_header by (simp add: fine_def)
  have "fst (httpd_handle_mac_info bd uninit s)
    = (mac_header (pos e) @ body e, over e \<or> 128 \<le> length (mac_header (pos e)) \<or> MAC_BUF < length (mac_header (pos e)) + pos e)"
    unfolding httpd_handle_mac_info_def Let_def ws r prod.case split_beta e_def q_def p_def ts_def macs_def offs_def radios_def fst_conv snd_conv
    by (rule refl)
  then show ?thesis using e h by (simp add: fine_def)
qed

end
